(* ===== verification/Go_Prelude.thy ===== *)
theory Go_Prelude
  imports Main "HOL-Library.AList" "HOL-Library.Char_ord" "HOL-Library.List_Lexorder"
    "HOL-Library.Multiset"
begin

text \<open>
  What the components share: the Go values they compute with and the facts about them that
  the component proofs use.
  \<^item> \<^bold>\<open>Strings\<close>: a Go string is a byte sequence, here \<^typ>\<open>string\<close> (a list of 8-bit
    characters). The functions of package \<open>strings\<close> that the sources call are defined
    below: \<open>HasPrefix\<close>, \<open>HasSuffix\<close>, \<open>Contains\<close>, \<open>TrimPrefix\<close>, \<open>TrimSuffix\<close>,
    \<open>TrimSpace\<close>, \<open>Split\<close>, \<open>Join\<close>, \<open>Fields\<close>, \<open>ReplaceAll\<close>.
  \<^item> \<^bold>\<open>Maps\<close>: a Go map is an association list with distinct keys (\<open>AList\<close>), so that
    \<open>len\<close> computes; its order stands for the iteration order Go leaves open.
  \<^item> \<^bold>\<open>Integers\<close>: an \<open>int64\<close> is an \<^typ>\<open>int\<close>, with the wrap-around written out
    (\<open>wrap64\<close>) at every addition and multiplication the code performs on one.
  \<^item> \<^bold>\<open>Time\<close>: a \<open>time.Time\<close> is the number of nanoseconds since Go's zero time, so that
    \<open>IsZero\<close> is equality with 0; a \<open>time.Duration\<close> is an \<open>int64\<close> of nanoseconds and
    \<open>Sub\<close> saturates as the library's does.
\<close>

named_theorems go_str \<open>facts that evaluate and simplify the Go string functions\<close>
named_theorems go_int \<open>facts that discharge 64-bit wrap-around inside its range\<close>
named_theorems inv_intros \<open>invariant preservation rules of the components\<close>

section \<open>Results\<close>

type_synonym ('e, 'a) result = "'e + 'a"

text \<open>A loop that stops at its first error, as a Go \<open>for\<close> with an early return does.\<close>

fun check_all :: "('a \<Rightarrow> 'e option) \<Rightarrow> 'a list \<Rightarrow> 'e option" where
  "check_all f [] = None"
| "check_all f (x # xs) = (case f x of Some e \<Rightarrow> Some e | None \<Rightarrow> check_all f xs)"

lemma check_all_None: "check_all f xs = None \<longleftrightarrow> (\<forall>x \<in> set xs. f x = None)"
  by (induction xs) (auto split: option.splits)

fun map_res :: "('a \<Rightarrow> ('e, 'b) result) \<Rightarrow> 'a list \<Rightarrow> ('e, 'b list) result" where
  "map_res f [] = Inr []"
| "map_res f (x # xs) =
     (case f x of Inl e \<Rightarrow> Inl e
      | Inr y \<Rightarrow> (case map_res f xs of Inl e \<Rightarrow> Inl e | Inr ys \<Rightarrow> Inr (y # ys)))"

lemma map_res_Inr: "map_res f xs = Inr ys \<longleftrightarrow> list_all2 (\<lambda>x y. f x = Inr y) xs ys"
proof (induction xs arbitrary: ys)
  case Nil
  then show ?case by auto
next
  case (Cons x xs)
  then show ?case by (cases ys; cases "f x"; cases "map_res f xs") auto
qed

lemma map_res_length: "map_res f xs = Inr ys \<Longrightarrow> length ys = length xs"
  by (auto simp: map_res_Inr dest: list_all2_lengthD)

section \<open>Integers and time\<close>

definition wrap64 :: "int \<Rightarrow> int" where
  "wrap64 x = (x + 2 ^ 63) mod 2 ^ 64 - 2 ^ 63"

definition in_int64 :: "int \<Rightarrow> bool" where
  "in_int64 x \<longleftrightarrow> - (2 ^ 63) \<le> x \<and> x < 2 ^ 63"

lemma wrap64_id [go_int]: "in_int64 x \<Longrightarrow> wrap64 x = x"
  by (simp add: wrap64_def in_int64_def)

lemma wrap64_in_int64: "in_int64 (wrap64 x)"
proof -
  have "0 \<le> (x + 2 ^ 63) mod 2 ^ 64" and "(x + 2 ^ 63) mod 2 ^ 64 < (2 ^ 64 :: int)"
    by (simp_all add: pos_mod_bound)
  then show ?thesis by (simp add: wrap64_def in_int64_def)
qed

type_synonym time = int
type_synonym duration = int

abbreviation second :: duration where "second \<equiv> 1000000000"
abbreviation minute :: duration where "minute \<equiv> 60000000000"

definition is_zero :: "time \<Rightarrow> bool" where
  "is_zero t \<longleftrightarrow> t = 0"

text \<open>\<open>t.Sub(u)\<close>: the difference, saturated to the range of a duration.\<close>

definition time_sub :: "time \<Rightarrow> time \<Rightarrow> duration" where
  "time_sub t u = max (- (2 ^ 63)) (min (2 ^ 63 - 1) (t - u))"

text \<open>\<open>t.UnixNano()\<close>: nanoseconds since 1970, as an \<open>int64\<close>.\<close>

definition unix_epoch :: time where
  "unix_epoch = 62135596800 * 1000000000"

definition unix_nano :: "time \<Rightarrow> int" where
  "unix_nano t = wrap64 (t - unix_epoch)"

lemma time_sub_le_0: "u \<le> t \<Longrightarrow> 0 \<le> time_sub t u"
  by (simp add: time_sub_def)

lemma time_sub_gt: "in_int64 d \<Longrightarrow> d < time_sub t u \<Longrightarrow> d < t - u"
  by (auto simp: time_sub_def in_int64_def)

lemma time_sub_gtI: "d < 2 ^ 63 - 1 \<Longrightarrow> d < t - u \<Longrightarrow> d < time_sub t u"
  by (auto simp: time_sub_def)

lemma time_sub_mono: "t \<le> t' \<Longrightarrow> time_sub t u \<le> time_sub t' u"
  by (auto simp: time_sub_def)

section \<open>Maps as association lists\<close>

lemma map_of_filter_key:
  "map_of (filter (\<lambda>(k, v). P k) xs) k = (if P k then map_of xs k else None)"
  by (induction xs) auto

lemma map_of_filter_None: "map_of xs k = None \<Longrightarrow> map_of (filter P xs) k = None"
  by (induction xs) (auto split: if_splits)

lemma map_of_filter_Some:
  "distinct (map fst xs) \<Longrightarrow>
   map_of (filter P xs) k = Some v \<longleftrightarrow> map_of xs k = Some v \<and> P (k, v)"
proof (induction xs)
  case (Cons x xs)
  then show ?case
    by (cases x) (auto dest: map_of_SomeD simp: image_iff intro: map_of_filter_None)
qed simp

lemma distinct_fst_filter: "distinct (map fst xs) \<Longrightarrow> distinct (map fst (filter P xs))"
  by (induction xs) auto

lemma map_of_le_filter: "distinct (map fst xs) \<Longrightarrow> map_of (filter P xs) \<subseteq>\<^sub>m map_of xs"
  by (auto simp: map_le_def dom_def map_of_filter_Some)

lemma update_new: "map_of xs k = None \<Longrightarrow> AList.update k v xs = xs @ [(k, v)]"
  by (induction xs) (auto split: if_splits)

lemma map_le_Some: "f \<subseteq>\<^sub>m g \<Longrightarrow> f x = Some y \<Longrightarrow> g x = Some y"
  by (auto simp: map_le_def dom_def)

lemma map_leI_Some: "(\<And>x y. f x = Some y \<Longrightarrow> g x = Some y) \<Longrightarrow> f \<subseteq>\<^sub>m g"
  by (auto simp: map_le_def dom_def)

lemma map_of_eqI_mset:
  "distinct (map fst xs) \<Longrightarrow> mset xs = mset ys \<Longrightarrow> map_of xs = map_of ys"
  by (metis distinct_map map_of_inject_set mset_eq_imp_distinct_iff mset_map set_mset_mset)

section \<open>Invariants of operation sequences\<close>

text \<open>
  A component whose operations are a step function: what every admitted operation keeps,
  every run of admitted operations keeps.
\<close>

locale stepper =
  fixes step :: "'s \<Rightarrow> 'op \<Rightarrow> 's"
    and admitted :: "'op \<Rightarrow> bool"
    and invar :: "'s \<Rightarrow> bool"
  assumes step_invar: "invar s \<Longrightarrow> admitted x \<Longrightarrow> invar (step s x)"
begin

lemma run_invar: "invar s \<Longrightarrow> \<forall>x \<in> set ops. admitted x \<Longrightarrow> invar (foldl step s ops)"
  by (induction ops arbitrary: s) (auto intro: step_invar)

lemma prefix_invar:
  assumes "invar s" and "\<forall>x \<in> set (ops @ more). admitted x"
  shows "invar (foldl step s ops)"
  using assms by (intro run_invar) auto

end

end
