(* ===== verification/Go_Strings.thy ===== *)
theory Go_Strings
  imports Go_Prelude
begin

text \<open>
  The functions of Go's \<open>strings\<close>, \<open>encoding/hex\<close> and \<open>encoding/binary\<close> packages that
  the sources call, over byte strings, with the facts about them the components use: a
  separator that does not occur in the left part splits uniquely, replacing and splitting
  behave on concatenations, and hex output never holds a separator byte.
\<close>

section \<open>Prefixes, suffixes, substrings\<close>

definition has_prefix :: "string \<Rightarrow> string \<Rightarrow> bool" where
  "has_prefix s p \<longleftrightarrow> take (length p) s = p"

definition has_suffix :: "string \<Rightarrow> string \<Rightarrow> bool" where
  "has_suffix s x \<longleftrightarrow> length x \<le> length s \<and> drop (length s - length x) s = x"

fun contains_sub :: "string \<Rightarrow> string \<Rightarrow> bool" where
  "contains_sub [] p = (p = [])"
| "contains_sub (c # s) p = (has_prefix (c # s) p \<or> contains_sub s p)"

definition trim_prefix :: "string \<Rightarrow> string \<Rightarrow> string" where
  "trim_prefix s p = (if has_prefix s p then drop (length p) s else s)"

definition trim_suffix :: "string \<Rightarrow> string \<Rightarrow> string" where
  "trim_suffix s x = (if has_suffix s x then take (length s - length x) s else s)"

lemma has_prefix_append [simp]: "has_prefix (p @ s) p"
  by (simp add: has_prefix_def)

lemma has_prefix_Nil [simp]: "has_prefix s []"
  by (simp add: has_prefix_def)

lemma has_prefix_Cons [simp]: "has_prefix (c # s) (d # p) \<longleftrightarrow> c = d \<and> has_prefix s p"
  by (auto simp: has_prefix_def)

lemma has_prefix_Nil_Cons [simp]: "\<not> has_prefix [] (d # p)"
  by (simp add: has_prefix_def)

lemma has_prefix_iff: "has_prefix s p \<longleftrightarrow> (\<exists>r. s = p @ r)"
  by (metis append_eq_conv_conj append_take_drop_id has_prefix_def)

lemma has_suffix_append [simp]: "has_suffix (s @ x) x"
  by (simp add: has_suffix_def)

lemma has_suffix_iff: "has_suffix s x \<longleftrightarrow> (\<exists>r. s = r @ x)"
proof
  assume "has_suffix s x"
  then have "s = take (length s - length x) s @ x"
    by (metis append_take_drop_id has_suffix_def)
  then show "\<exists>r. s = r @ x" ..
qed auto

lemma contains_sub_iff: "contains_sub s p \<longleftrightarrow> (\<exists>l r. s = l @ p @ r)"
proof (induction s)
  case Nil
  then show ?case by auto
next
  case (Cons c s)
  show ?case
  proof
    assume "contains_sub (c # s) p"
    then consider "has_prefix (c # s) p" | "contains_sub s p" by auto
    then show "\<exists>l r. c # s = l @ p @ r"
    proof cases
      case 1
      then obtain r where "c # s = [] @ p @ r" by (auto simp: has_prefix_iff)
      then show ?thesis by blast
    next
      case 2
      then obtain l r where "s = l @ p @ r" using Cons.IH by blast
      then have "c # s = (c # l) @ p @ r" by simp
      then show ?thesis by blast
    qed
  next
    assume "\<exists>l r. c # s = l @ p @ r"
    then obtain l r where eq: "c # s = l @ p @ r" by blast
    show "contains_sub (c # s) p"
    proof (cases l)
      case Nil
      with eq have "has_prefix (c # s) p" by (auto simp: has_prefix_iff)
      then show ?thesis by simp
    next
      case (Cons d l')
      with eq have "s = l' @ p @ r" by simp
      then have "contains_sub s p" using Cons.IH by blast
      then show ?thesis by simp
    qed
  qed
qed

lemma contains_sub_char: "contains_sub s [c] \<longleftrightarrow> c \<in> set s"
  by (auto simp: contains_sub_iff in_set_conv_decomp)

text \<open>A separator that does not occur on the left is found at one place only.\<close>

lemma sep_unique:
  assumes "a @ c # b = a' @ c # b'" and "c \<notin> set a" and "c \<notin> set a'"
  shows "a = a' \<and> b = b'"
  using assms
proof (induction a arbitrary: a')
  case Nil
  then show ?case by (cases a') auto
next
  case (Cons x a)
  then show ?case by (cases a') auto
qed

section \<open>Splitting, joining, replacing\<close>

text \<open>\<open>strings.Split(s, sep)\<close> for a one-byte separator.\<close>

fun split_on :: "char \<Rightarrow> string \<Rightarrow> string list" where
  "split_on d [] = [[]]"
| "split_on d (c # s) =
     (if c = d then [] # split_on d s
      else (case split_on d s of [] \<Rightarrow> [[c]] | w # ws \<Rightarrow> (c # w) # ws))"

fun join_with :: "string \<Rightarrow> string list \<Rightarrow> string" where
  "join_with sep [] = []"
| "join_with sep [w] = w"
| "join_with sep (w # v # ws) = w @ sep @ join_with sep (v # ws)"

lemma split_on_neq_Nil [simp]: "split_on d s \<noteq> []"
  by (induction s) (auto split: list.splits)

lemma split_on_free: "w \<in> set (split_on d s) \<Longrightarrow> d \<notin> set w"
  by (induction s arbitrary: w) (auto split: list.splits if_splits)

lemma split_on_noop: "d \<notin> set w \<Longrightarrow> split_on d w = [w]"
  by (induction w) auto

lemma split_on_append: "d \<notin> set w \<Longrightarrow> split_on d (w @ d # s) = w # split_on d s"
  by (induction w) auto

lemma split_join:
  "ws \<noteq> [] \<Longrightarrow> (\<forall>w \<in> set ws. d \<notin> set w) \<Longrightarrow> split_on d (join_with [d] ws) = ws"
proof (induction ws rule: induct_list012)
  case (3 w v ws)
  then have "d \<notin> set w" and "split_on d (join_with [d] (v # ws)) = v # ws"
    by auto
  then show ?case by (simp add: split_on_append)
qed (auto simp: split_on_noop)

text \<open>\<open>strings.ReplaceAll(s, old, new)\<close> for a non-empty \<open>old\<close>, scanning left to right.\<close>

function replace_all :: "string \<Rightarrow> string \<Rightarrow> string \<Rightarrow> string" where
  "replace_all old new [] = []"
| "replace_all old new (c # s) =
     (if old \<noteq> [] \<and> has_prefix (c # s) old
      then new @ replace_all old new (drop (length old) (c # s))
      else c # replace_all old new s)"
  by pat_completeness auto
termination
  by (relation "measure (\<lambda>(old, new, s). length s)") auto

lemma replace_all_char:
  "replace_all [d] new s = concat (map (\<lambda>c. if c = d then new else [c]) s)"
  by (induction s) auto

section \<open>White space\<close>

text \<open>
  The byte sequences that \<open>unicode.IsSpace\<close> accepts, in UTF-8. A sequence starts with a
  byte that is never a UTF-8 continuation byte, so matching bytes and matching runes find
  the same white space in every string, valid UTF-8 or not.
\<close>

definition space_seqs :: "string list" where
  "space_seqs =
     [[CHR 0x20], [CHR 0x09], [CHR 0x0A], [CHR 0x0B], [CHR 0x0C], [CHR 0x0D],
      [CHR 0xC2, CHR 0x85], [CHR 0xC2, CHR 0xA0], [CHR 0xE1, CHR 0x9A, CHR 0x80],
      [CHR 0xE2, CHR 0x80, CHR 0x80], [CHR 0xE2, CHR 0x80, CHR 0x81],
      [CHR 0xE2, CHR 0x80, CHR 0x82], [CHR 0xE2, CHR 0x80, CHR 0x83],
      [CHR 0xE2, CHR 0x80, CHR 0x84], [CHR 0xE2, CHR 0x80, CHR 0x85],
      [CHR 0xE2, CHR 0x80, CHR 0x86], [CHR 0xE2, CHR 0x80, CHR 0x87],
      [CHR 0xE2, CHR 0x80, CHR 0x88], [CHR 0xE2, CHR 0x80, CHR 0x89],
      [CHR 0xE2, CHR 0x80, CHR 0x8A], [CHR 0xE2, CHR 0x80, CHR 0xA8],
      [CHR 0xE2, CHR 0x80, CHR 0xA9], [CHR 0xE2, CHR 0x80, CHR 0xAF],
      [CHR 0xE2, CHR 0x81, CHR 0x9F], [CHR 0xE3, CHR 0x80, CHR 0x80]]"

text \<open>The length of the white space a string starts with, 0 when it starts with none.\<close>

definition space_at :: "string list \<Rightarrow> string \<Rightarrow> nat" where
  "space_at seqs s = (case find (has_prefix s) seqs of None \<Rightarrow> 0 | Some p \<Rightarrow> length p)"

function strip_front :: "string list \<Rightarrow> string \<Rightarrow> string" where
  "strip_front seqs s =
     (if s = [] \<or> space_at seqs s = 0 then s
      else strip_front seqs (drop (space_at seqs s) s))"
  by pat_completeness auto
termination
  by (relation "measure (\<lambda>(seqs, s). length s)") (auto simp: neq_Nil_conv)

declare strip_front.simps [simp del]

definition trim_space :: "string \<Rightarrow> string" where
  "trim_space s = rev (strip_front (map rev space_seqs) (rev (strip_front space_seqs s)))"

text \<open>\<open>strings.Fields\<close>: the maximal runs without white space.\<close>

function str_fields_from :: "string \<Rightarrow> string \<Rightarrow> string list" where
  "str_fields_from acc [] = (if acc = [] then [] else [acc])"
| "str_fields_from acc (c # s) =
     (if space_at space_seqs (c # s) = 0 then str_fields_from (acc @ [c]) s
      else (if acc = [] then [] else [acc]) @
           str_fields_from [] (drop (space_at space_seqs (c # s)) (c # s)))"
  by pat_completeness auto
termination
  by (relation "measure (\<lambda>(acc, s). length s)") auto

definition str_fields :: "string \<Rightarrow> string list" where
  "str_fields s = str_fields_from [] s"

lemma strip_front_fix: "space_at seqs (strip_front seqs s) = 0 \<or> strip_front seqs s = []"
proof (induction seqs s rule: strip_front.induct)
  case (1 seqs s)
  then show ?case by (cases "s = [] \<or> space_at seqs s = 0") (auto simp: strip_front.simps [of seqs s])
qed

lemma strip_front_suffix: "\<exists>l. s = l @ strip_front seqs s"
proof (induction seqs s rule: strip_front.induct)
  case (1 seqs s)
  show ?case
  proof (cases "s = [] \<or> space_at seqs s = 0")
    case True
    then show ?thesis by (auto simp: strip_front.simps [of seqs s])
  next
    case False
    then obtain l where "drop (space_at seqs s) s = l @ strip_front seqs (drop (space_at seqs s) s)"
      using "1.IH" by auto
    then have "s = (take (space_at seqs s) s @ l) @ strip_front seqs s"
      using False by (subst append_assoc, subst strip_front.simps)
        (metis append_take_drop_id)
    then show ?thesis by blast
  qed
qed

lemma strip_front_noop: "space_at seqs s = 0 \<Longrightarrow> strip_front seqs s = s"
  by (simp add: strip_front.simps)

lemma set_strip_front: "set (strip_front seqs s) \<subseteq> set s"
  using strip_front_suffix [of s seqs] by (metis Un_upper2 set_append)

lemma set_trim_space: "set (trim_space s) \<subseteq> set s"
  by (metis set_rev set_strip_front subset_trans trim_space_def)

lemma trim_space_Nil [simp]: "trim_space [] = []"
  by (simp add: trim_space_def strip_front.simps)

section \<open>Hexadecimal and big-endian encodings\<close>

abbreviation char_code :: "char \<Rightarrow> nat" where
  "char_code \<equiv> of_char"

definition hex_digit :: "nat \<Rightarrow> char" where
  "hex_digit n = ''0123456789abcdef'' ! (n mod 16)"

definition hex_encode :: "string \<Rightarrow> string" where
  "hex_encode s =
     concat (map (\<lambda>c. [hex_digit (char_code c div 16), hex_digit (char_code c mod 16)]) s)"

lemma hex_digit_in: "hex_digit n \<in> set ''0123456789abcdef''"
  unfolding hex_digit_def by (rule nth_mem) simp

lemma hex_encode_set: "set (hex_encode s) \<subseteq> set ''0123456789abcdef''"
  unfolding hex_encode_def using hex_digit_in by fastforce

lemma hex_encode_no_nul [go_str]: "CHR 0x00 \<notin> set (hex_encode s)"
  using hex_encode_set [of s] by auto

lemma hex_encode_length [simp]: "length (hex_encode s) = 2 * length s"
  unfolding hex_encode_def by (induction s) auto

text \<open>\<open>binary.BigEndian.PutUint64\<close> and \<open>PutUint16\<close>: the \<open>w\<close> low bytes of \<open>n\<close>.\<close>

fun be_bytes :: "nat \<Rightarrow> nat \<Rightarrow> string" where
  "be_bytes 0 n = []"
| "be_bytes (Suc w) n = be_bytes w (n div 256) @ [char_of (n mod 256)]"

definition be_nat :: "string \<Rightarrow> nat" where
  "be_nat s = foldl (\<lambda>n c. n * 256 + char_code c) 0 s"

lemma length_be_bytes [simp]: "length (be_bytes w n) = w"
  by (induction w arbitrary: n) auto

lemma be_nat_snoc: "be_nat (s @ [c]) = be_nat s * 256 + char_code c"
  by (simp add: be_nat_def)

lemma be_nat_be_bytes: "be_nat (be_bytes w n) = n mod 256 ^ w"
proof (induction w arbitrary: n)
  case 0
  then show ?case by (simp add: be_nat_def)
next
  case (Suc w)
  have "be_nat (be_bytes (Suc w) n) = (n div 256) mod 256 ^ w * 256 + n mod 256"
    by (simp add: be_nat_snoc Suc.IH)
  also have "\<dots> = n mod 256 ^ Suc w"
    by (simp add: mod_mult2_eq mult.commute)
  finally show ?case .
qed

section \<open>Hex decoding\<close>

definition hex_val :: "char \<Rightarrow> nat option" where
  "hex_val c =
     (if CHR ''0'' \<le> c \<and> c \<le> CHR ''9'' then Some (char_code c - 48)
      else if CHR ''a'' \<le> c \<and> c \<le> CHR ''f'' then Some (char_code c - 87)
      else if CHR ''A'' \<le> c \<and> c \<le> CHR ''F'' then Some (char_code c - 55) else None)"

fun hex_decode :: "string \<Rightarrow> string option" where
  "hex_decode [] = Some []"
| "hex_decode [c] = None"
| "hex_decode (a # b # s) =
     (case (hex_val a, hex_val b) of
        (Some x, Some y) \<Rightarrow> map_option (\<lambda>r. char_of (16 * x + y) # r) (hex_decode s)
      | _ \<Rightarrow> None)"

lemma hex_val_digit: "n < 16 \<Longrightarrow> hex_val (hex_digit n) = Some n"
proof -
  have "\<forall>n \<in> set [0..<16]. hex_val (hex_digit n) = Some n" by code_simp
  then show "n < 16 \<Longrightarrow> hex_val (hex_digit n) = Some n" by simp
qed

lemma hex_decode_encode [simp]: "hex_decode (hex_encode s) = Some s"
proof (induction s)
  case Nil
  then show ?case by (simp add: hex_encode_def)
next
  case (Cons c s)
  have "char_code c div 16 < 16" and "char_code c mod 16 < 16"
    using nat_of_char_less_256 [of c] by linarith+
  then have "hex_val (hex_digit (char_code c div 16)) = Some (char_code c div 16)"
    and "hex_val (hex_digit (char_code c mod 16)) = Some (char_code c mod 16)"
    by (simp_all only: hex_val_digit)
  with Cons show ?case by (simp add: hex_encode_def)
qed

section \<open>Decimal numbers\<close>

definition dec_digit :: "nat \<Rightarrow> char" where
  "dec_digit n = char_of (48 + n mod 10)"

function itoa :: "nat \<Rightarrow> string" where
  "itoa n = (if n < 10 then [dec_digit n] else itoa (n div 10) @ [dec_digit n])"
  by pat_completeness auto
termination
  by (relation "measure id") auto

declare itoa.simps [simp del]

definition is_digit :: "char \<Rightarrow> bool" where
  "is_digit c \<longleftrightarrow> CHR ''0'' \<le> c \<and> c \<le> CHR ''9''"

definition dec_value :: "string \<Rightarrow> nat" where
  "dec_value s = foldl (\<lambda>n c. n * 10 + (char_code c - 48)) 0 s"

text \<open>\<open>strconv.Atoi\<close>: an optional sign and at least one digit, in the range of an \<open>int\<close>.\<close>

definition atoi :: "string \<Rightarrow> int option" where
  "atoi s =
     (let (neg, d) = (case s of [] \<Rightarrow> (False, [])
        | c # r \<Rightarrow> if c = CHR ''-'' then (True, r) else if c = CHR ''+'' then (False, r) else (False, s));
          v = (if neg then - int (dec_value d) else int (dec_value d))
      in if d \<noteq> [] \<and> list_all is_digit d \<and> in_int64 v then Some v else None)"

lemma code_dec_digit: "char_code (dec_digit n) = 48 + n mod 10"
proof -
  have "n mod 10 < 10" by simp
  then show ?thesis by (simp add: dec_digit_def)
qed

lemma is_digit_dec: "is_digit (dec_digit n)"
  by (simp add: is_digit_def less_eq_char_def code_dec_digit)

lemma itoa_digits: "list_all is_digit (itoa n) \<and> itoa n \<noteq> []"
proof (induction n rule: itoa.induct)
  case (1 n)
  then show ?case by (cases "n < 10") (simp_all add: itoa.simps [of n] is_digit_dec)
qed

lemma dec_value_itoa: "dec_value (itoa n) = n"
proof (induction n rule: itoa.induct)
  case (1 n)
  show ?case
  proof (cases "n < 10")
    case True
    then show ?thesis by (simp add: itoa.simps [of n] dec_value_def code_dec_digit)
  next
    case False
    with 1 have "dec_value (itoa (n div 10)) = n div 10" by simp
    with False show ?thesis by (simp add: itoa.simps [of n] dec_value_def code_dec_digit)
  qed
qed

lemma atoi_itoa: "int n < 2 ^ 63 \<Longrightarrow> atoi (itoa n) = Some (int n)"
proof -
  assume n: "int n < 2 ^ 63"
  obtain c r where cr: "itoa n = c # r" using itoa_digits [of n] by (cases "itoa n") auto
  with itoa_digits [of n] have "is_digit c" by simp
  then have "c \<noteq> CHR ''-''" and "c \<noteq> CHR ''+''" by (auto simp: is_digit_def less_eq_char_def)
  with cr itoa_digits [of n] dec_value_itoa [of n] n show ?thesis
    by (simp add: atoi_def in_int64_def)
qed

text \<open>\<open>%d\<close> of an \<open>int\<close>.\<close>

definition fmt_int :: "int \<Rightarrow> string" where
  "fmt_int n = (if n < 0 then CHR ''-'' # itoa (nat (- n)) else itoa (nat n))"

lemma atoi_fmt_int: "0 \<le> n \<Longrightarrow> n < 2 ^ 63 \<Longrightarrow> atoi (fmt_int n) = Some n"
  using atoi_itoa [of "nat n"] by (simp add: fmt_int_def)

lemma itoa_inject: "itoa m = itoa n \<Longrightarrow> m = n"
  by (metis dec_value_itoa)

lemma itoa_chars: "c \<in> set (itoa n) \<Longrightarrow> is_digit c"
  using itoa_digits [of n] by (auto simp: list_all_iff)

section \<open>Paths and queries\<close>

text \<open>\<open>path.Clean\<close>: drop empty and \<open>.\<close> elements, resolve \<open>..\<close>; the stack holds the result reversed.\<close>

fun clean_segs :: "bool \<Rightarrow> string list \<Rightarrow> string list \<Rightarrow> string list" where
  "clean_segs rooted st [] = rev st"
| "clean_segs rooted st (g # gs) =
     (if g = [] \<or> g = ''.'' then clean_segs rooted st gs
      else if g = ''..'' then
        (case st of
           t # st' \<Rightarrow> if t = ''..'' then clean_segs rooted (g # st) gs else clean_segs rooted st' gs
         | [] \<Rightarrow> if rooted then clean_segs rooted [] gs else clean_segs rooted [g] gs)
      else clean_segs rooted (g # st) gs)"

definition path_clean :: "string \<Rightarrow> string" where
  "path_clean p =
     (if p = [] then ''.''
      else (let rooted = has_prefix p ''/'';
                out = (if rooted then ''/'' else []) @
                  join_with ''/'' (clean_segs rooted [] (split_on (CHR ''/'') p))
            in if out = [] then ''.'' else out))"

text \<open>\<open>url.Values.Encode\<close>: keys in order, every value as \<open>key=value\<close>, query-escaped.\<close>

definition upper_hex :: "nat \<Rightarrow> char" where
  "upper_hex n = ''0123456789ABCDEF'' ! (n mod 16)"

definition query_escape :: "string \<Rightarrow> string" where
  "query_escape s = concat (map (\<lambda>c.
     if (CHR ''a'' \<le> c \<and> c \<le> CHR ''z'') \<or> (CHR ''A'' \<le> c \<and> c \<le> CHR ''Z'') \<or> is_digit c \<or>
        c \<in> set ''-_.~'' then [c]
     else if c = CHR '' '' then ''+''
     else [CHR ''%'', upper_hex (char_code c div 16), upper_hex (char_code c mod 16)]) s)"

definition query_encode :: "(string \<times> string list) list \<Rightarrow> string" where
  "query_encode q = join_with ''&''
     (concat (map (\<lambda>(k, vs). map (\<lambda>v. query_escape k @ ''='' @ query_escape v) vs) (sort_key fst q)))"

end
