(* ===== verification/Json.thy ===== *)
theory Json
  imports Go_Strings
begin

text \<open>
  JSON documents as the sources see them after decoding: \<open>map[string]any\<close>, \<open>[]any\<close>,
  strings, \<open>json.Number\<close> literals, booleans and null. An object keeps the members in the
  order of the text and may repeat a key; decoding into a Go map keeps the last one.
\<close>

datatype json =
    JNull
  | JBool bool
  | JNum string
  | JStr string
  | JArr "json list"
  | JObj "(string \<times> json) list"

text \<open>A member of an object of Go's decoded form: the last occurrence of a key wins.\<close>

definition member :: "(string \<times> json) list \<Rightarrow> string \<Rightarrow> json option" where
  "member ms k = map_of (rev ms) k"

text \<open>\<open>v, _ := m[k].(string)\<close>: the empty string when the member is absent or no string.\<close>

definition str_member :: "(string \<times> json) list \<Rightarrow> string \<Rightarrow> string" where
  "str_member ms k = (case member ms k of Some (JStr s) \<Rightarrow> s | _ \<Rightarrow> [])"

lemma member_distinct: "distinct (map fst ms) \<Longrightarrow> member ms k = map_of ms k"
proof -
  assume "distinct (map fst ms)"
  then have "map_of (rev ms) = map_of ms"
    by (intro map_of_eqI_mset) (simp_all flip: rev_map)
  then show ?thesis by (simp add: member_def)
qed

end
