(* ===== verification/Revocation.thy ===== *)
theory Revocation
  imports Go_Strings
begin

text \<open>
  The persistent denylist of token identifiers (\<open>src/internal/auth/revocation.go\<close>): its
  in-memory map, the file it is written to, and the operations that read the clock, prune
  expired entries and persist. A file operation that can fail is an outcome given to the
  operation; the write is atomic (temporary file and rename), so an outcome either leaves
  the old file or has replaced it, with or without the final directory sync.
\<close>

datatype rev_error =
    InvalidRevocation
  | InvalidRefreshToken
  | ReadFailed
  | DecodeFailed
  | PersistFailed

text \<open>What \<open>os.ReadFile\<close> and \<open>json.Unmarshal\<close> find under the path.\<close>

datatype rev_file = Missing | Unreadable | Malformed | Entries "(string \<times> time) list"

datatype persist_outcome =
    Persisted
  | FailedBeforeRename
  | FailedAfterRename

record revocation_list =
  rl_path :: string
  rl_ids :: "(string \<times> time) list"
  rl_file :: rev_file

section \<open>Operations\<close>

definition load_entries :: "time \<Rightarrow> (string \<times> time) list \<Rightarrow> (string \<times> time) list" where
  "load_entries now es =
     fold (\<lambda>(i, e) m. if i \<noteq> [] \<and> e > now then AList.update i e m else m) es []"

definition NewRevocationList ::
    "string \<Rightarrow> rev_file \<Rightarrow> time \<Rightarrow> (rev_error, revocation_list) result" where
  "NewRevocationList path file now =
     (if path = [] then Inr \<lparr>rl_path = path, rl_ids = [], rl_file = file\<rparr>
      else case file of
        Missing \<Rightarrow> Inr \<lparr>rl_path = path, rl_ids = [], rl_file = file\<rparr>
      | Unreadable \<Rightarrow> Inl ReadFailed
      | Malformed \<Rightarrow> Inl DecodeFailed
      | Entries es \<Rightarrow> Inr \<lparr>rl_path = path, rl_ids = load_entries now es, rl_file = file\<rparr>)"

text \<open>The receiver may be nil: the methods are called on a \<^typ>\<open>revocation_list option\<close>.\<close>

definition IsRevoked ::
    "revocation_list option \<Rightarrow> time \<Rightarrow> string \<Rightarrow> revocation_list option \<times> bool" where
  "IsRevoked r now i =
     (case r of None \<Rightarrow> (None, False)
      | Some l \<Rightarrow>
          if i = [] then (Some l, False)
          else case map_of (rl_ids l) i of
            None \<Rightarrow> (Some l, False)
          | Some e \<Rightarrow>
              if \<not> e > now then (Some (l\<lparr>rl_ids := AList.delete i (rl_ids l)\<rparr>), False)
              else (Some l, True))"

definition pruneLocked :: "time \<Rightarrow> revocation_list \<Rightarrow> revocation_list" where
  "pruneLocked now l = l\<lparr>rl_ids := filter (\<lambda>(i, e). e > now) (rl_ids l)\<rparr>"

definition persistLocked ::
    "persist_outcome \<Rightarrow> revocation_list \<Rightarrow> revocation_list \<times> rev_error option" where
  "persistLocked out l =
     (if rl_path l = [] then (l, None)
      else (let written = l\<lparr>rl_file := Entries (sort_key fst (rl_ids l))\<rparr>
            in case out of
                 Persisted \<Rightarrow> (written, None)
               | FailedBeforeRename \<Rightarrow> (l, Some PersistFailed)
               | FailedAfterRename \<Rightarrow> (written, Some PersistFailed)))"

definition Revoke ::
    "revocation_list option \<Rightarrow> time \<Rightarrow> string \<Rightarrow> time \<Rightarrow> persist_outcome \<Rightarrow>
     revocation_list option \<times> rev_error option" where
  "Revoke r now i expiry out =
     (case r of None \<Rightarrow> (None, Some InvalidRevocation)
      | Some l \<Rightarrow>
          if i = [] \<or> is_zero expiry then (Some l, Some InvalidRevocation)
          else (let l1 = pruneLocked now l;
                    l2 = l1\<lparr>rl_ids := AList.update i expiry (rl_ids l1)\<rparr>;
                    (l3, err) = persistLocked out l2
                in (Some l3, err)))"

definition Consume ::
    "revocation_list option \<Rightarrow> time \<Rightarrow> string \<Rightarrow> time \<Rightarrow> persist_outcome \<Rightarrow>
     revocation_list option \<times> (rev_error, bool) result" where
  "Consume r now i expiry out =
     (case r of None \<Rightarrow> (None, Inl InvalidRefreshToken)
      | Some l \<Rightarrow>
          if i = [] \<or> is_zero expiry then (Some l, Inl InvalidRefreshToken)
          else (let l1 = pruneLocked now l
                in if map_of (rl_ids l1) i \<noteq> None then (Some l1, Inr False)
                   else (let l2 = l1\<lparr>rl_ids := AList.update i expiry (rl_ids l1)\<rparr>;
                             (l3, err) = persistLocked out l2
                         in (Some l3, case err of None \<Rightarrow> Inr True | Some e \<Rightarrow> Inl e))))"

section \<open>Well-formed lists and entries that stay\<close>

definition rl_wf :: "revocation_list \<Rightarrow> bool" where
  "rl_wf l \<longleftrightarrow> distinct (map fst (rl_ids l))"

text \<open>
  \<open>denied l i e\<close>: the list denies \<open>i\<close> at least until \<open>e\<close>, in memory and, when it is
  persistent, in its file.
\<close>

definition file_denies :: "rev_file \<Rightarrow> string \<Rightarrow> time \<Rightarrow> bool" where
  "file_denies f i e \<longleftrightarrow>
     (case f of Entries es \<Rightarrow>
        distinct (map fst es) \<and> (\<exists>e'. map_of es i = Some e' \<and> e \<le> e') | _ \<Rightarrow> False)"

definition denied :: "string \<Rightarrow> time \<Rightarrow> revocation_list \<Rightarrow> bool" where
  "denied i e l \<longleftrightarrow> rl_wf l \<and> i \<noteq> [] \<and> (\<exists>e'. map_of (rl_ids l) i = Some e' \<and> e \<le> e') \<and>
     (rl_path l \<noteq> [] \<longrightarrow> file_denies (rl_file l) i e)"

lemma load_entries_wf: "distinct (map fst (load_entries now es))"
proof -
  have "distinct (map fst m) \<Longrightarrow>
    distinct (map fst (fold (\<lambda>(i, e) m. if i \<noteq> [] \<and> e > now then AList.update i e m else m) es m))"
    for m
    by (induction es arbitrary: m) (auto simp: distinct_update)
  then show ?thesis by (simp add: load_entries_def)
qed

lemma load_entries_lookup:
  assumes "distinct (map fst es)"
  shows "map_of (load_entries now es) i =
    (case map_of es i of None \<Rightarrow> None | Some e \<Rightarrow> if i \<noteq> [] \<and> e > now then Some e else None)"
proof -
  let ?f = "\<lambda>(i, e) m. if i \<noteq> [] \<and> e > now then AList.update i e m else m"
  have "distinct (map fst es) \<Longrightarrow> map_of (fold ?f es m) i =
    (case map_of es i of None \<Rightarrow> map_of m i
     | Some e \<Rightarrow> if i \<noteq> [] \<and> e > now then Some e else map_of m i)" for m
  proof (induction es arbitrary: m)
    case (Cons x es)
    obtain j e where x: "x = (j, e)" by (cases x)
    from Cons.prems x have "map_of es j = None" by (simp add: map_of_eq_None_iff)
    with Cons x show ?case by (auto simp: update_conv split: option.splits)
  qed simp
  with assms show ?thesis by (simp add: load_entries_def split: option.splits)
qed

lemma prune_denied: "denied i e l \<Longrightarrow> now < e \<Longrightarrow> denied i e (pruneLocked now l)"
  by (auto simp: denied_def rl_wf_def pruneLocked_def map_of_filter_Some distinct_fst_filter)

lemma wf_prune [inv_intros]: "rl_wf l \<Longrightarrow> rl_wf (pruneLocked now l)"
  by (simp add: rl_wf_def pruneLocked_def distinct_fst_filter)

lemma prune_path [simp]: "rl_path (pruneLocked now l) = rl_path l"
  by (simp add: pruneLocked_def)

lemma sort_key_lookup: "distinct (map fst xs) \<Longrightarrow> map_of (sort_key fst xs) = map_of xs"
  by (metis map_of_eqI_mset mset_sort)

lemma distinct_fst_sort: "distinct (map fst xs) \<Longrightarrow> distinct (map fst (sort_key f xs))"
  by (metis distinct_map mset_sort mset_eq_imp_distinct_iff set_mset_mset)

lemma persist_ids [simp]: "rl_ids (fst (persistLocked out l)) = rl_ids l"
  by (auto simp: persistLocked_def Let_def split: persist_outcome.splits)

lemma persist_path [simp]: "rl_path (fst (persistLocked out l)) = rl_path l"
  by (auto simp: persistLocked_def Let_def split: persist_outcome.splits)

lemma persist_file:
  "rl_file (fst (persistLocked out l)) = rl_file l \<or>
   rl_file (fst (persistLocked out l)) = Entries (sort_key fst (rl_ids l))"
  by (auto simp: persistLocked_def Let_def split: persist_outcome.splits)

lemma file_denies_written:
  assumes "distinct (map fst xs)" and "map_of xs i = Some e'" and "e \<le> e'"
  shows "file_denies (Entries (sort_key fst xs)) i e"
  using assms by (auto simp: file_denies_def sort_key_lookup distinct_fst_sort)

lemma persist_denied:
  assumes "denied i e l"
  shows "denied i e (fst (persistLocked out l))"
proof -
  from assms obtain e' where "map_of (rl_ids l) i = Some e'" and "e \<le> e'"
    and wf: "distinct (map fst (rl_ids l))"
    by (auto simp: denied_def rl_wf_def)
  then have "file_denies (Entries (sort_key fst (rl_ids l))) i e"
    by (intro file_denies_written)
  with assms persist_file [of out l] show ?thesis
    by (auto simp: denied_def rl_wf_def)
qed

lemma update_denied:
  assumes "denied i e l" and "j = i \<longrightarrow> e \<le> x"
  shows "denied i e (l\<lparr>rl_ids := AList.update j x (rl_ids l)\<rparr>)"
  using assms by (auto simp: denied_def rl_wf_def update_conv distinct_update)

text \<open>An entry that was added and persisted without an error is denied from then on.\<close>

lemma added_denied:
  assumes "rl_wf l" and "i \<noteq> []"
    and "persistLocked out ((pruneLocked now l)\<lparr>rl_ids := AList.update i e (rl_ids (pruneLocked now l))\<rparr>)
      = (l', None)"
  shows "denied i e l' \<and> rl_path l' = rl_path l"
proof -
  let ?l2 = "(pruneLocked now l)\<lparr>rl_ids := AList.update i e (rl_ids (pruneLocked now l))\<rparr>"
  have wf: "distinct (map fst (rl_ids ?l2))"
    using wf_prune [OF assms(1)] by (simp add: rl_wf_def distinct_update)
  have ids: "rl_ids l' = rl_ids ?l2" and path: "rl_path l' = rl_path l"
    using persist_ids [of out ?l2] persist_path [of out ?l2] assms(3) by auto
  have "rl_file l' = Entries (sort_key fst (rl_ids ?l2))" if "rl_path l \<noteq> []"
    using assms(3) that by (auto simp: persistLocked_def Let_def split: persist_outcome.splits)
  with wf ids path assms(2) show ?thesis
    by (auto simp: denied_def rl_wf_def update_conv intro!: file_denies_written)
qed

section \<open>Runs of the list\<close>

text \<open>
  The calls the gateway makes on its list, each at a clock reading, and a restart, which
  drops the memory and loads the file again.
\<close>

datatype rev_op =
    OpRevoke string time persist_outcome
  | OpConsume string time persist_outcome
  | OpIsRevoked string
  | OpRestart

fun rev_step :: "revocation_list \<Rightarrow> time \<times> rev_op \<Rightarrow> revocation_list" where
  "rev_step l (now, OpRevoke i e out) = the (fst (Revoke (Some l) now i e out))"
| "rev_step l (now, OpConsume i e out) = the (fst (Consume (Some l) now i e out))"
| "rev_step l (now, OpIsRevoked i) = the (fst (IsRevoked (Some l) now i))"
| "rev_step l (now, OpRestart) =
     (case NewRevocationList (rl_path l) (rl_file l) now of Inl _ \<Rightarrow> l | Inr l' \<Rightarrow> l')"

text \<open>
  The runs a token identifier \<open>i\<close> with expiry \<open>e\<close> sees before it expires: every clock
  reading is before \<open>e\<close>, and a further revocation of \<open>i\<close> carries the token's own expiry.
\<close>

fun before_expiry :: "string \<Rightarrow> time \<Rightarrow> time \<times> rev_op \<Rightarrow> bool" where
  "before_expiry i e (now, OpRevoke j x out) = (now < e \<and> (j = i \<longrightarrow> e \<le> x))"
| "before_expiry i e (now, _) = (now < e)"

lemma Revoke_denied:
  assumes "denied i e l" and "now < e" and "j = i \<longrightarrow> e \<le> x"
  shows "\<exists>l'. fst (Revoke (Some l) now j x out) = Some l' \<and> denied i e l' \<and> rl_path l' = rl_path l"
proof (cases "j = [] \<or> is_zero x")
  case True
  with assms(1) show ?thesis by (simp add: Revoke_def)
next
  case False
  let ?l2 = "(pruneLocked now l)\<lparr>rl_ids := AList.update j x (rl_ids (pruneLocked now l))\<rparr>"
  have "denied i e (fst (persistLocked out ?l2))"
    using assms by (intro persist_denied update_denied prune_denied)
  moreover have "fst (Revoke (Some l) now j x out) = Some (fst (persistLocked out ?l2))"
    using False by (simp add: Revoke_def Let_def split: prod.splits)
  ultimately show ?thesis by simp
qed

lemma Consume_denied:
  assumes "denied i e l" and "now < e"
  shows "\<exists>l'. fst (Consume (Some l) now j x out) = Some l' \<and> denied i e l' \<and> rl_path l' = rl_path l"
proof -
  let ?l1 = "pruneLocked now l"
  let ?l2 = "?l1\<lparr>rl_ids := AList.update j x (rl_ids ?l1)\<rparr>"
  have d1: "denied i e ?l1" using assms by (intro prune_denied)
  show ?thesis
  proof (cases "j = [] \<or> is_zero x \<or> map_of (rl_ids ?l1) j \<noteq> None")
    case True
    with assms(1) d1 show ?thesis by (auto simp: Consume_def Let_def)
  next
    case False
    with d1 have "j \<noteq> i" by (auto simp: denied_def)
    with d1 have "denied i e (fst (persistLocked out ?l2))"
      by (intro persist_denied update_denied) auto
    moreover have "fst (Consume (Some l) now j x out) = Some (fst (persistLocked out ?l2))"
      using False by (simp add: Consume_def Let_def split: prod.splits)
    ultimately show ?thesis by simp
  qed
qed

lemma IsRevoked_denied:
  assumes "denied i e l" and "now < e"
  shows "\<exists>l'. fst (IsRevoked (Some l) now j) = Some l' \<and> denied i e l' \<and> rl_path l' = rl_path l"
  using assms
  by (auto simp: IsRevoked_def denied_def rl_wf_def delete_conv distinct_delete
      split: option.splits)

lemma IsRevoked_True:
  assumes "denied i e l" and "now < e"
  shows "IsRevoked (Some l) now i = (Some l, True)"
  using assms by (auto simp: IsRevoked_def denied_def)

lemma restart_denied:
  assumes "denied i e l" and "now < e" and "rl_path l \<noteq> []"
  shows "\<exists>l'. NewRevocationList (rl_path l) (rl_file l) now = Inr l' \<and> denied i e l' \<and>
    rl_path l' = rl_path l"
proof -
  from assms have fd0: "file_denies (rl_file l) i e" by (simp add: denied_def)
  then obtain es where es: "rl_file l = Entries es"
    by (cases "rl_file l") (auto simp: file_denies_def)
  with fd0 have fd: "file_denies (Entries es) i e" by simp
  from fd have d: "distinct (map fst es)" and "\<exists>e'. map_of es i = Some e' \<and> e \<le> e'"
    by (auto simp: file_denies_def)
  then have "\<exists>e'. map_of (load_entries now es) i = Some e' \<and> e \<le> e'"
    using assms(1,2) by (auto simp: load_entries_lookup denied_def)
  then show ?thesis
    using assms es fd load_entries_wf
    by (auto simp: NewRevocationList_def denied_def rl_wf_def)
qed

lemma rev_step_denied:
  assumes "denied i e l \<and> rl_path l \<noteq> []" and "before_expiry i e x"
  shows "denied i e (rev_step l x) \<and> rl_path (rev_step l x) \<noteq> []"
proof (cases x)
  case (Pair now oper)
  show ?thesis
  proof (cases oper)
    case (OpRevoke j y out)
    with Pair assms have "denied i e l" "now < e" "j = i \<longrightarrow> e \<le> y" by auto
    from Revoke_denied [OF this, of out] Pair OpRevoke assms show ?thesis by auto
  next
    case (OpConsume j y out)
    with Pair assms have "denied i e l" "now < e" by auto
    from Consume_denied [OF this, of j y out] Pair OpConsume assms show ?thesis by auto
  next
    case (OpIsRevoked j)
    with Pair assms have "denied i e l" "now < e" by auto
    from IsRevoked_denied [OF this, of j] Pair OpIsRevoked assms show ?thesis by auto
  next
    case OpRestart
    with Pair assms have "denied i e l" "now < e" "rl_path l \<noteq> []" by auto
    from restart_denied [OF this] Pair OpRestart assms show ?thesis by auto
  qed
qed

interpretation rl: stepper rev_step "before_expiry i e" "\<lambda>l. denied i e l \<and> rl_path l \<noteq> []"
  for i e
  by unfold_locales (rule rev_step_denied)

lemma Revoke_ok:
  assumes "rl_wf l" and "i \<noteq> []" and "\<not> is_zero e"
    and "Revoke (Some l) now i e out = (Some l', None)"
  shows "denied i e l' \<and> rl_path l' = rl_path l"
proof -
  from assms(2-4) have "persistLocked out
      ((pruneLocked now l)\<lparr>rl_ids := AList.update i e (rl_ids (pruneLocked now l))\<rparr>) = (l', None)"
    by (auto simp: Revoke_def Let_def split: prod.splits)
  then show ?thesis by (rule added_denied [OF assms(1,2)])
qed

lemma Consume_ok:
  assumes "rl_wf l" and "Consume (Some l) now i e out = (Some l', Inr True)"
  shows "denied i e l' \<and> rl_path l' = rl_path l"
proof -
  from assms(2) have "i \<noteq> []" and "persistLocked out
      ((pruneLocked now l)\<lparr>rl_ids := AList.update i e (rl_ids (pruneLocked now l))\<rparr>) = (l', None)"
    by (auto simp: Consume_def Let_def split: prod.splits if_splits option.splits)
  then show ?thesis by (intro added_denied [OF assms(1)])
qed

section \<open>Properties\<close>

text \<open>
  Once \<open>Revoke\<close> has returned without an error, the token identifier is reported as
  revoked until the token's expiry, whatever revocations, refresh-token consumptions,
  look-ups, failed writes and restarts of the gateway happen in between.
\<close>

theorem revocation_lasts:
  assumes "rl_wf l" and "rl_path l \<noteq> []" and "i \<noteq> []" and "\<not> is_zero e"
    and "Revoke (Some l) now0 i e out = (Some l', None)"
    and "\<forall>x \<in> set ops. before_expiry i e x" and "now < e"
  shows "snd (IsRevoked (Some (foldl rev_step l' ops)) now i)"
proof -
  from Revoke_ok [OF assms(1,3,4,5)] assms(2) have "denied i e l' \<and> rl_path l' \<noteq> []" by simp
  from rl.run_invar [OF this assms(6)] have "denied i e (foldl rev_step l' ops)" by simp
  then show ?thesis using assms(7) by (simp add: IsRevoked_True)
qed

definition rl_example :: revocation_list where
  "rl_example = \<lparr>rl_path = ''revocations.json'', rl_ids = [(''old'', 5)], rl_file = Missing\<rparr>"

theorem revocation_lasts_witness:
  "\<exists>l'. Revoke (Some rl_example) 10 ''jti'' 100 Persisted = (Some l', None) \<and>
     snd (IsRevoked (Some (foldl rev_step l'
       [(20, OpRestart), (30, OpConsume ''rt'' 90 FailedBeforeRename), (40, OpRestart)])) 99 ''jti'')"
proof -
  have wf: "rl_wf rl_example" by (simp add: rl_wf_def rl_example_def)
  have p: "rl_path rl_example \<noteq> []" by (simp add: rl_example_def)
  obtain l' where l': "Revoke (Some rl_example) 10 ''jti'' 100 Persisted = (Some l', None)"
    by (simp add: Revoke_def rl_example_def is_zero_def persistLocked_def pruneLocked_def Let_def)
  have "snd (IsRevoked (Some (foldl rev_step l'
       [(20, OpRestart), (30, OpConsume ''rt'' 90 FailedBeforeRename), (40, OpRestart)])) 99 ''jti'')"
    by (rule revocation_lasts [OF wf p _ _ l']) (auto simp: is_zero_def)
  with l' show ?thesis by blast
qed

text \<open>
  A rotating refresh token is consumed at most once: after a \<open>Consume\<close> that returned
  true, every later \<open>Consume\<close> of the same identifier before its expiry returns false,
  also when the gateway was restarted in between.
\<close>

theorem refresh_token_consumed_once:
  assumes "rl_wf l" and "rl_path l \<noteq> []"
    and "Consume (Some l) now0 i e out = (Some l', Inr True)"
    and "\<forall>x \<in> set ops. before_expiry i e x" and "now < e" and "\<not> is_zero x"
  shows "snd (Consume (Some (foldl rev_step l' ops)) now i x out') = Inr False"
proof -
  from Consume_ok [OF assms(1,3)] assms(2) have "denied i e l' \<and> rl_path l' \<noteq> []" by simp
  from rl.run_invar [OF this assms(4)] have "denied i e (foldl rev_step l' ops)" by simp
  then have "denied i e (pruneLocked now (foldl rev_step l' ops))"
    using assms(5) by (rule prune_denied)
  then show ?thesis using assms(6) by (auto simp: Consume_def Let_def denied_def)
qed

theorem refresh_token_consumed_once_witness:
  "\<exists>l'. Consume (Some rl_example) 10 ''rt'' 100 Persisted = (Some l', Inr True) \<and>
     snd (Consume (Some (foldl rev_step l' [(20, OpRestart)])) 99 ''rt'' 100 Persisted) = Inr False"
proof -
  have wf: "rl_wf rl_example" by (simp add: rl_wf_def rl_example_def)
  have p: "rl_path rl_example \<noteq> []" by (simp add: rl_example_def)
  obtain l' where l': "Consume (Some rl_example) 10 ''rt'' 100 Persisted = (Some l', Inr True)"
    by (simp add: Consume_def rl_example_def is_zero_def persistLocked_def pruneLocked_def Let_def)
  have "snd (Consume (Some (foldl rev_step l' [(20, OpRestart)])) 99 ''rt'' 100 Persisted) = Inr False"
    by (rule refresh_token_consumed_once [OF wf p l']) (auto simp: is_zero_def)
  with l' show ?thesis by blast
qed

end
