(* ===== verification/Identity.thy ===== *)
theory Identity
  imports Json Revocation
begin

text \<open>
  Caller identity (\<open>src/internal/auth/auth.go\<close>, \<open>src/internal/mcp/scope.go\<close>): the
  canonical \<open>issuer#subject\<close> key with its escaping, the resource server that turns a
  bearer token into a principal, and the principal of a request. The JWT library is not
  part of the sources: \<open>jwt.Parse\<close> is an argument of \<open>Validate\<close>.
\<close>

section \<open>Keys\<close>

definition escapeKeyPart :: "string \<Rightarrow> string" where
  "escapeKeyPart s = replace_all ''#'' ''%23'' (replace_all ''%'' ''%25'' s)"

definition unescapeKeyPart :: "string \<Rightarrow> string" where
  "unescapeKeyPart s = replace_all ''%25'' ''%'' (replace_all ''%23'' ''#'' s)"

definition PrincipalKey :: "string \<Rightarrow> string \<Rightarrow> string" where
  "PrincipalKey issuer subject = escapeKeyPart issuer @ ''#'' @ escapeKeyPart subject"

datatype key_error = NotCanonical string

text \<open>\<open>strings.Index(key, "#")\<close> splits the key into what precedes and what follows.\<close>

fun cut_hash :: "string \<Rightarrow> (string \<times> string) option" where
  "cut_hash [] = None"
| "cut_hash (c # s) =
     (if c = CHR ''#'' then Some ([], s)
      else case cut_hash s of None \<Rightarrow> None | Some (l, r) \<Rightarrow> Some (c # l, r))"

definition SplitPrincipalKey :: "string \<Rightarrow> (key_error, string \<times> string) result" where
  "SplitPrincipalKey key =
     (case cut_hash key of None \<Rightarrow> Inl (NotCanonical key)
      | Some (l, r) \<Rightarrow>
          if contains_sub r ''#'' then Inl (NotCanonical key)
          else (let issuer = unescapeKeyPart l; subject = unescapeKeyPart r
                in if issuer = [] \<or> subject = [] \<or> PrincipalKey issuer subject \<noteq> key
                   then Inl (NotCanonical key) else Inr (issuer, subject)))"

section \<open>Principals\<close>

record principal =
  p_subject :: string
  p_campaign :: string
  p_scopes :: "string list"
  p_issuer :: string
  p_expiry :: time

definition LocalIssuer :: string where
  "LocalIssuer = ''local''"

definition Key :: "principal \<Rightarrow> string" where
  "Key p = PrincipalKey (p_issuer p) (p_subject p)"

definition HasScope :: "principal \<Rightarrow> string \<Rightarrow> bool" where
  "HasScope p s \<longleftrightarrow> s \<in> set (p_scopes p)"

text \<open>
  The request context holds the authenticated principal or none; without one, or with an
  empty subject, the caller is the local operator.
\<close>

definition local_principal :: principal where
  "local_principal =
     \<lparr>p_subject = ''local'', p_campaign = ''local'', p_scopes = [], p_issuer = LocalIssuer,
      p_expiry = 0\<rparr>"

definition principalOf :: "principal option \<Rightarrow> principal" where
  "principalOf ctx =
     (case ctx of Some p \<Rightarrow> if p_subject p \<noteq> [] then p else local_principal
      | None \<Rightarrow> local_principal)"

definition callerKey :: "principal option \<Rightarrow> string" where
  "callerKey ctx = Key (principalOf ctx)"

definition campaignOf :: "principal option \<Rightarrow> string" where
  "campaignOf ctx = p_campaign (principalOf ctx)"

section \<open>The resource server\<close>

text \<open>
  The options handed to \<open>jwt.Parse\<close> and the claims it returns; \<open>claim_exp\<close> is the
  library's \<open>GetExpirationTime\<close> of the claims.
\<close>

record jwt_opts =
  valid_methods :: "string list"
  opt_issuer :: string
  opt_audience :: string
  opt_leeway :: duration
  exp_required :: bool

record jwt_claims =
  claim_members :: "(string \<times> json) list"
  claim_exp :: "time option"

type_synonym jwt_parser = "jwt_opts \<Rightarrow> time \<Rightarrow> string \<Rightarrow> jwt_claims option"

definition asymmetricAlgs :: "string list" where
  "asymmetricAlgs =
     [''RS256'', ''RS384'', ''RS512'', ''ES256'', ''ES384'', ''ES512'', ''PS256'', ''PS384'', ''PS512'']"

record resource_server =
  rs_issuer :: string
  rs_audience :: string
  rs_keys :: bool
  rs_leeway :: duration
  rs_revocations :: "revocation_list option"
  rs_require_jti :: bool

datatype auth_error =
    EmptyToken
  | NoKeySet
  | ParseFailed
  | MissingSub
  | MissingJti
  | TokenRevoked

definition parseScopes :: "(string \<times> json) list \<Rightarrow> string list" where
  "parseScopes ms =
     (if trim_space (str_member ms ''scope'') \<noteq> [] then str_fields (str_member ms ''scope'')
      else case member ms ''scp'' of
        Some (JArr vs) \<Rightarrow> concat (map (\<lambda>v. case v of JStr s \<Rightarrow> if s \<noteq> [] then [s] else [] | _ \<Rightarrow> []) vs)
      | _ \<Rightarrow> [])"

definition rs_opts :: "resource_server \<Rightarrow> jwt_opts" where
  "rs_opts rs =
     \<lparr>valid_methods = asymmetricAlgs, opt_issuer = rs_issuer rs, opt_audience = rs_audience rs,
      opt_leeway = (if rs_leeway rs \<le> 0 then 30 * second else rs_leeway rs), exp_required = True\<rparr>"

definition claims_principal :: "resource_server \<Rightarrow> jwt_claims \<Rightarrow> principal" where
  "claims_principal rs c =
     \<lparr>p_subject = str_member (claim_members c) ''sub'',
      p_campaign =
        (let a = trim_space (str_member (claim_members c) ''campaign'');
             b = trim_space (str_member (claim_members c) ''campaign_id'')
         in if a \<noteq> [] then a else b),
      p_scopes = parseScopes (claim_members c),
      p_issuer = rs_issuer rs,
      p_expiry = (case claim_exp c of Some t \<Rightarrow> t | None \<Rightarrow> 0)\<rparr>"

definition Validate ::
    "jwt_parser \<Rightarrow> resource_server \<Rightarrow> time \<Rightarrow> string \<Rightarrow>
     resource_server \<times> (auth_error, principal) result" where
  "Validate jwt_parse rs now raw0 =
     (let raw = trim_space raw0
      in if raw = [] then (rs, Inl EmptyToken)
         else if \<not> rs_keys rs then (rs, Inl NoKeySet)
         else case jwt_parse (rs_opts rs) now raw of
           None \<Rightarrow> (rs, Inl ParseFailed)
         | Some c \<Rightarrow>
             if trim_space (str_member (claim_members c) ''sub'') = [] then (rs, Inl MissingSub)
             else (let jti = str_member (claim_members c) ''jti''
                   in if rs_require_jti rs \<and> trim_space jti = [] then (rs, Inl MissingJti)
                      else (let (revs, denied) = IsRevoked (rs_revocations rs) now jti;
                                rs' = rs\<lparr>rs_revocations := revs\<rparr>
                            in if denied then (rs', Inl TokenRevoked)
                               else (rs', Inr (claims_principal rs c)))))"

section \<open>Escaping\<close>

definition esc :: "char \<Rightarrow> string" where
  "esc c = (if c = CHR ''%'' then ''%25'' else if c = CHR ''#'' then ''%23'' else [c])"

lemma escapeKeyPart_eq: "escapeKeyPart s = concat (map esc s)"
  unfolding escapeKeyPart_def replace_all_char
  by (induction s) (auto simp: esc_def)

lemma escape_no_hash: "CHR ''#'' \<notin> set (escapeKeyPart s)"
  by (auto simp: escapeKeyPart_eq esc_def)

definition half :: "char \<Rightarrow> string" where
  "half c = (if c = CHR ''%'' then ''%25'' else [c])"

lemma unescape_first: "replace_all ''%23'' ''#'' (concat (map esc s)) = concat (map half s)"
proof (induction s)
  case (Cons c s)
  consider "c = CHR ''%''" | "c = CHR ''#''" | "c \<noteq> CHR ''%''" "c \<noteq> CHR ''#''" by blast
  then show ?case
    by cases (use Cons in \<open>simp_all add: esc_def half_def\<close>)
qed simp

lemma unescape_second: "replace_all ''%25'' ''%'' (concat (map half s)) = s"
proof (induction s)
  case (Cons c s)
  then show ?case by (cases "c = CHR ''%''") (simp_all add: half_def)
qed simp

lemma unescape_escape [simp]: "unescapeKeyPart (escapeKeyPart s) = s"
  by (simp add: unescapeKeyPart_def escapeKeyPart_eq unescape_first unescape_second)

lemma escape_inject: "escapeKeyPart a = escapeKeyPart b \<longleftrightarrow> a = b"
  by (metis unescape_escape)

lemma PrincipalKey_inject: "PrincipalKey i s = PrincipalKey j t \<longleftrightarrow> i = j \<and> s = t"
proof
  assume "PrincipalKey i s = PrincipalKey j t"
  then have "escapeKeyPart i @ CHR ''#'' # escapeKeyPart s = escapeKeyPart j @ CHR ''#'' # escapeKeyPart t"
    by (simp add: PrincipalKey_def)
  from sep_unique [OF this escape_no_hash escape_no_hash] show "i = j \<and> s = t"
    by (simp add: escape_inject)
qed simp

lemma cut_hash_append: "CHR ''#'' \<notin> set l \<Longrightarrow> cut_hash (l @ CHR ''#'' # r) = Some (l, r)"
  by (induction l) auto

lemma hash_in_key: "CHR ''#'' \<in> set (PrincipalKey i s)"
  by (simp add: PrincipalKey_def)

lemma SplitPrincipalKey_canonical: "SplitPrincipalKey key = Inr (i, s) \<Longrightarrow> key = PrincipalKey i s"
  by (auto simp: SplitPrincipalKey_def Let_def split: option.splits if_splits prod.splits)

lemma SplitPrincipalKey_PrincipalKey:
  "SplitPrincipalKey (PrincipalKey i s) =
     (if i = [] \<or> s = [] then Inl (NotCanonical (PrincipalKey i s)) else Inr (i, s))"
proof -
  have "cut_hash (PrincipalKey i s) = Some (escapeKeyPart i, escapeKeyPart s)"
    by (simp add: PrincipalKey_def cut_hash_append escape_no_hash)
  then show ?thesis
    by (simp add: SplitPrincipalKey_def Let_def contains_sub_char escape_no_hash)
qed

section \<open>Properties\<close>

text \<open>
  The caller key is a faithful encoding of the pair (issuer, subject): a key is
  accepted by \<open>SplitPrincipalKey\<close> with the halves \<open>i\<close> and \<open>s\<close> exactly when both halves
  are non-empty and the key is \<open>PrincipalKey i s\<close>, and \<open>PrincipalKey\<close> is injective, so
  that two issuers asserting one subject never share a key.
\<close>

theorem principal_key_roundtrip:
  "(SplitPrincipalKey key = Inr (i, s)) = (i \<noteq> [] \<and> s \<noteq> [] \<and> key = PrincipalKey i s) \<and>
   (PrincipalKey i s = PrincipalKey j t) = (i = j \<and> s = t)"
proof
  show "(SplitPrincipalKey key = Inr (i, s)) = (i \<noteq> [] \<and> s \<noteq> [] \<and> key = PrincipalKey i s)"
  proof
    assume a: "SplitPrincipalKey key = Inr (i, s)"
    then have "key = PrincipalKey i s" by (rule SplitPrincipalKey_canonical)
    with a show "i \<noteq> [] \<and> s \<noteq> [] \<and> key = PrincipalKey i s"
      by (auto simp: SplitPrincipalKey_PrincipalKey split: if_splits)
  qed (simp add: SplitPrincipalKey_PrincipalKey)
qed (rule PrincipalKey_inject)

text \<open>What a validated token says of its principal.\<close>

lemma Validate_Inr:
  assumes "Validate P rs now raw = (rs', Inr p)"
  shows "\<exists>c. P (rs_opts rs) now (trim_space raw) = Some c \<and> p = claims_principal rs c \<and>
    trim_space (p_subject p) \<noteq> [] \<and>
    \<not> snd (IsRevoked (rs_revocations rs) now (str_member (claim_members c) ''jti''))"
proof -
  from assms obtain c where c: "P (rs_opts rs) now (trim_space raw) = Some c"
    by (cases "P (rs_opts rs) now (trim_space raw)") (auto simp: Validate_def Let_def split: if_splits)
  let ?jti = "str_member (claim_members c) ''jti''"
  obtain revs d where r: "IsRevoked (rs_revocations rs) now ?jti = (revs, d)" by fastforce
  with assms c have "\<not> d" and "p = claims_principal rs c"
    and "trim_space (str_member (claim_members c) ''sub'') \<noteq> []"
    by (auto simp: Validate_def Let_def split: if_splits)
  with c r show ?thesis by (simp add: claims_principal_def)
qed

text \<open>
  A request is served under its token's identity only when the token passed the
  JWT library under the server's own issuer, audience and the closed set of asymmetric
  algorithms, carries a non-blank subject and is not on the denylist; the resulting caller
  key is the key of the server's issuer and the token's subject.
\<close>

theorem validated_principal:
  assumes "Validate P rs now raw = (rs', Inr p)"
  shows "\<exists>c. P \<lparr>valid_methods = asymmetricAlgs, opt_issuer = rs_issuer rs,
       opt_audience = rs_audience rs,
       opt_leeway = (if rs_leeway rs \<le> 0 then 30 * second else rs_leeway rs),
       exp_required = True\<rparr> now (trim_space raw) = Some c \<and>
     trim_space (str_member (claim_members c) ''sub'') \<noteq> [] \<and>
     \<not> snd (IsRevoked (rs_revocations rs) now (str_member (claim_members c) ''jti'')) \<and>
     callerKey (Some p) = PrincipalKey (rs_issuer rs) (str_member (claim_members c) ''sub'')"
proof -
  from Validate_Inr [OF assms] obtain c where c: "P (rs_opts rs) now (trim_space raw) = Some c"
    and p: "p = claims_principal rs c" and sub: "trim_space (p_subject p) \<noteq> []"
    and nr: "\<not> snd (IsRevoked (rs_revocations rs) now (str_member (claim_members c) ''jti''))"
    by blast
  from sub have "p_subject p \<noteq> []" by auto
  with p have "callerKey (Some p) = PrincipalKey (rs_issuer rs) (str_member (claim_members c) ''sub'')"
    by (simp add: callerKey_def Key_def principalOf_def claims_principal_def)
  with c p sub nr show ?thesis
    by (auto simp: rs_opts_def claims_principal_def)
qed

text \<open>A server and a token for the witnesses, and a parser that does what the library documents
  of the expiry check: a token is accepted until its expiry plus the leeway.\<close>

definition example_claims :: jwt_claims where
  "example_claims =
     \<lparr>claim_members = [(''sub'', JStr ''alice''), (''jti'', JStr ''t1'')], claim_exp = Some 1000\<rparr>"

definition example_parser :: jwt_parser where
  "example_parser opts now raw =
     (if raw = ''token'' \<and> now < 1000 + opt_leeway opts then Some example_claims else None)"

definition example_server :: resource_server where
  "example_server =
     \<lparr>rs_issuer = ''https://as'', rs_audience = ''https://gw'', rs_keys = True, rs_leeway = 0,
      rs_revocations = Some \<lparr>rl_path = ''r'', rl_ids = [], rl_file = Missing\<rparr>, rs_require_jti = True\<rparr>"

lemma trim_space_eval:
  "trim_space ''token'' = ''token''" "trim_space ''alice'' = ''alice''" "trim_space ''t1'' = ''t1''"
  by (code_simp)+

lemma example_member:
  "str_member (claim_members example_claims) ''sub'' = ''alice''"
  "str_member (claim_members example_claims) ''jti'' = ''t1''"
  by (simp_all add: str_member_def member_def example_claims_def)

theorem validated_principal_witness:
  "callerKey (Some (claims_principal example_server example_claims)) = ''https://as#alice''"
proof -
  have v: "Validate example_parser example_server 900 ''token'' =
      (example_server, Inr (claims_principal example_server example_claims))"
    by (simp add: Validate_def Let_def example_parser_def rs_opts_def trim_space_eval example_member
        IsRevoked_def example_server_def)
  from validated_principal [OF v] obtain c where "c = example_claims"
    "callerKey (Some (claims_principal example_server example_claims)) =
      PrincipalKey (rs_issuer example_server) (str_member (claim_members c) ''sub'')"
    by (auto simp: example_parser_def trim_space_eval split: if_splits)
  then show ?thesis
    by (simp add: example_member example_server_def PrincipalKey_def escapeKeyPart_eq esc_def)
qed

text \<open>
  C34. The denylist does not cover the leeway window. \<open>Revoke\<close> records a token until
  the token's own expiry and \<open>IsRevoked\<close> forgets the entry from that instant on, while
  \<open>Validate\<close> lets the JWT library accept the token for the leeway (30 seconds by default)
  beyond it. A token that was revoked, and is refused at every instant before its expiry, is
  accepted again from its expiry until the leeway has passed.
\<close>

theorem revoked_token_revives_in_leeway:
  assumes "rs_keys rs" and "rs_revocations rs = Some l" and "rl_wf l" and "\<not> is_zero e"
    and jti: "trim_space (str_member (claim_members c) ''jti'') \<noteq> []"
    and sub: "trim_space (str_member (claim_members c) ''sub'') \<noteq> []"
    and "Revoke (Some l) now0 (str_member (claim_members c) ''jti'') e out = (Some l', None)"
    and raw: "trim_space raw \<noteq> []"
    and lib: "\<forall>t. t < e + opt_leeway (rs_opts rs) \<longrightarrow> P (rs_opts rs) t (trim_space raw) = Some c"
    and rs': "rs' = rs\<lparr>rs_revocations := Some l'\<rparr>"
  shows "(now < e \<longrightarrow> snd (Validate P rs' now raw) = Inl TokenRevoked) \<and>
    (e \<le> now \<and> now < e + opt_leeway (rs_opts rs) \<longrightarrow>
      snd (Validate P rs' now raw) = Inr (claims_principal rs c))"
proof -
  let ?jti = "str_member (claim_members c) ''jti''"
  have opts: "rs_opts rs' = rs_opts rs" and cp: "claims_principal rs' c = claims_principal rs c"
    using rs' by (simp_all add: rs_opts_def claims_principal_def)
  have leeway: "0 < opt_leeway (rs_opts rs)" by (simp add: rs_opts_def)
  from jti have ne: "?jti \<noteq> []" by auto
  have d: "denied ?jti e l'" using Revoke_ok [OF assms(3) ne assms(4,7)] by simp
  have ids: "map_of (rl_ids l') ?jti = Some e"
  proof -
    from assms(4,7) ne have "rl_ids l' = AList.update ?jti e (rl_ids (pruneLocked now0 l))"
      by (auto simp: Revoke_def Let_def split: prod.splits dest: arg_cong [of _ _ "\<lambda>x. rl_ids (fst x)"])
    then show ?thesis by (simp add: update_conv)
  qed
  have run: "Validate P rs' now raw = (let (revs, denied) = IsRevoked (Some l') now ?jti;
      rs'' = rs'\<lparr>rs_revocations := revs\<rparr>
      in if denied then (rs'', Inl TokenRevoked) else (rs'', Inr (claims_principal rs c)))"
    if "now < e + opt_leeway (rs_opts rs)" for now
    using assms(1) jti sub raw lib that rs' opts cp
    by (cases "IsRevoked (Some l') now ?jti") (simp add: Validate_def Let_def)
  have "snd (Validate P rs' now raw) = Inl TokenRevoked" if "now < e"
    using run [of now] IsRevoked_True [OF d that] leeway that by simp
  moreover have "snd (Validate P rs' now raw) = Inr (claims_principal rs c)"
    if "e \<le> now" "now < e + opt_leeway (rs_opts rs)"
    using run [OF that(2)] that(1) ids ne by (simp add: IsRevoked_def)
  ultimately show ?thesis by blast
qed

definition revoked_list :: revocation_list where
  "revoked_list = \<lparr>rl_path = ''r'', rl_ids = [(''t1'', 1000)], rl_file = Entries [(''t1'', 1000)]\<rparr>"

theorem revoked_token_revives_in_leeway_witness:
  "snd (Validate example_parser (example_server\<lparr>rs_revocations := Some revoked_list\<rparr>) 999 ''token'')
     = Inl TokenRevoked \<and>
   snd (Validate example_parser (example_server\<lparr>rs_revocations := Some revoked_list\<rparr>) 1005 ''token'')
     = Inr (claims_principal example_server example_claims)"
proof -
  let ?l = "\<lparr>rl_path = ''r'', rl_ids = [], rl_file = Missing\<rparr>"
  have rev: "Revoke (Some ?l) 500 (str_member (claim_members example_claims) ''jti'') 1000 Persisted =
      (Some revoked_list, None)"
    by (simp add: example_member Revoke_def is_zero_def persistLocked_def pruneLocked_def Let_def revoked_list_def)
  have leeway: "opt_leeway (rs_opts example_server) = 30 * second"
    by (simp add: rs_opts_def example_server_def)
  have keys: "rs_keys example_server" and rl: "rs_revocations example_server = Some ?l"
    and wf: "rl_wf ?l" and nz: "\<not> is_zero 1000"
    by (simp_all add: example_server_def rl_wf_def is_zero_def)
  have tok: "trim_space (str_member (claim_members example_claims) ''jti'') \<noteq> []"
    "trim_space (str_member (claim_members example_claims) ''sub'') \<noteq> []"
    "trim_space ''token'' \<noteq> []"
    by (simp_all add: example_member trim_space_eval)
  have lib: "\<forall>t. t < 1000 + opt_leeway (rs_opts example_server) \<longrightarrow>
      example_parser (rs_opts example_server) t (trim_space ''token'') = Some example_claims"
    by (simp add: example_parser_def trim_space_eval)
  note use = revoked_token_revives_in_leeway
    [where P = example_parser, OF keys rl wf nz tok(1,2) rev tok(3) lib refl]
  show ?thesis using use [of 999] use [of 1005] leeway by simp
qed

end
