(* ===== verification/Minimize.thy ===== *)
theory Minimize
  imports Json
begin

text \<open>
  Field minimization (\<open>src/internal/minimize/minimize.go\<close>): the pipeline of scanning modules,
  the store of placeholder bindings and the substitution that restores them on an outbound call.
  A module is a pure function of its input, as its interface demands; the WebAssembly modules
  themselves are arguments. The order \<open>sort.Slice\<close> gives to keys of equal length is left open:
  the sort is an argument.
\<close>

section \<open>Scanning\<close>

datatype direction = ToModel | ToUpstream

record scan_input =
  si_payload :: string
  si_upstream :: string
  si_tool :: string
  si_direction :: direction
  si_policy :: string
  si_salt :: string

record token =
  tk_placeholder :: string
  tk_value :: string
  tk_type :: string
  tk_path :: string

record alert =
  al_type :: string
  al_severity :: string
  al_path :: string
  al_note :: string

record scan_result =
  sn_transformed :: string
  sn_tokens :: "token list"
  sn_alerts :: "alert list"
  sn_protected :: int

record scan_module =
  md_name :: string
  md_scan :: "scan_input \<Rightarrow> (string, scan_result) result"

datatype scan_error = ModuleError string string

text \<open>The loop of \<open>Pipeline.Scan\<close>, with what it has accumulated.\<close>

definition add_report :: "scan_result \<Rightarrow> scan_result \<Rightarrow> scan_result" where
  "add_report acc r =
     \<lparr>sn_transformed = sn_transformed r, sn_tokens = sn_tokens acc @ sn_tokens r,
      sn_alerts = sn_alerts acc @ sn_alerts r, sn_protected = wrap64 (sn_protected acc + sn_protected r)\<rparr>"

fun scan_from :: "scan_module list \<Rightarrow> scan_input \<Rightarrow> scan_result \<Rightarrow> (scan_error, scan_result) result" where
  "scan_from [] inp acc = Inr acc"
| "scan_from (m # ms) inp acc =
     (case md_scan m (inp\<lparr>si_payload := sn_transformed acc\<rparr>) of
        Inl e \<Rightarrow> Inl (ModuleError (md_name m) e)
      | Inr r \<Rightarrow> scan_from ms inp (add_report acc r))"

definition pipeline_Scan :: "scan_module list \<Rightarrow> scan_input \<Rightarrow> (scan_error, scan_result) result" where
  "pipeline_Scan ms inp =
     scan_from ms inp \<lparr>sn_transformed = si_payload inp, sn_tokens = [], sn_alerts = [], sn_protected = 0\<rparr>"

section \<open>Placeholder bindings\<close>

record token_scope =
  tk_owner :: string
  tk_upstream :: string

type_synonym bindings = "(string \<times> string) list"
type_synonym token_store = "(string \<times> bindings) list"

definition NewMemTokenStore :: token_store where "NewMemTokenStore = []"

definition scopeKey :: "token_scope \<Rightarrow> string" where
  "scopeKey sc = tk_owner sc @ [CHR 0x00] @ tk_upstream sc"

definition bucket_of :: "token_store \<Rightarrow> token_scope \<Rightarrow> bindings" where
  "bucket_of s sc = (case map_of s (scopeKey sc) of None \<Rightarrow> [] | Some b \<Rightarrow> b)"

fun bind_tokens :: "token list \<Rightarrow> bindings \<Rightarrow> bindings" where
  "bind_tokens [] b = b"
| "bind_tokens (t # ts) b =
     bind_tokens ts (if tk_placeholder t \<noteq> [] then AList.update (tk_placeholder t) (tk_value t) b else b)"

definition tokens_Put :: "token_scope \<Rightarrow> token list \<Rightarrow> token_store \<Rightarrow> token_store" where
  "tokens_Put sc ts s = AList.update (scopeKey sc) (bind_tokens ts (bucket_of s sc)) s"

definition tokens_Resolve :: "token_store \<Rightarrow> token_scope \<Rightarrow> string \<Rightarrow> string option" where
  "tokens_Resolve s sc p = map_of (bucket_of s sc) p"

definition tokens_Snapshot :: "token_store \<Rightarrow> token_scope \<Rightarrow> bindings" where
  "tokens_Snapshot s sc = bucket_of s sc"

fun substitute :: "bindings \<Rightarrow> string list \<Rightarrow> string \<Rightarrow> string" where
  "substitute b [] s = s"
| "substitute b (k # ks) s =
     substitute b ks (if k \<noteq> [] \<and> contains_sub s k
       then replace_all k (case map_of b k of None \<Rightarrow> [] | Some v \<Rightarrow> v) s else s)"

text \<open>\<open>order\<close> is what \<open>sort.Slice\<close> makes of the keys, longest first.\<close>

definition ResolvePlaceholders :: "(string list \<Rightarrow> string list) \<Rightarrow> string \<Rightarrow> bindings \<Rightarrow> string" where
  "ResolvePlaceholders order payload b =
     (if b = [] then payload else substitute b (order (map fst b)) payload)"

section \<open>The pass in the proxy path\<close>

text \<open>
  \<open>src/internal/mcp/minimizehook.go\<close>: what the server holds of minimization, and the JSON
  encoding of a result envelope (a \<open>map[string]any\<close>), as arguments.
\<close>

type_synonym envelope = "(string \<times> json) list"

record min_state =
  mz_module :: "(scan_input \<Rightarrow> (scan_error, scan_result) result) option"
  mz_tokens :: "token_store option"
  mz_salt :: string
  mz_policies :: "(string \<times> string) list"
  mz_secure_default :: bool

record json_lib =
  js_marshal :: "envelope \<Rightarrow> string option"
  js_unmarshal :: "string \<Rightarrow> envelope option"

datatype min_error = MarshalError | ScanFailed scan_error | BrokenEnvelope

definition SetMinimizePolicy :: "string \<Rightarrow> string option \<Rightarrow> min_state \<Rightarrow> min_state" where
  "SetMinimizePolicy upstream policy st =
     (case policy of
        None \<Rightarrow> st\<lparr>mz_policies := AList.delete upstream (mz_policies st)\<rparr>
      | Some p \<Rightarrow> st\<lparr>mz_policies := AList.update upstream p (mz_policies st)\<rparr>)"

text \<open>\<open>defaultMinimizePolicy\<close>, with its keys in the order \<open>json.Marshal\<close> writes them.\<close>

definition defaultMinimizePolicy :: "(string \<times> string) list" where
  "defaultMinimizePolicy =
     [(''account'', ''tokenize''), (''address'', ''redact''), (''card'', ''tokenize''), (''dob'', ''redact''),
      (''email'', ''redact''), (''health'', ''redact''), (''name'', ''redact''), (''phone'', ''redact''),
      (''secret'', ''redact''), (''ssn'', ''redact'')]"

definition quoted :: "string \<Rightarrow> string" where
  "quoted s = [CHR 0x22] @ s @ [CHR 0x22]"

definition defaultMinimizePolicyJSON :: string where
  "defaultMinimizePolicyJSON =
     ''{'' @ join_with '','' (map (\<lambda>(k, v). quoted k @ '':'' @ quoted v) defaultMinimizePolicy) @ ''}''"

definition minimizePolicyFor :: "min_state \<Rightarrow> string \<Rightarrow> string" where
  "minimizePolicyFor st upstream =
     (case map_of (mz_policies st) upstream of
        Some raw \<Rightarrow> raw
      | None \<Rightarrow> if mz_secure_default st then defaultMinimizePolicyJSON else [])"

definition minimizeActive :: "min_state \<Rightarrow> string \<Rightarrow> bool" where
  "minimizeActive st upstream \<longleftrightarrow> mz_module st \<noteq> None \<and> length (minimizePolicyFor st upstream) > length ''{}''"

definition resolveOutbound ::
    "(string list \<Rightarrow> string list) \<Rightarrow> min_state \<Rightarrow> string \<Rightarrow> string \<Rightarrow> string \<Rightarrow> string" where
  "resolveOutbound order st caller upstream args =
     (case mz_tokens st of None \<Rightarrow> args
      | Some tokens \<Rightarrow>
          if args = [] then args
          else ResolvePlaceholders order args
                 (tokens_Snapshot tokens \<lparr>tk_owner = caller, tk_upstream = upstream\<rparr>))"

definition persist_tokens :: "string \<Rightarrow> string \<Rightarrow> token list \<Rightarrow> min_state \<Rightarrow> min_state" where
  "persist_tokens caller upstream ts st =
     (case mz_tokens st of None \<Rightarrow> st
      | Some tokens \<Rightarrow>
          if ts = [] then st
          else st\<lparr>mz_tokens := Some (tokens_Put \<lparr>tk_owner = caller, tk_upstream = upstream\<rparr> ts tokens)\<rparr>)"

definition scrub_input :: "min_state \<Rightarrow> string \<Rightarrow> string \<Rightarrow> string \<Rightarrow> scan_input" where
  "scrub_input st upstream tool raw =
     \<lparr>si_payload = raw, si_upstream = upstream, si_tool = tool, si_direction = ToModel,
      si_policy = minimizePolicyFor st upstream, si_salt = mz_salt st\<rparr>"

definition scrubInbound ::
    "json_lib \<Rightarrow> min_state \<Rightarrow> string \<Rightarrow> string \<Rightarrow> string \<Rightarrow> envelope \<Rightarrow>
     min_state \<times> (min_error, envelope \<times> alert list \<times> int) result" where
  "scrubInbound J st caller upstream tool result =
     (case mz_module st of None \<Rightarrow> (st, Inr (result, [], 0))
      | Some scan \<Rightarrow>
      if \<not> minimizeActive st upstream then (st, Inr (result, [], 0))
      else case js_marshal J result of None \<Rightarrow> (st, Inl MarshalError)
      | Some raw \<Rightarrow>
          (case scan (scrub_input st upstream tool raw) of
             Inl e \<Rightarrow> (st, Inl (ScanFailed e))
           | Inr out \<Rightarrow>
               let st = persist_tokens caller upstream (sn_tokens out) st
               in case js_unmarshal J (sn_transformed out) of None \<Rightarrow> (st, Inl BrokenEnvelope)
                  | Some scrubbed \<Rightarrow> (st, Inr (scrubbed, sn_alerts out, sn_protected out))))"

text \<open>\<open>minimizeAlertEvents\<close>: the events an audit record carries, as (event, host, reason).\<close>

record audit_event =
  ae_event :: string
  ae_host :: string
  ae_reason :: string

definition minimizeAlertEvents :: "alert list \<Rightarrow> audit_event list" where
  "minimizeAlertEvents alerts =
     map (\<lambda>a. \<lparr>ae_event = ''minimize_alert'', ae_host = [],
            ae_reason = (if al_note a = [] then al_type a else al_type a @ '': '' @ al_note a)\<rparr>) alerts"

section \<open>The pipeline fails closed\<close>

text \<open>Each module sees what the one before it left; the reports accumulate in order.\<close>

inductive scanned :: "scan_module list \<Rightarrow> scan_input \<Rightarrow> string \<Rightarrow> scan_result list \<Rightarrow> string \<Rightarrow> bool" where
  Nil: "scanned [] inp p [] p"
| Cons: "md_scan m (inp\<lparr>si_payload := p\<rparr>) = Inr r \<Longrightarrow> scanned ms inp (sn_transformed r) rs q \<Longrightarrow>
    scanned (m # ms) inp p (r # rs) q"

inductive_cases scanned_ConsE: "scanned (m # ms) inp p rs q"
inductive_cases scanned_NilE: "scanned [] inp p rs q"

lemma add_report_transformed [simp]: "sn_transformed (add_report acc r) = sn_transformed r"
  by (simp add: add_report_def)

lemma scanned_ok: "scanned ms inp p rs q \<Longrightarrow> sn_transformed acc = p \<Longrightarrow> scan_from ms inp acc = Inr (foldl add_report acc rs)"
  by (induction arbitrary: acc rule: scanned.induct) auto

lemma scanned_transformed: "scanned ms inp p rs q \<Longrightarrow> sn_transformed acc = p \<Longrightarrow> sn_transformed (foldl add_report acc rs) = q"
  by (induction arbitrary: acc rule: scanned.induct) auto

lemma scan_from_ok: "scan_from ms inp acc = Inr out \<Longrightarrow> \<exists>rs q. scanned ms inp (sn_transformed acc) rs q"
proof (induction ms arbitrary: acc)
  case Nil
  show ?case by (blast intro: scanned.Nil)
next
  case (Cons m ms)
  then obtain r where r: "md_scan m (inp\<lparr>si_payload := sn_transformed acc\<rparr>) = Inr r"
    and "scan_from ms inp (add_report acc r) = Inr out" by (auto split: sum.splits)
  with Cons.IH obtain rs q where "scanned ms inp (sn_transformed r) rs q" by fastforce
  with r show ?case by (blast intro: scanned.Cons)
qed

lemma add_reports_tokens: "sn_tokens (foldl add_report acc rs) = sn_tokens acc @ concat (map sn_tokens rs)"
  by (induction rs arbitrary: acc) (simp_all add: add_report_def)

lemma add_reports_alerts: "sn_alerts (foldl add_report acc rs) = sn_alerts acc @ concat (map sn_alerts rs)"
  by (induction rs arbitrary: acc) (simp_all add: add_report_def)

lemma scan_from_failed:
  "scan_from ms inp acc = Inl e \<Longrightarrow>
   \<exists>before m after rs q msg. ms = before @ m # after \<and> scanned before inp (sn_transformed acc) rs q \<and>
     md_scan m (inp\<lparr>si_payload := q\<rparr>) = Inl msg \<and> e = ModuleError (md_name m) msg"
proof (induction ms arbitrary: acc)
  case (Cons m ms)
  show ?case
  proof (cases "md_scan m (inp\<lparr>si_payload := sn_transformed acc\<rparr>)")
    case (Inl msg)
    then have "m # ms = [] @ m # ms \<and> scanned [] inp (sn_transformed acc) [] (sn_transformed acc) \<and>
      md_scan m (inp\<lparr>si_payload := sn_transformed acc\<rparr>) = Inl msg \<and> e = ModuleError (md_name m) msg"
      using Cons.prems by (auto intro: scanned.Nil)
    then show ?thesis by blast
  next
    case (Inr r)
    then obtain before m' after rs q msg where "ms = before @ m' # after"
      and "scanned before inp (sn_transformed r) rs q"
      and "md_scan m' (inp\<lparr>si_payload := q\<rparr>) = Inl msg" "e = ModuleError (md_name m') msg"
      using Cons.IH [of "add_report acc r"] Cons.prems by auto
    then have "m # ms = (m # before) @ m' # after \<and> scanned (m # before) inp (sn_transformed acc) (r # rs) q \<and>
      md_scan m' (inp\<lparr>si_payload := q\<rparr>) = Inl msg \<and> e = ModuleError (md_name m') msg"
      using Inr by (auto intro: scanned.Cons)
    then show ?thesis by blast
  qed
qed simp

section \<open>Placeholders stay in their scope\<close>

abbreviation nul_free :: "string \<Rightarrow> bool" where
  "nul_free s \<equiv> CHR 0x00 \<notin> set s"

lemma scopeKey_inj:
  assumes "scopeKey a = scopeKey b" and "nul_free (tk_owner a)" and "nul_free (tk_owner b)"
  shows "a = b"
  using assms sep_unique [of "tk_owner a" "CHR 0x00" "tk_upstream a" "tk_owner b" "tk_upstream b"]
  by (simp add: scopeKey_def)

lemma bucket_of_Put:
  assumes "nul_free (tk_owner sc)" and "nul_free (tk_owner sc')"
  shows "bucket_of (tokens_Put sc' ts s) sc = (if sc' = sc then bind_tokens ts (bucket_of s sc) else bucket_of s sc)"
  using scopeKey_inj [of sc sc'] assms by (auto simp: bucket_of_def tokens_Put_def update_conv)

abbreviation put_all :: "(token_scope \<times> token list) list \<Rightarrow> token_store \<Rightarrow> token_store" where
  "put_all puts s \<equiv> foldl (\<lambda>s (sc, ts). tokens_Put sc ts s) s puts"

lemma bucket_of_puts:
  assumes "nul_free (tk_owner sc)" and "\<forall>(sc', ts) \<in> set puts. nul_free (tk_owner sc')"
  shows "bucket_of (put_all puts s) sc = foldl (\<lambda>b (sc', ts). bind_tokens ts b) (bucket_of s sc)
    (filter (\<lambda>(sc', ts). sc' = sc) puts)"
  using assms(2) by (induction puts arbitrary: s) (auto simp: bucket_of_Put assms(1))

lemma map_of_bind_tokens:
  "map_of (bind_tokens ts b) p = Some v \<Longrightarrow>
   map_of b p = Some v \<or> (\<exists>t \<in> set ts. tk_placeholder t = p \<and> tk_value t = v \<and> p \<noteq> [])"
  by (induction ts arbitrary: b) (fastforce simp: update_conv split: if_splits)+

lemma bound_values:
  "map_of (foldl (\<lambda>b (sc', ts). bind_tokens ts b) b puts) p = Some v \<Longrightarrow>
   map_of b p = Some v \<or> (\<exists>(sc', ts) \<in> set puts. \<exists>t \<in> set ts. tk_placeholder t = p \<and> tk_value t = v)"
proof (induction puts arbitrary: b)
  case (Cons x puts)
  then show ?case by (cases x) (auto dest!: Cons.IH map_of_bind_tokens)
qed simp

lemma distinct_bind_tokens: "distinct (map fst b) \<Longrightarrow> distinct (map fst (bind_tokens ts b))"
  by (induction ts arbitrary: b) (auto intro: distinct_update)

lemma bind_tokens_nonempty_keys: "[] \<notin> fst ` set b \<Longrightarrow> [] \<notin> fst ` set (bind_tokens ts b)"
  by (induction ts arbitrary: b) (auto simp: dom_update)

section \<open>Restoring placeholders\<close>

lemma substitute_absent: "\<forall>k \<in> set ks. \<not> contains_sub s k \<Longrightarrow> substitute b ks s = s"
  by (induction ks) auto

text \<open>A placeholder as the modules write them: bracketed, with no bracket inside.\<close>

definition bracketed :: "string \<Rightarrow> bool" where
  "bracketed k \<longleftrightarrow> (\<exists>body. k = ''<'' @ body @ ''>'' \<and> CHR ''<'' \<notin> set body \<and> CHR ''>'' \<notin> set body)"

text \<open>A text in which placeholders stand between pieces of plain text.\<close>

datatype piece = Plain string | Held string

fun piece_text :: "(string \<Rightarrow> string) \<Rightarrow> piece \<Rightarrow> string" where
  "piece_text f (Plain s) = s"
| "piece_text f (Held k) = f k"

definition text_of :: "(string \<Rightarrow> string) \<Rightarrow> piece list \<Rightarrow> string" where
  "text_of f ps = concat (map (piece_text f) ps)"

lemma bracketed_prefix:
  assumes "bracketed k" and "bracketed k'" and "has_prefix (k' @ s) k"
  shows "k' = k"
proof -
  obtain b b' r where k: "k = ''<'' @ b @ ''>''" "CHR ''>'' \<notin> set b"
    and k': "k' = ''<'' @ b' @ ''>''" "CHR ''>'' \<notin> set b'" and "k' @ s = k @ r"
    using assms by (auto simp: bracketed_def has_prefix_iff)
  then have "b' @ CHR ''>'' # s = b @ CHR ''>'' # r" by simp
  then show ?thesis using sep_unique [of b' "CHR ''>''" s b r] k k' by simp
qed

lemma replace_plain:
  assumes "bracketed k" and "CHR ''<'' \<notin> set w"
  shows "replace_all k v (w @ s) = w @ replace_all k v s"
  using assms(2)
proof (induction w)
  case (Cons c w)
  then have "\<not> has_prefix (c # w @ s) k" using assms(1) by (auto simp: bracketed_def)
  with Cons show ?case by simp
qed simp

lemma replace_other:
  assumes "bracketed k" and "bracketed k'" and "k' \<noteq> k"
  shows "replace_all k v (k' @ s) = k' @ replace_all k v s"
proof -
  obtain body where k': "k' = ''<'' @ body @ ''>''" "CHR ''<'' \<notin> set body"
    using assms(2) by (auto simp: bracketed_def)
  have "\<not> has_prefix (k' @ s) k" using bracketed_prefix assms by blast
  then have "replace_all k v (k' @ s) = ''<'' @ replace_all k v ((body @ ''>'') @ s)"
    by (simp add: k')
  also have "\<dots> = k' @ replace_all k v s"
    using k' by (subst replace_plain [OF assms(1)]) auto
  finally show ?thesis .
qed

lemma replace_same:
  assumes "bracketed k"
  shows "replace_all k v (k @ s) = v @ replace_all k v s"
proof -
  obtain c k' where "k = c # k'" using assms by (auto simp: bracketed_def)
  then show ?thesis by (simp add: has_prefix_def)
qed

text \<open>Where nothing that was substituted holds a bracket, one round replaces one placeholder.\<close>

lemma replace_round:
  assumes "bracketed k" and "CHR ''<'' \<notin> set v"
    and "\<forall>w. Plain w \<in> set ps \<longrightarrow> CHR ''<'' \<notin> set w"
    and "\<forall>k'. Held k' \<in> set ps \<longrightarrow> bracketed k' \<and> (f k' = k' \<or> CHR ''<'' \<notin> set (f k'))"
    and "f k = k"
  shows "replace_all k v (text_of f ps) = text_of (f(k := v)) ps"
  using assms(3,4)
proof (induction ps)
  case Nil
  show ?case by (simp add: text_of_def del: fun_upd_apply)
next
  case (Cons p ps)
  then have IH: "replace_all k v (text_of f ps) = text_of (f(k := v)) ps" by (meson list.set_intros(2))
  show ?case
  proof (cases p)
    case (Plain w)
    then show ?thesis using Cons.prems IH replace_plain [OF assms(1)] by (simp add: text_of_def del: fun_upd_apply)
  next
    case (Held k')
    then have k': "bracketed k'" "f k' = k' \<or> CHR ''<'' \<notin> set (f k')" using Cons.prems by auto
    consider "k' = k" | "k' \<noteq> k" "f k' = k'" | "k' \<noteq> k" "CHR ''<'' \<notin> set (f k')" using k' by blast
    then show ?thesis
    proof cases
      case 1
      then show ?thesis using Held IH assms(5) replace_same [OF assms(1)]
        by (simp add: text_of_def fun_upd_same del: fun_upd_apply)
    next
      case 2
      then show ?thesis using Held IH k' replace_other [OF assms(1)]
        by (simp add: text_of_def fun_upd_other del: fun_upd_apply)
    next
      case 3
      then show ?thesis using Held IH replace_plain [OF assms(1)]
        by (simp add: text_of_def fun_upd_other del: fun_upd_apply)
    qed
  qed
qed

lemma replace_absent: "\<not> contains_sub s k \<Longrightarrow> replace_all k v s = s"
  by (induction s) auto

definition restored :: "bindings \<Rightarrow> string list \<Rightarrow> string \<Rightarrow> string" where
  "restored b ks k = (if k \<in> set ks then (case map_of b k of None \<Rightarrow> [] | Some v \<Rightarrow> v) else k)"

lemma restored_snoc:
  "restored b (ks @ [k]) = (restored b ks)(k := (case map_of b k of None \<Rightarrow> [] | Some v \<Rightarrow> v))"
  by (auto simp: restored_def fun_eq_iff)

lemma substitute_snoc:
  "substitute b (ks @ [k]) s = (let t = substitute b ks s in if k \<noteq> [] \<and> contains_sub t k
     then replace_all k (case map_of b k of None \<Rightarrow> [] | Some v \<Rightarrow> v) t else t)"
  by (induction ks arbitrary: s) (auto simp: Let_def)

text \<open>
  Every placeholder of the text is restored, whatever the order of the substitutions, when
  neither the values nor the plain text hold a bracket.
\<close>

lemma substitute_restores:
  assumes "distinct ks" and "\<forall>k \<in> set ks. bracketed k"
    and "\<forall>v \<in> snd ` set b. CHR ''<'' \<notin> set v"
    and "\<forall>w. Plain w \<in> set ps \<longrightarrow> CHR ''<'' \<notin> set w" and "\<forall>k. Held k \<in> set ps \<longrightarrow> bracketed k"
  shows "substitute b ks (text_of (\<lambda>k. k) ps) = text_of (restored b ks) ps"
  using assms(1,2)
proof (induction ks rule: rev_induct)
  case Nil
  have "restored b [] = (\<lambda>k. k)" by (simp add: restored_def fun_eq_iff)
  then show ?case by simp
next
  case (snoc k ks)
  let ?v = "case map_of b k of None \<Rightarrow> [] | Some v \<Rightarrow> v"
  have free: "CHR ''<'' \<notin> set (case map_of b k of None \<Rightarrow> [] | Some v \<Rightarrow> v)" for k
    using assms(3) by (cases "map_of b k") (auto dest!: map_of_SomeD)
  have IH: "substitute b ks (text_of (\<lambda>k. k) ps) = text_of (restored b ks) ps" using snoc by simp
  have "k \<notin> set ks" and "bracketed k" using snoc.prems by auto
  then have round: "replace_all k ?v (text_of (restored b ks) ps) = text_of (restored b (ks @ [k])) ps"
    unfolding restored_snoc using free assms(4,5)
    by (intro replace_round) (auto simp: restored_def)
  have "k \<noteq> []" using \<open>bracketed k\<close> by (auto simp: bracketed_def)
  then show ?case
    using round replace_absent by (auto simp: substitute_snoc IH Let_def)
qed

section \<open>Properties\<close>


definition example_json :: json_lib where
  "example_json = \<lparr>js_marshal = (\<lambda>ms. Some (str_member ms ''text'')), js_unmarshal = (\<lambda>s. Some [(''text'', JStr s)])\<rparr>"

definition redactor :: scan_module where
  "redactor = \<lparr>md_name = ''redact'', md_scan = (\<lambda>inp. if si_policy inp = [] then Inl ''no policy''
     else Inr \<lparr>sn_transformed = replace_all ''4111'' ''<mtok_1>'' (si_payload inp),
       sn_tokens = [\<lparr>tk_placeholder = ''<mtok_1>'', tk_value = ''4111'', tk_type = ''card'', tk_path = []\<rparr>],
       sn_alerts = [], sn_protected = 1\<rparr>)\<rparr>"

definition example_min :: min_state where
  "example_min = \<lparr>mz_module = Some (pipeline_Scan [redactor]), mz_tokens = Some NewMemTokenStore, mz_salt = [],
     mz_policies = [], mz_secure_default = True\<rparr>"

lemma default_policy_protects: "length ''{}'' < length defaultMinimizePolicyJSON"
  by code_simp

lemma example_min_active: "minimizeActive example_min u"
  using default_policy_protects by (simp add: minimizeActive_def example_min_def minimizePolicyFor_def)


text \<open>
  C39. A placeholder is inert outside its scope. Whatever bindings the store has taken, for
  whatever callers and upstreams, the arguments one caller sends to one upstream are resolved as
  if only the bindings stored for that caller and that upstream existed; what a placeholder
  resolves to was bound to it there. (Caller keys hold no NUL byte.)
\<close>

theorem placeholders_scoped:
  assumes "nul_free caller" and "\<forall>(sc, ts) \<in> set puts. nul_free (tk_owner sc)"
    and "own = filter (\<lambda>(sc, ts). sc = \<lparr>tk_owner = caller, tk_upstream = upstream\<rparr>) puts"
  shows "resolveOutbound order (st\<lparr>mz_tokens := Some (put_all puts NewMemTokenStore)\<rparr>) caller upstream args =
      resolveOutbound order (st\<lparr>mz_tokens := Some (put_all own NewMemTokenStore)\<rparr>) caller upstream args \<and>
    (\<forall>p v. tokens_Resolve (put_all puts NewMemTokenStore) \<lparr>tk_owner = caller, tk_upstream = upstream\<rparr> p = Some v \<longrightarrow>
      (\<exists>(sc, ts) \<in> set own. \<exists>t \<in> set ts. tk_placeholder t = p \<and> tk_value t = v))"
proof -
  let ?sc = "\<lparr>tk_owner = caller, tk_upstream = upstream\<rparr>"
  have all: "bucket_of (put_all puts NewMemTokenStore) ?sc =
      foldl (\<lambda>b (sc', ts). bind_tokens ts b) (bucket_of NewMemTokenStore ?sc) own"
    using bucket_of_puts [of ?sc puts] assms by simp
  have own: "bucket_of (put_all own NewMemTokenStore) ?sc =
      foldl (\<lambda>b (sc', ts). bind_tokens ts b) (bucket_of NewMemTokenStore ?sc) own"
    using bucket_of_puts [of ?sc own] assms by auto
  show ?thesis
    using bound_values [of "bucket_of NewMemTokenStore ?sc" own]
    by (simp add: resolveOutbound_def tokens_Snapshot_def tokens_Resolve_def all own)
      (simp add: bucket_of_def NewMemTokenStore_def)
qed

definition example_puts :: "(token_scope \<times> token list) list" where
  "example_puts =
     [(\<lparr>tk_owner = ''a'', tk_upstream = ''pay''\<rparr>,
       [\<lparr>tk_placeholder = ''<mtok_1>'', tk_value = ''4111'', tk_type = ''card'', tk_path = []\<rparr>])]"

theorem placeholders_scoped_witness:
  "resolveOutbound id (example_min\<lparr>mz_tokens := Some (put_all example_puts NewMemTokenStore)\<rparr>) ''a'' ''evil'' ''<mtok_1>'' =
     ''<mtok_1>'' \<and>
   resolveOutbound id (example_min\<lparr>mz_tokens := Some (put_all example_puts NewMemTokenStore)\<rparr>) ''a'' ''pay'' ''<mtok_1>'' =
     ''4111''"
proof
  have "resolveOutbound id (example_min\<lparr>mz_tokens := Some (put_all example_puts NewMemTokenStore)\<rparr>) ''a'' ''evil'' ''<mtok_1>'' =
    resolveOutbound id (example_min\<lparr>mz_tokens := Some (put_all [] NewMemTokenStore)\<rparr>) ''a'' ''evil'' ''<mtok_1>''"
    using placeholders_scoped [of "''a''" example_puts "[]" "''evil''" id example_min "''<mtok_1>''"]
    by (simp add: example_puts_def)
  then show "resolveOutbound id (example_min\<lparr>mz_tokens := Some (put_all example_puts NewMemTokenStore)\<rparr>) ''a'' ''evil'' ''<mtok_1>'' = ''<mtok_1>''"
    by (simp add: resolveOutbound_def tokens_Snapshot_def bucket_of_def NewMemTokenStore_def ResolvePlaceholders_def)
qed code_simp

text \<open>
  Placeholders round trip. A tokenizing module replaces values by placeholders \<open><...>\<close>
  and the bindings are stored for the caller and the upstream; when the model sends a text back in
  which such placeholders stand, each one bound for this caller and upstream is replaced by its
  value and every other is left as it is, whatever order the keys are substituted in, provided the
  bound values and the text around the placeholders hold no \<open><\<close>.
\<close>

theorem placeholders_restored:
  assumes "mz_tokens st = Some tokens" and "b = tokens_Snapshot tokens \<lparr>tk_owner = caller, tk_upstream = upstream\<rparr>"
    and "distinct (map fst b)" and "mset (order (map fst b)) = mset (map fst b)"
    and "\<forall>(k, v) \<in> set b. bracketed k \<and> CHR ''<'' \<notin> set v"
    and "\<forall>w. Plain w \<in> set ps \<longrightarrow> CHR ''<'' \<notin> set w" and "\<forall>k. Held k \<in> set ps \<longrightarrow> bracketed k"
  shows "resolveOutbound order st caller upstream (text_of (\<lambda>k. k) ps) =
    text_of (\<lambda>k. case map_of b k of None \<Rightarrow> k | Some v \<Rightarrow> v) ps"
proof -
  have keys: "set (order (map fst b)) = fst ` set b" "distinct (order (map fst b))"
    using assms(3,4) by (metis mset_eq_setD set_map, metis mset_eq_imp_distinct_iff)
  have "substitute b (order (map fst b)) (text_of (\<lambda>k. k) ps) = text_of (restored b (order (map fst b))) ps"
    using assms(5-7) keys by (intro substitute_restores) auto
  moreover have "restored b (order (map fst b)) = (\<lambda>k. case map_of b k of None \<Rightarrow> k | Some v \<Rightarrow> v)"
    by (auto simp: restored_def fun_eq_iff keys map_of_eq_None_iff split: option.splits)
      (metis map_of_eq_None_iff option.distinct(1))
  ultimately have "ResolvePlaceholders order (text_of (\<lambda>k. k) ps) b = text_of (\<lambda>k. case map_of b k of None \<Rightarrow> k | Some v \<Rightarrow> v) ps"
    by (auto simp: ResolvePlaceholders_def)
  moreover have "text_of (\<lambda>k. case map_of b k of None \<Rightarrow> k | Some v \<Rightarrow> v) ps = []" if "text_of (\<lambda>k. k) ps = []"
  proof -
    have "piece_text (\<lambda>k. case map_of b k of None \<Rightarrow> k | Some v \<Rightarrow> v) p = []" if "p \<in> set ps" for p
    proof (cases p)
      case (Held k)
      then have "k = []" and "bracketed k"
        using that \<open>text_of (\<lambda>k. k) ps = []\<close> assms(7) by (auto simp: text_of_def)
      then show ?thesis by (simp add: bracketed_def)
    qed (use that \<open>text_of (\<lambda>k. k) ps = []\<close> in \<open>auto simp: text_of_def\<close>)
    then show ?thesis by (simp add: text_of_def)
  qed
  ultimately show ?thesis using assms(1,2) by (auto simp: resolveOutbound_def)
qed

definition example_pieces :: "piece list" where
  "example_pieces = [Plain ''card='', Held ''<mtok_1>'', Plain ''&x='', Held ''<mtok_9>'']"

theorem placeholders_restored_witness:
  "resolveOutbound id (example_min\<lparr>mz_tokens := Some (put_all example_puts NewMemTokenStore)\<rparr>) ''a'' ''pay''
     (text_of (\<lambda>k. k) example_pieces) = ''card=4111&x=<mtok_9>''"
proof -
  let ?b = "[(''<mtok_1>'', ''4111'')]"
  have b: "tokens_Snapshot (put_all example_puts NewMemTokenStore) \<lparr>tk_owner = ''a'', tk_upstream = ''pay''\<rparr> = ?b"
    by code_simp
  have "bracketed ''<mtok_1>''" and "bracketed ''<mtok_9>''"
    unfolding bracketed_def by (rule exI [of _ "''mtok_1''"], simp, rule exI [of _ "''mtok_9''"], simp)
  then have "resolveOutbound id (example_min\<lparr>mz_tokens := Some (put_all example_puts NewMemTokenStore)\<rparr>) ''a'' ''pay''
     (text_of (\<lambda>k. k) example_pieces) = text_of (\<lambda>k. case map_of ?b k of None \<Rightarrow> k | Some v \<Rightarrow> v) example_pieces"
    by (intro placeholders_restored [OF _ b [symmetric]]) (auto simp: example_pieces_def)
  then show ?thesis by (simp add: example_pieces_def text_of_def)
qed

end
