(* ===== verification/Grant.thy ===== *)
theory Grant
  imports Identity
begin

text \<open>
  Operation grants (\<open>src/internal/mcp/grant.go\<close>): the grant document, its validation when
  an operator installs it, and its evaluation against one call. JSON texts enter decoded, as
  the tree of their tokens (\<^typ>\<open>json\<close>, which keeps repeated keys). The library functions
  whose inner workings the grant code does not rely on are collected in \<open>go_lib\<close>: URL
  parsing, IP literals, regular expressions, Unicode lower case, RFC 3339 times, SHA-256 and
  the JSON encoding of a grant. Everything else is computed here.
\<close>

section \<open>Documents\<close>

record argument_grant =
  ag_pointer :: string
  ag_required :: bool
  ag_values :: "string list"
  ag_pattern :: string
  ag_max_bytes :: int
  ag_url_target :: string

record resource_grant =
  rg_kind :: string
  rg_namespace :: string
  rg_argument :: string
  rg_value :: string
  rg_shared_writable :: bool

record url_target_grant =
  ut_id :: string
  ut_origins :: "string list"
  ut_paths :: "string list"
  ut_query :: "(string \<times> string list) list"
  ut_redirect :: bool

record rate_grant =
  rate_requests :: int
  rate_window_s :: int

record operation_grant =
  og_version :: string
  og_id :: string
  og_connection :: string
  og_tool :: string
  og_effect :: string
  og_principal :: string
  og_campaign :: string
  og_expires_at :: string
  og_arguments :: "argument_grant list"
  og_resources :: "resource_grant list"
  og_url_targets :: "url_target_grant list"
  og_max_requests :: int
  og_max_bytes :: int
  og_max_response_bytes :: int
  og_rate :: rate_grant
  og_metadata :: "(string \<times> string) list"
  og_allow_shared :: bool
  og_high_assurance :: bool

record evaluated_grant =
  eg_grant :: operation_grant
  eg_digest :: string
  eg_resource_ids :: "string list"
  eg_shared_writable :: "string list"

definition grantVersion :: string where "grantVersion = ''microagency.grant/v1''"
definition effectRead :: string where "effectRead = ''read''"
definition effectWrite :: string where "effectWrite = ''write''"
definition maxGrantEntries :: nat where "maxGrantEntries = 256"
definition maxGrantRequests :: int where "maxGrantRequests = 1000000"
definition maxGrantBytes :: int where "maxGrantBytes = 2 ^ 40"
definition maxGrantRateWindow :: int where "maxGrantRateWindow = 365 * 24 * 60 * 60"

text \<open>What \<open>url.Parse\<close> returns, with its accessor methods.\<close>

record url =
  u_scheme :: string
  u_host :: string
  u_user :: bool
  u_path :: string
  u_raw_path :: string
  u_escaped_path :: string
  u_raw_query :: string
  u_fragment :: string
  u_hostname :: string
  u_port :: string

record go_lib =
  url_parse :: "string \<Rightarrow> url option"
  is_ip_literal :: "string \<Rightarrow> bool"
  re_compiles :: "string \<Rightarrow> bool"
  re_matches :: "string \<Rightarrow> string \<Rightarrow> bool"
  to_lower :: "string \<Rightarrow> string"
  parse_rfc3339 :: "string \<Rightarrow> time option"
  sha256 :: "string \<Rightarrow> string"
  marshal_grant :: "operation_grant \<Rightarrow> string option"

datatype grant_error =
    BadVersion
  | MissingIdentity
  | ConnectionMismatch
  | BadEffect
  | MissingOwnership
  | BadPrincipal key_error
  | BadExpiry
  | NonPositiveBudget
  | BudgetOutOfRange
  | TooManyEntries
  | BadPointer string
  | BadPointerEscape string
  | DuplicatePointer nat string
  | Unconstrained nat
  | PatternNeedsMaxBytes nat
  | PatternInvalid nat
  | BadTarget nat
  | BadOrigin string
  | OriginIsIp string
  | HostNotExternal
  | BadDnsLabel
  | BadPathPrefix nat
  | EmptyQueryKey nat
  | UnknownTarget nat string
  | BadResource nat
  | DuplicateResource nat
  | NotOwner
  | NotGranted
  | Expired
  | ArgsInvalid
  | DuplicateKey string
  | Ungoverned
  | RequiredAbsent
  | UnsupportedValue
  | OverByteBound
  | NotAllowlisted
  | PatternMismatch
  | UrlNotGranted
  | UrlOutsideDestination
  | UrlNotHttps
  | UrlIsIp
  | UrlPathForm
  | UrlOriginNotGranted
  | UrlPathNotGranted
  | UrlQueryNotGranted
  | ResourceAbsent
  | ResourceNotScalar
  | DigestFailed

section \<open>Pointers and hosts\<close>

fun bad_escape :: "string \<Rightarrow> bool" where
  "bad_escape [] = False"
| "bad_escape [c] = (c = CHR ''~'')"
| "bad_escape (c # d # s) =
     ((c = CHR ''~'' \<and> d \<noteq> CHR ''0'' \<and> d \<noteq> CHR ''1'') \<or> bad_escape (d # s))"

definition validatePointer :: "string \<Rightarrow> grant_error option" where
  "validatePointer p =
     (if p = [] \<or> \<not> has_prefix p ''/'' \<or> contains_sub p ''//'' then Some (BadPointer p)
      else if list_ex bad_escape (split_on (CHR ''/'') (trim_prefix p ''/''))
      then Some (BadPointerEscape p) else None)"

definition dns_char :: "char \<Rightarrow> bool" where
  "dns_char c \<longleftrightarrow> (CHR ''a'' \<le> c \<and> c \<le> CHR ''z'') \<or> (CHR ''0'' \<le> c \<and> c \<le> CHR ''9'') \<or> c = CHR ''-''"

definition dns_label_ok :: "string \<Rightarrow> bool" where
  "dns_label_ok l \<longleftrightarrow>
     l \<noteq> [] \<and> length l \<le> 63 \<and> hd l \<noteq> CHR ''-'' \<and> last l \<noteq> CHR ''-'' \<and> list_all dns_char l"

definition validateGrantHostname :: "string \<Rightarrow> grant_error option" where
  "validateGrantHostname host =
     (if host = [] \<or> \<not> contains_sub host ''.'' \<or> length host > 253 then Some HostNotExternal
      else if list_all dns_label_ok (split_on (CHR ''.'') host) then None else Some BadDnsLabel)"

text \<open>\<open>net.JoinHostPort\<close>: a host with a colon is bracketed.\<close>

definition join_host_port :: "string \<Rightarrow> string \<Rightarrow> string" where
  "join_host_port host port =
     (if contains_sub host '':'' then ''['' @ host @ '']:'' @ port else host @ '':'' @ port)"

definition parseGrantOrigin :: "go_lib \<Rightarrow> string \<Rightarrow> (grant_error, string) result" where
  "parseGrantOrigin L raw =
     (case url_parse L raw of None \<Rightarrow> Inl (BadOrigin raw)
      | Some u \<Rightarrow>
          if u_scheme u \<noteq> ''https'' \<or> u_host u = [] \<or> u_user u \<or> u_path u \<noteq> [] \<or>
             u_raw_query u \<noteq> [] \<or> u_fragment u \<noteq> [] then Inl (BadOrigin raw)
          else if is_ip_literal L (u_hostname u) then Inl (OriginIsIp raw)
          else (let host = to_lower L (trim_suffix (u_hostname u) ''.'')
                in case validateGrantHostname host of
                     Some e \<Rightarrow> Inl e
                   | None \<Rightarrow> Inr (''https://'' @
                       join_host_port host (if u_port u = [] then ''443'' else u_port u))))"

section \<open>Validation\<close>

fun check_arguments :: "go_lib \<Rightarrow> string list \<Rightarrow> nat \<Rightarrow> argument_grant list \<Rightarrow> grant_error option" where
  "check_arguments L seen i [] = None"
| "check_arguments L seen i (r # rs) =
     (case validatePointer (ag_pointer r) of Some e \<Rightarrow> Some e
      | None \<Rightarrow>
          if ag_pointer r \<in> set seen then Some (DuplicatePointer i (ag_pointer r))
          else if ag_values r = [] \<and> ag_pattern r = [] \<and> ag_url_target r = [] then Some (Unconstrained i)
          else if ag_pattern r \<noteq> [] \<and> ag_max_bytes r \<le> 0 then Some (PatternNeedsMaxBytes i)
          else if ag_pattern r \<noteq> [] \<and> \<not> re_compiles L (''^(?:'' @ ag_pattern r @ '')$'')
          then Some (PatternInvalid i)
          else check_arguments L (ag_pointer r # seen) (Suc i) rs)"

text \<open>A path prefix in any but its one normal form is refused.\<close>

definition alternate_path :: "go_lib \<Rightarrow> string \<Rightarrow> bool" where
  "alternate_path L p \<longleftrightarrow>
     contains_sub (to_lower L p) ''%2e'' \<or> contains_sub (to_lower L p) ''%2f'' \<or>
     contains_sub (to_lower L p) ''%5c''"

fun check_targets :: "go_lib \<Rightarrow> string list \<Rightarrow> nat \<Rightarrow> url_target_grant list \<Rightarrow> grant_error option" where
  "check_targets L seen i [] = None"
| "check_targets L seen i (t # ts) =
     (if ut_id t = [] \<or> ut_id t \<in> set seen \<or> ut_origins t = [] then Some (BadTarget i)
      else case check_all (\<lambda>org. case parseGrantOrigin L org of Inl e \<Rightarrow> Some e | Inr _ \<Rightarrow> None) (ut_origins t) of
        Some e \<Rightarrow> Some e
      | None \<Rightarrow>
          if list_ex (\<lambda>p. \<not> has_prefix p ''/'' \<or> contains_sub p ''//'' \<or> alternate_path L p \<or>
                path_clean p \<noteq> p) (ut_paths t) then Some (BadPathPrefix i)
          else if list_ex (\<lambda>(k, vs). trim_space k = []) (ut_query t) then Some (EmptyQueryKey i)
          else check_targets L (ut_id t # seen) (Suc i) ts)"

fun check_target_refs :: "string list \<Rightarrow> nat \<Rightarrow> argument_grant list \<Rightarrow> grant_error option" where
  "check_target_refs ids i [] = None"
| "check_target_refs ids i (r # rs) =
     (if ag_url_target r \<noteq> [] \<and> ag_url_target r \<notin> set ids then Some (UnknownTarget i (ag_url_target r))
      else check_target_refs ids (Suc i) rs)"

definition trim_resource :: "resource_grant \<Rightarrow> resource_grant" where
  "trim_resource r = r\<lparr>rg_kind := trim_space (rg_kind r), rg_namespace := trim_space (rg_namespace r)\<rparr>"

definition resource_key :: "resource_grant \<Rightarrow> string" where
  "resource_key r = rg_kind r @ [CHR 0x00] @ rg_namespace r"

fun check_resources ::
    "string list \<Rightarrow> nat \<Rightarrow> resource_grant list \<Rightarrow> (grant_error, resource_grant list) result" where
  "check_resources seen i [] = Inr []"
| "check_resources seen i (r0 # rs) =
     (let r = trim_resource r0
      in if rg_kind r = [] \<or> rg_namespace r = [] \<or> (rg_argument r = [] \<and> rg_value r = []) \<or>
            (rg_argument r \<noteq> [] \<and> rg_value r \<noteq> []) then Inl (BadResource i)
         else case (if rg_argument r \<noteq> [] then validatePointer (rg_argument r) else None) of
           Some e \<Rightarrow> Inl e
         | None \<Rightarrow>
             if resource_key r \<in> set seen then Inl (DuplicateResource i)
             else (case check_resources (resource_key r # seen) (Suc i) rs of
                     Inl e \<Rightarrow> Inl e | Inr rs' \<Rightarrow> Inr (r # rs')))"

definition trim_grant :: "operation_grant \<Rightarrow> operation_grant" where
  "trim_grant g = g\<lparr>og_id := trim_space (og_id g), og_connection := trim_space (og_connection g),
     og_tool := trim_space (og_tool g), og_principal := trim_space (og_principal g),
     og_campaign := trim_space (og_campaign g)\<rparr>"

definition validateOperationGrant ::
    "go_lib \<Rightarrow> operation_grant \<Rightarrow> string \<Rightarrow> (grant_error, operation_grant) result" where
  "validateOperationGrant L g0 connection =
     (if og_version g0 \<noteq> grantVersion then Inl BadVersion
      else (let g = trim_grant g0
       in if og_id g = [] \<or> og_connection g = [] \<or> og_tool g = [] then Inl MissingIdentity
          else if og_connection g \<noteq> connection then Inl ConnectionMismatch
          else if og_effect g \<noteq> effectRead \<and> og_effect g \<noteq> effectWrite then Inl BadEffect
          else if og_principal g = [] \<or> og_campaign g = [] then Inl MissingOwnership
          else case SplitPrincipalKey (og_principal g) of Inl e \<Rightarrow> Inl (BadPrincipal e)
          | Inr _ \<Rightarrow>
          (case parse_rfc3339 L (og_expires_at g) of None \<Rightarrow> Inl BadExpiry
          | Some expiry \<Rightarrow>
          if is_zero expiry then Inl BadExpiry
          else if og_max_requests g \<le> 0 \<or> og_max_bytes g \<le> 0 \<or> og_max_response_bytes g \<le> 0 \<or>
             rate_requests (og_rate g) \<le> 0 \<or> rate_window_s (og_rate g) \<le> 0 then Inl NonPositiveBudget
          else if og_max_requests g > maxGrantRequests \<or> rate_requests (og_rate g) > maxGrantRequests \<or>
             og_max_bytes g > maxGrantBytes \<or> og_max_response_bytes g \<ge> og_max_bytes g \<or>
             rate_window_s (og_rate g) > maxGrantRateWindow then Inl BudgetOutOfRange
          else if length (og_arguments g) > maxGrantEntries \<or> length (og_resources g) > maxGrantEntries \<or>
             length (og_url_targets g) > maxGrantEntries \<or> length (og_metadata g) > maxGrantEntries
          then Inl TooManyEntries
          else case check_arguments L [] 0 (og_arguments g) of Some e \<Rightarrow> Inl e
          | None \<Rightarrow>
          (case check_targets L [] 0 (og_url_targets g) of Some e \<Rightarrow> Inl e
          | None \<Rightarrow>
          (case check_target_refs (map ut_id (og_url_targets g)) 0 (og_arguments g) of Some e \<Rightarrow> Inl e
          | None \<Rightarrow>
          (case check_resources [] 0 (og_resources g) of Inl e \<Rightarrow> Inl e
          | Inr rs \<Rightarrow> Inr (g\<lparr>og_resources := rs\<rparr>)))))))"

section \<open>Evaluation\<close>

text \<open>\<open>rejectDuplicateJSONKeys\<close>: the token walk, stopping at the first repeated key.\<close>

fun dup_value :: "json \<Rightarrow> grant_error option"
and dup_members :: "string list \<Rightarrow> (string \<times> json) list \<Rightarrow> grant_error option"
and dup_items :: "json list \<Rightarrow> grant_error option" where
  "dup_value (JObj ms) = dup_members [] ms"
| "dup_value (JArr vs) = dup_items vs"
| "dup_value _ = None"
| "dup_members seen [] = None"
| "dup_members seen ((k, v) # ms) =
     (if k \<in> set seen then Some (DuplicateKey k)
      else case dup_value v of Some e \<Rightarrow> Some e | None \<Rightarrow> dup_members (k # seen) ms)"
| "dup_items [] = None"
| "dup_items (v # vs) = (case dup_value v of Some e \<Rightarrow> Some e | None \<Rightarrow> dup_items vs)"

definition escape_token :: "string \<Rightarrow> string" where
  "escape_token k = replace_all ''/'' ''~1'' (replace_all ''~'' ''~0'' k)"

definition unescape_token :: "string \<Rightarrow> string" where
  "unescape_token t = replace_all ''~0'' ''~'' (replace_all ''~1'' ''/'' t)"

text \<open>The recursive \<open>visit\<close> of \<open>rejectUngovernedArguments\<close>.\<close>

fun visit :: "string list \<Rightarrow> json \<Rightarrow> string \<Rightarrow> grant_error option"
and visit_members :: "string list \<Rightarrow> (string \<times> json) list \<Rightarrow> string \<Rightarrow> grant_error option"
and visit_items :: "string list \<Rightarrow> nat \<Rightarrow> json list \<Rightarrow> string \<Rightarrow> grant_error option" where
  "visit allowed v ptr =
     (if ptr \<in> set allowed then None
      else case v of
        JObj ms \<Rightarrow> visit_members allowed ms ptr
      | JArr vs \<Rightarrow> visit_items allowed 0 vs ptr
      | _ \<Rightarrow> Some Ungoverned)"
| "visit_members allowed [] ptr = None"
| "visit_members allowed ((k, v) # ms) ptr =
     (case visit allowed v (ptr @ ''/'' @ escape_token k) of Some e \<Rightarrow> Some e
      | None \<Rightarrow> visit_members allowed ms ptr)"
| "visit_items allowed i [] ptr = None"
| "visit_items allowed i (v # vs) ptr =
     (case visit allowed v (ptr @ ''/'' @ itoa i) of Some e \<Rightarrow> Some e
      | None \<Rightarrow> visit_items allowed (Suc i) vs ptr)"

definition allowed_pointers :: "operation_grant \<Rightarrow> string list" where
  "allowed_pointers g =
     map ag_pointer (og_arguments g) @ filter (\<lambda>a. a \<noteq> []) (map rg_argument (og_resources g))"

definition rejectUngovernedArguments :: "json \<Rightarrow> operation_grant \<Rightarrow> grant_error option" where
  "rejectUngovernedArguments doc g = visit (allowed_pointers g) doc []"

fun follow :: "json \<Rightarrow> string list \<Rightarrow> json option" where
  "follow v [] = Some v"
| "follow v (t # ts) =
     (case v of
        JObj ms \<Rightarrow> (case member ms (unescape_token t) of None \<Rightarrow> None | Some w \<Rightarrow> follow w ts)
      | JArr vs \<Rightarrow>
          (case atoi (unescape_token t) of None \<Rightarrow> None
           | Some i \<Rightarrow> if i < 0 \<or> i \<ge> int (length vs) then None else follow (vs ! nat i) ts)
      | _ \<Rightarrow> None)"

definition pointerValue :: "json \<Rightarrow> string \<Rightarrow> json option" where
  "pointerValue doc pointer = follow doc (split_on (CHR ''/'') (trim_prefix pointer ''/''))"

text \<open>Numbers are decoded with \<open>UseNumber\<close>, so they print as they were written.\<close>

fun scalarString :: "json \<Rightarrow> string option" where
  "scalarString (JStr s) = Some s"
| "scalarString (JNum n) = Some n"
| "scalarString (JBool b) = Some (if b then ''true'' else ''false'')"
| "scalarString _ = None"

fun scalars :: "json list \<Rightarrow> string list option" where
  "scalars [] = Some []"
| "scalars (v # vs) =
     (case scalarString v of None \<Rightarrow> None
      | Some s \<Rightarrow> (case scalars vs of None \<Rightarrow> None | Some ss \<Rightarrow> Some (s # ss)))"

definition flattenScalars :: "json \<Rightarrow> string list" where
  "flattenScalars v =
     (case v of
        JArr vs \<Rightarrow> (case scalars vs of None \<Rightarrow> [] | Some ss \<Rightarrow> ss)
      | _ \<Rightarrow> (case scalarString v of None \<Rightarrow> [] | Some s \<Rightarrow> [s]))"

definition looksLikeURL :: "go_lib \<Rightarrow> string \<Rightarrow> bool" where
  "looksLikeURL L v \<longleftrightarrow> (case url_parse L v of None \<Rightarrow> False | Some u \<Rightarrow> u_scheme u \<noteq> [] \<and> u_host u \<noteq> [])"

definition findURLTarget :: "url_target_grant list \<Rightarrow> string \<Rightarrow> url_target_grant option" where
  "findURLTarget ts i = find (\<lambda>t. ut_id t = i) ts"

text \<open>\<open>want, _ := parseGrantOrigin(rawOrigin)\<close>: an origin that does not parse is the empty string.\<close>

definition origin_or_empty :: "go_lib \<Rightarrow> string \<Rightarrow> string" where
  "origin_or_empty L raw = (case parseGrantOrigin L raw of Inl _ \<Rightarrow> [] | Inr s \<Rightarrow> s)"

definition path_granted :: "string \<Rightarrow> string \<Rightarrow> bool" where
  "path_granted p prefix \<longleftrightarrow> p = prefix \<or> has_prefix p (trim_suffix prefix ''/'' @ ''/'')"

definition validateGrantedURL :: "go_lib \<Rightarrow> string \<Rightarrow> url_target_grant \<Rightarrow> grant_error option" where
  "validateGrantedURL L raw t =
     (case url_parse L raw of None \<Rightarrow> Some UrlNotHttps
      | Some u \<Rightarrow>
          if u_scheme u \<noteq> ''https'' \<or> u_host u = [] \<or> u_user u \<or> u_fragment u \<noteq> [] then Some UrlNotHttps
          else if is_ip_literal L (u_hostname u) then Some UrlIsIp
          else if u_raw_path u \<noteq> [] \<or> alternate_path L (u_escaped_path u) \<or>
             path_clean (u_path u) \<noteq> u_path u \<or> contains_sub (u_path u) ''//'' then Some UrlPathForm
          else case parseGrantOrigin L (u_scheme u @ ''://'' @ u_host u) of Inl e \<Rightarrow> Some e
          | Inr origin \<Rightarrow>
              if \<not> list_ex (\<lambda>want. origin = origin_or_empty L want) (ut_origins t) then Some UrlOriginNotGranted
              else if ut_paths t \<noteq> [] \<and> \<not> list_ex (path_granted (u_escaped_path u)) (ut_paths t)
              then Some UrlPathNotGranted
              else if u_raw_query u \<noteq> query_encode (ut_query t) then Some UrlQueryNotGranted
              else None)"

definition check_value ::
    "go_lib \<Rightarrow> argument_grant \<Rightarrow> url_target_grant list \<Rightarrow> string \<Rightarrow> grant_error option" where
  "check_value L r targets v =
     (if ag_max_bytes r > 0 \<and> int (length v) > ag_max_bytes r then Some OverByteBound
      else if ag_values r \<noteq> [] \<and> v \<notin> set (ag_values r) then Some NotAllowlisted
      else if ag_pattern r \<noteq> [] \<and> \<not> re_matches L (''^(?:'' @ ag_pattern r @ '')$'') v then Some PatternMismatch
      else if ag_url_target r = [] \<and> looksLikeURL L v then Some UrlNotGranted
      else if ag_url_target r \<noteq> [] \<and>
         (case findURLTarget targets (ag_url_target r) of None \<Rightarrow> True
          | Some t \<Rightarrow> validateGrantedURL L v t \<noteq> None) then Some UrlOutsideDestination
      else None)"

definition validateArgumentValue ::
    "go_lib \<Rightarrow> json \<Rightarrow> argument_grant \<Rightarrow> url_target_grant list \<Rightarrow> grant_error option" where
  "validateArgumentValue L v r targets =
     (if flattenScalars v = [] then Some UnsupportedValue
      else check_all (check_value L r targets) (flattenScalars v))"

definition check_rule :: "go_lib \<Rightarrow> json \<Rightarrow> url_target_grant list \<Rightarrow> argument_grant \<Rightarrow> grant_error option" where
  "check_rule L doc targets r =
     (case pointerValue doc (ag_pointer r) of
        None \<Rightarrow> if ag_required r then Some RequiredAbsent else None
      | Some v \<Rightarrow> validateArgumentValue L v r targets)"

definition resource_preimage :: "string \<Rightarrow> string \<Rightarrow> string \<Rightarrow> string \<Rightarrow> string \<Rightarrow> string" where
  "resource_preimage owner campaign kind namespace value =
     owner @ [CHR 0x00] @ campaign @ [CHR 0x00] @ kind @ [CHR 0x00] @ namespace @ [CHR 0x00] @ value"

definition opaqueResourceID :: "go_lib \<Rightarrow> string \<Rightarrow> string \<Rightarrow> string \<Rightarrow> string \<Rightarrow> string \<Rightarrow> string" where
  "opaqueResourceID L owner campaign kind namespace value =
     ''res_'' @ hex_encode (take 16 (sha256 L (resource_preimage owner campaign kind namespace value)))"

definition grantDigest :: "go_lib \<Rightarrow> operation_grant \<Rightarrow> string option" where
  "grantDigest L g = map_option (\<lambda>b. hex_encode (sha256 L b)) (marshal_grant L g)"

definition privacy_owner :: "operation_grant \<Rightarrow> resource_grant \<Rightarrow> string" where
  "privacy_owner g r = (if rg_shared_writable r then ''shared-writable'' else og_principal g)"

definition resource_value :: "json \<Rightarrow> resource_grant \<Rightarrow> (grant_error, string) result" where
  "resource_value doc r =
     (if rg_argument r = [] then Inr (rg_value r)
      else case pointerValue doc (rg_argument r) of None \<Rightarrow> Inl ResourceAbsent
      | Some raw \<Rightarrow>
          (case scalarString raw of None \<Rightarrow> Inl ResourceNotScalar
           | Some v \<Rightarrow> if v = [] then Inl ResourceNotScalar else Inr v))"

definition resource_id :: "go_lib \<Rightarrow> operation_grant \<Rightarrow> json \<Rightarrow> resource_grant \<Rightarrow> (grant_error, string \<times> bool) result" where
  "resource_id L g doc r =
     (case resource_value doc r of Inl e \<Rightarrow> Inl e
      | Inr v \<Rightarrow> Inr (opaqueResourceID L (privacy_owner g r) (og_campaign g) (rg_kind r) (rg_namespace r) v,
          og_effect g = effectWrite \<and> rg_shared_writable r))"

definition evaluateOperationGrant ::
    "go_lib \<Rightarrow> operation_grant \<Rightarrow> string \<Rightarrow> string \<Rightarrow> string \<Rightarrow> json option \<Rightarrow> time \<Rightarrow>
     (grant_error, evaluated_grant) result" where
  "evaluateOperationGrant L g caller campaign tool args now =
     (if caller \<noteq> og_principal g \<or> campaign = [] \<or> campaign \<noteq> og_campaign g then Inl NotOwner
      else if tool \<noteq> og_tool g then Inl NotGranted
      else if \<not> now < (case parse_rfc3339 L (og_expires_at g) of None \<Rightarrow> 0 | Some t \<Rightarrow> t) then Inl Expired
      else case args of None \<Rightarrow> Inl ArgsInvalid
      | Some doc \<Rightarrow>
          (case dup_value doc of Some e \<Rightarrow> Inl e
           | None \<Rightarrow>
          (case rejectUngovernedArguments doc g of Some e \<Rightarrow> Inl e
           | None \<Rightarrow>
          (case check_all (check_rule L doc (og_url_targets g)) (og_arguments g) of Some e \<Rightarrow> Inl e
           | None \<Rightarrow>
          (case map_res (resource_id L g doc) (og_resources g) of Inl e \<Rightarrow> Inl e
           | Inr ids \<Rightarrow>
          (case grantDigest L g of None \<Rightarrow> Inl DigestFailed
           | Some digest \<Rightarrow>
              Inr \<lparr>eg_grant = g, eg_digest = digest, eg_resource_ids = sort (map fst ids),
                eg_shared_writable = sort (map fst (filter snd ids))\<rparr>))))))"

definition sortedGrantDigests :: "go_lib \<Rightarrow> operation_grant list \<Rightarrow> string list" where
  "sortedGrantDigests L gs = sort (concat (map (\<lambda>g. case grantDigest L g of None \<Rightarrow> [] | Some d \<Rightarrow> [d]) gs))"

end
