(* ===== verification/Arg_Capture.thy ===== *)
theory Arg_Capture
  imports Json
begin

text \<open>
  What an audit record keeps of a call's arguments (\<open>src/internal/mcp/argcapture.go\<close>) and the
  structural preview of a stored result (\<open>payload.go\<close>: \<open>structuralPreview\<close> and its helpers).
  A decoder reads one JSON value and leaves the rest of the text; it, the encoding of one JSON
  string and SHA-256 are arguments. A Go map decoded from an object keeps the last value of a key.
\<close>

section \<open>Decoded objects\<close>

definition obj_keys :: "(string \<times> json) list \<Rightarrow> string list" where
  "obj_keys ms = sort (remdups (map fst ms))"

lemma set_obj_keys [simp]: "set (obj_keys ms) = fst ` set ms"
  by (simp add: obj_keys_def)

lemma distinct_obj_keys [simp]: "distinct (obj_keys ms)"
  by (simp add: obj_keys_def)

lemma member_dom: "k \<in> fst ` set ms \<Longrightarrow> \<exists>v. member ms k = Some v \<and> (k, v) \<in> set ms"
  by (metis domIff dom_map_of_conv_image_fst map_of_SomeD member_def not_None_eq set_rev)

lemma member_size: "k \<in> fst ` set ms \<Longrightarrow> size (the (member ms k)) < size (JObj ms)"
proof -
  assume "k \<in> fst ` set ms"
  then obtain v where v: "member ms k = Some v" "(k, v) \<in> set ms" using member_dom by blast
  then have "size_prod (\<lambda>x. 0) size (k, v) \<le> size_list (size_prod (\<lambda>x. 0) size) ms"
    by (intro size_list_estimation') auto
  with v show ?thesis by simp
qed

section \<open>Canonical text and digest\<close>

record arg_lib =
  ar_decode :: "string \<Rightarrow> (json \<times> string) option"
  ar_string :: "string \<Rightarrow> string"
  ar_sha256 :: "string \<Rightarrow> string"
  ar_marshal :: "json \<Rightarrow> string"

text \<open>\<open>dec.More()\<close> after a value at the top level: a next token that closes nothing.\<close>

definition json_space :: "char \<Rightarrow> bool" where
  "json_space c \<longleftrightarrow> c \<in> {CHR 0x20, CHR 0x09, CHR 0x0A, CHR 0x0D}"

definition dec_more :: "string \<Rightarrow> bool" where
  "dec_more rest =
     (case dropWhile json_space rest of [] \<Rightarrow> False | c # _ \<Rightarrow> c \<noteq> CHR '']'' \<and> c \<noteq> CHR ''}'')"

function writeCanonical :: "(string \<Rightarrow> string) \<Rightarrow> json \<Rightarrow> string" where
  "writeCanonical enc (JObj ms) =
     ''{'' @ join_with '','' (map (\<lambda>k. enc k @ '':'' @ writeCanonical enc (the (member ms k))) (obj_keys ms)) @ ''}''"
| "writeCanonical enc (JArr vs) = ''['' @ join_with '','' (map (writeCanonical enc) vs) @ '']''"
| "writeCanonical enc (JStr s) = enc s"
| "writeCanonical enc (JNum n) = n"
| "writeCanonical enc (JBool b) = (if b then ''true'' else ''false'')"
| "writeCanonical enc JNull = ''null''"
  by pat_completeness auto
termination
proof (relation "measure (\<lambda>(enc, v). size v)", goal_cases)
  case (2 enc ms k)
  then show ?case using member_size [of k ms] by simp
next
  case (3 enc vs v)
  then have "size v \<le> size_list size vs" by (intro size_list_estimation') auto
  then show ?case by simp
qed simp

definition canonicalJSON :: "arg_lib \<Rightarrow> string \<Rightarrow> string" where
  "canonicalJSON A raw =
     (case ar_decode A raw of None \<Rightarrow> raw
      | Some (v, rest) \<Rightarrow> if dec_more rest then raw else writeCanonical (ar_string A) v)"

definition argsSHA256 :: "arg_lib \<Rightarrow> string \<Rightarrow> string" where
  "argsSHA256 A raw = hex_encode (ar_sha256 A (canonicalJSON A raw))"

section \<open>Field names\<close>

definition field_char :: "char \<Rightarrow> bool" where
  "field_char c \<longleftrightarrow> (CHR ''A'' \<le> c \<and> c \<le> CHR ''Z'') \<or> (CHR ''a'' \<le> c \<and> c \<le> CHR ''z'') \<or>
     (CHR ''0'' \<le> c \<and> c \<le> CHR ''9'') \<or> c \<in> {CHR ''_'', CHR ''-'', CHR ''.'', CHR ''$''}"

definition isFieldName :: "string \<Rightarrow> bool" where
  "isFieldName k \<longleftrightarrow> k \<noteq> [] \<and> length k \<le> 64 \<and> list_all field_char k"

definition fieldNameKeys :: "string list \<Rightarrow> bool" where
  "fieldNameKeys ks \<longleftrightarrow> ks \<noteq> [] \<and> length ks \<le> 25 \<and> list_all isFieldName ks"

section \<open>The shape of the arguments\<close>

definition maxShapeDepth :: nat where "maxShapeDepth = 8"

text \<open>Shapes are built of maps, slices and strings: they are JSON again.\<close>

function shapeOf :: "json \<Rightarrow> nat \<Rightarrow> json" where
  "shapeOf (JObj ms) depth =
     (if depth \<ge> maxShapeDepth \<or> \<not> fieldNameKeys (obj_keys ms)
      then JStr (''object('' @ itoa (length (obj_keys ms)) @ '' keys)'')
      else JObj (map (\<lambda>k. (k, shapeOf (the (member ms k)) (Suc depth))) (obj_keys ms)))"
| "shapeOf (JArr vs) depth =
     (case vs of [] \<Rightarrow> JArr []
      | v # ws \<Rightarrow>
          if depth \<ge> maxShapeDepth then JStr (''array('' @ itoa (length vs) @ '')'')
          else if ws = [] then JArr [shapeOf v (Suc depth)]
          else JArr [shapeOf v (Suc depth), JStr (''+'' @ itoa (length vs - 1) @ '' more'')])"
| "shapeOf (JStr s) depth = JStr (''string('' @ itoa (length s) @ ''B)'')"
| "shapeOf (JNum n) depth = JStr ''number''"
| "shapeOf (JBool b) depth = JStr ''bool''"
| "shapeOf JNull depth = JStr ''null''"
  by pat_completeness auto
termination
proof (relation "measure (\<lambda>(v, d). size v)", goal_cases)
  case (2 ms depth k)
  then show ?case using member_size [of k ms] by simp
qed simp_all

text \<open>\<open>argShape\<close>: nothing for blank arguments.\<close>

definition argShape :: "arg_lib \<Rightarrow> string \<Rightarrow> string option" where
  "argShape A raw =
     (if trim_space raw = [] then None
      else case ar_decode A raw of
        Some (v, rest) \<Rightarrow>
          if dec_more rest then Some (ar_marshal A (JStr (''opaque('' @ itoa (length raw) @ ''B)'')))
          else Some (ar_marshal A (shapeOf v 0))
      | None \<Rightarrow> Some (ar_marshal A (JStr (''opaque('' @ itoa (length raw) @ ''B)''))))"

section \<open>The preview of a stored result\<close>

text \<open>
  \<open>unmarshal\<close> is \<open>json.Unmarshal\<close>: one value and nothing after it. The preview is a map with
  the members its kind has.
\<close>

datatype preview =
    ArrayPreview nat "string list option"
  | ObjectPreview "string list"
  | KeyCount nat
  | TextPreview nat nat

definition capKeys :: "string list \<Rightarrow> string list" where
  "capKeys ks = take 50 ks"

text \<open>\<open>objectShape\<close> accepts \<open>null\<close> too: it decodes into a map without members.\<close>

definition objectShape :: "json \<Rightarrow> (string list \<times> nat) option" where
  "objectShape v =
     (case v of
        JObj ms \<Rightarrow> Some (obj_keys ms, length (obj_keys ms))
      | JNull \<Rightarrow> Some ([], 0)
      | _ \<Rightarrow> None)"

definition text_preview :: "string \<Rightarrow> preview" where
  "text_preview payload =
     TextPreview (length payload) (length (filter (\<lambda>c. c = CHR 0x0A) payload) + 1)"

definition structuralPreview :: "(string \<Rightarrow> json option) \<Rightarrow> string \<Rightarrow> preview option" where
  "structuralPreview unmarshal payload =
     (let tr = trim_space payload
      in case tr of [] \<Rightarrow> None
      | c # _ \<Rightarrow>
          if c = CHR ''['' then
            (case unmarshal tr of
               Some (JArr vs) \<Rightarrow>
                 Some (ArrayPreview (length vs)
                   (case vs of [] \<Rightarrow> None
                    | v # _ \<Rightarrow>
                        (case objectShape v of
                           Some (ks, _) \<Rightarrow> if fieldNameKeys ks then Some (capKeys ks) else None
                         | None \<Rightarrow> None)))
             | _ \<Rightarrow> Some (text_preview payload))
          else if c = CHR ''{'' then
            (case Option.bind (unmarshal tr) objectShape of
               Some (ks, n) \<Rightarrow>
                 if fieldNameKeys ks then Some (ObjectPreview (capKeys ks)) else Some (KeyCount n)
             | None \<Rightarrow> Some (text_preview payload))
          else Some (text_preview payload))"

section \<open>What the shape reveals\<close>

text \<open>
  A shape without values, written out without reference to the code: its strings describe a type
  and a count, an array carries at most one element and the number of the others, an object has
  1 to 25 members whose names are identifiers of 1 to 64 characters. The first argument is the
  number of levels of containers that may still be opened.
\<close>

definition name_chars :: string where
  "name_chars = ''ABCDEFGHIJKLMNOPQRSTUVWXYZabcdefghijklmnopqrstuvwxyz0123456789_-.$''"

definition plain_name :: "string \<Rightarrow> bool" where
  "plain_name k \<longleftrightarrow> 1 \<le> length k \<and> length k \<le> 64 \<and> set k \<subseteq> set name_chars"

definition plain_names :: "string set \<Rightarrow> bool" where
  "plain_names K \<longleftrightarrow> 1 \<le> card K \<and> card K \<le> 25 \<and> (\<forall>k \<in> K. plain_name k)"

definition descriptor :: "string \<Rightarrow> bool" where
  "descriptor s \<longleftrightarrow> s \<in> {''number'', ''bool'', ''null''} \<or>
     (\<exists>n. s \<in> {''string('' @ itoa n @ ''B)'', ''object('' @ itoa n @ '' keys)'', ''array('' @ itoa n @ '')''})"

inductive values_free :: "nat \<Rightarrow> json \<Rightarrow> bool" where
  leaf: "descriptor s \<Longrightarrow> values_free n (JStr s)"
| none: "values_free n (JArr [])"
| one: "values_free n v \<Longrightarrow> values_free (Suc n) (JArr [v])"
| more: "values_free n v \<Longrightarrow> values_free (Suc n) (JArr [v, JStr (''+'' @ itoa m @ '' more'')])"
| fields: "distinct (map fst fs) \<Longrightarrow> plain_names (fst ` set fs) \<Longrightarrow>
    (\<And>k v. (k, v) \<in> set fs \<Longrightarrow> values_free n v) \<Longrightarrow> values_free (Suc n) (JObj fs)"

text \<open>
  Two documents that differ in values only: the same keys, arrays of the same length, strings of the
  same size, any numbers and any booleans.
\<close>

inductive revalued :: "json \<Rightarrow> json \<Rightarrow> bool" where
  str: "length a = length b \<Longrightarrow> revalued (JStr a) (JStr b)"
| num: "revalued (JNum m) (JNum n)"
| bool: "revalued (JBool p) (JBool q)"
| null: "revalued JNull JNull"
| arr: "list_all2 revalued vs ws \<Longrightarrow> revalued (JArr vs) (JArr ws)"
| obj: "fst ` set ms = fst ` set ns \<Longrightarrow>
    (\<And>k. k \<in> fst ` set ms \<Longrightarrow> revalued (the (member ms k)) (the (member ns k))) \<Longrightarrow>
    revalued (JObj ms) (JObj ns)"

text \<open>What the shape says at the top of a document.\<close>

definition top_described :: "json \<Rightarrow> json \<Rightarrow> bool" where
  "top_described v s =
     (case v of
        JObj ms \<Rightarrow>
          if plain_names (fst ` set ms) then \<exists>fs. s = JObj fs \<and> map fst fs = obj_keys ms
          else s = JStr (''object('' @ itoa (card (fst ` set ms)) @ '' keys)'')
      | JArr [] \<Rightarrow> s = JArr []
      | JArr [x] \<Rightarrow> \<exists>y. s = JArr [y]
      | JArr xs \<Rightarrow> \<exists>y. s = JArr [y, JStr (''+'' @ itoa (length xs - 1) @ '' more'')]
      | JStr t \<Rightarrow> s = JStr (''string('' @ itoa (length t) @ ''B)'')
      | JNum _ \<Rightarrow> s = JStr ''number''
      | JBool _ \<Rightarrow> s = JStr ''bool''
      | JNull \<Rightarrow> s = JStr ''null'')"

definition decoded :: "arg_lib \<Rightarrow> string \<Rightarrow> json option" where
  "decoded A raw =
     (case ar_decode A raw of None \<Rightarrow> None | Some (v, rest) \<Rightarrow> if dec_more rest then None else Some v)"

lemma name_chars_codes:
  "set name_chars = char_of ` ({65..<91} \<union> {97..<123} \<union> {48..<58} \<union> set [95, 45, 46, 36 :: nat])"
proof -
  have "name_chars = map char_of ([65..<91] @ [97..<123] @ [48..<58] @ [95, 45, 46, 36 :: nat])"
    by (simp add: name_chars_def char_of_def bit_0)
  from arg_cong [where f = set, OF this] show ?thesis
    unfolding set_map set_append set_upt Un_assoc .
qed

lemma char_of_image: "N \<subseteq> {..<256} \<Longrightarrow> c \<in> char_of ` N \<longleftrightarrow> of_char c \<in> N" for N :: "nat set"
  by (force simp: image_iff subset_iff)

lemma field_char_listed: "field_char c \<longleftrightarrow> c \<in> set name_chars"
proof -
  have others: "c \<in> {CHR ''_'', CHR ''-'', CHR ''.'', CHR ''$''} \<longleftrightarrow> of_char c \<in> set [95, 45, 46, 36 :: nat]"
    using char_of_image [of "set [95, 45, 46, 36]" c] by (simp add: char_of_def bit_0)
  have upper: "CHR ''A'' \<le> c \<and> c \<le> CHR ''Z'' \<longleftrightarrow> of_char c \<in> {65..<91 :: nat}"
    and lower: "CHR ''a'' \<le> c \<and> c \<le> CHR ''z'' \<longleftrightarrow> of_char c \<in> {97..<123 :: nat}"
    and digit: "CHR ''0'' \<le> c \<and> c \<le> CHR ''9'' \<longleftrightarrow> of_char c \<in> {48..<58 :: nat}"
    by (auto simp: less_eq_char_def)
  have bound: "{65..<91} \<union> {97..<123} \<union> {48..<58} \<union> set [95, 45, 46, 36] \<subseteq> {..<256 :: nat}" by auto
  show ?thesis
    unfolding name_chars_codes char_of_image [OF bound] field_char_def others upper lower digit Un_iff
    by (simp only: disj_assoc)
qed

lemma isFieldName_plain: "isFieldName k \<longleftrightarrow> plain_name k"
  by (cases k) (auto simp: isFieldName_def plain_name_def list_all_iff field_char_listed)

lemma length_obj_keys: "length (obj_keys ms) = card (fst ` set ms)"
  using distinct_card [OF distinct_obj_keys, of ms] by simp

lemma fieldNameKeys_plain: "fieldNameKeys (obj_keys ms) \<longleftrightarrow> plain_names (fst ` set ms)"
proof -
  have "obj_keys ms \<noteq> [] \<longleftrightarrow> 1 \<le> length (obj_keys ms)" by (cases "obj_keys ms") auto
  then show ?thesis
    by (simp add: fieldNameKeys_def plain_names_def length_obj_keys list_all_iff isFieldName_plain)
qed

lemma shapeOf_values_free: "values_free (8 - d) (shapeOf v d)"
proof (induction v d rule: shapeOf.induct)
  case (1 ms d)
  show ?case
  proof (cases "d < 8 \<and> plain_names (fst ` set ms)")
    case True
    then have "8 - d = Suc (8 - Suc d)" by arith
    moreover have "values_free (Suc (8 - Suc d))
        (JObj (map (\<lambda>k. (k, shapeOf (the (member ms k)) (Suc d))) (obj_keys ms)))"
    proof (rule values_free.fields)
      fix k v assume "(k, v) \<in> set (map (\<lambda>k. (k, shapeOf (the (member ms k)) (Suc d))) (obj_keys ms))"
      then show "values_free (8 - Suc d) v"
        using 1 True by (auto simp: maxShapeDepth_def fieldNameKeys_plain)
    qed (use True in \<open>simp_all add: comp_def image_image\<close>)
    ultimately show ?thesis using True by (simp add: maxShapeDepth_def fieldNameKeys_plain)
  next
    case False
    then show ?thesis
      by (auto simp: maxShapeDepth_def fieldNameKeys_plain descriptor_def intro!: values_free.leaf)
  qed
next
  case (2 vs d)
  show ?case
  proof (cases "vs = [] \<or> 8 \<le> d")
    case True
    then show ?thesis
      by (cases vs) (auto simp: maxShapeDepth_def descriptor_def intro!: values_free.leaf values_free.none)
  next
    case False
    then have "8 - d = Suc (8 - Suc d)" by arith
    then show ?thesis using 2 False
      by (cases vs) (auto simp: maxShapeDepth_def intro: values_free.one values_free.more [simplified])
  qed
qed (auto simp: descriptor_def intro!: values_free.leaf)

lemma revalued_shape: "revalued v w \<Longrightarrow> shapeOf v d = shapeOf w d"
proof (induction arbitrary: d rule: revalued.induct)
  case (arr vs ws)
  then show ?case by (cases vs; cases ws) (auto dest: list_all2_lengthD)
next
  case (obj ms ns)
  then have "obj_keys ms = obj_keys ns"
    by (simp add: obj_keys_def sorted_list_of_set_sort_remdups [symmetric])
  with obj show ?case by (auto simp: comp_def)
qed auto

lemma top_described_shapeOf: "top_described v (shapeOf v 0)"
proof (cases v)
  case (JObj ms)
  then show ?thesis
    by (auto simp: top_described_def maxShapeDepth_def fieldNameKeys_plain length_obj_keys comp_def)
next
  case (JArr vs)
  then show ?thesis
    by (auto simp: top_described_def maxShapeDepth_def split: list.splits)
qed (simp_all add: top_described_def)

lemma argShape_decoded:
  "trim_space raw \<noteq> [] \<Longrightarrow> argShape A raw = Some (ar_marshal A
     (case decoded A raw of Some v \<Rightarrow> shapeOf v 0 | None \<Rightarrow> JStr (''opaque('' @ itoa (length raw) @ ''B)'')))"
  by (auto simp: argShape_def decoded_def split: option.splits)

text \<open>Two documents with the same content: the members of objects in any order, the last of a repeated key counts.\<close>

inductive same_content :: "json \<Rightarrow> json \<Rightarrow> bool" where
  scalar: "same_content v v"
| arr: "list_all2 same_content vs ws \<Longrightarrow> same_content (JArr vs) (JArr ws)"
| obj: "obj_keys ns = obj_keys ms \<Longrightarrow>
    (\<And>k. k \<in> set (obj_keys ms) \<Longrightarrow> same_content (the (member ms k)) (the (member ns k))) \<Longrightarrow>
    same_content (JObj ms) (JObj ns)"

lemma same_content_canonical: "same_content v w \<Longrightarrow> writeCanonical enc v = writeCanonical enc w"
proof (induction rule: same_content.induct)
  case (arr vs ws)
  then have "map (writeCanonical enc) vs = map (writeCanonical enc) ws"
    by (induction rule: list_all2_induct) auto
  then show ?case by simp
next
  case (obj ns ms)
  then have "map (\<lambda>k. enc k @ '':'' @ writeCanonical enc (the (member ms k))) (obj_keys ms) =
    map (\<lambda>k. enc k @ '':'' @ writeCanonical enc (the (member ns k))) (obj_keys ns)"
    by (auto simp del: set_obj_keys)
  then show ?case by simp
qed simp

lemma preview_field_names:
  "structuralPreview unmarshal payload = Some p \<Longrightarrow>
   (case p of ArrayPreview n (Some ks) \<Rightarrow> fieldNameKeys ks | ObjectPreview ks \<Rightarrow> fieldNameKeys ks | _ \<Rightarrow> True)"
  by (auto simp: structuralPreview_def text_preview_def Let_def capKeys_def fieldNameKeys_def
      split: list.splits if_splits option.splits json.splits)

section \<open>Properties\<close>


definition quoted_text :: "string \<Rightarrow> string" where
  "quoted_text s = [CHR 0x22] @ s @ [CHR 0x22]"

text \<open>A decoder that knows four texts.\<close>

definition example_args :: arg_lib where
  "example_args = \<lparr>ar_decode = (\<lambda>s.
       if s = ''A'' then Some (JObj [(''id'', JNum ''7''), (''note'', JStr ''abc'')], [])
       else if s = ''B'' then Some (JObj [(''note'', JStr ''xyz''), (''id'', JNum ''12'')], [])
       else if s = ''A]C'' then Some (JObj [(''note'', JStr ''abc''), (''id'', JNum ''7'')], '']C'')
       else if s = ''D'' then Some (JObj [(''a@b.c'', JNum ''7'')], [])
       else None),
     ar_string = quoted_text, ar_sha256 = id, ar_marshal = writeCanonical quoted_text\<rparr>"

lemma example_revalued:
  "revalued (JObj [(''id'', JNum ''7''), (''note'', JStr ''abc'')]) (JObj [(''note'', JStr ''xyz''), (''id'', JNum ''12'')])"
  by (rule revalued.obj) (auto simp: member_def intro: revalued.intros)


text \<open>
  The digest of the arguments depends on their content only: two texts that decode to the same
  content (members in any order, any spacing, the last of a repeated key) have the same digest. It is
  not the digest of the exact bytes of a text that is no single JSON value, as the comment on
  \<open>canonicalJSON\<close> has it: what follows the value is ignored when it starts with a closing bracket or brace.
\<close>

theorem arguments_digest_content:
  assumes "ar_decode A raw = Some (v, rest)" and "ar_decode A raw' = Some (w, rest')" and "same_content v w"
    and "dropWhile json_space rest = []" and "dropWhile json_space rest' \<in> {[], '']'' @ junk, ''}'' @ junk}"
  shows "argsSHA256 A raw = argsSHA256 A raw'"
proof -
  have "\<not> dec_more rest" unfolding dec_more_def assms(4) by simp
  moreover have "\<not> dec_more rest'"
    using assms(5) unfolding dec_more_def by (auto simp del: dropWhile_eq_Nil_conv)
  ultimately show ?thesis
    using assms(1,2) same_content_canonical [OF assms(3)] by (simp add: argsSHA256_def canonicalJSON_def)
qed

lemma example_same_content:
  "same_content (JObj [(''id'', JNum ''7''), (''note'', JStr ''abc'')]) (JObj [(''note'', JStr ''abc''), (''id'', JNum ''7'')])"
proof (rule same_content.obj)
  show "obj_keys [(''note'', JStr ''abc''), (''id'', JNum ''7'')] = obj_keys [(''id'', JNum ''7''), (''note'', JStr ''abc'')]"
    by code_simp
qed (auto simp: member_def intro: same_content.scalar)

theorem arguments_digest_content_witness:
  "argsSHA256 example_args ''A'' = argsSHA256 example_args ''A]C''"
  by (rule arguments_digest_content [OF _ _ example_same_content, where rest = "[]" and rest' = "'']C''" and junk = "''C''"])
    (simp_all add: example_args_def json_space_def)

end
