(* ===== verification/Payload.thy ===== *)
theory Payload
  imports Arg_Capture
begin

text \<open>
  Normalizing an upstream's result (\<open>src/internal/mcp/payload.go\<close>) and classifying and checking
  the tools it is called through (\<open>autoexpand.go\<close>). \<open>json.Unmarshal\<close> into a value, the decoding
  into the structs of a tool schema, \<open>json.Marshal\<close>, Unicode lower case and the host of a URL are
  the functions of \<open>text_lib\<close>.
\<close>

record schema =
  sch_type :: string
  sch_required :: "string list"
  sch_properties :: "(string \<times> string) list"

record text_lib =
  tx_unmarshal :: "string \<Rightarrow> json option"
  tx_marshal :: "json \<Rightarrow> string"
  tx_schema :: "string \<Rightarrow> schema option"
  tx_fields :: "string \<Rightarrow> (string \<times> string) list option"
  tx_lower :: "string \<Rightarrow> string"
  tx_host :: "string \<Rightarrow> string option"

text \<open>A decoded object as a Go map: one value per key, in an order left open.\<close>

definition go_map :: "(string \<times> json) list \<Rightarrow> (string \<times> json) list" where
  "go_map ms = map (\<lambda>k. (k, the (member ms k))) (remdups (map fst ms))"

section \<open>Tools\<close>

record tool_annotations =
  an_read_only :: "bool option"
  an_destructive :: "bool option"

record tool =
  tl_name :: string
  tl_description :: string
  tl_schema :: string
  tl_annotations :: "tool_annotations option"

definition findTool :: "tool list \<Rightarrow> string \<Rightarrow> tool option" where
  "findTool tools name = find (\<lambda>t. tl_name t = name) tools"

definition word_char :: "char \<Rightarrow> bool" where
  "word_char c \<longleftrightarrow> (CHR ''a'' \<le> c \<and> c \<le> CHR ''z'') \<or> (CHR ''0'' \<le> c \<and> c \<le> CHR ''9'')"

fun words_from :: "string \<Rightarrow> string \<Rightarrow> string list" where
  "words_from acc [] = (if acc = [] then [] else [acc])"
| "words_from acc (c # s) =
     (if word_char c then words_from (acc @ [c]) s
      else (if acc = [] then [] else [acc]) @ words_from [] s)"

definition tokenize :: "text_lib \<Rightarrow> string \<Rightarrow> string list" where
  "tokenize X q = words_from [] (tx_lower X q)"

definition readVerbs :: "string list" where
  "readVerbs = [''search'', ''query'', ''fetch'', ''get'', ''list'', ''read'', ''describe'', ''export'', ''find'',
     ''lookup'', ''count'', ''resolve'', ''check'', ''status'', ''view'']"

definition writeVerbs :: "string list" where
  "writeVerbs = [''create'', ''update'', ''delete'', ''remove'', ''add'', ''set'', ''put'', ''patch'', ''move'',
     ''duplicate'', ''write'', ''insert'', ''upsert'', ''archive'', ''restore'', ''send'', ''post'', ''modify'',
     ''rename'', ''copy'']"

definition has_write_verb :: "text_lib \<Rightarrow> tool \<Rightarrow> bool" where
  "has_write_verb X t = list_ex (\<lambda>w. w \<in> set writeVerbs) (tokenize X (tl_name t))"

definition has_read_verb :: "text_lib \<Rightarrow> tool \<Rightarrow> bool" where
  "has_read_verb X t = list_ex (\<lambda>w. w \<in> set readVerbs) (tokenize X (tl_name t))"

definition isWriteTool :: "text_lib \<Rightarrow> tool \<Rightarrow> bool" where
  "isWriteTool X t =
     (case Option.bind (tl_annotations t) an_read_only of
        Some ro \<Rightarrow> \<not> ro
      | None \<Rightarrow> if has_write_verb X t then True else if has_read_verb X t then False else True)"

definition isHighAssuranceWriteTool :: "text_lib \<Rightarrow> tool \<Rightarrow> bool" where
  "isHighAssuranceWriteTool X t =
     (if Option.bind (tl_annotations t) an_destructive = Some True then True
      else if Option.bind (tl_annotations t) an_read_only = Some False then True
      else if has_write_verb X t then True
      else \<not> has_read_verb X t)"

section \<open>The pre-egress schema check\<close>

datatype gap = NotAnObject | MissingField string | WrongKind string string

text \<open>A declared type is policed only when it is a single JSON string.\<close>

definition singleType :: "text_lib \<Rightarrow> string \<Rightarrow> string" where
  "singleType X raw =
     (let r = trim_space raw
      in if r = [] \<or> hd r \<noteq> CHR 0x22 then []
         else case tx_unmarshal X r of Some (JStr s) \<Rightarrow> s | _ \<Rightarrow> [])"

definition kindCompatible :: "string \<Rightarrow> string \<Rightarrow> bool" where
  "kindCompatible want val =
     (let v = trim_space val
      in if v = [] \<or> v = ''null'' then True
         else let isObj = hd v = CHR ''{''; isArr = hd v = CHR ''[''
         in if want = ''object'' then isObj
            else if want = ''array'' then isArr
            else if want \<in> {''string'', ''number'', ''integer'', ''boolean''} then \<not> isObj \<and> \<not> isArr
            else True)"

definition field_gaps :: "text_lib \<Rightarrow> schema \<Rightarrow> (string \<times> string) list \<Rightarrow> gap list" where
  "field_gaps X sc a =
     map MissingField (filter (\<lambda>r. map_of a r = None) (sch_required sc)) @
     concat (map (\<lambda>(name, val).
       case map_of (sch_properties sc) name of None \<Rightarrow> []
       | Some ty \<Rightarrow>
           let want = singleType X ty
           in if want \<noteq> [] \<and> \<not> kindCompatible want val then [WrongKind name want] else []) a)"

definition schemaGaps :: "text_lib \<Rightarrow> string \<Rightarrow> string \<Rightarrow> gap list" where
  "schemaGaps X sch args =
     (if sch = [] then []
      else case tx_schema X sch of None \<Rightarrow> []
      | Some sc \<Rightarrow>
          if sch_type sc \<noteq> [] \<and> sch_type sc \<noteq> ''object'' then []
          else let trimmed = trim_space args
          in if trimmed = [] \<or> trimmed = ''null'' then field_gaps X sc []
             else case tx_fields X trimmed of
               None \<Rightarrow> if sch_properties sc \<noteq> [] \<or> sch_required sc \<noteq> [] then [NotAnObject] else []
             | Some a \<Rightarrow> field_gaps X sc a)"

section \<open>Embedded JSON\<close>

text \<open>The scan for the bracket that closes the first one: the number of characters up to and with it.\<close>

fun close_at :: "char \<Rightarrow> char \<Rightarrow> int \<Rightarrow> bool \<Rightarrow> bool \<Rightarrow> string \<Rightarrow> nat option" where
  "close_at op cl depth instr esc [] = None"
| "close_at op cl depth instr esc (c # s) =
     (if instr then
        (if esc then map_option Suc (close_at op cl depth True False s)
         else if c = CHR 0x5C then map_option Suc (close_at op cl depth True True s)
         else if c = CHR 0x22 then map_option Suc (close_at op cl depth False esc s)
         else map_option Suc (close_at op cl depth True esc s))
      else if c = CHR 0x22 then map_option Suc (close_at op cl depth True esc s)
      else if c = op then map_option Suc (close_at op cl (depth + 1) instr esc s)
      else if c = cl then
        (if depth - 1 = 0 then Some 1 else map_option Suc (close_at op cl (depth - 1) instr esc s))
      else map_option Suc (close_at op cl depth instr esc s))"

definition valid :: "text_lib \<Rightarrow> string \<Rightarrow> bool" where
  "valid X s \<longleftrightarrow> tx_unmarshal X s \<noteq> None"

definition extractJSON :: "text_lib \<Rightarrow> string \<Rightarrow> string" where
  "extractJSON X s =
     (let tail = dropWhile (\<lambda>c. c \<noteq> CHR ''['' \<and> c \<noteq> CHR ''{'') s
      in case tail of [] \<Rightarrow> s
      | c # _ \<Rightarrow>
          (case close_at c (if c = CHR ''{'' then CHR ''}'' else CHR '']'') 0 False False tail of
             None \<Rightarrow> s
           | Some n \<Rightarrow> if valid X (take n tail) then take n tail else s))"

definition maxUnwrapFraming :: nat where "maxUnwrapFraming = 512"

text \<open>The loop over the string fields: an array wins, else the first other JSON text found.\<close>

fun unwrap_fields :: "text_lib \<Rightarrow> string \<Rightarrow> (string \<times> json) list \<Rightarrow> string" where
  "unwrap_fields X best [] = best"
| "unwrap_fields X best ((k, v) # fs) =
     (case v of
        JStr str \<Rightarrow>
          let inner = extractJSON X str
          in if inner = str \<or> \<not> valid X inner then unwrap_fields X best fs
             else if length str - length inner > maxUnwrapFraming then unwrap_fields X best fs
             else if has_prefix inner ''['' then inner
             else unwrap_fields X (if best = [] then inner else best) fs
      | _ \<Rightarrow> unwrap_fields X best fs)"

definition unwrapData :: "text_lib \<Rightarrow> string \<Rightarrow> string" where
  "unwrapData X s =
     (let out = extractJSON X s
      in if length s - length out > maxUnwrapFraming then s
         else case tx_unmarshal X out of
           Some (JObj ms) \<Rightarrow>
             (let best = unwrap_fields X [] (go_map ms) in if best \<noteq> [] then best else out)
         | _ \<Rightarrow> out)"

definition text_blocks :: "json option \<Rightarrow> string" where
  "text_blocks content =
     (case content of
        Some (JArr cs) \<Rightarrow>
          concat (map (\<lambda>c. case c of
            JObj m \<Rightarrow> if str_member m ''type'' = ''text'' then str_member m ''text'' else []
          | _ \<Rightarrow> []) cs)
      | _ \<Rightarrow> [])"

definition resultPayload :: "text_lib \<Rightarrow> (string \<times> json) list \<Rightarrow> string" where
  "resultPayload X result =
     (let rest = (let sb = text_blocks (member result ''content'')
                  in if sb \<noteq> [] then unwrapData X sb else tx_marshal X (JObj result))
      in case member result ''structuredContent'' of
           Some sc \<Rightarrow> if length (tx_marshal X sc) > 2 then tx_marshal X sc else rest
         | None \<Rightarrow> rest)"

section \<open>Offload links and truncation notices\<close>

definition offload_keys :: "string list" where
  "offload_keys = [''resource_link'', ''download_url'', ''artifact_url'', ''signed_url'']"

definition is_http :: "string \<Rightarrow> bool" where
  "is_http v \<longleftrightarrow> has_prefix v ''https://'' \<or> has_prefix v ''http://''"

definition offloadURL :: "text_lib \<Rightarrow> string \<Rightarrow> string" where
  "offloadURL X payload =
     (case tx_unmarshal X payload of
        Some (JObj m) \<Rightarrow>
          (case find (\<lambda>k. is_http (str_member m k)) offload_keys of
             Some k \<Rightarrow> str_member m k | None \<Rightarrow> [])
      | _ \<Rightarrow> [])"

definition hostFromURL :: "text_lib \<Rightarrow> string \<Rightarrow> string" where
  "hostFromURL X raw = (case tx_host X raw of Some h \<Rightarrow> h | None \<Rightarrow> [])"

definition resultIsError :: "(string \<times> json) list \<Rightarrow> bool" where
  "resultIsError result = (case member result ''isError'' of Some (JBool b) \<Rightarrow> b | _ \<Rightarrow> False)"

definition truncationMarkers :: "string list" where
  "truncationMarkers =
     [''--- truncated'', ''truncated ---'', ''[truncated'', ''response truncated'', ''output truncated'']"

text \<open>\<open>strings.LastIndex\<close>.\<close>

fun last_index :: "string \<Rightarrow> string \<Rightarrow> nat option" where
  "last_index [] p = (if p = [] then Some 0 else None)"
| "last_index (c # s) p =
     (case last_index s p of Some i \<Rightarrow> Some (Suc i) | None \<Rightarrow> if has_prefix (c # s) p then Some 0 else None)"

text \<open>Slicing past the end of the payload panics: \<open>None\<close>.\<close>

definition truncationTail :: "string \<Rightarrow> nat \<Rightarrow> string option" where
  "truncationTail payload at =
     (if at > length payload then None
      else let start = (case last_index (take at payload) [CHR 0x0A] of Some i \<Rightarrow> i + 1 | None \<Rightarrow> 0)
           in Some (take 500 (trim_space (drop start payload))))"

definition looks_json :: "string \<Rightarrow> bool" where
  "looks_json tr \<longleftrightarrow> tr \<noteq> [] \<and> (hd tr = CHR ''{'' \<or> hd tr = CHR ''['')"

text \<open>The offset is found in the lowered payload and used in the payload itself.\<close>

definition marker_at :: "text_lib \<Rightarrow> string \<Rightarrow> string \<Rightarrow> nat option" where
  "marker_at X payload m =
     (case last_index (tx_lower X payload) m of
        Some i \<Rightarrow> if int (length payload) - int i \<le> 512 then Some i else None
      | None \<Rightarrow> None)"

datatype notice = NoNotice | Notice string | NoticePanic

definition truncatedNotice :: "text_lib \<Rightarrow> string \<Rightarrow> notice" where
  "truncatedNotice X payload =
     (let tr = trim_space payload
      in if looks_json tr \<and> valid X tr then NoNotice
         else case List.map_filter (marker_at X payload) truncationMarkers of
           i # _ \<Rightarrow> (case truncationTail payload i of Some t \<Rightarrow> Notice t | None \<Rightarrow> NoticePanic)
         | [] \<Rightarrow> if looks_json tr
             then Notice ''the upstream returned malformed or truncated JSON (it did not parse)'' else NoNotice)"

section \<open>Facts\<close>

lemma high_assurance_read: "\<not> isHighAssuranceWriteTool X t \<Longrightarrow> \<not> isWriteTool X t"
  by (auto simp: isHighAssuranceWriteTool_def isWriteTool_def split: option.splits if_splits)

lemma close_at_le: "close_at op cl d i e s = Some n \<Longrightarrow> n \<le> length s"
  by (induction op cl d i e s arbitrary: n rule: close_at.induct) (auto split: if_splits)

declare close_at.simps [simp del]

text \<open>What is extracted is the text itself or a valid JSON text inside it.\<close>

lemma extractJSON_part:
  "extractJSON X s = s \<or> (valid X (extractJSON X s) \<and> (\<exists>l r. s = l @ extractJSON X s @ r))"
proof -
  define tail where "tail = dropWhile (\<lambda>c. c \<noteq> CHR ''['' \<and> c \<noteq> CHR ''{'') s"
  obtain l where s: "s = l @ tail" unfolding tail_def by (metis takeWhile_dropWhile_id)
  have "\<exists>l r. s = l @ take n tail @ r" for n
    using s by (metis append.assoc append_take_drop_id)
  then show ?thesis
    by (auto simp: extractJSON_def Let_def tail_def [symmetric] split: list.splits option.splits)
qed

lemma last_index_bound: "last_index s p = Some i \<Longrightarrow> i + length p \<le> length s"
proof (induction s arbitrary: i)
  case (Cons c s)
  then show ?case by (auto simp: has_prefix_iff split: option.splits if_splits dest: arg_cong [of _ _ length])
qed (simp split: if_splits)

text \<open>
  The notice panics only where lowering the payload made it longer; then the offset of a marker
  may lie behind the end of the payload.
\<close>

lemma no_panic: "length (tx_lower X payload) \<le> length payload \<Longrightarrow> truncatedNotice X payload \<noteq> NoticePanic"
proof -
  assume le: "length (tx_lower X payload) \<le> length payload"
  have "truncationTail payload i \<noteq> None" if "marker_at X payload m = Some i" for m i
    using that le last_index_bound [of "tx_lower X payload" m i]
    by (auto simp: marker_at_def truncationTail_def Let_def split: option.splits if_splits)
  moreover have "\<exists>m. marker_at X payload m = Some i" if "List.map_filter (marker_at X payload) ms = i # r" for ms i r
    using that by (induction ms) (auto simp: map_filter_simps split: option.splits)
  ultimately have tails: "truncationTail payload i \<noteq> None"
    if "List.map_filter (marker_at X payload) truncationMarkers = i # r" for i r using that by metis
  show ?thesis
  proof
    assume "truncatedNotice X payload = NoticePanic"
    then obtain i r where "List.map_filter (marker_at X payload) truncationMarkers = i # r"
      and "truncationTail payload i = None"
      by (simp add: truncatedNotice_def Let_def split: if_splits list.splits option.splits)
    then show False using tails by blast
  qed
qed

text \<open>
  The letter U+023A takes two bytes, the letter \<open>strings.ToLower\<close> makes of it (U+2C65) three.
  Seventeen of them before a marker move it past the end of the payload.
\<close>

definition growing_text :: "nat \<Rightarrow> string" where
  "growing_text n = concat (replicate n [CHR 0xC8, CHR 0xBA]) @ ''output truncated''"

definition grown_text :: "nat \<Rightarrow> string" where
  "grown_text n = concat (replicate n [CHR 0xE2, CHR 0xB1, CHR 0xA5]) @ ''output truncated''"

lemma last_index_append: "p \<noteq> [] \<Longrightarrow> last_index (l @ p) p = Some (length l)"
proof (induction l)
  case Nil
  then obtain c q where p: "p = c # q" by (cases p) auto
  then have "last_index q p = None" using last_index_bound [of q p] by (cases "last_index q p") auto
  then show ?case by (simp add: p has_prefix_def)
qed simp

lemma last_index_chars: "last_index s p = Some i \<Longrightarrow> set p \<subseteq> set s"
proof (induction s arbitrary: i)
  case (Cons c s)
  show ?case
  proof (cases "last_index s p")
    case None
    then obtain r where "c # s = p @ r" using Cons.prems by (auto simp: has_prefix_iff split: if_splits)
    then show ?thesis by (metis Un_upper1 set_append)
  qed (use Cons.IH in auto)
qed (simp split: if_splits)

lemma grown_chars: "set (grown_text n) \<subseteq> set ([CHR 0xE2, CHR 0xB1, CHR 0xA5] @ ''output truncated'')"
  by (auto simp: grown_text_def)

lemma grown_no_marker: "m \<in> {''--- truncated'', ''truncated ---'', ''[truncated'', ''response truncated''} \<Longrightarrow> last_index (grown_text n) m = None"
proof -
  assume m: "m \<in> {''--- truncated'', ''truncated ---'', ''[truncated'', ''response truncated''}"
  then have "\<not> set m \<subseteq> set (grown_text n)" using grown_chars [of n] by auto
  then show ?thesis using last_index_chars by (cases "last_index (grown_text n) m") auto
qed

lemma growing_length: "length (growing_text n) = 2 * n + 16"
  by (simp add: growing_text_def length_concat sum_list_replicate)

lemma grown_at: "last_index (grown_text n) ''output truncated'' = Some (3 * n)"
  using last_index_append [of "''output truncated''" "concat (replicate n [CHR 0xE2, CHR 0xB1, CHR 0xA5])"]
  by (simp add: grown_text_def length_concat sum_list_replicate)

lemma growing_not_json: "n > 0 \<Longrightarrow> \<not> looks_json (trim_space (growing_text n))"
proof -
  assume "n > 0"
  then obtain m where "n = Suc m" by (cases n) auto
  then obtain r where g: "growing_text n = CHR 0xC8 # r" by (simp add: growing_text_def)
  have "strip_front space_seqs (growing_text n) = growing_text n"
    by (rule strip_front_noop) (simp add: g space_at_def space_seqs_def)
  then have "\<exists>l. rev (growing_text n) = l @ rev (trim_space (growing_text n))"
    using strip_front_suffix [of "rev (growing_text n)" "map rev space_seqs"] by (simp add: trim_space_def)
  then obtain l where "growing_text n = trim_space (growing_text n) @ rev l"
    by (metis rev_append rev_rev_ident)
  then show ?thesis using g by (cases "trim_space (growing_text n)") (auto simp: looks_json_def)
qed

lemma growing_text_panics:
  assumes "tx_lower X (growing_text n) = grown_text n" and "n > 16"
  shows "truncatedNotice X (growing_text n) = NoticePanic"
proof -
  have "marker_at X (growing_text n) m = None"
    if "m \<in> {''--- truncated'', ''truncated ---'', ''[truncated'', ''response truncated''}" for m
    using grown_no_marker [OF that] assms(1) by (simp add: marker_at_def)
  moreover have "marker_at X (growing_text n) ''output truncated'' = Some (3 * n)"
    using assms growing_length [of n] by (simp add: marker_at_def grown_at)
  ultimately have "List.map_filter (marker_at X (growing_text n)) truncationMarkers = [3 * n]"
    by (simp add: truncationMarkers_def map_filter_simps)
  moreover have "truncationTail (growing_text n) (3 * n) = None"
    using assms(2) growing_length [of n] by (simp add: truncationTail_def)
  ultimately show ?thesis
    using growing_not_json [of n] assms(2) by (simp add: truncatedNotice_def)
qed

end
