(* ===== verification/Registry.thy ===== *)
theory Registry
  imports Grant Payload
begin

text \<open>
  The registry of upstream connections (\<open>src/internal/mcp/gateway.go\<close>, its part up to the
  invocation path; \<open>commitSelfServiceOAuth\<close> of \<open>userconnections.go\<close>), the labels of
  connections (\<open>connectionlabel.go\<close>) and the test for connections a caller cannot tell apart
  (\<open>ambiguity.go\<close>). An operation that leaves the lock for the network is split there: what it
  does before it, and what it commits under the lock against the record it finds then. What the
  network answered (the listed tools), the minimization suggestion computed from it and the
  decision of the mediation binding are arguments.
\<close>

section \<open>Records\<close>

record conn =
  cn_id :: nat
  cn_endpoint :: string

record delegation =
  de_email :: string
  de_cache :: "(string \<times> string) list"

record upstream =
  up_conn :: conn
  up_tools :: "tool list"
  up_enabled :: bool
  up_provenance :: string
  up_read_only :: bool
  up_private :: bool
  up_audit_full :: bool
  up_grants :: "operation_grant list"
  up_owner :: string
  up_self_service :: bool
  up_template :: string
  up_revoked :: bool
  up_label :: string
  up_delegation :: "delegation option"
  up_generation :: nat
  up_suggested :: "string option"
  up_last_ok :: time
  up_last_err :: string
  up_last_err_at :: time

record registry =
  rg_conns :: "(string \<times> upstream) list"
  rg_usage :: "(string \<times> int) list"

definition nsSep :: string where "nsSep = ''__''"

text \<open>\<open>strings.Cut\<close>: around the first occurrence of the separator.\<close>

fun str_cut :: "string \<Rightarrow> string \<Rightarrow> (string \<times> string) option" where
  "str_cut sep [] = (if sep = [] then Some ([], []) else None)"
| "str_cut sep (c # s) =
     (if has_prefix (c # s) sep then Some ([], drop (length sep) (c # s))
      else map_option (\<lambda>(a, b). (c # a, b)) (str_cut sep s))"

definition full_name :: "string \<Rightarrow> string \<Rightarrow> string" where
  "full_name upstream tool = upstream @ nsSep @ tool"

datatype label_error =
    LabelNotUtf8
  | LabelTooLong nat
  | LabelRune nat
  | LabelEdgeSpace
  | LabelDoubleSpace
  | LabelSeparator
  | LabelNoName

datatype registry_error =
    BadName string
  | AlreadyRegistered string
  | SelfServicePrivate string
  | MediationRefused string string
  | UnknownUpstream string
  | ListFailed string
  | IsRevoked string
  | RemovedMeanwhile string
  | ChangedMeanwhile string
  | AuthorizationChanged string
  | TemplateChanged
  | BadOwner key_error
  | OwnershipImmutable string
  | BadLabel label_error
  | BadGrant nat grant_error
  | DuplicateGrant nat

type_synonym reg_result = "registry \<times> registry_error option"

definition lookup :: "registry \<Rightarrow> string \<Rightarrow> upstream option" where
  "lookup rg name = map_of (rg_conns rg) name"

definition store :: "string \<Rightarrow> upstream \<Rightarrow> registry \<Rightarrow> registry" where
  "store name u rg = rg\<lparr>rg_conns := AList.update name u (rg_conns rg)\<rparr>"

text \<open>The setters' common form: change the live record under the lock, or report an unknown name.\<close>

definition modify :: "string \<Rightarrow> (upstream \<Rightarrow> upstream) \<Rightarrow> registry \<Rightarrow> reg_result" where
  "modify name f rg =
     (case lookup rg name of None \<Rightarrow> (rg, Some (UnknownUpstream name)) | Some u \<Rightarrow> (store name (f u) rg, None))"

definition new_upstream :: "conn \<Rightarrow> tool list \<Rightarrow> bool \<Rightarrow> string \<Rightarrow> string option \<Rightarrow> upstream" where
  "new_upstream c tools enabled provenance suggested =
     \<lparr>up_conn = c, up_tools = tools, up_enabled = enabled, up_provenance = provenance, up_read_only = False,
      up_private = False, up_audit_full = False, up_grants = [], up_owner = [], up_self_service = False,
      up_template = [], up_revoked = False, up_label = [], up_delegation = None, up_generation = 0,
      up_suggested = suggested, up_last_ok = 0, up_last_err = [], up_last_err_at = 0\<rparr>"

section \<open>Registering\<close>

datatype upstream_option =
    WithOwner string
  | WithSelfService string
  | WithPrivateDestination
  | WithRevoked
  | WithLabel string
  | WithDelegation delegation

fun apply_option :: "upstream_option \<Rightarrow> upstream \<Rightarrow> upstream" where
  "apply_option (WithOwner key) u = u\<lparr>up_owner := key\<rparr>"
| "apply_option (WithSelfService t) u = u\<lparr>up_self_service := True, up_template := t\<rparr>"
| "apply_option WithPrivateDestination u = u\<lparr>up_private := True\<rparr>"
| "apply_option WithRevoked u = u\<lparr>up_revoked := True\<rparr>"
| "apply_option (WithLabel l) u = u\<lparr>up_label := l\<rparr>"
| "apply_option (WithDelegation d) u = u\<lparr>up_delegation := Some d\<rparr>"

definition registerUpstream ::
    "(string \<Rightarrow> string option) \<Rightarrow> string \<Rightarrow> upstream \<Rightarrow> upstream_option list \<Rightarrow> registry \<Rightarrow> reg_result" where
  "registerUpstream mediate name u opts rg =
     (if lookup rg name \<noteq> None then (rg, Some (AlreadyRegistered name))
      else let u = fold apply_option opts u
      in if up_private u \<and> up_self_service u then (rg, Some (SelfServicePrivate name))
      else case (if up_enabled u \<and> \<not> up_revoked u then mediate (cn_endpoint (up_conn u)) else None) of
        Some e \<Rightarrow> (rg, Some (MediationRefused name e))
      | None \<Rightarrow> (store name u rg, None))"

definition bad_name :: "string \<Rightarrow> bool" where
  "bad_name name \<longleftrightarrow> name = [] \<or> contains_sub name nsSep"

text \<open>\<open>listed\<close>: what \<open>ListTools\<close> answered, an error or the tools.\<close>

definition AddUpstream ::
    "(string \<Rightarrow> string option) \<Rightarrow> (tool list \<Rightarrow> string option) \<Rightarrow> string \<Rightarrow> conn \<Rightarrow>
     (string, tool list) result \<Rightarrow> upstream_option list \<Rightarrow> registry \<Rightarrow> reg_result" where
  "AddUpstream mediate suggest name c listed opts rg =
     (if bad_name name then (rg, Some (BadName name))
      else if lookup rg name \<noteq> None then (rg, Some (AlreadyRegistered name))
      else case listed of Inl e \<Rightarrow> (rg, Some (ListFailed e))
      | Inr tools \<Rightarrow> registerUpstream mediate name (new_upstream c tools True ''preloaded'' (suggest tools)) opts rg)"

definition AddDiscovered ::
    "(string \<Rightarrow> string option) \<Rightarrow> (tool list \<Rightarrow> string option) \<Rightarrow> string \<Rightarrow> conn \<Rightarrow>
     tool list \<Rightarrow> string \<Rightarrow> upstream_option list \<Rightarrow> registry \<Rightarrow> reg_result" where
  "AddDiscovered mediate suggest name c tools provenance opts rg =
     (if bad_name name then (rg, Some (BadName name))
      else registerUpstream mediate name (new_upstream c tools False
             (if provenance = [] then ''discovered'' else provenance) (suggest tools)) opts rg)"

definition DiscoverUpstream ::
    "(string \<Rightarrow> string option) \<Rightarrow> (tool list \<Rightarrow> string option) \<Rightarrow> string \<Rightarrow> conn \<Rightarrow>
     (string, tool list) result \<Rightarrow> upstream_option list \<Rightarrow> registry \<Rightarrow> reg_result" where
  "DiscoverUpstream mediate suggest name c listed opts rg =
     (if bad_name name then (rg, Some (BadName name))
      else if lookup rg name \<noteq> None then (rg, Some (AlreadyRegistered name))
      else case listed of Inl e \<Rightarrow> (rg, Some (ListFailed e))
      | Inr tools \<Rightarrow> registerUpstream mediate name (new_upstream c tools False ''discovered'' (suggest tools)) opts rg)"

section \<open>Enabling, rebinding, refreshing\<close>

text \<open>Before the network: what \<open>EnableUpstream\<close> and \<open>RefreshUpstream\<close> decide on a snapshot.\<close>

datatype started = Finished "registry_error option" | Proceed upstream

definition enable_start :: "string \<Rightarrow> registry \<Rightarrow> started" where
  "enable_start name rg =
     (case lookup rg name of None \<Rightarrow> Finished (Some (UnknownUpstream name))
      | Some u \<Rightarrow>
          if up_revoked u then Finished (Some (IsRevoked name))
          else if up_enabled u then Finished None else Proceed u)"

definition enable_commit ::
    "(string \<Rightarrow> string option) \<Rightarrow> (tool list \<Rightarrow> string option) \<Rightarrow> string \<Rightarrow> upstream \<Rightarrow>
     (string, tool list) result \<Rightarrow> registry \<Rightarrow> reg_result" where
  "enable_commit mediate suggest name snap listed rg =
     (case listed of Inl e \<Rightarrow> (rg, Some (ListFailed e))
      | Inr tools \<Rightarrow>
      (case lookup rg name of None \<Rightarrow> (rg, Some (RemovedMeanwhile name))
      | Some cur \<Rightarrow>
          if up_conn cur \<noteq> up_conn snap then (rg, Some (ChangedMeanwhile name))
          else case mediate (cn_endpoint (up_conn cur)) of
            Some e \<Rightarrow> (rg, Some (MediationRefused name e))
          | None \<Rightarrow> (store name (cur\<lparr>up_tools := tools, up_suggested := suggest tools, up_enabled := True\<rparr>) rg, None)))"

definition refresh_start :: "string \<Rightarrow> registry \<Rightarrow> started" where
  "refresh_start name rg =
     (case lookup rg name of None \<Rightarrow> Finished (Some (UnknownUpstream name))
      | Some u \<Rightarrow> if up_revoked u then Finished (Some (IsRevoked name)) else Proceed u)"

definition refresh_commit ::
    "(tool list \<Rightarrow> string option) \<Rightarrow> string \<Rightarrow> upstream \<Rightarrow> (string, tool list) result \<Rightarrow> registry \<Rightarrow> reg_result" where
  "refresh_commit suggest name snap listed rg =
     (case listed of Inl e \<Rightarrow> (rg, Some (ListFailed e))
      | Inr tools \<Rightarrow>
      (case lookup rg name of None \<Rightarrow> (rg, Some (RemovedMeanwhile name))
      | Some cur \<Rightarrow>
          if up_conn cur \<noteq> up_conn snap then (rg, Some (ChangedMeanwhile name))
          else (store name (cur\<lparr>up_tools := tools, up_suggested := suggest tools\<rparr>) rg, None)))"

text \<open>A record that is bound to a new connection: a revoked one comes back enabled.\<close>

definition rebound :: "conn \<Rightarrow> tool list \<Rightarrow> string option \<Rightarrow> upstream \<Rightarrow> upstream" where
  "rebound c tools suggested u =
     u\<lparr>up_conn := c, up_tools := tools, up_suggested := suggested,
       up_enabled := (if up_revoked u then True else up_enabled u), up_revoked := False\<rparr>"

definition rebind_commit ::
    "(string \<Rightarrow> string option) \<Rightarrow> (tool list \<Rightarrow> string option) \<Rightarrow> string \<Rightarrow> conn \<Rightarrow> nat option \<Rightarrow>
     (string, tool list) result \<Rightarrow> registry \<Rightarrow> reg_result" where
  "rebind_commit mediate suggest name c expected listed rg =
     (case listed of Inl e \<Rightarrow> (rg, Some (ListFailed e))
      | Inr tools \<Rightarrow>
      (case lookup rg name of None \<Rightarrow> (rg, Some (RemovedMeanwhile name))
      | Some u \<Rightarrow>
          if (case expected of Some g \<Rightarrow> up_generation u \<noteq> g | None \<Rightarrow> False)
          then (rg, Some (AuthorizationChanged name))
          else case mediate (cn_endpoint c) of
            Some e \<Rightarrow> (rg, Some (MediationRefused name e))
          | None \<Rightarrow> (store name (rebound c tools (suggest tools) u) rg, None)))"

definition rebindUpstream ::
    "(string \<Rightarrow> string option) \<Rightarrow> (tool list \<Rightarrow> string option) \<Rightarrow> string \<Rightarrow> conn \<Rightarrow> nat option \<Rightarrow>
     (string, tool list) result \<Rightarrow> registry \<Rightarrow> registry \<Rightarrow> reg_result" where
  "rebindUpstream mediate suggest name c expected listed before rg =
     (if lookup before name = None then (rg, Some (UnknownUpstream name))
      else rebind_commit mediate suggest name c expected listed rg)"

text \<open>
  \<open>commitSelfServiceOAuth\<close>: what a completed authorization of a principal commits, under the
  template and the registry lock. \<open>template_live\<close> is whether the flow's template is still there,
  enabled and of the version the flow started with.
\<close>

record oauth_flow =
  ofl_name :: string
  ofl_owner :: string
  ofl_template :: string
  ofl_label :: string
  ofl_reauth :: bool
  ofl_discover :: bool
  ofl_read_only :: bool
  ofl_generation :: nat

definition commitSelfServiceOAuth ::
    "(tool list \<Rightarrow> string option) \<Rightarrow> bool \<Rightarrow> oauth_flow \<Rightarrow> conn \<Rightarrow> (string, tool list) result \<Rightarrow>
     registry \<Rightarrow> reg_result" where
  "commitSelfServiceOAuth suggest template_live fl c listed rg =
     (case listed of Inl e \<Rightarrow> (rg, Some (ListFailed e))
      | Inr tools \<Rightarrow>
      if \<not> template_live then (rg, Some TemplateChanged)
      else if ofl_reauth fl then
        (case lookup rg (ofl_name fl) of None \<Rightarrow> (rg, Some (UnknownUpstream (ofl_name fl)))
         | Some u \<Rightarrow>
             if \<not> up_self_service u \<or> up_owner u \<noteq> ofl_owner fl \<or> up_template u \<noteq> ofl_template fl
             then (rg, Some (UnknownUpstream (ofl_name fl)))
             else if up_generation u \<noteq> ofl_generation fl then (rg, Some (AuthorizationChanged (ofl_name fl)))
             else (store (ofl_name fl) (rebound c tools (suggest tools) u) rg, None))
      else if lookup rg (ofl_name fl) \<noteq> None then (rg, Some (AlreadyRegistered (ofl_name fl)))
      else (store (ofl_name fl) ((new_upstream c tools (\<not> ofl_discover fl)
              (if ofl_discover fl then ''discovered'' else ''preloaded'') (suggest tools))
              \<lparr>up_read_only := ofl_read_only fl, up_owner := ofl_owner fl, up_self_service := True,
               up_template := ofl_template fl, up_label := ofl_label fl, up_generation := ofl_generation fl\<rparr>) rg, None))"

section \<open>Setters\<close>

definition SetUpstreamOwner :: "string \<Rightarrow> string \<Rightarrow> registry \<Rightarrow> reg_result" where
  "SetUpstreamOwner name owner rg =
     (case (if owner = [] then None else case SplitPrincipalKey owner of Inl e \<Rightarrow> Some e | Inr _ \<Rightarrow> None) of
        Some e \<Rightarrow> (rg, Some (BadOwner e))
      | None \<Rightarrow>
      (case lookup rg name of None \<Rightarrow> (rg, Some (UnknownUpstream name))
      | Some u \<Rightarrow>
          if up_self_service u \<and> owner \<noteq> up_owner u then (rg, Some (OwnershipImmutable name))
          else (store name (u\<lparr>up_owner := owner\<rparr>) rg, None)))"

definition drop_cache :: "upstream \<Rightarrow> upstream" where
  "drop_cache u = u\<lparr>up_delegation := map_option (\<lambda>d. d\<lparr>de_cache := []\<rparr>) (up_delegation u)\<rparr>"

definition DisableUpstream :: "string \<Rightarrow> registry \<Rightarrow> reg_result" where
  "DisableUpstream name = modify name (\<lambda>u. drop_cache (u\<lparr>up_enabled := False\<rparr>))"

definition next_generation :: "nat \<Rightarrow> nat" where
  "next_generation g = (g + 1) mod 2 ^ 64"

definition RevokeUpstream :: "string \<Rightarrow> registry \<Rightarrow> reg_result" where
  "RevokeUpstream name =
     modify name (\<lambda>u. drop_cache (u\<lparr>up_enabled := False, up_revoked := True,
       up_generation := next_generation (up_generation u)\<rparr>))"

definition SetUpstreamReadOnly :: "string \<Rightarrow> bool \<Rightarrow> registry \<Rightarrow> reg_result" where
  "SetUpstreamReadOnly name ro = modify name (\<lambda>u. u\<lparr>up_read_only := ro\<rparr>)"

definition SetUpstreamAuditFullArgs :: "string \<Rightarrow> bool \<Rightarrow> registry \<Rightarrow> reg_result" where
  "SetUpstreamAuditFullArgs name on = modify name (\<lambda>u. u\<lparr>up_audit_full := on\<rparr>)"

definition grant_tuple :: "operation_grant \<Rightarrow> string" where
  "grant_tuple g = og_principal g @ [CHR 0x00] @ og_campaign g @ [CHR 0x00] @ og_tool g"

fun validate_grants ::
    "go_lib \<Rightarrow> string \<Rightarrow> nat \<Rightarrow> string list \<Rightarrow> string list \<Rightarrow> operation_grant list \<Rightarrow>
     (registry_error, operation_grant list) result" where
  "validate_grants L name i ids tuples [] = Inr []"
| "validate_grants L name i ids tuples (g0 # gs) =
     (case validateOperationGrant L g0 name of Inl e \<Rightarrow> Inl (BadGrant (i + 1) e)
      | Inr g \<Rightarrow>
          if og_id g \<in> set ids \<or> grant_tuple g \<in> set tuples then Inl (DuplicateGrant (i + 1))
          else (case validate_grants L name (i + 1) (og_id g # ids) (grant_tuple g # tuples) gs of
                  Inl e \<Rightarrow> Inl e | Inr rest \<Rightarrow> Inr (g # rest)))"

definition SetUpstreamGrants :: "go_lib \<Rightarrow> string \<Rightarrow> operation_grant list \<Rightarrow> registry \<Rightarrow> reg_result" where
  "SetUpstreamGrants L name grants rg =
     (case validate_grants L name 0 [] [] grants of Inl e \<Rightarrow> (rg, Some e)
      | Inr gs \<Rightarrow> modify name (\<lambda>u. u\<lparr>up_grants := gs\<rparr>) rg)"

definition matchingGrant :: "upstream \<Rightarrow> string \<Rightarrow> string \<Rightarrow> string \<Rightarrow> operation_grant option" where
  "matchingGrant u caller campaign tool =
     find (\<lambda>g. og_principal g = caller \<and> og_campaign g = campaign \<and> og_tool g = tool) (up_grants u)"

definition RemoveUpstream :: "string \<Rightarrow> registry \<Rightarrow> registry \<times> bool" where
  "RemoveUpstream name rg =
     (if lookup rg name = None then (rg, False)
      else (rg\<lparr>rg_conns := AList.delete name (rg_conns rg)\<rparr>, True))"

definition recordUpstreamHealth :: "string \<Rightarrow> string option \<Rightarrow> time \<Rightarrow> registry \<Rightarrow> registry" where
  "recordUpstreamHealth name err now rg =
     (case lookup rg name of None \<Rightarrow> rg
      | Some u \<Rightarrow> store name (case err of
            Some e \<Rightarrow> u\<lparr>up_last_err := e, up_last_err_at := now\<rparr> | None \<Rightarrow> u\<lparr>up_last_ok := now\<rparr>) rg)"

definition bumpUsage :: "string \<Rightarrow> registry \<Rightarrow> registry" where
  "bumpUsage name rg =
     rg\<lparr>rg_usage := AList.update name
       (wrap64 ((case map_of (rg_usage rg) name of None \<Rightarrow> 0 | Some n \<Rightarrow> n) + 1)) (rg_usage rg)\<rparr>"

section \<open>Labels\<close>

definition maxConnectionLabelRunes :: nat where "maxConnectionLabelRunes = 32"

text \<open>\<open>runes\<close> is the UTF-8 decoding into code points, none for a malformed text.\<close>

definition label_rune :: "nat \<Rightarrow> bool" where
  "label_rune r \<longleftrightarrow> r = 0x20 \<or> (0x61 \<le> r \<and> r \<le> 0x7A) \<or> (0x41 \<le> r \<and> r \<le> 0x5A) \<or> (0x30 \<le> r \<and> r \<le> 0x39) \<or>
     r \<in> {0x2D, 0x5F, 0x2E}"

definition name_rune :: "nat \<Rightarrow> bool" where
  "name_rune r \<longleftrightarrow> (0x61 \<le> r \<and> r \<le> 0x7A) \<or> (0x41 \<le> r \<and> r \<le> 0x5A) \<or> (0x30 \<le> r \<and> r \<le> 0x39)"

definition validateConnectionLabel :: "(string \<Rightarrow> nat list option) \<Rightarrow> string \<Rightarrow> (label_error, string) result" where
  "validateConnectionLabel runes raw =
     (if raw = [] then Inr []
      else case runes raw of None \<Rightarrow> Inl LabelNotUtf8
      | Some rs \<Rightarrow>
          if length rs > maxConnectionLabelRunes then Inl (LabelTooLong (length rs))
          else case find (\<lambda>r. \<not> label_rune r) rs of Some r \<Rightarrow> Inl (LabelRune r)
          | None \<Rightarrow>
              if has_prefix raw '' '' \<or> has_suffix raw '' '' then Inl LabelEdgeSpace
              else if contains_sub raw ''  '' then Inl LabelDoubleSpace
              else if contains_sub raw nsSep then Inl LabelSeparator
              else if \<not> list_ex name_rune rs then Inl LabelNoName
              else Inr raw)"

definition SetUpstreamLabel :: "(string \<Rightarrow> nat list option) \<Rightarrow> string \<Rightarrow> string \<Rightarrow> registry \<Rightarrow> reg_result" where
  "SetUpstreamLabel runes name label rg =
     (case validateConnectionLabel runes label of Inl e \<Rightarrow> (rg, Some (BadLabel e))
      | Inr checked \<Rightarrow> modify name (\<lambda>u. u\<lparr>up_label := checked\<rparr>) rg)"

section \<open>What a caller can reach\<close>

definition connectionVisibleTo :: "upstream \<Rightarrow> string \<Rightarrow> string \<Rightarrow> bool" where
  "connectionVisibleTo u caller subject =
     (if up_revoked u then False
      else if up_owner u \<noteq> [] \<and> up_owner u \<noteq> caller then False
      else if up_delegation u \<noteq> None \<and> subject = [] then False
      else True)"

definition grant_expiry :: "go_lib \<Rightarrow> operation_grant \<Rightarrow> time" where
  "grant_expiry L g = (case parse_rfc3339 L (og_expires_at g) of None \<Rightarrow> 0 | Some t \<Rightarrow> t)"

definition toolIndexable ::
    "go_lib \<Rightarrow> text_lib \<Rightarrow> bool \<Rightarrow> time \<Rightarrow> upstream \<Rightarrow> tool \<Rightarrow> string \<Rightarrow> string \<Rightarrow> bool" where
  "toolIndexable L X high now u t caller campaign =
     (if \<not> high \<and> up_grants u = [] then True
      else case matchingGrant u caller campaign (tl_name t) of None \<Rightarrow> False
      | Some g \<Rightarrow>
          if (high \<and> \<not> og_high_assurance g) \<or> (up_owner u = [] \<and> \<not> og_allow_shared g) then False
          else let writes = (og_effect g = effectWrite)
          in if \<not> now < grant_expiry L g \<or> writes \<noteq> isHighAssuranceWriteTool X t \<or> (up_read_only u \<and> writes) then False
          else if up_owner u = [] \<and> writes
          then og_resources g \<noteq> [] \<and> list_all rg_shared_writable (og_resources g)
          else True)"

definition callerToolIsInvocable ::
    "go_lib \<Rightarrow> text_lib \<Rightarrow> bool \<Rightarrow> time \<Rightarrow> upstream \<Rightarrow> tool \<Rightarrow> string \<Rightarrow> string \<Rightarrow> bool" where
  "callerToolIsInvocable L X high now u t caller campaign =
     (if \<not> up_enabled u then False
      else if up_read_only u \<and> isWriteTool X t then False
      else toolIndexable L X high now u t caller campaign)"

record peer =
  pr_name :: string
  pr_label :: string

definition labelDistinguishes :: "(string \<Rightarrow> string \<Rightarrow> bool) \<Rightarrow> string \<Rightarrow> peer list \<Rightarrow> bool" where
  "labelDistinguishes fold_eq label peers \<longleftrightarrow> label \<noteq> [] \<and> \<not> list_ex (\<lambda>p. fold_eq (pr_label p) label) peers"

definition indistinguishablePeers ::
    "go_lib \<Rightarrow> text_lib \<Rightarrow> bool \<Rightarrow> time \<Rightarrow> string \<Rightarrow> string \<Rightarrow> string \<Rightarrow> string \<Rightarrow> upstream \<Rightarrow> string \<Rightarrow> registry \<Rightarrow> peer list" where
  "indistinguishablePeers L X high now caller campaign subject name snap tool rg =
     (if up_template snap = [] \<or> \<not> up_enabled snap \<or> up_revoked snap then []
      else case lookup rg name of None \<Rightarrow> []
      | Some self \<Rightarrow>
          (case findTool (up_tools self) tool of None \<Rightarrow> []
           | Some t \<Rightarrow>
               if \<not> callerToolIsInvocable L X high now self t caller campaign then []
               else sort_key pr_name (map (\<lambda>(n, u). \<lparr>pr_name = n, pr_label = up_label u\<rparr>)
                 (filter (\<lambda>(n, u). n \<noteq> name \<and> up_template u = up_template self \<and>
                    connectionVisibleTo u caller subject \<and>
                    (case findTool (up_tools u) tool of None \<Rightarrow> False
                     | Some t' \<Rightarrow> callerToolIsInvocable L X high now u t' caller campaign)) (rg_conns rg)))))"

end
