(* ===== verification/Registry_Safety.thy ===== *)
theory Registry_Safety
  imports Registry
begin

text \<open>
  Properties of the connection registry over every sequence of its operations: what the records
  keep, who owns a connection, what a revocation ends, and how a tool's qualified name is read.
\<close>

section \<open>Operations\<close>

record reg_env =
  re_mediate :: "string \<Rightarrow> string option"
  re_suggest :: "tool list \<Rightarrow> string option"
  re_runes :: "string \<Rightarrow> nat list option"
  re_lib :: go_lib

datatype reg_op =
    OpAdd string conn "(string, tool list) result" "upstream_option list"
  | OpCatalog string conn "tool list" string "upstream_option list"
  | OpDiscover string conn "(string, tool list) result" "upstream_option list"
  | OpEnable string upstream "(string, tool list) result"
  | OpRefresh string upstream "(string, tool list) result"
  | OpRebind string conn "nat option" "(string, tool list) result"
  | OpSelfService bool oauth_flow conn "(string, tool list) result"
  | OpOwner string string
  | OpLabel string string
  | OpDisable string
  | OpRevoke string
  | OpReadOnly string bool
  | OpAuditFull string bool
  | OpGrants string "operation_grant list"
  | OpRemove string
  | OpHealth string "string option" time
  | OpUsage string

fun reg_step :: "reg_env \<Rightarrow> registry \<Rightarrow> reg_op \<Rightarrow> registry" where
  "reg_step E rg (OpAdd n c listed opts) = fst (AddUpstream (re_mediate E) (re_suggest E) n c listed opts rg)"
| "reg_step E rg (OpCatalog n c tools prov opts) = fst (AddDiscovered (re_mediate E) (re_suggest E) n c tools prov opts rg)"
| "reg_step E rg (OpDiscover n c listed opts) = fst (DiscoverUpstream (re_mediate E) (re_suggest E) n c listed opts rg)"
| "reg_step E rg (OpEnable n snap listed) = fst (enable_commit (re_mediate E) (re_suggest E) n snap listed rg)"
| "reg_step E rg (OpRefresh n snap listed) = fst (refresh_commit (re_suggest E) n snap listed rg)"
| "reg_step E rg (OpRebind n c g listed) = fst (rebind_commit (re_mediate E) (re_suggest E) n c g listed rg)"
| "reg_step E rg (OpSelfService live fl c listed) = fst (commitSelfServiceOAuth (re_suggest E) live fl c listed rg)"
| "reg_step E rg (OpOwner n owner) = fst (SetUpstreamOwner n owner rg)"
| "reg_step E rg (OpLabel n l) = fst (SetUpstreamLabel (re_runes E) n l rg)"
| "reg_step E rg (OpDisable n) = fst (DisableUpstream n rg)"
| "reg_step E rg (OpRevoke n) = fst (RevokeUpstream n rg)"
| "reg_step E rg (OpReadOnly n b) = fst (SetUpstreamReadOnly n b rg)"
| "reg_step E rg (OpAuditFull n b) = fst (SetUpstreamAuditFullArgs n b rg)"
| "reg_step E rg (OpGrants n gs) = fst (SetUpstreamGrants (re_lib E) n gs rg)"
| "reg_step E rg (OpRemove n) = fst (RemoveUpstream n rg)"
| "reg_step E rg (OpHealth n err now) = recordUpstreamHealth n err now rg"
| "reg_step E rg (OpUsage n) = bumpUsage n rg"

lemmas reg_op_defs = AddUpstream_def AddDiscovered_def DiscoverUpstream_def registerUpstream_def
  enable_commit_def refresh_commit_def rebind_commit_def commitSelfServiceOAuth_def SetUpstreamOwner_def
  SetUpstreamLabel_def DisableUpstream_def RevokeUpstream_def SetUpstreamReadOnly_def
  SetUpstreamAuditFullArgs_def SetUpstreamGrants_def RemoveUpstream_def recordUpstreamHealth_def bumpUsage_def
  modify_def

section \<open>One record at a time\<close>

text \<open>
  Every operation leaves a record alone, removes it, adds it where there was none, or changes
  it in one of a few ways. All invariants are read off this relation.
\<close>

inductive evolves :: "reg_env \<Rightarrow> reg_op \<Rightarrow> string \<Rightarrow> upstream option \<Rightarrow> upstream option \<Rightarrow> bool" for E where
  same: "evolves E op n r r"
| removed: "evolves E (OpRemove n) n (Some u) None"
| added: "\<not> bad_name n \<Longrightarrow> u = fold apply_option opts (new_upstream c tools enabled prov sug) \<Longrightarrow>
    \<not> (up_private u \<and> up_self_service u) \<Longrightarrow>
    (up_enabled u \<and> \<not> up_revoked u \<longrightarrow> re_mediate E (cn_endpoint (up_conn u)) = None) \<Longrightarrow>
    \<not> (\<exists>live fl c listed. op = OpSelfService live fl c listed) \<Longrightarrow> evolves E op n None (Some u)"
| self_added: "ofl_name fl = n \<Longrightarrow> up_owner u = ofl_owner fl \<Longrightarrow> up_self_service u \<Longrightarrow> \<not> up_private u \<Longrightarrow>
    up_grants u = [] \<Longrightarrow> up_generation u = ofl_generation fl \<Longrightarrow>
    evolves E (OpSelfService live fl c listed) n None (Some u)"
| enabled: "re_mediate E (cn_endpoint (up_conn u)) = None \<Longrightarrow>
    evolves E (OpEnable n snap listed) n (Some u)
      (Some (u\<lparr>up_tools := tools, up_suggested := sug, up_enabled := True\<rparr>))"
| refreshed: "evolves E op n (Some u) (Some (u\<lparr>up_tools := tools, up_suggested := sug\<rparr>))"
| rebound: "re_mediate E (cn_endpoint c) = None \<Longrightarrow> (\<And>k. g = Some k \<Longrightarrow> up_generation u = k) \<Longrightarrow>
    evolves E (OpRebind n c g listed) n (Some u) (Some (rebound c tools sug u))"
| reauthorized: "ofl_name fl = n \<Longrightarrow> up_self_service u \<Longrightarrow> up_owner u = ofl_owner fl \<Longrightarrow>
    up_generation u = ofl_generation fl \<Longrightarrow>
    evolves E (OpSelfService live fl c listed) n (Some u) (Some (rebound c tools sug u))"
| owned: "\<not> up_self_service u \<or> owner = up_owner u \<Longrightarrow> evolves E op n (Some u) (Some (u\<lparr>up_owner := owner\<rparr>))"
| labelled: "evolves E op n (Some u) (Some (u\<lparr>up_label := l\<rparr>))"
| disabled: "evolves E op n (Some u) (Some (drop_cache (u\<lparr>up_enabled := False\<rparr>)))"
| revoked: "evolves E (OpRevoke n) n (Some u) (Some (drop_cache (u\<lparr>up_enabled := False, up_revoked := True,
    up_generation := next_generation (up_generation u)\<rparr>)))"
| read_only: "evolves E op n (Some u) (Some (u\<lparr>up_read_only := b\<rparr>))"
| audit_full: "evolves E op n (Some u) (Some (u\<lparr>up_audit_full := b\<rparr>))"
| granted: "validate_grants (re_lib E) n 0 [] [] gs0 = Inr gs \<Longrightarrow>
    evolves E op n (Some u) (Some (u\<lparr>up_grants := gs\<rparr>))"
| failed: "evolves E op n (Some u) (Some (u\<lparr>up_last_err := e, up_last_err_at := t\<rparr>))"
| worked: "evolves E op n (Some u) (Some (u\<lparr>up_last_ok := t\<rparr>))"

lemma lookup_store [simp]: "lookup (store n u rg) m = (if m = n then Some u else lookup rg m)"
  by (simp add: lookup_def store_def update_conv)

lemma lookup_bump [simp]: "lookup (bumpUsage k rg) m = lookup rg m"
  by (simp add: lookup_def bumpUsage_def)

lemma lookup_remove: "lookup (fst (RemoveUpstream k rg)) m = (if m = k then None else lookup rg m)"
  by (auto simp: lookup_def RemoveUpstream_def delete_conv)

lemma modify_evolves:
  assumes "\<And>u. evolves E op n (Some u) (Some (f u))"
  shows "evolves E op m (lookup rg m) (lookup (fst (modify n f rg)) m)"
proof (cases "m = n \<and> lookup rg n \<noteq> None")
  case True
  then show ?thesis using assms by (auto simp: modify_def)
next
  case False
  then have "lookup (fst (modify n f rg)) m = lookup rg m" by (cases "lookup rg n") (auto simp: modify_def)
  then show ?thesis by (simp add: evolves.same)
qed

lemma register_evolves:
  assumes "\<not> bad_name n" and "\<not> (\<exists>live fl c listed. op = OpSelfService live fl c listed)"
  shows "evolves E op m (lookup rg m)
    (lookup (fst (registerUpstream (re_mediate E) n (new_upstream c tools en prov sug) opts rg)) m)"
proof -
  let ?u = "fold apply_option opts (new_upstream c tools en prov sug)"
  have "evolves E op n None (Some ?u)"
    if "\<not> (up_private ?u \<and> up_self_service ?u)"
      and "up_enabled ?u \<and> \<not> up_revoked ?u \<longrightarrow> re_mediate E (cn_endpoint (up_conn ?u)) = None"
    using assms that by (intro evolves.added) auto
  then show ?thesis
    by (auto simp: registerUpstream_def Let_def intro: evolves.same split: option.splits if_splits)
qed

lemma reg_step_evolves: "evolves E op m (lookup rg m) (lookup (reg_step E rg op) m)"
proof (cases op)
  case (OpAdd n c listed opts)
  then show ?thesis
    by (auto simp: AddUpstream_def intro: evolves.same register_evolves split: sum.splits)
next
  case (OpCatalog n c tools prov opts)
  then show ?thesis by (auto simp: AddDiscovered_def intro: evolves.same register_evolves)
next
  case (OpDiscover n c listed opts)
  then show ?thesis
    by (auto simp: DiscoverUpstream_def intro: evolves.same register_evolves split: sum.splits)
next
  case (OpEnable n snap listed)
  then show ?thesis
    by (auto simp: enable_commit_def intro: evolves.same evolves.enabled split: sum.splits option.splits)
next
  case (OpRefresh n snap listed)
  then show ?thesis
    by (auto simp: refresh_commit_def intro: evolves.same evolves.refreshed split: sum.splits option.splits)
next
  case (OpRebind n c g listed)
  then show ?thesis
    by (auto simp: rebind_commit_def intro: evolves.same intro!: evolves.rebound split: sum.splits option.splits)
next
  case (OpSelfService live fl c listed)
  then show ?thesis
    by (auto simp: commitSelfServiceOAuth_def new_upstream_def intro: evolves.same evolves.self_added evolves.reauthorized
        split: sum.splits option.splits)
next
  case (OpOwner n owner)
  then show ?thesis
    by (auto simp: SetUpstreamOwner_def intro: evolves.same evolves.owned split: sum.splits option.splits)
next
  case (OpLabel n l)
  then show ?thesis
    by (auto simp: SetUpstreamLabel_def intro: evolves.same evolves.labelled modify_evolves split: sum.splits)
next
  case (OpDisable n)
  then show ?thesis by (auto simp: DisableUpstream_def intro: evolves.disabled modify_evolves)
next
  case (OpRevoke n)
  then show ?thesis by (auto simp: RevokeUpstream_def intro: evolves.revoked modify_evolves)
next
  case (OpReadOnly n b)
  then show ?thesis by (auto simp: SetUpstreamReadOnly_def intro: evolves.read_only modify_evolves)
next
  case (OpAuditFull n b)
  then show ?thesis by (auto simp: SetUpstreamAuditFullArgs_def intro: evolves.audit_full modify_evolves)
next
  case (OpGrants n gs)
  then show ?thesis
    by (auto simp: SetUpstreamGrants_def intro: evolves.same evolves.granted modify_evolves split: sum.splits)
next
  case (OpRemove k)
  then show ?thesis
    by (cases "lookup rg m") (auto simp: lookup_remove intro: evolves.same evolves.removed)
next
  case (OpHealth n err now)
  then show ?thesis
    by (auto simp: recordUpstreamHealth_def intro: evolves.same evolves.failed evolves.worked split: option.splits)
next
  case (OpUsage k)
  then show ?thesis by (simp add: evolves.same)
qed

section \<open>Invariants\<close>

text \<open>The grants of a connection: validated for it, and at most one for a caller, campaign and tool.\<close>

definition grants_ok :: "go_lib \<Rightarrow> string \<Rightarrow> operation_grant list \<Rightarrow> bool" where
  "grants_ok L n gs \<longleftrightarrow> (\<forall>g \<in> set gs. \<exists>g0. validateOperationGrant L g0 n = Inr g) \<and>
     distinct (map og_id gs) \<and> distinct (map (\<lambda>g. (og_principal g, og_campaign g, og_tool g)) gs)"

lemma validate_grants_ok:
  "validate_grants L n i ids tuples gs0 = Inr gs \<Longrightarrow>
   grants_ok L n gs \<and> set (map og_id gs) \<inter> set ids = {} \<and> set (map grant_tuple gs) \<inter> set tuples = {}"
proof (induction gs0 arbitrary: i ids tuples gs)
  case Nil
  then show ?case by (simp add: grants_ok_def)
next
  case (Cons g0 gs0)
  then obtain g rest where g: "validateOperationGrant L g0 n = Inr g" "og_id g \<notin> set ids" "grant_tuple g \<notin> set tuples"
    and rest: "validate_grants L n (i + 1) (og_id g # ids) (grant_tuple g # tuples) gs0 = Inr rest" and gs: "gs = g # rest"
    by (auto split: sum.splits if_splits)
  note IH = Cons.IH [OF rest]
  have "(og_principal g, og_campaign g, og_tool g) \<notin> set (map (\<lambda>g. (og_principal g, og_campaign g, og_tool g)) rest)"
    using IH by (auto simp: grant_tuple_def)
  then show ?case using IH g by (auto simp: grants_ok_def gs)
qed

definition record_ok :: "reg_env \<Rightarrow> string \<Rightarrow> upstream \<Rightarrow> bool" where
  "record_ok E n u \<longleftrightarrow> \<not> (up_private u \<and> up_self_service u) \<and> grants_ok (re_lib E) n (up_grants u)"

lemma options_keep_grants: "up_grants (fold apply_option opts u) = up_grants u"
proof (induction opts arbitrary: u)
  case (Cons opt opts)
  then show ?case by (cases opt) simp_all
qed simp

lemma drop_cache_sel [simp]:
  "up_private (drop_cache u) = up_private u" "up_self_service (drop_cache u) = up_self_service u"
  "up_grants (drop_cache u) = up_grants u" "up_owner (drop_cache u) = up_owner u"
  "up_enabled (drop_cache u) = up_enabled u" "up_revoked (drop_cache u) = up_revoked u"
  "up_conn (drop_cache u) = up_conn u" "up_generation (drop_cache u) = up_generation u"
  "up_template (drop_cache u) = up_template u"
  by (simp_all add: drop_cache_def)

lemma rebound_sel [simp]:
  "up_private (rebound c t s u) = up_private u" "up_self_service (rebound c t s u) = up_self_service u"
  "up_grants (rebound c t s u) = up_grants u" "up_owner (rebound c t s u) = up_owner u"
  "up_conn (rebound c t s u) = c" "up_template (rebound c t s u) = up_template u"
  by (simp_all add: rebound_def)

lemma evolves_record_ok:
  "evolves E op n r r' \<Longrightarrow> (\<forall>u. r = Some u \<longrightarrow> record_ok E n u) \<Longrightarrow> r' = Some u' \<Longrightarrow> record_ok E n u'"
proof (induction rule: evolves.induct)
  case (granted n gs0 gs op u)
  then show ?case using validate_grants_ok by (fastforce simp: record_ok_def)
next
  case (added n u opts c tools enabled prov sug op)
  then show ?case by (auto simp: record_ok_def options_keep_grants new_upstream_def grants_ok_def)
qed (auto simp: record_ok_def grants_ok_def)

definition reg_ok :: "reg_env \<Rightarrow> registry \<Rightarrow> bool" where
  "reg_ok E rg \<longleftrightarrow> distinct (map fst (rg_conns rg)) \<and> (\<forall>n u. lookup rg n = Some u \<longrightarrow> record_ok E n u)"

lemma distinct_modify: "distinct (map fst (rg_conns rg)) \<Longrightarrow> distinct (map fst (rg_conns (fst (modify n f rg))))"
  by (auto simp: modify_def store_def distinct_update split: option.splits)

lemma distinct_register:
  "distinct (map fst (rg_conns rg)) \<Longrightarrow> distinct (map fst (rg_conns (fst (registerUpstream md n u opts rg))))"
  by (auto simp: registerUpstream_def Let_def store_def distinct_update split: option.splits)

lemma reg_step_distinct: "distinct (map fst (rg_conns rg)) \<Longrightarrow> distinct (map fst (rg_conns (reg_step E rg op)))"
proof (cases op)
  case (OpAdd n c listed opts)
  then show "distinct (map fst (rg_conns rg)) \<Longrightarrow> ?thesis"
    by (auto simp: AddUpstream_def distinct_register split: sum.splits)
next
  case (OpCatalog n c tools prov opts)
  then show "distinct (map fst (rg_conns rg)) \<Longrightarrow> ?thesis" by (auto simp: AddDiscovered_def distinct_register)
next
  case (OpDiscover n c listed opts)
  then show "distinct (map fst (rg_conns rg)) \<Longrightarrow> ?thesis"
    by (auto simp: DiscoverUpstream_def distinct_register split: sum.splits)
next
  case (OpSelfService live fl c listed)
  then show "distinct (map fst (rg_conns rg)) \<Longrightarrow> ?thesis"
    by (auto simp: commitSelfServiceOAuth_def store_def distinct_update split: sum.splits option.splits)
next
  case (OpRemove n)
  then show "distinct (map fst (rg_conns rg)) \<Longrightarrow> ?thesis" by (simp add: RemoveUpstream_def distinct_delete)
next
  case (OpUsage n)
  then show "distinct (map fst (rg_conns rg)) \<Longrightarrow> ?thesis" by (simp add: bumpUsage_def)
qed (auto simp: enable_commit_def refresh_commit_def rebind_commit_def SetUpstreamOwner_def SetUpstreamLabel_def
    DisableUpstream_def RevokeUpstream_def SetUpstreamReadOnly_def SetUpstreamAuditFullArgs_def SetUpstreamGrants_def
    recordUpstreamHealth_def store_def distinct_update distinct_modify split: sum.splits option.splits)

interpretation reg_seq: stepper "reg_step E" "\<lambda>_. True" "reg_ok E" for E
proof
  fix rg op
  assume ok: "reg_ok E rg"
  then show "reg_ok E (reg_step E rg op)"
    using evolves_record_ok [OF reg_step_evolves] reg_step_distinct unfolding reg_ok_def by blast
qed

definition empty_registry :: registry where
  "empty_registry = \<lparr>rg_conns = [], rg_usage = []\<rparr>"

lemma empty_registry_ok: "reg_ok E empty_registry"
  by (simp add: reg_ok_def empty_registry_def lookup_def)

lemma reachable_ok: "reg_ok E (foldl (reg_step E) empty_registry ops)"
  using reg_seq.run_invar [OF empty_registry_ok] by simp

lemma matchingGrant_unique:
  assumes "grants_ok L n (up_grants u)" and "matchingGrant u caller campaign tool = Some g"
    and "h \<in> set (up_grants u)" and "og_principal h = caller" and "og_campaign h = campaign" and "og_tool h = tool"
  shows "h = g"
proof -
  have "g \<in> set (up_grants u)" and "og_principal g = caller" "og_campaign g = campaign" "og_tool g = tool"
    using assms(2) by (auto simp: matchingGrant_def find_Some_iff)
  with assms show ?thesis by (auto simp: grants_ok_def distinct_map dest: inj_onD)
qed

section \<open>Ownership\<close>

lemma evolves_ownership:
  "evolves E op n r r' \<Longrightarrow> r = Some u \<Longrightarrow> up_self_service u \<Longrightarrow> op \<noteq> OpRemove n \<Longrightarrow>
   \<exists>u'. r' = Some u' \<and> up_self_service u' \<and> up_owner u' = up_owner u \<and> up_template u' = up_template u"
  by (induction rule: evolves.induct) auto

lemma run_ownership:
  assumes "lookup rg n = Some u" and "up_self_service u" and "OpRemove n \<notin> set ops"
  shows "\<exists>u'. lookup (foldl (reg_step E) rg ops) n = Some u' \<and> up_self_service u' \<and> up_owner u' = up_owner u \<and>
    up_template u' = up_template u"
  using assms
proof (induction ops arbitrary: rg u)
  case (Cons op ops)
  then obtain u1 where "lookup (reg_step E rg op) n = Some u1" "up_self_service u1" "up_owner u1 = up_owner u"
    "up_template u1 = up_template u"
    using evolves_ownership [OF reg_step_evolves [of E op n rg]] by (metis list.set_intros(1))
  with Cons show ?case by fastforce
qed simp

section \<open>Revocation\<close>

text \<open>
  What may happen to a connection after its revocation without reviving it: anything but a removal
  and a rebinding without a generation. The latter is what the callback of an authorization that the operator
  started (\<open>completeUpstreamOAuth\<close>) and a change of the delegation perform.
\<close>

definition started_before :: "string \<Rightarrow> nat \<Rightarrow> reg_op \<Rightarrow> bool" where
  "started_before n g op = (case op of
      OpRemove m \<Rightarrow> m \<noteq> n
    | OpRebind m c (Some k) listed \<Rightarrow> m \<noteq> n \<or> k = g
    | OpRebind m c None listed \<Rightarrow> m \<noteq> n
    | OpSelfService live fl c listed \<Rightarrow> ofl_name fl \<noteq> n \<or> ofl_generation fl = g
    | _ \<Rightarrow> True)"

definition stays_revoked :: "upstream \<Rightarrow> nat \<Rightarrow> upstream option \<Rightarrow> bool" where
  "stays_revoked u k r \<longleftrightarrow> (\<exists>u' j. r = Some u' \<and> up_revoked u' \<and> up_conn u' = up_conn u \<and>
     0 < j \<and> j \<le> k \<and> up_generation u' = (up_generation u + j) mod 2 ^ 64)"

lemma moved_on:
  fixes g k m :: nat
  assumes "g < m" and "0 < k" and "k < m"
  shows "(g + k) mod m \<noteq> g"
proof (cases "g + k < m")
  case False
  then have "(g + k) mod m = g + k - m" using assms by (simp add: le_mod_geq)
  with False assms show ?thesis by simp
qed (use assms in simp)

lemma evolves_revoked:
  assumes "evolves E op n r r'" and "stays_revoked u k r" and "started_before n (up_generation u) op"
    and "up_generation u < 2 ^ 64" and "k < 2 ^ 64"
  shows "stays_revoked u (if op = OpRevoke n then Suc k else k) r'"
proof -
  obtain v j where v: "r = Some v" "up_revoked v" "up_conn v = up_conn u" and j: "0 < j" "j \<le> k"
    "up_generation v = (up_generation u + j) mod 2 ^ 64" using assms(2) by (auto simp: stays_revoked_def)
  have moved: "up_generation v \<noteq> up_generation u" unfolding j(3) using moved_on j(1,2) assms(4,5) by auto
  have keep: "stays_revoked u (if op = OpRevoke n then Suc k else k) (Some v')"
    if "up_revoked v'" "up_conn v' = up_conn u" "up_generation v' = up_generation v" for v'
    unfolding stays_revoked_def using that j by auto
  have again: "stays_revoked u (Suc k) (Some v')"
    if "up_revoked v'" "up_conn v' = up_conn u" "up_generation v' = next_generation (up_generation v)" for v'
    unfolding stays_revoked_def using that j
    by (intro exI [of _ v'] exI [of _ "Suc j"]) (simp add: next_generation_def mod_simps)
  show ?thesis
    using assms(1)
  proof (cases rule: evolves.cases)
    case revoked
    then show ?thesis using again v by simp
  next
    case (rebound c g u' listed tools sug)
    then show ?thesis using v moved assms(3) by (cases g) (auto simp: started_before_def)
  next
    case (reauthorized fl u' live c listed tools sug)
    then show ?thesis using v moved assms(3) by (auto simp: started_before_def)
  qed (use v keep assms(3) in \<open>auto simp: started_before_def\<close>)
qed

lemma run_revoked:
  assumes "stays_revoked u k (lookup rg n)" and "\<forall>op \<in> set ops. started_before n (up_generation u) op"
    and "up_generation u < 2 ^ 64" and "k + count_list ops (OpRevoke n) < 2 ^ 64"
  shows "\<exists>k'. stays_revoked u k' (lookup (foldl (reg_step E) rg ops) n)"
  using assms(1,2,4)
proof (induction ops arbitrary: rg k)
  case (Cons op ops)
  have "stays_revoked u (if op = OpRevoke n then Suc k else k) (lookup (reg_step E rg op) n)"
    using evolves_revoked [OF reg_step_evolves Cons.prems(1) _ assms(3)] Cons.prems by simp
  moreover have "(if op = OpRevoke n then Suc k else k) + count_list ops (OpRevoke n) < 2 ^ 64"
    using Cons.prems(3) by (simp split: if_splits)
  ultimately show ?case using Cons.IH Cons.prems(2) by simp
qed auto

section \<open>Mediation\<close>

definition mediated :: "reg_env \<Rightarrow> upstream option \<Rightarrow> bool" where
  "mediated E r \<longleftrightarrow> (\<forall>u. r = Some u \<and> up_enabled u \<and> \<not> up_revoked u \<longrightarrow> re_mediate E (cn_endpoint (up_conn u)) = None)"

definition self_service_op :: "reg_op \<Rightarrow> bool" where
  "self_service_op op = (case op of OpSelfService live fl c listed \<Rightarrow> True | _ \<Rightarrow> False)"

lemma evolves_mediated:
  "evolves E op n r r' \<Longrightarrow> mediated E r \<Longrightarrow> \<not> self_service_op op \<Longrightarrow> mediated E r'"
  by (induction rule: evolves.induct) (auto simp: mediated_def self_service_op_def rebound_def)

interpretation med_seq: stepper "reg_step E" "\<lambda>op. \<not> self_service_op op" "\<lambda>rg. \<forall>n. mediated E (lookup rg n)" for E
  by unfold_locales (use evolves_mediated reg_step_evolves in blast)

section \<open>Qualified names\<close>

lemma cut_name:
  assumes "\<not> contains_sub name nsSep" and "\<not> has_suffix name ''_''"
  shows "str_cut nsSep (full_name name tool) = Some (name, tool)"
  using assms
proof (induction name)
  case Nil
  then show ?case by (simp add: full_name_def nsSep_def)
next
  case (Cons c name)
  have "\<not> has_prefix (c # name @ ''__'' @ tool) ''__''"
  proof
    assume "has_prefix (c # name @ ''__'' @ tool) ''__''"
    then have "c = CHR ''_''" and "has_prefix (name @ ''__'' @ tool) ''_''" by simp_all
    then show False using Cons.prems by (cases name) (auto simp: nsSep_def has_suffix_def)
  qed
  moreover have "str_cut nsSep (full_name name tool) = Some (name, tool)"
  proof (cases name)
    case Nil
    then show ?thesis by (simp add: full_name_def nsSep_def)
  next
    case (Cons d ds)
    then have "\<not> has_suffix name ''_''"
      using Cons.prems(2) by (auto simp: has_suffix_iff)
    then show ?thesis using Cons.IH Cons.prems(1) by simp
  qed
  ultimately show ?case by (simp add: full_name_def nsSep_def)
qed

lemma cut_trailing:
  assumes "\<not> contains_sub (name @ ''_'') nsSep"
  shows "str_cut nsSep (full_name (name @ ''_'') tool) = Some (name, ''_'' @ tool)"
proof -
  have "\<not> has_suffix name ''_''"
  proof
    assume "has_suffix name ''_''"
    then obtain r where "name @ ''_'' = r @ nsSep @ []" by (auto simp: has_suffix_iff nsSep_def)
    then show False using assms contains_sub_iff by blast
  qed
  moreover have "\<not> contains_sub name nsSep" using assms by (auto simp: contains_sub_iff) (metis append.assoc)
  moreover have "full_name (name @ ''_'') tool = full_name name (''_'' @ tool)" by (simp add: full_name_def nsSep_def)
  ultimately show ?thesis using cut_name by metis
qed

section \<open>Properties\<close>

text \<open>
  C35. The registry keeps its records sound. After any sequence of operations on it, with any
  outcomes and any interleaving of what leaves the lock for the network, names are unique, no
  connection made by a principal may reach a private destination, and the operation grants of a
  connection are validated for it with at most one for any caller, campaign and tool: the grant
  a call is judged by is the only one that could be.
\<close>

theorem registry_records_sound:
  assumes "rg = foldl (reg_step E) empty_registry ops" and "lookup rg n = Some u"
  shows "distinct (map fst (rg_conns rg)) \<and> \<not> (up_private u \<and> up_self_service u) \<and>
    (\<forall>g \<in> set (up_grants u). \<exists>g0. validateOperationGrant (re_lib E) g0 n = Inr g) \<and>
    (\<forall>caller campaign tool g. matchingGrant u caller campaign tool = Some g \<longrightarrow>
      (\<forall>h \<in> set (up_grants u). og_principal h = caller \<and> og_campaign h = campaign \<and> og_tool h = tool \<longrightarrow> h = g))"
proof -
  have "reg_ok E rg" using reachable_ok assms(1) by blast
  then have "distinct (map fst (rg_conns rg))" and rec: "record_ok E n u" using assms(2) by (auto simp: reg_ok_def)
  then show ?thesis using matchingGrant_unique by (auto simp: record_ok_def grants_ok_def)
qed

definition added_ops :: "reg_op list" where
  "added_ops = [OpCatalog ''crm'' \<lparr>cn_id = 1, cn_endpoint = []\<rparr> [] [] []]"

theorem registry_records_sound_witness:
  "\<forall>E. \<exists>u. lookup (foldl (reg_step E) empty_registry added_ops) ''crm'' = Some u \<and> \<not> (up_private u \<and> up_self_service u) \<and>
     distinct (map fst (rg_conns (foldl (reg_step E) empty_registry added_ops)))"
proof
  fix E
  obtain u where u: "lookup (foldl (reg_step E) empty_registry added_ops) ''crm'' = Some u"
    by (simp add: added_ops_def AddDiscovered_def registerUpstream_def bad_name_def nsSep_def empty_registry_def
        lookup_def store_def new_upstream_def)
  with registry_records_sound [OF refl u]
  show "\<exists>u. lookup (foldl (reg_step E) empty_registry added_ops) ''crm'' = Some u \<and> \<not> (up_private u \<and> up_self_service u) \<and>
     distinct (map fst (rg_conns (foldl (reg_step E) empty_registry added_ops)))" by blast
qed


text \<open>
  Ownership of a connection made by a principal is immutable. Whatever operations follow,
  short of its removal, the connection stays a self-service connection of the same owner and template.
\<close>

theorem self_service_ownership:
  assumes "lookup rg n = Some u" and "up_self_service u" and "OpRemove n \<notin> set ops"
  shows "\<exists>u'. lookup (foldl (reg_step E) rg ops) n = Some u' \<and> up_self_service u' \<and> up_owner u' = up_owner u \<and>
    up_template u' = up_template u"
  using assms by (rule run_ownership)


theorem self_service_ownership_witness:
  "\<forall>E. \<exists>u'. lookup (foldl (reg_step E) \<lparr>rg_conns = [(''crm'', (new_upstream \<lparr>cn_id = 1, cn_endpoint = []\<rparr> [] True [] None)
        \<lparr>up_owner := ''i#u'', up_self_service := True\<rparr>)], rg_usage = []\<rparr> [OpOwner ''crm'' ''i#v'']) ''crm'' = Some u' \<and>
     up_self_service u' \<and> up_owner u' = ''i#u'' \<and> up_template u' = []"
proof
  fix E
  show "\<exists>u'. lookup (foldl (reg_step E) \<lparr>rg_conns = [(''crm'', (new_upstream \<lparr>cn_id = 1, cn_endpoint = []\<rparr> [] True [] None)
        \<lparr>up_owner := ''i#u'', up_self_service := True\<rparr>)], rg_usage = []\<rparr> [OpOwner ''crm'' ''i#v'']) ''crm'' = Some u' \<and>
     up_self_service u' \<and> up_owner u' = ''i#u'' \<and> up_template u' = []"
    using self_service_ownership [of "\<lparr>rg_conns = [(''crm'', (new_upstream \<lparr>cn_id = 1, cn_endpoint = []\<rparr> [] True [] None)
        \<lparr>up_owner := ''i#u'', up_self_service := True\<rparr>)], rg_usage = []\<rparr>" "''crm''" _ "[OpOwner ''crm'' ''i#v'']" E]
    by (simp add: lookup_def new_upstream_def)
qed


definition example_upstream :: upstream where
  "example_upstream = (new_upstream \<lparr>cn_id = 1, cn_endpoint = ''https://crm/mcp''\<rparr> [] True ''preloaded'' None)
     \<lparr>up_owner := ''i#u'', up_self_service := True, up_template := ''t''\<rparr>"

definition example_registry :: registry where
  "example_registry = \<lparr>rg_conns = [(''crm'', example_upstream)], rg_usage = []\<rparr>"

definition late_flow :: oauth_flow where
  "late_flow = \<lparr>ofl_name = ''crm'', ofl_owner = ''i#u'', ofl_template = ''t'', ofl_label = [], ofl_reauth = True,
     ofl_discover = False, ofl_read_only = False, ofl_generation = 0\<rparr>"

text \<open>A reauthorization and an enabling that were under way when the operator revoked the connection.\<close>

definition late_ops :: "reg_op list" where
  "late_ops = [OpSelfService True late_flow \<lparr>cn_id = 2, cn_endpoint = ''https://crm/mcp''\<rparr> (Inr []),
     OpEnable ''crm'' example_upstream (Inr [])]"

text \<open>A deployment without enforced mediation, and the same followed by the callback of an authorization of the operator.\<close>

definition open_reg_env :: "go_lib \<Rightarrow> reg_env" where
  "open_reg_env L = \<lparr>re_mediate = (\<lambda>_. None), re_suggest = (\<lambda>_. None), re_runes = (\<lambda>s. Some (map of_char s)), re_lib = L\<rparr>"


text \<open>
  C37. Enforced mediation and its gap. Over every sequence of operations other than the completion
  of a principal's authorization, an enabled connection that is not revoked has an endpoint that
  the mediation binding admits. The completion of a principal's authorization does not consult the
  binding: it registers an enabled connection to an endpoint that adding the same connection
  would have been refused for.
\<close>

theorem mediation_gap:
  assumes "\<forall>op \<in> set ops. \<not> self_service_op op" and "rg = foldl (reg_step E) empty_registry ops"
    and "lookup rg n = None" and "\<not> bad_name n" and "re_mediate E (cn_endpoint c) = Some e"
    and "ofl_name fl = n" and "\<not> ofl_reauth fl" and "\<not> ofl_discover fl"
  shows "(\<forall>m u. lookup rg m = Some u \<and> up_enabled u \<and> \<not> up_revoked u \<longrightarrow> re_mediate E (cn_endpoint (up_conn u)) = None) \<and>
    AddUpstream (re_mediate E) (re_suggest E) n c (Inr tools) [WithOwner (ofl_owner fl), WithSelfService (ofl_template fl)] rg =
      (rg, Some (MediationRefused n e)) \<and>
    (\<exists>rg' u. commitSelfServiceOAuth (re_suggest E) True fl c (Inr tools) rg = (rg', None) \<and>
      lookup rg' n = Some u \<and> up_enabled u \<and> \<not> up_revoked u \<and> up_conn u = c)"
proof (intro conjI)
  have "\<forall>m. mediated E (lookup rg m)"
    using med_seq.run_invar [of E empty_registry ops] assms(1,2)
    by (simp add: mediated_def empty_registry_def lookup_def)
  then show "\<forall>m u. lookup rg m = Some u \<and> up_enabled u \<and> \<not> up_revoked u \<longrightarrow>
      re_mediate E (cn_endpoint (up_conn u)) = None" by (auto simp: mediated_def)
qed (use assms(3-8) in \<open>auto simp: AddUpstream_def registerUpstream_def commitSelfServiceOAuth_def new_upstream_def\<close>)

text \<open>
  A tool's qualified name reads back as its connection and its tool exactly when the
  connection's name does not end in an underscore. A name that does is admitted by every
  registration, and a call to one of its tools is taken for a call to the connection named without
  the underscore.
\<close>

theorem qualified_name_roundtrip:
  assumes "\<not> bad_name name"
  shows "(str_cut nsSep (full_name name tool) = Some (name, tool) \<longleftrightarrow> \<not> has_suffix name ''_'') \<and>
    (\<forall>short. name = short @ ''_'' \<longrightarrow> str_cut nsSep (full_name name tool) = Some (short, ''_'' @ tool))"
proof -
  have trailing: "str_cut nsSep (full_name name tool) = Some (short, ''_'' @ tool)" if "name = short @ ''_''" for short
    using cut_trailing [of short tool] that assms by (simp add: bad_name_def)
  moreover have "str_cut nsSep (full_name name tool) = Some (name, tool)" if "\<not> has_suffix name ''_''"
    using cut_name that assms by (simp add: bad_name_def)
  ultimately show ?thesis by (auto simp: has_suffix_iff)
qed

definition example_conn :: conn where
  "example_conn = \<lparr>cn_id = 1, cn_endpoint = ''https://gw/mcp''\<rparr>"

definition example_flow :: oauth_flow where
  "example_flow = \<lparr>ofl_name = ''crm'', ofl_owner = ''i#u'', ofl_template = ''t'', ofl_label = [], ofl_reauth = False,
     ofl_discover = False, ofl_read_only = False, ofl_generation = 0\<rparr>"

definition example_reg_env :: "go_lib \<Rightarrow> reg_env" where
  "example_reg_env L = \<lparr>re_mediate = (\<lambda>ep. if ep = ''https://gw/mcp'' then Some ''gateway host'' else None),
     re_suggest = (\<lambda>_. None), re_runes = (\<lambda>s. Some (map of_char s)), re_lib = L\<rparr>"

theorem mediation_gap_witness:
  "\<forall>L. \<exists>rg' u. commitSelfServiceOAuth (\<lambda>_. None) True example_flow example_conn (Inr []) empty_registry = (rg', None) \<and>
     lookup rg' ''crm'' = Some u \<and> up_enabled u \<and> \<not> up_revoked u \<and> up_conn u = example_conn \<and>
     re_mediate (example_reg_env L) (cn_endpoint (up_conn u)) = Some ''gateway host''"
proof
  fix L
  have m: "re_mediate (example_reg_env L) (cn_endpoint example_conn) = Some ''gateway host''"
    by (simp add: example_reg_env_def example_conn_def)
  have "\<exists>rg' u. commitSelfServiceOAuth (re_suggest (example_reg_env L)) True example_flow example_conn (Inr []) empty_registry = (rg', None) \<and>
     lookup rg' ''crm'' = Some u \<and> up_enabled u \<and> \<not> up_revoked u \<and> up_conn u = example_conn"
    using mediation_gap [of "[]" empty_registry "example_reg_env L" "''crm''" example_conn "''gateway host''" example_flow "[]"] m
    by (simp add: example_flow_def lookup_def empty_registry_def bad_name_def nsSep_def)
  then show "\<exists>rg' u. commitSelfServiceOAuth (\<lambda>_. None) True example_flow example_conn (Inr []) empty_registry = (rg', None) \<and>
     lookup rg' ''crm'' = Some u \<and> up_enabled u \<and> \<not> up_revoked u \<and> up_conn u = example_conn \<and>
     re_mediate (example_reg_env L) (cn_endpoint (up_conn u)) = Some ''gateway host''"
    using m by (metis reg_env.select_convs(2) example_reg_env_def)
qed


theorem qualified_name_roundtrip_witness:
  "str_cut nsSep (full_name ''crm'' ''_purge'') = Some (''crm'', ''_purge'') \<and>
   str_cut nsSep (full_name ''crm_'' ''purge'') = Some (''crm'', ''_purge'')"
  using qualified_name_roundtrip [of "''crm''" "''_purge''"] qualified_name_roundtrip [of "''crm_''" "''purge''"]
  by (simp add: bad_name_def nsSep_def has_suffix_def)


end
