(* ===== verification/Hash_Chain.thy ===== *)
theory Hash_Chain
  imports Go_Strings
begin

text \<open>
  Hash-chained logs, the discipline \<open>decisionledger.go\<close> (\<open>decisionHash\<close>) and
  \<open>auditlog.go\<close> (\<open>chainHash\<close>) share: the hash of a line is the hexadecimal SHA-256 of the
  previous line's hash, a NUL byte and the encoded record. The interface is the locale
  \<open>chained_log\<close>: a log whose verifier accepts only linked lines. Its clients learn that two
  accepted logs with the same head carry the same records, unless two of their own preimages
  collide. Both logs are append-only files, modelled as their physical lines (\<open>log_file\<close>).
  Collisions are always stated on the preimages of the logs at hand, since some
  collision exists for every hash function.
\<close>

section \<open>Links\<close>

definition preimage :: "string \<Rightarrow> string \<Rightarrow> string" where
  "preimage prev body = prev @ [CHR 0x00] @ body"

definition link_hash :: "(string \<Rightarrow> string) \<Rightarrow> string \<Rightarrow> string \<Rightarrow> string" where
  "link_hash sha prev body = hex_encode (sha (preimage prev body))"

definition head_of :: "(string \<Rightarrow> string) \<Rightarrow> string \<Rightarrow> string list \<Rightarrow> string" where
  "head_of sha prev bodies = foldl (link_hash sha) prev bodies"

text \<open>What is hashed along a log.\<close>

fun preimages :: "(string \<Rightarrow> string) \<Rightarrow> string \<Rightarrow> string list \<Rightarrow> string list" where
  "preimages sha prev [] = []"
| "preimages sha prev (b # bs) = preimage prev b # preimages sha (link_hash sha prev b) bs"

definition collision :: "(string \<Rightarrow> string) \<Rightarrow> string list \<Rightarrow> string list \<Rightarrow> bool" where
  "collision sha bs cs \<longleftrightarrow>
     (\<exists>x \<in> set (preimages sha [] bs). \<exists>y \<in> set (preimages sha [] cs). x \<noteq> y \<and> sha x = sha y)"

lemma head_of_simps [simp]:
  "head_of sha prev [] = prev"
  "head_of sha prev (b # bs) = head_of sha (link_hash sha prev b) bs"
  "head_of sha prev (bs @ cs) = head_of sha (head_of sha prev bs) cs"
  by (simp_all add: head_of_def)

lemma preimages_append [simp]:
  "preimages sha prev (bs @ cs) = preimages sha prev bs @ preimages sha (head_of sha prev bs) cs"
  by (induction bs arbitrary: prev) simp_all

lemma link_hash_no_nul: "CHR 0x00 \<notin> set (link_hash sha prev b)"
  by (simp add: link_hash_def hex_encode_no_nul)

lemma head_no_nul: "CHR 0x00 \<notin> set prev \<Longrightarrow> CHR 0x00 \<notin> set (head_of sha prev bs)"
  by (induction bs arbitrary: prev) (simp_all add: link_hash_no_nul)

lemma preimage_inject:
  "CHR 0x00 \<notin> set p \<Longrightarrow> CHR 0x00 \<notin> set q \<Longrightarrow> preimage p b = preimage q c \<longleftrightarrow> p = q \<and> b = c"
  unfolding preimage_def using sep_unique [of p "CHR 0x00" b q c] by auto

lemma hex_encode_inj: "hex_encode a = hex_encode b \<longleftrightarrow> a = b"
  by (metis hex_decode_encode option.inject)

lemma link_hash_neq_Nil: "\<forall>x. sha x \<noteq> [] \<Longrightarrow> link_hash sha prev b \<noteq> []"
  unfolding link_hash_def by (metis hex_encode_length length_0_conv mult_eq_0_iff zero_neq_numeral)

lemma collision_mono:
  "collision sha bs cs \<Longrightarrow> collision sha (bs @ bs') (cs @ cs')"
  by (auto simp: collision_def)

text \<open>The head determines the records, or the two logs exhibit a collision.\<close>

lemma head_inject:
  assumes "\<forall>x. sha x \<noteq> []" and "head_of sha [] bs = head_of sha [] cs"
  shows "bs = cs \<or> collision sha bs cs"
  using assms(2)
proof (induction bs arbitrary: cs rule: rev_induct)
  case Nil
  then show ?case using link_hash_neq_Nil [OF assms(1), THEN not_sym] by (cases cs rule: rev_cases) auto
next
  case (snoc b bs)
  show ?case
  proof (cases cs rule: rev_cases)
    case Nil
    with snoc.prems link_hash_neq_Nil [OF assms(1)] show ?thesis by auto
  next
    case (snoc cs' c)
    let ?x = "preimage (head_of sha [] bs) b" and ?y = "preimage (head_of sha [] cs') c"
    have sha: "sha ?x = sha ?y" using snoc.prems snoc by (simp add: link_hash_def hex_encode_inj)
    have in_sets: "?x \<in> set (preimages sha [] (bs @ [b]))" "?y \<in> set (preimages sha [] cs)"
      using snoc by simp_all
    show ?thesis
    proof (cases "?x = ?y")
      case True
      then have eq: "head_of sha [] bs = head_of sha [] cs'" "b = c"
        using preimage_inject head_no_nul [of "[]"] by auto
      from snoc.IH [OF eq(1)] show ?thesis
        using eq(2) \<open>cs = cs' @ [c]\<close> collision_mono [of sha bs cs' "[b]" "[c]"] by blast
    next
      case False
      with sha in_sets show ?thesis unfolding collision_def by blast
    qed
  qed
qed

section \<open>Append-only files\<close>

text \<open>
  A file as its physical lines: a line that decodes, or bytes that do not. \<open>torn\<close>: the last
  line has no newline, so that the next write continues it and neither decodes any more.
\<close>

datatype 'l file_line = Line 'l | Garbage

record 'l log_file =
  lf_exists :: bool
  lf_lines :: "'l file_line list"
  lf_torn :: bool

datatype written = NoBytes | SomeBytes | AllButNewline

definition glue :: "'l log_file \<Rightarrow> 'l file_line \<Rightarrow> bool \<Rightarrow> 'l log_file" where
  "glue f l torn =
     \<lparr>lf_exists = True,
      lf_lines = (if lf_torn f then butlast (lf_lines f) @ [Garbage] else lf_lines f @ [l]),
      lf_torn = torn\<rparr>"

text \<open>What \<open>File.Write\<close> of a whole line leaves when it fails after some of its bytes.\<close>

fun failed_write :: "written \<Rightarrow> 'l \<Rightarrow> 'l log_file \<Rightarrow> 'l log_file" where
  "failed_write NoBytes l f = f\<lparr>lf_exists := True\<rparr>"
| "failed_write SomeBytes l f = glue f Garbage True"
| "failed_write AllButNewline l f = glue f (Line l) True"

fun read_line :: "'l file_line \<Rightarrow> 'l option" where
  "read_line (Line l) = Some l"
| "read_line Garbage = None"

lemma read_line_Some: "map read_line xs = map Some ls \<Longrightarrow> xs = map Line ls"
proof (induction xs arbitrary: ls)
  case (Cons x xs)
  then show ?case by (cases x) auto
qed simp

lemma read_line_Line [simp]: "read_line \<circ> Line = Some"
  by auto

section \<open>The interface\<close>

text \<open>
  \<open>accepts prev ls\<close>: the verifier lets the lines through from a predecessor \<open>prev\<close>. The one
  law is that a line it lets through is linked to its predecessor.
\<close>

locale chained_log =
  fixes sha :: "string \<Rightarrow> string"
    and hash :: "'l \<Rightarrow> string"
    and body :: "'l \<Rightarrow> string"
    and accepts :: "string \<Rightarrow> 'l list \<Rightarrow> bool"
  assumes accepts_link: "accepts prev (l # ls) \<Longrightarrow> hash l = link_hash sha prev (body l) \<and> accepts (hash l) ls"
begin

lemma accepted_head: "accepts prev ls \<Longrightarrow> ls \<noteq> [] \<Longrightarrow> hash (last ls) = head_of sha prev (map body ls)"
proof (induction ls arbitrary: prev)
  case (Cons l ls)
  from accepts_link [OF Cons.prems(1)] Cons.IH [of "hash l"] show ?case by (cases ls) auto
qed simp

lemma accepted_nth:
  "accepts prev ls \<Longrightarrow> i < length ls \<Longrightarrow> hash (ls ! i) = head_of sha prev (map body (take (Suc i) ls))"
proof (induction ls arbitrary: prev i)
  case (Cons l ls)
  from accepts_link [OF Cons.prems(1)] Cons.IH [of "hash l"] Cons.prems(2) show ?case
    by (cases i) auto
qed simp

text \<open>An accepted log whose line repeats the head of some record history starts with that history.\<close>

lemma accepted_prefix:
  assumes "\<forall>x. sha x \<noteq> []" and "accepts [] ls" and "i < length ls"
    and "hash (ls ! i) = head_of sha [] bodies"
  shows "map body (take (Suc i) ls) = bodies \<or> collision sha (map body ls) bodies"
proof -
  have "head_of sha [] (map body (take (Suc i) ls)) = head_of sha [] bodies"
    using accepted_nth [OF assms(2,3)] assms(4) by simp
  from head_inject [OF assms(1) this] show ?thesis
    using collision_mono [of sha "map body (take (Suc i) ls)" bodies "map body (drop (Suc i) ls)" "[]"]
    by (metis append_Nil2 append_take_drop_id map_append)
qed

lemma same_head_same_records:
  assumes "\<forall>x. sha x \<noteq> []" and "accepts [] ls" and "accepts [] ms" and "ls \<noteq> []" and "ms \<noteq> []"
    and "hash (last ls) = hash (last ms)"
  shows "map body ls = map body ms \<or> collision sha (map body ls) (map body ms)"
  using head_inject [OF assms(1)] assms(6) accepted_head [OF assms(2,4)] accepted_head [OF assms(3,5)] by metis

end

end
