(* ===== verification/Run_Store.thy ===== *)
theory Run_Store
  imports Go_Strings Complex_Main
begin

text \<open>
  The run store (\<open>src/internal/mcp/server.go\<close>: \<open>runStore\<close>, \<open>putRun\<close>, \<open>addRunLocked\<close>,
  \<open>accumulateImpactLocked\<close>, \<open>nextRunID\<close>, \<open>getRun\<close>) and the metrics read from it
  (\<open>metrics.go\<close>). A run record has the fields this code reads; the rest, which it only stores
  and encodes, is one opaque field. Counters wrap as Go's do. Ratios of counters are exact
  rationals here where Go rounds them to a \<open>float64\<close>.
\<close>

section \<open>Records\<close>

record run_record =
  rr_kind :: string
  rr_task_id :: string
  rr_source_id :: string
  rr_substrate :: string
  rr_engine :: string
  rr_latency_ms :: int
  rr_input_bytes :: int
  rr_output_bytes :: int
  rr_raw_bytes :: int
  rr_parked_bytes :: int
  rr_minimized_bytes :: int
  rr_context_measured :: bool
  rr_full_schema :: int
  rr_schema_digest :: int
  rr_summarized :: int
  rr_omitted :: int
  rr_exact_schema :: bool
  rr_fused :: bool
  rr_transform_input :: int
  rr_transform_output :: int
  rr_transform_latency :: int
  rr_reffed :: bool
  rr_ref :: string
  rr_bytes :: int
  rr_protected :: int
  rr_timestamp :: time
  rr_other :: string

record impact =
  im_calls :: int
  im_parked :: int
  im_bytes_kept_out :: int
  im_bytes_to_context :: int
  im_fields_protected :: int

record stage_cost =
  sc_calls :: int
  sc_input_bytes :: int
  sc_raw_bytes :: int
  sc_parked_bytes :: int
  sc_minimized_bytes :: int
  sc_context_bytes :: int

text \<open>\<open>ContextCost\<close>: one cost per stage, and the schema counters of discovery.\<close>

record context_cost =
  cc_bytes_to_context :: int
  cc_discovery :: stage_cost
  cc_full_schema :: int
  cc_schema_digest :: int
  cc_summarized :: int
  cc_omitted :: int
  cc_invocation :: stage_cost
  cc_reduction :: stage_cost

record run_store =
  rs_seq :: int
  rs_by_id :: "(string \<times> run_record) list"
  rs_order :: "string list"
  rs_max_kept :: int
  rs_total :: int
  rs_impact :: impact
  rs_context :: context_cost

definition defaultMaxRuns :: int where "defaultMaxRuns = 5000"

definition no_stage :: stage_cost where
  "no_stage = \<lparr>sc_calls = 0, sc_input_bytes = 0, sc_raw_bytes = 0, sc_parked_bytes = 0,
     sc_minimized_bytes = 0, sc_context_bytes = 0\<rparr>"

definition new_store :: "int \<Rightarrow> run_store" where
  "new_store max_kept =
     \<lparr>rs_seq = 0, rs_by_id = [], rs_order = [], rs_max_kept = max_kept, rs_total = 0,
      rs_impact = \<lparr>im_calls = 0, im_parked = 0, im_bytes_kept_out = 0, im_bytes_to_context = 0,
        im_fields_protected = 0\<rparr>,
      rs_context = \<lparr>cc_bytes_to_context = 0, cc_discovery = no_stage, cc_full_schema = 0,
        cc_schema_digest = 0, cc_summarized = 0, cc_omitted = 0, cc_invocation = no_stage,
        cc_reduction = no_stage\<rparr>\<rparr>"

section \<open>Recording a run\<close>

definition nextRunID :: "run_store \<Rightarrow> run_store \<times> string" where
  "nextRunID s = (let n = wrap64 (rs_seq s + 1) in (s\<lparr>rs_seq := n\<rparr>, ''run_'' @ fmt_int n))"

definition add_stage :: "int \<Rightarrow> int \<Rightarrow> int \<Rightarrow> int \<Rightarrow> int \<Rightarrow> stage_cost \<Rightarrow> stage_cost" where
  "add_stage inp raw parked minimized ctx c =
     \<lparr>sc_calls = wrap64 (sc_calls c + 1), sc_input_bytes = wrap64 (sc_input_bytes c + inp),
      sc_raw_bytes = wrap64 (sc_raw_bytes c + raw), sc_parked_bytes = wrap64 (sc_parked_bytes c + parked),
      sc_minimized_bytes = wrap64 (sc_minimized_bytes c + minimized),
      sc_context_bytes = wrap64 (sc_context_bytes c + ctx)\<rparr>"

definition accumulateContextLocked :: "run_record \<Rightarrow> context_cost \<Rightarrow> context_cost" where
  "accumulateContextLocked r c =
     (if \<not> rr_context_measured r then c
      else let ctx = rr_output_bytes r;
               c = c\<lparr>cc_bytes_to_context := wrap64 (cc_bytes_to_context c + ctx)\<rparr>
      in if rr_kind r = ''discovery''
         then c\<lparr>cc_discovery := add_stage (rr_input_bytes r) 0 0 0 ctx (cc_discovery c),
            cc_full_schema := wrap64 (cc_full_schema c + rr_full_schema r),
            cc_schema_digest := wrap64 (cc_schema_digest c + rr_schema_digest r),
            cc_summarized := wrap64 (cc_summarized c + rr_summarized r),
            cc_omitted := wrap64 (cc_omitted c + rr_omitted r)\<rparr>
         else if rr_kind r = ''proxy''
         then c\<lparr>cc_invocation := add_stage 0 (rr_raw_bytes r) (rr_parked_bytes r) (rr_minimized_bytes r) ctx
              (cc_invocation c)\<rparr>
         else if rr_kind r = ''reduce''
         then c\<lparr>cc_reduction := add_stage (rr_input_bytes r) (rr_raw_bytes r) (rr_parked_bytes r) 0 ctx
              (cc_reduction c)\<rparr>
         else c)"

definition add_impact :: "run_record \<Rightarrow> impact \<Rightarrow> impact" where
  "add_impact r i =
     (let i = i\<lparr>im_calls := wrap64 (im_calls i + 1)\<rparr>;
          i = (if rr_reffed r
               then i\<lparr>im_parked := wrap64 (im_parked i + 1),
                  im_bytes_kept_out := wrap64 (im_bytes_kept_out i +
                    (if rr_parked_bytes r = 0 then rr_bytes r else rr_parked_bytes r))\<rparr>
               else i);
          i = (if rr_context_measured r \<or> \<not> rr_reffed r
               then i\<lparr>im_bytes_to_context := wrap64 (im_bytes_to_context i + rr_output_bytes r)\<rparr> else i)
      in i\<lparr>im_fields_protected := wrap64 (im_fields_protected i + rr_protected r)\<rparr>)"

definition accumulateImpactLocked :: "run_record \<Rightarrow> run_store \<Rightarrow> run_store" where
  "accumulateImpactLocked r s =
     (if rr_kind r = ''materialize'' then s
      else s\<lparr>rs_impact := add_impact r (rs_impact s),
             rs_context := accumulateContextLocked r (rs_context s)\<rparr>)"

text \<open>The eviction loop: drop the oldest id while the window is over its cap.\<close>

function evict :: "run_store \<Rightarrow> run_store" where
  "evict s =
     (case rs_order s of [] \<Rightarrow> s
      | oldest # rest \<Rightarrow>
          if rs_max_kept s > 0 \<and> int (length (rs_order s)) > rs_max_kept s
          then evict (s\<lparr>rs_order := rest, rs_by_id := AList.delete oldest (rs_by_id s)\<rparr>)
          else s)"
  by pat_completeness auto
termination
  by (relation "measure (\<lambda>s. length (rs_order s))") auto

definition addRunLocked :: "string \<Rightarrow> run_record \<Rightarrow> run_store \<Rightarrow> run_store" where
  "addRunLocked i r s =
     (let s1 = (if map_of (rs_by_id s) i = None
                then accumulateImpactLocked r
                       (s\<lparr>rs_order := rs_order s @ [i], rs_total := wrap64 (rs_total s + 1)\<rparr>)
                else s)
      in evict (s1\<lparr>rs_by_id := AList.update i r (rs_by_id s1)\<rparr>))"

definition getRun :: "run_store \<Rightarrow> string \<Rightarrow> run_record option" where
  "getRun s i = map_of (rs_by_id s) i"

text \<open>\<open>putRun\<close> before it hands the record to the audit log: a record without a time gets the current one.\<close>

definition stamp_run :: "time \<Rightarrow> run_record \<Rightarrow> run_record" where
  "stamp_run now r = (if is_zero (rr_timestamp r) then r\<lparr>rr_timestamp := now\<rparr> else r)"

section \<open>Metrics\<close>

definition median :: "int list \<Rightarrow> int" where
  "median v = (if v = [] then 0 else sort v ! (length v div 2))"

definition splitSources :: "string \<Rightarrow> string list" where
  "splitSources source =
     filter (\<lambda>p. p \<noteq> [] \<and> p \<noteq> ''inline'') (map trim_space (split_on (CHR '','') source))"

record substrate_stats =
  st_runs :: int
  st_input :: int
  st_output :: int

record task_state =
  ts_discovery :: int
  ts_refs :: "string list"

record task_cost =
  tc_calls :: int
  tc_discovery :: int
  tc_escalations :: int
  tc_invocations :: int
  tc_reductions :: int
  tc_separate :: int
  tc_fused :: int

text \<open>What the scan of the window builds up.\<close>

record tally =
  ty_substrates :: "(string \<times> substrate_stats) list"
  ty_latencies :: "(string \<times> int list) list"
  ty_engines :: "(string \<times> int) list"
  ty_stages :: "(string \<times> int list) list"
  ty_tasks :: "(string \<times> task_state) list"
  ty_cost :: task_cost

definition get_or :: "'v \<Rightarrow> ('k \<times> 'v) list \<Rightarrow> 'k \<Rightarrow> 'v" where
  "get_or d m k = (case map_of m k of None \<Rightarrow> d | Some v \<Rightarrow> v)"

definition tally_substrate :: "run_record \<Rightarrow> tally \<Rightarrow> tally" where
  "tally_substrate r t =
     (if rr_substrate r = [] then t
      else let sub = rr_substrate r;
               st = get_or \<lparr>st_runs = 0, st_input = 0, st_output = 0\<rparr> (ty_substrates t) sub;
               (inp, out, lat) = (if rr_fused r
                  then (rr_transform_input r, rr_transform_output r, rr_transform_latency r)
                  else (rr_input_bytes r, rr_output_bytes r, rr_latency_ms r))
           in t\<lparr>ty_substrates := AList.update sub
                  \<lparr>st_runs = wrap64 (st_runs st + 1), st_input = wrap64 (st_input st + inp),
                   st_output = wrap64 (st_output st + out)\<rparr> (ty_substrates t),
                ty_latencies := AList.update sub (get_or [] (ty_latencies t) sub @ [lat]) (ty_latencies t)\<rparr>)"

definition tally_engine :: "run_record \<Rightarrow> tally \<Rightarrow> tally" where
  "tally_engine r t =
     (if rr_engine r = [] then t
      else t\<lparr>ty_engines := AList.update (rr_engine r) (wrap64 (get_or 0 (ty_engines t) (rr_engine r) + 1))
             (ty_engines t)\<rparr>)"

definition tally_stage :: "run_record \<Rightarrow> tally \<Rightarrow> tally" where
  "tally_stage r t =
     (if rr_kind r \<in> {''discovery'', ''proxy'', ''reduce''}
      then t\<lparr>ty_stages := AList.update (rr_kind r) (get_or [] (ty_stages t) (rr_kind r) @ [rr_latency_ms r])
             (ty_stages t)\<rparr>
      else t)"

definition tally_task :: "run_record \<Rightarrow> tally \<Rightarrow> tally" where
  "tally_task r t =
     (if rr_task_id r = [] then t
      else let ts = get_or \<lparr>ts_discovery = 0, ts_refs = []\<rparr> (ty_tasks t) (rr_task_id r);
               c = (ty_cost t)\<lparr>tc_calls := wrap64 (tc_calls (ty_cost t) + 1)\<rparr>;
               (ts, c) =
                 (if rr_kind r = ''discovery''
                  then (ts\<lparr>ts_discovery := wrap64 (ts_discovery ts + 1)\<rparr>,
                        c\<lparr>tc_escalations := (if rr_exact_schema r \<and> ts_discovery ts > 0
                            then wrap64 (tc_escalations c + 1) else tc_escalations c),
                          tc_discovery := wrap64 (tc_discovery c + 1)\<rparr>)
                  else if rr_kind r = ''proxy''
                  then (if rr_reffed r \<and> rr_ref r \<noteq> [] then ts\<lparr>ts_refs := rr_ref r # ts_refs ts\<rparr> else ts,
                        c\<lparr>tc_invocations := wrap64 (tc_invocations c + 1),
                          tc_fused := (if rr_fused r then wrap64 (tc_fused c + 1) else tc_fused c)\<rparr>)
                  else if rr_kind r = ''reduce''
                  then (ts, c\<lparr>tc_reductions := wrap64 (tc_reductions c + 1),
                          tc_separate := (if list_ex (\<lambda>s. s \<in> set (ts_refs ts)) (splitSources (rr_source_id r))
                            then wrap64 (tc_separate c + 1) else tc_separate c)\<rparr>)
                  else (ts, c))
           in t\<lparr>ty_tasks := AList.update (rr_task_id r) ts (ty_tasks t), ty_cost := c\<rparr>)"

definition tally_run :: "run_store \<Rightarrow> tally \<Rightarrow> string \<Rightarrow> tally" where
  "tally_run s t i =
     (case map_of (rs_by_id s) i of None \<Rightarrow> t
      | Some r \<Rightarrow> tally_task r (tally_stage r (tally_engine r (tally_substrate r t))))"

definition no_tally :: tally where
  "no_tally = \<lparr>ty_substrates = [], ty_latencies = [], ty_engines = [], ty_stages = [], ty_tasks = [],
     ty_cost = \<lparr>tc_calls = 0, tc_discovery = 0, tc_escalations = 0, tc_invocations = 0, tc_reductions = 0,
       tc_separate = 0, tc_fused = 0\<rparr>\<rparr>"

record metrics_summary =
  ms_total_runs :: int
  ms_by_substrate :: "(string \<times> substrate_stats \<times> int \<times> rat) list"
  ms_by_engine :: "(string \<times> int) list"
  ms_impact :: impact
  ms_tokens_saved :: int
  ms_reduction_percent :: rat
  ms_context :: context_cost
  ms_tokens_to_context :: int
  ms_stage_p50 :: "int \<times> int \<times> int"
  ms_tasks :: task_cost
  ms_correlated :: int
  ms_avg_discovery :: rat
  ms_avg_escalations :: rat

text \<open>Go's integer division truncates toward zero.\<close>

definition quot :: "int \<Rightarrow> int \<Rightarrow> int" where
  "quot a b = sgn a * (\<bar>a\<bar> div b)"

definition Metrics :: "run_store \<Rightarrow> metrics_summary" where
  "Metrics s =
     (let t = foldl (tally_run s) no_tally (rs_order s); i = rs_impact s;
          kept = im_bytes_kept_out i; total = wrap64 (kept + im_bytes_to_context i);
          tasks = int (length (ty_tasks t))
      in \<lparr>ms_total_runs = rs_total s,
          ms_by_substrate = map (\<lambda>(sub, st). (sub, st, median (get_or [] (ty_latencies t) sub),
             if st_input st > 0 \<and> st_output st > 0 then of_int (st_input st) / of_int (st_output st) else 0))
             (ty_substrates t),
          ms_by_engine = ty_engines t, ms_impact = i, ms_tokens_saved = quot kept 4,
          ms_reduction_percent = (if total > 0 then of_int kept / of_int total * 100 else 0),
          ms_context = rs_context s, ms_tokens_to_context = quot (cc_bytes_to_context (rs_context s)) 4,
          ms_stage_p50 = (median (get_or [] (ty_stages t) ''discovery''),
             median (get_or [] (ty_stages t) ''proxy''), median (get_or [] (ty_stages t) ''reduce'')),
          ms_tasks = ty_cost t, ms_correlated = tasks,
          ms_avg_discovery = (if tasks > 0 then of_int (tc_discovery (ty_cost t)) / of_int tasks else 0),
          ms_avg_escalations = (if tasks > 0 then of_int (tc_escalations (ty_cost t)) / of_int tasks else 0)\<rparr>)"

end
