(* ===== verification/Audit_Log.thy ===== *)
theory Audit_Log
  imports Hash_Chain Run_Store
begin

text \<open>
  The audit log (\<open>src/internal/mcp/auditlog.go\<close>): every recorded run is appended to a
  hash-chained, optionally signed file, whose height is anchored in the secret store every 64
  lines, and the file is replayed into the run store at the next start. Signatures and what the
  disk and the store answer are arguments; the hash, the signature check and the encoding of a
  record are the functions of \<open>audit_lib\<close>. Line counts are unbounded integers: a file has
  fewer than 2^63 lines.
\<close>

section \<open>Lines and anchors\<close>

record audit_line =
  al_run_id :: string
  al_rec :: run_record
  al_prev :: string
  al_hash :: string
  al_sig :: string

record audit_anchor =
  aa_chained :: int
  aa_head :: string
  aa_sig :: string

record audit_lib =
  au_sha256 :: "string \<Rightarrow> string"
  au_body :: "string \<Rightarrow> run_record \<Rightarrow> string"
  au_verify :: "string \<Rightarrow> string \<Rightarrow> bool"

record audit_log =
  ad_state_dir :: string
  ad_signer :: bool
  ad_secrets :: bool
  ad_hash :: string
  ad_chained :: int
  ad_anchored_at :: int
  ad_runs :: run_store

record audit_world =
  aw_file :: "audit_line log_file"
  aw_anchor :: "audit_anchor option"

datatype audit_write = AuditOpenFailed | AuditWriteFailed written | AuditWritten

record audit_io =
  ai_write :: audit_write
  ai_sig :: "string option"
  ai_marshal :: bool
  ai_anchor_sig :: "string option"
  ai_saved :: bool

definition chainHash :: "audit_lib \<Rightarrow> string \<Rightarrow> string \<Rightarrow> run_record \<Rightarrow> string" where
  "chainHash L prev run_id r = link_hash (au_sha256 L) prev (au_body L run_id r)"

definition auditPath :: "audit_log \<Rightarrow> string" where
  "auditPath s = (if ad_state_dir s = [] then [] else path_clean (ad_state_dir s @ ''/audit.jsonl''))"

definition auditAnchorEvery :: int where "auditAnchorEvery = 64"

definition signingInput :: "audit_anchor \<Rightarrow> string" where
  "signingInput a = fmt_int (aa_chained a) @ [CHR 0x00] @ aa_head a"

section \<open>Appending\<close>

text \<open>An empty line: a newline of its own, or the end of a line that lacked one.\<close>

definition newline :: "'l log_file \<Rightarrow> 'l log_file" where
  "newline f = (if lf_torn f then f\<lparr>lf_torn := False\<rparr> else glue f Garbage False)"

text \<open>
  \<open>writeAuditLine\<close>: a signature that fails leaves the line unsigned, an encoding that fails
  leaves an empty line, and only a complete write moves the chain.
\<close>

definition writeAuditLine ::
    "audit_lib \<Rightarrow> audit_log \<Rightarrow> audit_line log_file \<Rightarrow> string \<Rightarrow> run_record \<Rightarrow> audit_io \<Rightarrow>
     audit_log \<times> audit_line log_file \<times> audit_anchor option" where
  "writeAuditLine L s f run_id r io =
     (case ai_write io of
        AuditOpenFailed \<Rightarrow> (s, f, None)
      | w \<Rightarrow>
          let hash = chainHash L (ad_hash s) run_id r;
              line = \<lparr>al_run_id = run_id, al_rec = r, al_prev = ad_hash s, al_hash = hash,
                al_sig = (if ad_signer s then case ai_sig io of None \<Rightarrow> [] | Some sig \<Rightarrow> hex_encode sig else [])\<rparr>
          in (case w of
                AuditWriteFailed part \<Rightarrow>
                  (s, if ai_marshal io then failed_write part line f else f\<lparr>lf_exists := True\<rparr>, None)
              | _ \<Rightarrow>
                  let f' = (if ai_marshal io then glue f (Line line) False else newline f);
                      s1 = s\<lparr>ad_hash := hash, ad_chained := ad_chained s + 1\<rparr>
                  in if ad_secrets s \<and> ad_chained s1 - ad_anchored_at s1 \<ge> auditAnchorEvery
                     then (s1\<lparr>ad_anchored_at := ad_chained s1\<rparr>, f',
                           Some \<lparr>aa_chained = ad_chained s1, aa_head = hash, aa_sig = []\<rparr>)
                     else (s1, f', None)))"

definition saveAuditAnchor ::
    "audit_log \<Rightarrow> audit_anchor \<Rightarrow> audit_anchor option \<Rightarrow> audit_io \<Rightarrow> audit_anchor option" where
  "saveAuditAnchor s a old io =
     (if \<not> ad_secrets s then old
      else let a = (if ad_signer s
                    then case ai_anchor_sig io of None \<Rightarrow> a | Some sig \<Rightarrow> a\<lparr>aa_sig := hex_encode sig\<rparr>
                    else a)
           in if ai_saved io then Some a else old)"

definition appendAudit ::
    "audit_lib \<Rightarrow> audit_log \<Rightarrow> audit_world \<Rightarrow> string \<Rightarrow> run_record \<Rightarrow> audit_io \<Rightarrow> audit_log \<times> audit_world" where
  "appendAudit L s w run_id r io =
     (if auditPath s = [] then (s, w)
      else case writeAuditLine L s (aw_file w) run_id r io of
        (s', f, None) \<Rightarrow> (s', w\<lparr>aw_file := f\<rparr>)
      | (s', f, Some a) \<Rightarrow> (s', w\<lparr>aw_file := f, aw_anchor := saveAuditAnchor s' a (aw_anchor w) io\<rparr>))"

definition putRun ::
    "audit_lib \<Rightarrow> audit_log \<Rightarrow> audit_world \<Rightarrow> string \<Rightarrow> run_record \<Rightarrow> time \<Rightarrow> audit_io \<Rightarrow> audit_log \<times> audit_world" where
  "putRun L s w run_id r now io =
     (let r = stamp_run now r
      in appendAudit L (s\<lparr>ad_runs := addRunLocked run_id r (ad_runs s)\<rparr>) w run_id r io)"

section \<open>Loading\<close>

text \<open>
  \<open>strconv.Atoi\<close> as \<open>runSeq\<close> uses it, with its error discarded: the value is 0 after a syntax
  error, and the nearest 64-bit integer after a range error. Digits are read as an unsigned 64-bit
  number first, and what follows an overflow is not looked at.
\<close>

fun parse_uint :: "int \<Rightarrow> string \<Rightarrow> int option" where
  "parse_uint n [] = Some n"
| "parse_uint n (c # cs) =
     (if \<not> is_digit c then None
      else if n * 10 + int (char_code c - 48) \<ge> 2 ^ 64 then Some (2 ^ 64 - 1)
      else parse_uint (n * 10 + int (char_code c - 48)) cs)"

definition atoi_value :: "string \<Rightarrow> int" where
  "atoi_value s =
     (let (neg, d) = (case s of [] \<Rightarrow> (False, [])
        | c # r \<Rightarrow> if c = CHR ''-'' then (True, r) else if c = CHR ''+'' then (False, r) else (False, s))
      in case (if d = [] then None else parse_uint 0 d) of
           None \<Rightarrow> 0
         | Some n \<Rightarrow> if neg then max (- (2 ^ 63)) (- n) else min (2 ^ 63 - 1) n)"

definition runSeq :: "string \<Rightarrow> int" where
  "runSeq i = atoi_value (trim_prefix i ''run_'')"

text \<open>The scan: the store, the last hash, the number of chained lines, the highest run number.\<close>

fun replay :: "run_store \<times> string \<times> int \<times> int \<Rightarrow> audit_line option list \<Rightarrow> run_store \<times> string \<times> int \<times> int" where
  "replay st [] = st"
| "replay st (None # xs) = replay st xs"
| "replay (rs, hash, chained, maxSeq) (Some l # xs) =
     (if al_run_id l = [] then replay (rs, hash, chained, maxSeq) xs
      else replay (addRunLocked (al_run_id l) (al_rec l) rs,
             if al_hash l \<noteq> [] then al_hash l else hash,
             if al_hash l \<noteq> [] then chained + 1 else chained,
             max maxSeq (runSeq (al_run_id l))) xs)"

text \<open>\<open>loadAudit\<close>: \<open>None\<close> when the file cannot be opened.\<close>

definition loadAudit :: "audit_log \<Rightarrow> audit_line option list option \<Rightarrow> audit_log" where
  "loadAudit s rd =
     (if auditPath s = [] then s
      else case rd of None \<Rightarrow> s
      | Some xs \<Rightarrow>
          (case replay (ad_runs s, ad_hash s, 0, 0) xs of
             (rs, hash, chained, maxSeq) \<Rightarrow>
               s\<lparr>ad_runs := rs\<lparr>rs_seq := maxSeq\<rparr>, ad_hash := hash, ad_chained := chained,
                 ad_anchored_at := chained\<rparr>))"

section \<open>Verification\<close>

datatype audit_break =
    MalformedLine
  | UnchainedAfterChained
  | ChainBreak string string
  | EditedInPlace
  | InvalidSignature
  | UnsignedAfterSigned
  | TailTruncated int int

record audit_verification =
  av_lines :: int
  av_chained :: int
  av_signed :: int
  av_intact :: bool
  av_anchored :: bool
  av_break_at :: int
  av_detail :: "audit_break option"

definition av_fail :: "audit_break \<Rightarrow> audit_verification \<Rightarrow> audit_verification" where
  "av_fail d v = v\<lparr>av_intact := False, av_break_at := av_lines v, av_detail := Some d\<rparr>"

definition audit_sig_ok :: "(string \<Rightarrow> string \<Rightarrow> bool) \<Rightarrow> string \<Rightarrow> string \<Rightarrow> bool" where
  "audit_sig_ok verify msg sig = (case hex_decode sig of None \<Rightarrow> False | Some b \<Rightarrow> verify msg b)"

fun verify_walk ::
    "audit_lib \<Rightarrow> (string \<Rightarrow> string \<Rightarrow> bool) option \<Rightarrow> string \<Rightarrow> bool \<Rightarrow> bool \<Rightarrow> audit_verification \<Rightarrow>
     audit_line option list \<Rightarrow> audit_verification" where
  "verify_walk L verify prev seenChained seenSigned v [] = v"
| "verify_walk L verify prev seenChained seenSigned v (x # xs) =
     (let v = v\<lparr>av_lines := av_lines v + 1\<rparr>
      in case x of None \<Rightarrow> av_fail MalformedLine v
      | Some l \<Rightarrow>
          if al_run_id l = [] then av_fail MalformedLine v
          else if al_hash l = []
          then (if seenChained then av_fail UnchainedAfterChained v
                else verify_walk L verify prev seenChained seenSigned v xs)
          else let v = v\<lparr>av_chained := av_chained v + 1\<rparr>
          in if al_prev l \<noteq> prev then av_fail (ChainBreak (al_prev l) prev) v
          else if chainHash L (al_prev l) (al_run_id l) (al_rec l) \<noteq> al_hash l then av_fail EditedInPlace v
          else if al_sig l \<noteq> []
          then let v = v\<lparr>av_signed := av_signed v + 1\<rparr>
               in if (case verify of None \<Rightarrow> False | Some f \<Rightarrow> \<not> audit_sig_ok f (al_hash l) (al_sig l))
                  then av_fail InvalidSignature v
                  else verify_walk L verify (al_hash l) True True v xs
          else if seenSigned then av_fail UnsignedAfterSigned v
          else verify_walk L verify (al_hash l) True False v xs)"

definition av_start :: audit_verification where
  "av_start = \<lparr>av_lines = 0, av_chained = 0, av_signed = 0, av_intact = True, av_anchored = False,
     av_break_at = 0, av_detail = None\<rparr>"

text \<open>\<open>VerifyAuditLog\<close>: the report and the error of opening or scanning; a missing log is intact.\<close>

datatype audit_read = AuditNotExist | AuditOpenError | AuditLines "audit_line option list" bool

definition VerifyAuditLog ::
    "audit_lib \<Rightarrow> audit_read \<Rightarrow> (string \<Rightarrow> string \<Rightarrow> bool) option \<Rightarrow> audit_verification \<times> bool" where
  "VerifyAuditLog L rd verify =
     (case rd of
        AuditNotExist \<Rightarrow> (av_start, False)
      | AuditOpenError \<Rightarrow> (av_start, True)
      | AuditLines xs scan_err \<Rightarrow>
          let v = verify_walk L verify [] False False av_start xs
          in (v, av_intact v \<and> scan_err))"

definition auditVerify :: "audit_lib \<Rightarrow> audit_log \<Rightarrow> (string \<Rightarrow> string \<Rightarrow> bool) option" where
  "auditVerify L s = (if ad_signer s then Some (au_verify L) else None)"

text \<open>\<open>loadAuditAnchor\<close>: \<open>None\<close> for what the store answers covers every failure to read or decode.\<close>

definition loadAuditAnchor :: "audit_lib \<Rightarrow> audit_log \<Rightarrow> audit_anchor option \<Rightarrow> audit_anchor option" where
  "loadAuditAnchor L s stored =
     (if \<not> ad_secrets s then None
      else case stored of None \<Rightarrow> None
      | Some a \<Rightarrow>
          (case auditVerify L s of None \<Rightarrow> Some a
           | Some verify \<Rightarrow> if audit_sig_ok verify (signingInput a) (aa_sig a) then Some a else None))"

definition VerifyAudit ::
    "audit_lib \<Rightarrow> audit_log \<Rightarrow> audit_read \<Rightarrow> audit_anchor option \<Rightarrow> audit_verification \<times> bool" where
  "VerifyAudit L s rd stored =
     (case VerifyAuditLog L rd (auditVerify L s) of
        (v, err) \<Rightarrow>
          if err \<or> \<not> av_intact v then (v, err)
          else (case loadAuditAnchor L s stored of
              None \<Rightarrow> (v, False)
            | Some a \<Rightarrow>
                if av_chained v < aa_chained a
                then (v\<lparr>av_intact := False, av_break_at := av_chained v + 1,
                        av_detail := Some (TailTruncated (av_chained v) (aa_chained a))\<rparr>, False)
                else (v\<lparr>av_anchored := True\<rparr>, False)))"

end
