(* ===== verification/Decision_Ledger.thy ===== *)
theory Decision_Ledger
  imports Grant Hash_Chain
begin

text \<open>
  The decision ledger (\<open>src/internal/mcp/decisionledger.go\<close>): the record that must be on disk,
  signed and anchored, before a granted call may cross to its upstream, and the budgets of the
  grant that it accounts for. The server fields the ledger reads and writes are a record, the
  disk and the secret store are a second one, and what the operating system, the signer and the
  store answer during one append are arguments (\<open>ledger_io\<close>). SHA-256, signature verification
  and the JSON encodings are the functions of \<open>ledger_lib\<close>. Sums of \<open>int64\<close> are wrapped
  as Go wraps them.
\<close>

section \<open>Records\<close>

record decision_record =
  dr_timestamp :: time
  dr_principal :: string
  dr_campaign :: string
  dr_grant_id :: string
  dr_grant_digest :: string
  dr_connection :: string
  dr_operation :: string
  dr_effect :: string
  dr_decision :: string
  dr_reason :: string
  dr_request_bytes :: int
  dr_reserved_bytes :: int
  dr_resource_ids :: "string list"
  dr_shared_writable :: "string list"

record decision_line =
  dl_sequence :: int
  dl_record :: decision_record
  dl_prev :: string
  dl_hash :: string
  dl_sig :: string

record decision_anchor =
  da_sequence :: int
  da_head :: string
  da_sig :: string

record grant_usage =
  us_requests :: int
  us_bytes :: int
  us_times :: "time list"

record ledger_lib =
  ll_sha256 :: "string \<Rightarrow> string"
  ll_entry :: "int \<Rightarrow> decision_record \<Rightarrow> string"
  ll_anchor :: "int \<Rightarrow> string \<Rightarrow> string"
  ll_verify :: "string \<Rightarrow> string \<Rightarrow> bool"

record ledger =
  ls_state_dir :: string
  ls_signer :: bool
  ls_secrets :: bool
  ls_load_err :: string
  ls_sequence :: int
  ls_hash :: string
  ls_usage :: "(string \<times> grant_usage) list"

type_synonym ledger_file = "decision_line log_file"

record ledger_world =
  lw_file :: ledger_file
  lw_anchor :: "decision_anchor option"

datatype append_outcome = MkdirFailed | OpenFailed | WriteFailed written | SyncFailed | Synced
datatype save_outcome = Saved | SaveFailed | SaveUnacknowledged

record ledger_io =
  io_sig :: "string option"
  io_marshal :: bool
  io_append :: append_outcome
  io_anchor_sig :: "string option"
  io_save :: save_outcome

datatype ledger_error =
    NotTrusted string
  | NoStateDir
  | NoSigner
  | NoAnchorStore
  | SignFailed
  | MarshalFailed
  | AppendFailed
  | AnchorSignFailed
  | AnchorSaveFailed

datatype decision_error =
    LedgerUnavailable ledger_error
  | RecordRefusal ledger_error
  | Refused string

definition decisionHash :: "ledger_lib \<Rightarrow> string \<Rightarrow> int \<Rightarrow> decision_record \<Rightarrow> string" where
  "decisionHash L prev sequence r = link_hash (ll_sha256 L) prev (ll_entry L sequence r)"

definition decisionLedgerPath :: "ledger \<Rightarrow> string" where
  "decisionLedgerPath s =
     (if ls_state_dir s = [] then [] else path_clean (ls_state_dir s @ ''/decision-ledger.jsonl''))"

section \<open>Appending\<close>

definition defaultDecisionAppend ::
    "append_outcome \<Rightarrow> decision_line \<Rightarrow> ledger_file \<Rightarrow> ledger_file \<times> bool" where
  "defaultDecisionAppend out line f =
     (case out of
        MkdirFailed \<Rightarrow> (f, False)
      | OpenFailed \<Rightarrow> (f, False)
      | WriteFailed part \<Rightarrow> (failed_write part line f, False)
      | SyncFailed \<Rightarrow> (glue f (Line line) False, False)
      | Synced \<Rightarrow> (glue f (Line line) False, True))"

definition save_anchor ::
    "save_outcome \<Rightarrow> decision_anchor \<Rightarrow> decision_anchor option \<Rightarrow> decision_anchor option \<times> bool" where
  "save_anchor out a old =
     (case out of Saved \<Rightarrow> (Some a, True) | SaveFailed \<Rightarrow> (old, False) | SaveUnacknowledged \<Rightarrow> (Some a, False))"

definition appendDecisionLocked ::
    "ledger_lib \<Rightarrow> ledger \<Rightarrow> ledger_world \<Rightarrow> decision_record \<Rightarrow> ledger_io \<Rightarrow>
     ledger \<times> ledger_world \<times> ledger_error option" where
  "appendDecisionLocked L s w r io =
     (if ls_load_err s \<noteq> [] then (s, w, Some (NotTrusted (ls_load_err s)))
      else if decisionLedgerPath s = [] then (s, w, Some NoStateDir)
      else if \<not> ls_signer s then (s, w, Some NoSigner)
      else if \<not> ls_secrets s then (s, w, Some NoAnchorStore)
      else let sequence = wrap64 (ls_sequence s + 1); hash = decisionHash L (ls_hash s) sequence r
      in case io_sig io of None \<Rightarrow> (s, w, Some SignFailed)
      | Some sig \<Rightarrow>
      if \<not> io_marshal io then (s, w, Some MarshalFailed)
      else let line = \<lparr>dl_sequence = sequence, dl_record = r, dl_prev = ls_hash s, dl_hash = hash,
             dl_sig = hex_encode sig\<rparr>;
           (f, ok) = defaultDecisionAppend (io_append io) line (lw_file w);
           w1 = w\<lparr>lw_file := f\<rparr>
      in if \<not> ok then (s, w1, Some AppendFailed)
      else let s1 = s\<lparr>ls_sequence := sequence, ls_hash := hash\<rparr>
      in case io_anchor_sig io of None \<Rightarrow> (s1, w1, Some AnchorSignFailed)
      | Some asig \<Rightarrow>
          let (a, saved) = save_anchor (io_save io)
                \<lparr>da_sequence = sequence, da_head = hash, da_sig = hex_encode asig\<rparr> (lw_anchor w1);
              w2 = w1\<lparr>lw_anchor := a\<rparr>
          in if saved then (s1, w2, None) else (s1, w2, Some AnchorSaveFailed))"

definition refusal_record ::
    "string \<Rightarrow> string \<Rightarrow> string \<Rightarrow> string \<Rightarrow> string \<Rightarrow> string \<Rightarrow> string \<Rightarrow> time \<Rightarrow> decision_record" where
  "refusal_record owner campaign connection operation grant_id digest reason now =
     \<lparr>dr_timestamp = now, dr_principal = owner, dr_campaign = campaign, dr_grant_id = grant_id,
      dr_grant_digest = digest, dr_connection = connection, dr_operation = operation, dr_effect = [],
      dr_decision = ''refused'', dr_reason = reason, dr_request_bytes = 0, dr_reserved_bytes = 0,
      dr_resource_ids = [], dr_shared_writable = []\<rparr>"

definition refuseDecisionLocked ::
    "ledger_lib \<Rightarrow> ledger \<Rightarrow> ledger_world \<Rightarrow> string \<Rightarrow> string \<Rightarrow> string \<Rightarrow> string \<Rightarrow> string \<Rightarrow> string \<Rightarrow>
     string \<Rightarrow> time \<Rightarrow> ledger_io \<Rightarrow> ledger \<times> ledger_world \<times> decision_error" where
  "refuseDecisionLocked L s w owner campaign connection operation grant_id digest reason now io =
     (case appendDecisionLocked L s w
        (refusal_record owner campaign connection operation grant_id digest reason now) io of
        (s', w', Some e) \<Rightarrow> (s', w', RecordRefusal e)
      | (s', w', None) \<Rightarrow> (s', w', Refused reason))"

text \<open>\<open>refuseDecision\<close>: the same under the lock, at the current time.\<close>

definition refuseDecision ::
    "ledger_lib \<Rightarrow> ledger \<Rightarrow> ledger_world \<Rightarrow> string \<Rightarrow> string \<Rightarrow> string \<Rightarrow> string \<Rightarrow> string \<Rightarrow> string \<Rightarrow>
     string \<Rightarrow> time \<Rightarrow> ledger_io \<Rightarrow> ledger \<times> ledger_world \<times> decision_error" where
  "refuseDecision = refuseDecisionLocked"

definition no_usage :: grant_usage where
  "no_usage = \<lparr>us_requests = 0, us_bytes = 0, us_times = []\<rparr>"

definition usage_of :: "ledger \<Rightarrow> string \<Rightarrow> grant_usage" where
  "usage_of s d = (case map_of (ls_usage s) d of None \<Rightarrow> no_usage | Some u \<Rightarrow> u)"

definition authorization_record :: "evaluated_grant \<Rightarrow> int \<Rightarrow> int \<Rightarrow> time \<Rightarrow> decision_record" where
  "authorization_record ev args_bytes reserved now =
     (let g = eg_grant ev
      in \<lparr>dr_timestamp = now, dr_principal = og_principal g, dr_campaign = og_campaign g,
        dr_grant_id = og_id g, dr_grant_digest = eg_digest ev, dr_connection = og_connection g,
        dr_operation = og_tool g, dr_effect = og_effect g, dr_decision = ''authorized'',
        dr_reason = ''grant matched'', dr_request_bytes = args_bytes, dr_reserved_bytes = reserved,
        dr_resource_ids = eg_resource_ids ev, dr_shared_writable = eg_shared_writable ev\<rparr>)"

definition prune_times :: "operation_grant \<Rightarrow> time \<Rightarrow> grant_usage \<Rightarrow> grant_usage" where
  "prune_times g now u =
     u\<lparr>us_times := filter (\<lambda>t. now - wrap64 (rate_window_s (og_rate g) * second) < t) (us_times u)\<rparr>"

text \<open>
  \<open>authorizeDecision\<close>. The usage the map holds is a pointer, so pruning its times outlives a
  refusal; a usage made for a digest the map does not have is stored only on success.
\<close>

definition authorizeDecision ::
    "ledger_lib \<Rightarrow> ledger \<Rightarrow> ledger_world \<Rightarrow> evaluated_grant \<Rightarrow> int \<Rightarrow> time \<Rightarrow> ledger_io \<Rightarrow>
     ledger \<times> ledger_world \<times> decision_error option" where
  "authorizeDecision L s w ev args_bytes now io =
     (let g = eg_grant ev; d = eg_digest ev; usage = usage_of s d;
          reserved = wrap64 (args_bytes + og_max_response_bytes g);
          refuse = (\<lambda>s reason. case refuseDecisionLocked L s w (og_principal g) (og_campaign g)
             (og_connection g) (og_tool g) (og_id g) d reason now io of (s', w', e) \<Rightarrow> (s', w', Some e))
      in if wrap64 (us_requests usage + 1) > og_max_requests g then refuse s ''request budget exhausted''
         else if wrap64 (us_bytes usage + reserved) > og_max_bytes g then refuse s ''byte budget exhausted''
         else let pruned = prune_times g now usage;
                  s1 = (case map_of (ls_usage s) d of None \<Rightarrow> s
                        | Some _ \<Rightarrow> s\<lparr>ls_usage := AList.update d pruned (ls_usage s)\<rparr>)
         in if wrap64 (int (length (us_times pruned)) + 1) > rate_requests (og_rate g)
         then refuse s1 ''rate budget exhausted''
         else case appendDecisionLocked L s1 w (authorization_record ev args_bytes reserved now) io of
           (s2, w2, Some e) \<Rightarrow> (s2, w2, Some (LedgerUnavailable e))
         | (s2, w2, None) \<Rightarrow>
             (s2\<lparr>ls_usage := AList.update d
                  \<lparr>us_requests = wrap64 (us_requests pruned + 1), us_bytes = wrap64 (us_bytes pruned + reserved),
                   us_times = us_times pruned @ [now]\<rparr> (ls_usage s2)\<rparr>, w2, None))"

section \<open>Loading\<close>

text \<open>
  What opening and scanning the file gives: the scanned lines, decoded or not, and the error
  the scanner stopped with, if any; and what reading the anchor gives.
\<close>

datatype ledger_read =
    ReadNotExist
  | ReadOpenError string
  | ReadLines "decision_line option list" "string option"

datatype anchor_read =
    AnchorNotFound
  | AnchorReadError
  | AnchorMalformed
  | AnchorRead decision_anchor

definition line_ok :: "ledger_lib \<Rightarrow> string \<Rightarrow> int \<Rightarrow> decision_line \<Rightarrow> bool" where
  "line_ok L prev sequence l \<longleftrightarrow>
     dl_sequence l = wrap64 (sequence + 1) \<and> dl_prev l = prev \<and>
     dl_hash l = decisionHash L prev (dl_sequence l) (dl_record l)"

definition sig_ok :: "ledger_lib \<Rightarrow> string \<Rightarrow> string \<Rightarrow> bool" where
  "sig_ok L msg sig = (case hex_decode sig of None \<Rightarrow> False | Some b \<Rightarrow> ll_verify L msg b)"

definition charge :: "decision_record \<Rightarrow> (string \<times> grant_usage) list \<Rightarrow> (string \<times> grant_usage) list" where
  "charge r usage =
     (if dr_decision r = ''authorized'' \<and> dr_grant_digest r \<noteq> []
      then let u = (case map_of usage (dr_grant_digest r) of None \<Rightarrow> no_usage | Some u \<Rightarrow> u)
           in AList.update (dr_grant_digest r)
                \<lparr>us_requests = wrap64 (us_requests u + 1),
                 us_bytes = wrap64 (us_bytes u + dr_reserved_bytes r),
                 us_times = us_times u @ [dr_timestamp r]\<rparr> usage
      else usage)"

fun load_lines ::
    "ledger_lib \<Rightarrow> bool \<Rightarrow> string \<Rightarrow> int \<Rightarrow> (string \<times> grant_usage) list \<Rightarrow> decision_line option list \<Rightarrow>
     (string, string \<times> int \<times> (string \<times> grant_usage) list) result" where
  "load_lines L signer prev sequence usage [] = Inr (prev, sequence, usage)"
| "load_lines L signer prev sequence usage (None # xs) = Inl ''decision chain is malformed''"
| "load_lines L signer prev sequence usage (Some l # xs) =
     (if \<not> line_ok L prev sequence l then Inl ''decision chain is malformed''
      else if \<not> signer then Inl ''decision signer is unavailable''
      else if \<not> sig_ok L (dl_hash l) (dl_sig l) then Inl ''decision signature is invalid''
      else load_lines L signer (dl_hash l) (dl_sequence l) (charge (dl_record l) usage) xs)"

definition anchor_matches :: "ledger_lib \<Rightarrow> decision_anchor \<Rightarrow> int \<Rightarrow> string \<Rightarrow> bool" where
  "anchor_matches L a sequence prev \<longleftrightarrow>
     sig_ok L (ll_anchor L (da_sequence a) (da_head a)) (da_sig a) \<and>
     da_sequence a = sequence \<and> da_head a = prev"

definition loadDecisionLedger :: "ledger_lib \<Rightarrow> ledger \<Rightarrow> ledger_read \<Rightarrow> anchor_read \<Rightarrow> ledger" where
  "loadDecisionLedger L s rd ar =
     (if decisionLedgerPath s = [] then s
      else case rd of
        ReadNotExist \<Rightarrow>
          (if \<not> ls_secrets s then s
           else (case ar of
               AnchorNotFound \<Rightarrow> s
             | AnchorReadError \<Rightarrow> s\<lparr>ls_load_err := ''decision anchor could not be read''\<rparr>
             | _ \<Rightarrow> s\<lparr>ls_load_err := ''ledger is missing but an anchor exists''\<rparr>))
      | ReadOpenError _ \<Rightarrow> s
      | ReadLines lines scan_err \<Rightarrow>
          (case load_lines L (ls_signer s) [] 0 [] lines of
             Inl e \<Rightarrow> s\<lparr>ls_load_err := e\<rparr>
           | Inr (prev, sequence, usage) \<Rightarrow>
               (case scan_err of Some e \<Rightarrow> s\<lparr>ls_load_err := e\<rparr>
                | None \<Rightarrow>
                    let s1 = s\<lparr>ls_hash := prev, ls_sequence := sequence, ls_usage := usage\<rparr>
                    in if sequence = 0 then s1
                       else if \<not> ls_secrets s then s1\<lparr>ls_load_err := ''decision anchor store is unavailable''\<rparr>
                       else (case ar of
                           AnchorRead a \<Rightarrow>
                             if anchor_matches L a sequence prev then s1
                             else s1\<lparr>ls_load_err := ''decision ledger does not match its signed anchor''\<rparr>
                         | AnchorMalformed \<Rightarrow> s1\<lparr>ls_load_err := ''decision anchor is malformed''\<rparr>
                         | _ \<Rightarrow> s1\<lparr>ls_load_err := ''decision anchor is unavailable''\<rparr>))))"

section \<open>Verification\<close>

record decision_verification =
  dv_intact :: bool
  dv_records :: int
  dv_head :: string
  dv_anchored :: bool
  dv_error :: string

definition dv_failed :: "int \<Rightarrow> string \<Rightarrow> string \<Rightarrow> decision_verification" where
  "dv_failed n head e =
     \<lparr>dv_intact = False, dv_records = n, dv_head = head, dv_anchored = False, dv_error = e\<rparr>"

fun verify_lines ::
    "ledger_lib \<Rightarrow> bool \<Rightarrow> string \<Rightarrow> int \<Rightarrow> decision_line option list \<Rightarrow>
     (decision_verification, string \<times> int) result" where
  "verify_lines L signer prev records [] = Inr (prev, records)"
| "verify_lines L signer prev records (None # xs) = Inl (dv_failed records prev ''decision chain is malformed'')"
| "verify_lines L signer prev records (Some l # xs) =
     (if \<not> line_ok L prev records l then Inl (dv_failed records prev ''decision chain is malformed'')
      else if \<not> signer \<or> \<not> sig_ok L (dl_hash l) (dl_sig l)
      then Inl (dv_failed records prev ''decision signature is invalid'')
      else verify_lines L signer (dl_hash l) (dl_sequence l) xs)"

definition VerifyDecisionLedger ::
    "ledger_lib \<Rightarrow> ledger \<Rightarrow> ledger_read \<Rightarrow> anchor_read \<Rightarrow> decision_verification" where
  "VerifyDecisionLedger L s rd ar =
     (let intact = \<lparr>dv_intact = True, dv_records = 0, dv_head = [], dv_anchored = False, dv_error = []\<rparr>
      in case rd of
        ReadNotExist \<Rightarrow>
          (if \<not> ls_secrets s then intact
           else (case ar of
               AnchorNotFound \<Rightarrow> intact
             | AnchorReadError \<Rightarrow> dv_failed 0 [] ''decision anchor is unavailable''
             | _ \<Rightarrow> dv_failed 0 [] ''decision ledger is missing but its anchor exists''))
      | ReadOpenError e \<Rightarrow> dv_failed 0 [] e
      | ReadLines lines scan_err \<Rightarrow>
          (case verify_lines L (ls_signer s) [] 0 lines of
             Inl v \<Rightarrow> v
           | Inr (prev, records) \<Rightarrow>
               (case scan_err of Some e \<Rightarrow> dv_failed records prev e
                | None \<Rightarrow>
                    if \<not> ls_secrets s then dv_failed records prev ''decision anchor store is unavailable''
                    else (case ar of
                        AnchorRead a \<Rightarrow>
                          if \<not> ls_signer s \<or> \<not> sig_ok L (ll_anchor L (da_sequence a) (da_head a)) (da_sig a)
                          then dv_failed records prev ''decision anchor signature is invalid''
                          else if da_sequence a \<noteq> records \<or> da_head a \<noteq> prev
                          then dv_failed records prev ''decision ledger does not match its anchor''
                          else \<lparr>dv_intact = True, dv_records = records, dv_head = prev,
                                 dv_anchored = True, dv_error = []\<rparr>
                      | AnchorMalformed \<Rightarrow> dv_failed records prev ''decision anchor is malformed''
                      | _ \<Rightarrow> dv_failed records prev ''decision anchor is unavailable''))))"

end
