(* ===== verification/Ref_Store.thy ===== *)
theory Ref_Store
  imports Go_Strings
begin

text \<open>
  Reference handles and the stores behind them (\<open>src/internal/refstore\<close>): minting and
  recognising a handle, the in-memory store and the encrypted file store. Both stores are
  instances of the interface \<open>Store\<close>, stated here as the locale \<open>ref_store\<close>, whose
  client lemmas hold for either. The clock readings an operation takes, the random bytes,
  the AEAD and the outcome of a file write are arguments. Go leaves the iteration order of a
  map and the order \<open>sort.Slice\<close> gives equal elements open: the sort is an argument that
  is only known to return its input sorted by creation time.
\<close>

section \<open>Handles\<close>

definition refAlphabet :: string where
  "refAlphabet = ''0123456789ABCDEFGHIJKLMNOPQRSTUVWXYZabcdefghijklmnopqrstuvwxyz''"

definition refTokenLen :: nat where
  "refTokenLen = 12"

text \<open>
  The rejection loop of \<open>randRef\<close> over the bytes \<open>rand.Read\<close> delivers. \<open>None\<close> is the
  panic: the random source failed before the token was complete.
\<close>

fun randToken :: "nat \<Rightarrow> string \<Rightarrow> (string \<times> string) option" where
  "randToken 0 rnd = Some ([], rnd)"
| "randToken (Suc n) [] = None"
| "randToken (Suc n) (b # rnd) =
     (if char_code b \<ge> 248 then randToken (Suc n) rnd
      else case randToken n rnd of None \<Rightarrow> None
           | Some (out, rest) \<Rightarrow> Some (refAlphabet ! (char_code b mod 62) # out, rest))"

definition randRef :: "string \<Rightarrow> (string \<times> string) option" where
  "randRef rnd =
     (case randToken refTokenLen rnd of None \<Rightarrow> None
      | Some (out, rest) \<Rightarrow> Some (''<ref_'' @ out @ ''>'', rest))"

definition base62 :: "char \<Rightarrow> bool" where
  "base62 c \<longleftrightarrow> (CHR ''0'' \<le> c \<and> c \<le> CHR ''9'') \<or> (CHR ''A'' \<le> c \<and> c \<le> CHR ''Z'') \<or>
     (CHR ''a'' \<le> c \<and> c \<le> CHR ''z'')"

definition refToken :: "string \<Rightarrow> string option" where
  "refToken s =
     (if length s < length ''<ref_>'' + 1 \<or> take 5 s \<noteq> ''<ref_'' \<or> last s \<noteq> CHR ''>'' then None
      else (let tok = take (length s - 6) (drop 5 s)
            in if list_all base62 tok \<and> tok \<noteq> [] then Some tok else None))"

definition safeRefFile :: "string \<Rightarrow> string option" where
  "safeRefFile ref = (case refToken ref of None \<Rightarrow> None | Some tok \<Rightarrow> Some (''ref_'' @ tok @ ''.enc''))"

section \<open>The in-memory store\<close>

record mem_item =
  mi_payload :: string
  mi_owner :: string
  mi_created :: time

record mem_store =
  ms_items :: "(string \<times> mem_item) list"
  ms_ttl :: duration
  ms_max :: int

definition NewMemStore :: mem_store where
  "NewMemStore = \<lparr>ms_items = [], ms_ttl = 0, ms_max = 0\<rparr>"

definition NewBoundedMemStore :: "duration \<Rightarrow> int \<Rightarrow> mem_store" where
  "NewBoundedMemStore ttl maxEntries = NewMemStore\<lparr>ms_ttl := ttl, ms_max := maxEntries\<rparr>"

text \<open>\<open>mintLocked\<close> over the handles that \<open>newID\<close> returns, in order: the first unused one.\<close>

fun mintLocked :: "(string \<Rightarrow> bool) \<Rightarrow> string list \<Rightarrow> string option" where
  "mintLocked used [] = None"
| "mintLocked used (r # rs) = (if \<not> used r then Some r else mintLocked used rs)"

type_synonym 'k slice_sort = "('k \<times> int) list \<Rightarrow> ('k \<times> int) list"

text \<open>The names of the \<open>live[:len(live)-maxEntries]\<close> oldest entries.\<close>

definition oldest :: "'k slice_sort \<Rightarrow> int \<Rightarrow> ('k \<times> int) list \<Rightarrow> 'k list" where
  "oldest srt cap live = map fst (take (length live - nat cap) (srt live))"

definition mem_sweep :: "string slice_sort \<Rightarrow> time \<Rightarrow> mem_store \<Rightarrow> mem_store" where
  "mem_sweep srt now s =
     (if ms_ttl s \<le> 0 \<and> ms_max s \<le> 0 then s
      else (let its = (if ms_ttl s > 0
                       then filter (\<lambda>(r, it). \<not> time_sub now (mi_created it) > ms_ttl s) (ms_items s)
                       else ms_items s)
            in if ms_max s > 0 \<and> int (length its) > ms_max s
               then (let gone = oldest srt (ms_max s) (map (\<lambda>(r, it). (r, mi_created it)) its)
                     in s\<lparr>ms_items := filter (\<lambda>(r, it). r \<notin> set gone) its\<rparr>)
               else s\<lparr>ms_items := its\<rparr>))"

text \<open>What one \<open>Put\<close> reads from outside: the handles, the two clock readings, the sort.\<close>

record put_env =
  pe_ids :: "string list"
  pe_created :: time
  pe_sweep :: time
  pe_sort :: "string slice_sort"

definition mem_Put ::
    "put_env \<Rightarrow> string \<Rightarrow> string \<Rightarrow> mem_store \<Rightarrow> (mem_store \<times> string \<times> nat) option" where
  "mem_Put env payload owner s =
     (case mintLocked (\<lambda>r. map_of (ms_items s) r \<noteq> None) (pe_ids env) of
        None \<Rightarrow> None
      | Some ref \<Rightarrow>
          (let it = \<lparr>mi_payload = payload, mi_owner = owner, mi_created = pe_created env\<rparr>;
               s1 = s\<lparr>ms_items := AList.update ref it (ms_items s)\<rparr>
           in Some (mem_sweep (pe_sort env) (pe_sweep env) s1, ref, length payload)))"

definition mem_Get :: "time \<Rightarrow> string \<Rightarrow> mem_store \<Rightarrow> mem_store \<times> (string \<times> string) option" where
  "mem_Get now ref s =
     (case map_of (ms_items s) ref of
        None \<Rightarrow> (s, None)
      | Some it \<Rightarrow>
          if ms_ttl s > 0 \<and> time_sub now (mi_created it) > ms_ttl s
          then (s\<lparr>ms_items := AList.delete ref (ms_items s)\<rparr>, None)
          else (s, Some (mi_payload it, mi_owner it)))"

section \<open>The file store\<close>

record aead =
  seal :: "string \<Rightarrow> string \<Rightarrow> string"
  unseal :: "string \<Rightarrow> string \<Rightarrow> string option"
  nonce_size :: nat

record file_store =
  fs_files :: "(string \<times> string) list"
  fs_aead :: aead
  fs_ttl :: duration
  fs_max :: int

definition frameOwner :: "string \<Rightarrow> string \<Rightarrow> string" where
  "frameOwner owner payload =
     (let o' = (if length owner > 65535 then take 65535 owner else owner)
      in be_bytes 2 (length o') @ o' @ payload)"

definition unframeOwner :: "string \<Rightarrow> (string \<times> string) option" where
  "unframeOwner pt =
     (if length pt < 2 then None
      else (let n = be_nat (take 2 pt)
            in if 2 + n > length pt then None
               else Some (take n (drop 2 pt), drop (2 + n) pt)))"

text \<open>The 8-byte creation stamp: \<open>uint64\<close> of an \<open>int64\<close> and back.\<close>

definition stamp :: "time \<Rightarrow> string" where
  "stamp now = be_bytes 8 (nat (unix_nano now mod 2 ^ 64))"

definition stamp_of :: "string \<Rightarrow> int" where
  "stamp_of bs = wrap64 (int (be_nat bs))"

definition readCreated :: "string \<Rightarrow> int option" where
  "readCreated bytes =
     (if bytes = [] then None
      else Some (stamp_of (take 8 (bytes @ replicate 8 (CHR 0x00)))))"

text \<open>The record \<open>created || nonce || ciphertext\<close>.\<close>

definition record_bytes :: "aead \<Rightarrow> time \<Rightarrow> string \<Rightarrow> string \<Rightarrow> string \<Rightarrow> string" where
  "record_bytes A now nonce owner payload = stamp now @ nonce @ seal A nonce (frameOwner owner payload)"

datatype write_outcome = WriteOK | WriteFailed | WritePartial nat

definition writeLocked ::
    "time \<Rightarrow> string \<Rightarrow> write_outcome \<Rightarrow> string \<Rightarrow> string \<Rightarrow> string \<Rightarrow> file_store \<Rightarrow> file_store" where
  "writeLocked now nonce out name owner payload s =
     (let buf = record_bytes (fs_aead s) now nonce owner payload
      in case out of
           WriteOK \<Rightarrow> s\<lparr>fs_files := AList.update name buf (fs_files s)\<rparr>
         | WriteFailed \<Rightarrow> s
         | WritePartial k \<Rightarrow> s\<lparr>fs_files := AList.update name (take k buf) (fs_files s)\<rparr>)"

definition file_sweep :: "string slice_sort \<Rightarrow> time \<Rightarrow> file_store \<Rightarrow> file_store" where
  "file_sweep srt now s =
     (if fs_ttl s \<le> 0 \<and> fs_max s \<le> 0 then s
      else (let stamped = (\<lambda>(name, bytes). has_suffix name ''.enc'' \<and> readCreated bytes \<noteq> None);
                expired = (\<lambda>(name, bytes). fs_ttl s > 0 \<and>
                  wrap64 (unix_nano now - the (readCreated bytes)) > fs_ttl s);
                kept = filter (\<lambda>f. \<not> (stamped f \<and> expired f)) (fs_files s);
                live = map (\<lambda>(name, bytes). (name, the (readCreated bytes))) (filter stamped kept)
            in if fs_max s > 0 \<and> int (length live) > fs_max s
               then (let gone = oldest srt (fs_max s) live
                     in s\<lparr>fs_files := filter (\<lambda>(name, bytes). name \<notin> set gone) kept\<rparr>)
               else s\<lparr>fs_files := kept\<rparr>))"

record file_env = put_env +
  fe_nonce :: string
  fe_write :: write_outcome

text \<open>\<open>mintLocked\<close> skips a handle without a safe file name and one whose file exists.\<close>

definition file_Put ::
    "file_env \<Rightarrow> string \<Rightarrow> string \<Rightarrow> file_store \<Rightarrow> (file_store \<times> string \<times> nat) option" where
  "file_Put env payload owner s =
     (case mintLocked (\<lambda>r. case safeRefFile r of None \<Rightarrow> True
                           | Some name \<Rightarrow> map_of (fs_files s) name \<noteq> None) (pe_ids env) of
        None \<Rightarrow> None
      | Some ref \<Rightarrow>
          (let s1 = writeLocked (pe_created env) (fe_nonce env) (fe_write env)
                      (the (safeRefFile ref)) owner payload s
           in Some (file_sweep (pe_sort env) (pe_sweep env) s1, ref, length payload)))"

text \<open>What a record decrypts to, if it is one.\<close>

definition open_record :: "aead \<Rightarrow> string \<Rightarrow> (string \<times> string) option" where
  "open_record A bytes =
     (if length bytes < 8 + nonce_size A then None
      else case unseal A (take (nonce_size A) (drop 8 bytes)) (drop (8 + nonce_size A) bytes) of
        None \<Rightarrow> None
      | Some pt \<Rightarrow> (case unframeOwner pt of None \<Rightarrow> None | Some (owner, payload) \<Rightarrow> Some (payload, owner)))"

definition file_Get :: "time \<Rightarrow> string \<Rightarrow> file_store \<Rightarrow> file_store \<times> (string \<times> string) option" where
  "file_Get now ref s =
     (case safeRefFile ref of None \<Rightarrow> (s, None)
      | Some name \<Rightarrow>
          (case map_of (fs_files s) name of None \<Rightarrow> (s, None)
           | Some bytes \<Rightarrow>
               if length bytes < 8 + nonce_size (fs_aead s) then (s, None)
               else if fs_ttl s > 0 \<and>
                  wrap64 (unix_nano now - stamp_of (take 8 bytes)) > fs_ttl s
               then (s\<lparr>fs_files := AList.delete name (fs_files s)\<rparr>, None)
               else (s, open_record (fs_aead s) bytes)))"

section \<open>Handles: shape, minting, file names\<close>

lemma refToken_iff:
  "refToken s = Some tok \<longleftrightarrow> s = ''<ref_'' @ tok @ ''>'' \<and> tok \<noteq> [] \<and> list_all base62 tok"
proof
  assume a: "refToken s = Some tok"
  then have len: "7 \<le> length s" and pre: "take 5 s = ''<ref_''" and lst: "last s = CHR ''>''"
    and tok: "tok = take (length s - 6) (drop 5 s)" and ok: "list_all base62 tok" "tok \<noteq> []"
    by (auto simp: refToken_def Let_def split: if_splits)
  have "drop 5 s \<noteq> []" and "butlast (drop 5 s) = take (length s - 6) (drop 5 s)"
    using len by (auto simp: butlast_conv_take)
  then have "drop 5 s = take (length s - 6) (drop 5 s) @ [last (drop 5 s)]"
    by (metis append_butlast_last_id)
  moreover have "last (drop 5 s) = CHR ''>''" using len lst by simp
  ultimately have "s = take 5 s @ tok @ ''>''" using tok by (metis append_take_drop_id)
  with pre ok show "s = ''<ref_'' @ tok @ ''>'' \<and> tok \<noteq> [] \<and> list_all base62 tok" by simp
next
  assume "s = ''<ref_'' @ tok @ ''>'' \<and> tok \<noteq> [] \<and> list_all base62 tok"
  then show "refToken s = Some tok"
    by (cases tok) (auto simp: refToken_def Let_def)
qed

lemma length_refAlphabet [simp]: "length refAlphabet = 62"
  by (simp add: refAlphabet_def)

lemma refAlphabet_base62: "list_all base62 refAlphabet"
  by (simp add: refAlphabet_def base62_def less_eq_char_def)

lemma randToken_shape:
  "randToken n rnd = Some (out, rest) \<Longrightarrow> length out = n \<and> list_all base62 out"
proof (induction n rnd arbitrary: out rule: randToken.induct)
  case (3 n b rnd)
  show ?case
  proof (cases "char_code b \<ge> (248 :: nat)")
    case True
    with 3 show ?thesis by simp
  next
    case False
    then obtain o' where o': "randToken n rnd = Some (o', rest)"
      and out: "out = refAlphabet ! (char_code b mod 62) # o'"
      using "3.prems" by (auto split: option.splits)
    have "base62 (refAlphabet ! (char_code b mod 62))"
      using refAlphabet_base62 by (simp add: list_all_length)
    with "3.IH"(2) [OF False o'] out show ?thesis by simp
  qed
qed auto

lemma safeRefFile_inject:
  "safeRefFile r = Some name \<Longrightarrow> safeRefFile r' = Some name \<Longrightarrow> r = r'"
  by (auto simp: safeRefFile_def refToken_iff split: option.splits)

lemma base62_not: "base62 c \<Longrightarrow> c \<noteq> CHR ''/'' \<and> c \<noteq> CHR ''.'' \<and> c \<noteq> CHR 0x5C \<and> c \<noteq> CHR 0x00"
  by (auto simp: base62_def less_eq_char_def)

lemma mintLocked_fresh: "mintLocked used rs = Some r \<Longrightarrow> r \<in> set rs \<and> \<not> used r"
  by (induction rs) (auto split: if_splits)

lemma mintLocked_some: "r \<in> set rs \<Longrightarrow> \<not> used r \<Longrightarrow> \<exists>r'. mintLocked used rs = Some r'"
  by (induction rs) auto

section \<open>The interface of a store\<close>

text \<open>
  A run of a store: puts with the environment they read, and gets. The log collects the
  handle, payload and owner of every put that returned, newest first.
\<close>

datatype 'c store_op = DoPut 'c string string | DoGet time string

type_synonym put_log = "(string \<times> string \<times> string) list"

fun store_step ::
    "('c \<Rightarrow> string \<Rightarrow> string \<Rightarrow> 's \<Rightarrow> ('s \<times> string \<times> nat) option) \<Rightarrow>
     (time \<Rightarrow> string \<Rightarrow> 's \<Rightarrow> 's \<times> (string \<times> string) option) \<Rightarrow>
     's \<times> put_log \<Rightarrow> 'c store_op \<Rightarrow> 's \<times> put_log" where
  "store_step put get (s, log) (DoPut c p w) =
     (case put c p w s of None \<Rightarrow> (s, log) | Some (s', r, n) \<Rightarrow> (s', (r, p, w) # log))"
| "store_step put get (s, log) (DoGet t r) = (fst (get t r s), log)"

text \<open>
  \<open>view s\<close> is what the store holds: handle to payload and owner. A \<open>Put\<close> hands out a
  handle that was not in use, may drop other entries and adds none but its own; a \<open>Get\<close>
  returns what the store holds and may drop expired entries. \<open>admitted\<close> says for which
  environments and owners the law of \<open>Put\<close> is promised.
\<close>

locale ref_store =
  fixes put :: "'c \<Rightarrow> string \<Rightarrow> string \<Rightarrow> 's \<Rightarrow> ('s \<times> string \<times> nat) option"
    and get :: "time \<Rightarrow> string \<Rightarrow> 's \<Rightarrow> 's \<times> (string \<times> string) option"
    and view :: "'s \<Rightarrow> string \<Rightarrow> (string \<times> string) option"
    and invar :: "'s \<Rightarrow> bool"
    and admitted :: "'c \<Rightarrow> string \<Rightarrow> bool"
  assumes put_fresh: "invar s \<Longrightarrow> put c p w s = Some (s', r, n) \<Longrightarrow> view s r = None"
    and put_size: "put c p w s = Some (s', r, n) \<Longrightarrow> n = length p"
    and put_view: "invar s \<Longrightarrow> admitted c w \<Longrightarrow> put c p w s = Some (s', r, n) \<Longrightarrow>
      view s' \<subseteq>\<^sub>m (view s)(r \<mapsto> (p, w))"
    and put_invar: "invar s \<Longrightarrow> put c p w s = Some (s', r, n) \<Longrightarrow> invar s'"
    and get_sound: "invar s \<Longrightarrow> get t r s = (s', Some x) \<Longrightarrow> view s r = Some x"
    and get_view: "invar s \<Longrightarrow> get t r s = (s', y) \<Longrightarrow> view s' \<subseteq>\<^sub>m view s"
    and get_invar: "invar s \<Longrightarrow> get t r s = (s', y) \<Longrightarrow> invar s'"
begin

text \<open>Everything the store holds was put there, under this handle, payload and owner.\<close>

definition recorded :: "'s \<times> put_log \<Rightarrow> bool" where
  "recorded x \<longleftrightarrow> invar (fst x) \<and>
     (\<forall>r p w. view (fst x) r = Some (p, w) \<longrightarrow> (r, p, w) \<in> set (snd x))"

definition op_ok :: "'c store_op \<Rightarrow> bool" where
  "op_ok x \<longleftrightarrow> (case x of DoPut c p w \<Rightarrow> admitted c w | DoGet t r \<Rightarrow> True)"

lemma recorded_step:
  assumes "recorded x" and "op_ok oper"
  shows "recorded (store_step put get x oper)"
proof (cases oper)
  case (DoPut c p w)
  obtain s log where x: "x = (s, log)" by fastforce
  show ?thesis
  proof (cases "put c p w s")
    case None
    with assms x DoPut show ?thesis by simp
  next
    case (Some y)
    obtain s' r n where y: "y = (s', r, n)" by (cases y)
    from assms x DoPut Some y have "view s' \<subseteq>\<^sub>m (view s)(r \<mapsto> (p, w))" and "invar s'"
      by (auto simp: recorded_def op_ok_def intro: put_view put_invar)
    with assms(1) x DoPut Some y show ?thesis
      by (auto simp: recorded_def dest!: map_le_Some split: if_splits)
  qed
next
  case (DoGet t r)
  obtain s log where x: "x = (s, log)" by fastforce
  obtain s' y where g: "get t r s = (s', y)" by fastforce
  from assms(1) x g have "view s' \<subseteq>\<^sub>m view s" and "invar s'"
    by (auto simp: recorded_def intro: get_view get_invar)
  with assms(1) x DoGet g show ?thesis by (auto simp: recorded_def dest!: map_le_Some)
qed

sublocale run: stepper "store_step put get" op_ok recorded
  by unfold_locales (rule recorded_step)

lemma get_was_put:
  assumes "invar s0" and "view s0 = Map.empty" and "\<forall>x \<in> set ops. op_ok x"
    and "foldl (store_step put get) (s0, []) ops = (s, log)"
    and "get t r s = (s', Some (p, w))"
  shows "(r, p, w) \<in> set log"
proof -
  have "recorded (s0, [])" using assms(1,2) by (simp add: recorded_def)
  from run.run_invar [OF this assms(3)] assms(4) have "recorded (s, log)" by simp
  then show ?thesis using assms(5) by (auto simp: recorded_def dest: get_sound)
qed

end

section \<open>Both stores implement the interface\<close>

definition mem_view :: "mem_store \<Rightarrow> string \<Rightarrow> (string \<times> string) option" where
  "mem_view s r = map_option (\<lambda>it. (mi_payload it, mi_owner it)) (map_of (ms_items s) r)"

definition mem_wf :: "mem_store \<Rightarrow> bool" where
  "mem_wf s \<longleftrightarrow> distinct (map fst (ms_items s))"

lemma mem_sweep_filter: "\<exists>P. ms_items (mem_sweep srt now s) = filter P (ms_items s)"
proof -
  have "\<exists>P. filter P (ms_items s) = ms_items s" by (rule exI [of _ "\<lambda>_. True"]) simp
  then show ?thesis by (auto simp: mem_sweep_def Let_def filter_filter) metis+
qed

lemma mem_view_filter:
  assumes "mem_wf s" and "ms_items s' = filter P (ms_items s)"
  shows "mem_view s' \<subseteq>\<^sub>m mem_view s \<and> mem_wf s'"
  using assms
  by (auto simp: mem_view_def mem_wf_def map_of_filter_Some distinct_fst_filter intro!: map_leI_Some)

lemma mem_sweep_wf:
  "mem_wf s \<Longrightarrow> mem_view (mem_sweep srt now s) \<subseteq>\<^sub>m mem_view s \<and> mem_wf (mem_sweep srt now s)"
  using mem_sweep_filter mem_view_filter by metis

definition mem_add :: "put_env \<Rightarrow> string \<Rightarrow> string \<Rightarrow> string \<Rightarrow> mem_store \<Rightarrow> mem_store" where
  "mem_add env r p w s = s\<lparr>ms_items := AList.update r
     \<lparr>mi_payload = p, mi_owner = w, mi_created = pe_created env\<rparr> (ms_items s)\<rparr>"

lemma mem_add_wf: "mem_wf s \<Longrightarrow> mem_wf (mem_add env r p w s)"
  by (simp add: mem_wf_def mem_add_def distinct_update)

lemma mem_add_view: "mem_view (mem_add env r p w s) = (mem_view s)(r \<mapsto> (p, w))"
  by (auto simp: mem_view_def mem_add_def update_conv)

lemma mem_Put_SomeD:
  assumes "mem_Put env p w s = Some (s', r, n)"
  shows "map_of (ms_items s) r = None \<and> n = length p \<and>
    s' = mem_sweep (pe_sort env) (pe_sweep env) (mem_add env r p w s)"
  using assms by (auto simp: mem_Put_def mem_add_def Let_def dest: mintLocked_fresh split: option.splits)

interpretation mem: ref_store mem_Put mem_Get mem_view mem_wf "\<lambda>_ _. True"
proof unfold_locales
  fix s env p w s' r n
  assume wf: "mem_wf s" and put: "mem_Put env p w s = Some (s', r, n)"
  note D = mem_Put_SomeD [OF put]
  from D show "mem_view s r = None" by (simp add: mem_view_def)
  from D mem_sweep_wf [OF mem_add_wf [OF wf]] show "mem_wf s'" by simp
  from D mem_sweep_wf [OF mem_add_wf [OF wf]] show "mem_view s' \<subseteq>\<^sub>m (mem_view s)(r \<mapsto> (p, w))"
    by (simp add: mem_add_view)
next
  fix env p w s s' r n
  assume "mem_Put env p w s = Some (s', r, n)"
  then show "n = length p" by (auto dest: mem_Put_SomeD)
next
  fix s t r s' x
  assume "mem_wf s" and "mem_Get t r s = (s', Some x)"
  then show "mem_view s r = Some x"
    by (auto simp: mem_Get_def mem_view_def split: option.splits if_splits)
next
  fix s t r s' y
  assume "mem_wf s" and "mem_Get t r s = (s', y)"
  then show "mem_view s' \<subseteq>\<^sub>m mem_view s" and "mem_wf s'"
    by (auto simp: mem_Get_def mem_view_def mem_wf_def delete_conv distinct_delete
        intro!: map_leI_Some split: option.splits if_splits)
qed

text \<open>
  The AEAD's contract (AES-GCM): what was sealed under a nonce opens to itself under that
  nonce; nonces are 12 bytes.
\<close>

definition aead_ok :: "aead \<Rightarrow> bool" where
  "aead_ok A \<longleftrightarrow> nonce_size A = 12 \<and> (\<forall>n pt. unseal A n (seal A n pt) = Some pt)"

definition file_wf :: "file_store \<Rightarrow> bool" where
  "file_wf s \<longleftrightarrow> distinct (map fst (fs_files s)) \<and> aead_ok (fs_aead s)"

definition file_view :: "file_store \<Rightarrow> string \<Rightarrow> (string \<times> string) option" where
  "file_view s r =
     (case safeRefFile r of None \<Rightarrow> None
      | Some name \<Rightarrow> Option.bind (map_of (fs_files s) name) (open_record (fs_aead s)))"

text \<open>
  The environments the file store's \<open>Put\<close> is specified for: a 12-byte nonce, an owner whose
  length fits the two-byte frame, and a write that succeeds, fails, or stops within the
  cleartext header.
\<close>

definition file_admitted :: "file_env \<Rightarrow> string \<Rightarrow> bool" where
  "file_admitted env w \<longleftrightarrow> length (fe_nonce env) = 12 \<and> length w \<le> 65535 \<and>
     (case fe_write env of WritePartial k \<Rightarrow> k < 20 | _ \<Rightarrow> True)"

lemma unframe_frame: "unframeOwner (frameOwner owner payload) = Some (take 65535 owner, payload)"
proof -
  let ?o = "if length owner > 65535 then take 65535 owner else owner"
  have o: "?o = take 65535 owner" and len: "length ?o < 65536" by auto
  from len have n: "be_nat (be_bytes 2 (length ?o)) = length ?o" by (simp add: be_nat_be_bytes)
  have "frameOwner owner payload = be_bytes 2 (length ?o) @ ?o @ payload"
    by (simp only: frameOwner_def Let_def)
  then have "unframeOwner (frameOwner owner payload) = Some (?o, payload)"
    using n by (simp add: unframeOwner_def Let_def)
  with o show ?thesis by simp
qed

lemma length_stamp [simp]: "length (stamp t) = 8"
  by (simp add: stamp_def)

lemma stamp_of_stamp: "stamp_of (stamp t) = unix_nano t"
proof -
  have "int (nat (unix_nano t mod 2 ^ 64) mod 256 ^ 8) = unix_nano t mod 2 ^ 64"
    by (simp add: zmod_int)
  then have "stamp_of (stamp t) = wrap64 (unix_nano t mod 2 ^ 64)"
    by (simp add: stamp_of_def stamp_def be_nat_be_bytes)
  also have "\<dots> = wrap64 (unix_nano t)" by (simp add: wrap64_def mod_add_left_eq)
  also have "\<dots> = unix_nano t"
    unfolding unix_nano_def by (simp add: wrap64_id wrap64_in_int64)
  finally show ?thesis .
qed

lemma open_record_bytes:
  assumes "aead_ok A" and "length nonce = 12" and "length w \<le> 65535"
  shows "open_record A (record_bytes A t nonce w p) = Some (p, w)"
  using assms by (simp add: open_record_def record_bytes_def aead_ok_def unframe_frame)

lemma open_record_short: "aead_ok A \<Longrightarrow> length bytes < 20 \<Longrightarrow> open_record A bytes = None"
  by (simp add: open_record_def aead_ok_def)

lemma file_sweep_filter:
  "\<exists>P. fs_files (file_sweep srt now s) = filter P (fs_files s) \<and> fs_aead (file_sweep srt now s) = fs_aead s"
proof -
  have "\<exists>P. filter P (fs_files s) = fs_files s" by (rule exI [of _ "\<lambda>_. True"]) simp
  then show ?thesis by (auto simp: file_sweep_def Let_def filter_filter) metis+
qed

lemma file_view_filter:
  assumes "file_wf s" and "fs_files s' = filter P (fs_files s)" and "fs_aead s' = fs_aead s"
  shows "file_view s' \<subseteq>\<^sub>m file_view s \<and> file_wf s'"
  using assms
  by (auto simp: file_view_def file_wf_def map_of_filter_Some distinct_fst_filter bind_eq_Some_conv
      intro!: map_leI_Some split: option.splits)

lemma file_sweep_wf:
  "file_wf s \<Longrightarrow> file_view (file_sweep srt now s) \<subseteq>\<^sub>m file_view s \<and> file_wf (file_sweep srt now s)"
  using file_sweep_filter file_view_filter by metis

lemma writeLocked_wf [inv_intros]: "file_wf s \<Longrightarrow> file_wf (writeLocked t nonce out name w p s)"
  by (auto simp: file_wf_def writeLocked_def Let_def distinct_update split: write_outcome.splits)

lemma writeLocked_view:
  assumes "file_wf s" and "file_admitted env w" and "safeRefFile r = Some name"
    and "map_of (fs_files s) name = None"
  shows "file_view (writeLocked t (fe_nonce env) (fe_write env) name w p s) \<subseteq>\<^sub>m
    (file_view s)(r \<mapsto> (p, w))"
proof (rule map_leI_Some)
  fix q x
  let ?s = "writeLocked t (fe_nonce env) (fe_write env) name w p s"
  let ?buf = "record_bytes (fs_aead s) t (fe_nonce env) w p"
  assume v: "file_view ?s q = Some x"
  have op: "open_record (fs_aead s) ?buf = Some (p, w)"
    using assms(1,2) by (intro open_record_bytes) (auto simp: file_wf_def file_admitted_def)
  have short: "open_record (fs_aead s) (take k ?buf) = None" if "fe_write env = WritePartial k" for k
    using assms(1,2) that by (intro open_record_short) (auto simp: file_wf_def file_admitted_def)
  show "((file_view s)(r \<mapsto> (p, w))) q = Some x"
  proof (cases "q = r")
    case True
    with v assms(3,4) op short show ?thesis
      by (auto simp: file_view_def writeLocked_def Let_def update_conv bind_eq_Some_conv
          split: write_outcome.splits)
  next
    case False
    then have "safeRefFile q \<noteq> Some name" using assms(3) safeRefFile_inject by blast
    then have "file_view ?s q = file_view s q"
      by (auto simp: file_view_def writeLocked_def Let_def update_conv
          split: write_outcome.splits option.splits)
    with False v show ?thesis by simp
  qed
qed

lemma file_Put_SomeD:
  assumes "file_Put env p w s = Some (s', r, n)"
  shows "\<exists>name. safeRefFile r = Some name \<and> map_of (fs_files s) name = None \<and> n = length p \<and>
    s' = file_sweep (pe_sort env) (pe_sweep env)
           (writeLocked (pe_created env) (fe_nonce env) (fe_write env) name w p s)"
proof -
  from assms have m: "mintLocked (\<lambda>r. case safeRefFile r of None \<Rightarrow> True
      | Some name \<Rightarrow> map_of (fs_files s) name \<noteq> None) (pe_ids env) = Some r"
    and rest: "n = length p" "s' = file_sweep (pe_sort env) (pe_sweep env)
      (writeLocked (pe_created env) (fe_nonce env) (fe_write env) (the (safeRefFile r)) w p s)"
    by (auto simp: file_Put_def Let_def split: option.splits)
  from mintLocked_fresh [OF m] obtain name where "safeRefFile r = Some name"
    and "map_of (fs_files s) name = None"
    by (auto split: option.splits)
  with rest show ?thesis by auto
qed

interpretation file_st: ref_store file_Put file_Get file_view file_wf file_admitted
proof unfold_locales
  fix s env p w s' r n
  assume wf: "file_wf s" and put: "file_Put env p w s = Some (s', r, n)"
  from file_Put_SomeD [OF put] obtain name where D: "safeRefFile r = Some name"
    "map_of (fs_files s) name = None"
    "s' = file_sweep (pe_sort env) (pe_sweep env)
       (writeLocked (pe_created env) (fe_nonce env) (fe_write env) name w p s)" by blast
  from D show "file_view s r = None" by (simp add: file_view_def)
  from D file_sweep_wf [OF writeLocked_wf [OF wf]] show "file_wf s'" by simp
  show "file_view s' \<subseteq>\<^sub>m (file_view s)(r \<mapsto> (p, w))" if "file_admitted env w"
    using D file_sweep_wf [OF writeLocked_wf [OF wf]] writeLocked_view [OF wf that D(1,2)]
      map_le_trans by blast
next
  fix env p w s s' r n
  assume "file_Put env p w s = Some (s', r, n)"
  then show "n = length p" by (auto dest: file_Put_SomeD)
next
  fix s t r s' x
  assume "file_wf s" and "file_Get t r s = (s', Some x)"
  then show "file_view s r = Some x"
    by (auto simp: file_Get_def file_view_def split: option.splits if_splits)
next
  fix s t r s' y
  assume "file_wf s" and "file_Get t r s = (s', y)"
  then show "file_view s' \<subseteq>\<^sub>m file_view s" and "file_wf s'"
    by (auto simp: file_Get_def file_view_def file_wf_def delete_conv distinct_delete bind_eq_Some_conv
        intro!: map_leI_Some split: option.splits if_splits)
qed

section \<open>What a put leaves behind\<close>

text \<open>
  A store that has room: nothing is evicted by the put, and nothing has expired when the entry is
  read. Then the entry is there after the put and after the read.
\<close>

locale keeping_store = ref_store put get view invar admitted
  for put :: "'c \<Rightarrow> string \<Rightarrow> string \<Rightarrow> 's \<Rightarrow> ('s \<times> string \<times> nat) option"
    and get :: "time \<Rightarrow> string \<Rightarrow> 's \<Rightarrow> 's \<times> (string \<times> string) option"
    and view :: "'s \<Rightarrow> string \<Rightarrow> (string \<times> string) option"
    and invar :: "'s \<Rightarrow> bool"
    and admitted :: "'c \<Rightarrow> string \<Rightarrow> bool" +
  fixes roomy :: "'c \<Rightarrow> time \<Rightarrow> 's \<Rightarrow> bool"
  assumes put_kept: "invar s \<Longrightarrow> admitted c w \<Longrightarrow> roomy c t s \<Longrightarrow> put c p w s = Some (s', r, n) \<Longrightarrow>
      get t r s' = (s'', y) \<Longrightarrow> view s'' r = Some (p, w)"

definition mem_roomy :: "put_env \<Rightarrow> time \<Rightarrow> mem_store \<Rightarrow> bool" where
  "mem_roomy env t s \<longleftrightarrow>
     (ms_ttl s \<le> 0 \<or> time_sub (pe_sweep env) (pe_created env) \<le> ms_ttl s \<and> time_sub t (pe_created env) \<le> ms_ttl s) \<and>
     (ms_max s \<le> 0 \<or> int (length (ms_items s)) < ms_max s)"

definition file_roomy :: "file_env \<Rightarrow> time \<Rightarrow> file_store \<Rightarrow> bool" where
  "file_roomy env t s \<longleftrightarrow> fe_write env = WriteOK \<and>
     (fs_ttl s \<le> 0 \<or> wrap64 (unix_nano (pe_sweep env) - unix_nano (pe_created env)) \<le> fs_ttl s \<and>
        wrap64 (unix_nano t - unix_nano (pe_created env)) \<le> fs_ttl s) \<and>
     (fs_max s \<le> 0 \<or> int (length (fs_files s)) < fs_max s)"

lemma length_update_le: "length (AList.update k v xs) \<le> Suc (length xs)"
  by (induction xs) auto

lemma mem_sweep_keeps:
  assumes "mem_wf s" and "map_of (ms_items s) r = Some it"
    and "ms_ttl s \<le> 0 \<or> time_sub now (mi_created it) \<le> ms_ttl s" and "ms_max s \<le> 0 \<or> int (length (ms_items s)) \<le> ms_max s"
  shows "map_of (ms_items (mem_sweep srt now s)) r = Some it \<and> ms_ttl (mem_sweep srt now s) = ms_ttl s"
proof -
  let ?P = "\<lambda>(r, it). \<not> time_sub now (mi_created it) > ms_ttl s"
  have "length (filter ?P (ms_items s)) \<le> length (ms_items s)" by (rule length_filter_le)
  then have room: "\<not> (ms_max s > 0 \<and> int (length (filter ?P (ms_items s))) > ms_max s)"
    "\<not> (ms_max s > 0 \<and> int (length (ms_items s)) > ms_max s)"
    using assms(4) by linarith+
  have "map_of (filter ?P (ms_items s)) r = Some it" if "\<not> ms_ttl s \<le> 0"
    using assms(1-3) that by (auto simp: mem_wf_def map_of_filter_Some)
  with assms(2) room show ?thesis by (auto simp: mem_sweep_def Let_def)
qed

interpretation memk: keeping_store mem_Put mem_Get mem_view mem_wf "\<lambda>_ _. True" mem_roomy
proof unfold_locales
  fix s env w t p s' r n s'' y
  assume wf: "mem_wf s" and room: "mem_roomy env t s" and put: "mem_Put env p w s = Some (s', r, n)"
    and get: "mem_Get t r s' = (s'', y)"
  let ?it = "\<lparr>mi_payload = p, mi_owner = w, mi_created = pe_created env\<rparr>" and ?s = "mem_add env r p w s"
  note D = mem_Put_SomeD [OF put]
  have "map_of (ms_items ?s) r = Some ?it" "ms_ttl ?s = ms_ttl s" "ms_max ?s = ms_max s"
    by (simp_all add: mem_add_def update_conv)
  moreover have "length (ms_items ?s) \<le> Suc (length (ms_items s))"
    using length_update_le by (simp add: mem_add_def)
  ultimately have "map_of (ms_items s') r = Some ?it" "ms_ttl s' = ms_ttl s"
    using mem_sweep_keeps [OF mem_add_wf [OF wf], of env r p w r ?it "pe_sweep env" "pe_sort env"] D room
    by (auto simp: mem_roomy_def)
  with get room show "mem_view s'' r = Some (p, w)"
    by (auto simp: mem_Get_def mem_view_def mem_roomy_def split: if_splits)
qed

lemma file_sweep_keeps:
  assumes "file_wf s" and "map_of (fs_files s) name = Some bytes"
    and "fs_ttl s \<le> 0 \<or> wrap64 (unix_nano now - the (readCreated bytes)) \<le> fs_ttl s"
    and "fs_max s \<le> 0 \<or> int (length (fs_files s)) \<le> fs_max s"
  shows "map_of (fs_files (file_sweep srt now s)) name = Some bytes \<and> fs_ttl (file_sweep srt now s) = fs_ttl s \<and>
    fs_aead (file_sweep srt now s) = fs_aead s"
proof -
  let ?st = "\<lambda>(name, bytes). has_suffix name ''.enc'' \<and> readCreated bytes \<noteq> None"
  let ?ex = "\<lambda>(name, bytes). fs_ttl s > 0 \<and> wrap64 (unix_nano now - the (readCreated bytes)) > fs_ttl s"
  let ?kept = "filter (\<lambda>f. \<not> (?st f \<and> ?ex f)) (fs_files s)"
  have "length (filter ?st ?kept) \<le> length (fs_files s)"
    using length_filter_le [of ?st ?kept] length_filter_le [of "\<lambda>f. \<not> (?st f \<and> ?ex f)" "fs_files s"] by linarith
  then have room: "\<not> (fs_max s > 0 \<and> int (length (filter ?st ?kept)) > fs_max s)"
    using assms(4) by linarith
  have swept: "file_sweep srt now s = (if fs_ttl s \<le> 0 \<and> fs_max s \<le> 0 then s else s\<lparr>fs_files := ?kept\<rparr>)"
    unfolding file_sweep_def Let_def length_map by (simp only: room if_False)
  have "map_of ?kept name = Some bytes"
    using assms(1-3) by (auto simp: file_wf_def map_of_filter_Some)
  with assms(2) show ?thesis unfolding swept by simp
qed

lemma readCreated_record: "readCreated (record_bytes A t nonce w p) = Some (unix_nano t)"
proof -
  have "stamp t \<noteq> []" using length_stamp [of t] by (metis list.size(3) zero_neq_numeral)
  then show ?thesis by (simp add: readCreated_def record_bytes_def stamp_of_stamp)
qed

interpretation filek: keeping_store file_Put file_Get file_view file_wf file_admitted file_roomy
proof unfold_locales
  fix s env w t p s' r n s'' y
  assume wf: "file_wf s" and adm: "file_admitted env w" and room: "file_roomy env t s"
    and put: "file_Put env p w s = Some (s', r, n)" and get: "file_Get t r s' = (s'', y)"
  let ?buf = "record_bytes (fs_aead s) (pe_created env) (fe_nonce env) w p"
  from file_Put_SomeD [OF put] room obtain name where D: "safeRefFile r = Some name"
    "s' = file_sweep (pe_sort env) (pe_sweep env) (s\<lparr>fs_files := AList.update name ?buf (fs_files s)\<rparr>)"
    by (auto simp: file_roomy_def writeLocked_def Let_def)
  let ?s = "s\<lparr>fs_files := AList.update name ?buf (fs_files s)\<rparr>"
  have "file_wf ?s" using wf by (simp add: file_wf_def distinct_update)
  moreover have "map_of (fs_files ?s) name = Some ?buf" by (simp add: update_conv)
  moreover have "length (fs_files ?s) \<le> Suc (length (fs_files s))" using length_update_le by simp
  ultimately have kept: "map_of (fs_files s') name = Some ?buf" "fs_ttl s' = fs_ttl s" "fs_aead s' = fs_aead s"
    using file_sweep_keeps [of ?s name ?buf "pe_sweep env" "pe_sort env"] D(2) room
    by (auto simp: file_roomy_def readCreated_record)
  have "take 8 ?buf = stamp (pe_created env)" by (simp add: record_bytes_def)
  moreover have "open_record (fs_aead s) ?buf = Some (p, w)"
    using wf adm by (intro open_record_bytes) (auto simp: file_wf_def file_admitted_def)
  moreover have "\<not> length ?buf < 8 + nonce_size (fs_aead s)"
    using wf adm by (simp add: record_bytes_def file_wf_def aead_ok_def file_admitted_def)
  ultimately show "file_view s'' r = Some (p, w)"
    using get kept D(1) room by (auto simp: file_Get_def file_view_def file_roomy_def stamp_of_stamp split: if_splits)
qed

section \<open>Retention\<close>

text \<open>What Go documents of \<open>sort.Slice\<close>: a permutation, sorted by the key, ties in any order.\<close>

definition slice_sorts :: "'k slice_sort \<Rightarrow> bool" where
  "slice_sorts srt \<longleftrightarrow> (\<forall>xs. mset (srt xs) = mset xs \<and> sorted (map snd (srt xs)))"

lemma slice_sorts_sort_key: "slice_sorts (\<lambda>xs. sort_key snd (f xs))" if "\<And>xs. mset (f xs) = mset xs"
  using that by (simp add: slice_sorts_def)

lemma length_srt: "slice_sorts srt \<Longrightarrow> length (srt xs) = length xs"
  by (metis size_mset slice_sorts_def)

lemma distinct_srt:
  assumes "slice_sorts srt" and "distinct (map fst xs)"
  shows "distinct (map fst (srt xs))"
proof -
  from assms(1) have "mset (map fst (srt xs)) = mset (map fst xs)" by (simp add: slice_sorts_def)
  with assms(2) show ?thesis by (metis mset_eq_imp_distinct_iff)
qed

lemma set_srt: "slice_sorts srt \<Longrightarrow> set (srt xs) = set xs"
  by (metis set_mset_mset slice_sorts_def)

lemma oldest_facts:
  assumes "slice_sorts srt" and "distinct (map fst live)"
  shows "distinct (oldest srt cap live)" and "set (oldest srt cap live) \<subseteq> fst ` set live"
    and "length (oldest srt cap live) = length live - nat cap"
  using distinct_srt [OF assms] set_srt [OF assms(1), of live] length_srt [OF assms(1), of live]
  by (auto simp: oldest_def take_map [symmetric] intro: distinct_take dest: in_set_takeD)

text \<open>The entry with the strictly greatest creation time is never among the evicted ones.\<close>

lemma oldest_keeps_newest:
  assumes srt: "slice_sorts srt" and d: "distinct (map fst live)" and cap: "0 < cap"
    and k: "(k, t) \<in> set live" and newest: "\<forall>(k', t') \<in> set live. k' \<noteq> k \<longrightarrow> t' < t"
  shows "k \<notin> set (oldest srt cap live)"
proof
  let ?ys = "srt live" and ?m = "length live - nat cap"
  assume "k \<in> set (oldest srt cap live)"
  then obtain i where i: "i < ?m" "i < length ?ys" "fst (?ys ! i) = k"
    by (auto simp: oldest_def in_set_conv_nth)
  have m: "?m < length ?ys" using cap k length_srt [OF srt, of live] by (cases live) auto
  have dy: "distinct (map fst ?ys)" by (rule distinct_srt [OF srt d])
  have "?ys ! i \<in> set live" using i set_srt [OF srt] by (metis nth_mem)
  with k i d have yi: "?ys ! i = (k, t)" by (metis eq_key_imp_eq_value prod.collapse)
  have "fst (?ys ! ?m) \<noteq> k" using dy i m by (auto simp: distinct_conv_nth)
  moreover have "?ys ! ?m \<in> set live" using m set_srt [OF srt] by (metis nth_mem)
  ultimately have "snd (?ys ! ?m) < t" using newest by (cases "?ys ! ?m") fastforce
  moreover have "snd (?ys ! i) \<le> snd (?ys ! ?m)"
    using srt i m by (auto simp: slice_sorts_def dest!: spec [of _ live] sorted_nth_mono [of _ i ?m])
  ultimately show False using yi by simp
qed

lemma length_filter_keys:
  assumes "distinct (map fst xs)" and "distinct gone" and "set gone \<subseteq> fst ` set xs"
  shows "length (filter (\<lambda>(r, it). r \<notin> set gone) xs) = length xs - length gone"
proof -
  have "map fst (filter (\<lambda>(r, it). r \<notin> set gone) xs) = filter (\<lambda>r. r \<notin> set gone) (map fst xs)"
    by (induction xs) auto
  then have "length (filter (\<lambda>(r, it). r \<notin> set gone) xs) = length (filter (\<lambda>r. r \<notin> set gone) (map fst xs))"
    by (metis length_map)
  also have "\<dots> = card (set (filter (\<lambda>r. r \<notin> set gone) (map fst xs)))"
    using assms(1) by (intro distinct_card [symmetric] distinct_filter)
  also have "set (filter (\<lambda>r. r \<notin> set gone) (map fst xs)) = fst ` set xs - set gone" by auto
  also have "card \<dots> = card (fst ` set xs) - card (set gone)"
    using assms(3) by (intro card_Diff_subset) auto
  also have "card (fst ` set xs) = length xs"
    using distinct_card [OF assms(1)] by simp
  also have "card (set gone) = length gone" using assms(2) by (rule distinct_card)
  finally show ?thesis .
qed

lemma live_keys: "map fst (map (\<lambda>(r, it). (r, mi_created it)) its) = map fst its"
  by (induction its) auto

lemma mem_sweep_bounded:
  assumes "slice_sorts srt" and "mem_wf s" and "0 < ms_max s"
  shows "int (length (ms_items (mem_sweep srt now s))) \<le> ms_max s"
proof -
  let ?its = "if ms_ttl s > 0
    then filter (\<lambda>(r, it). \<not> time_sub now (mi_created it) > ms_ttl s) (ms_items s) else ms_items s"
  let ?live = "map (\<lambda>(r, it). (r, mi_created it)) ?its"
  let ?gone = "oldest srt (ms_max s) ?live"
  have d: "distinct (map fst ?its)" using assms(2) by (simp add: mem_wf_def distinct_fst_filter)
  then have dl: "distinct (map fst ?live)" by (simp only: live_keys)
  note facts = oldest_facts [OF assms(1) dl, of "ms_max s"]
  have sub: "set ?gone \<subseteq> fst ` set ?its" using facts(2) by (metis list.set_map live_keys)
  have "length (filter (\<lambda>(r, it). r \<notin> set ?gone) ?its) = length ?its - length ?gone"
    by (rule length_filter_keys [OF d facts(1) sub])
  with facts(3) have "int (length (filter (\<lambda>(r, it). r \<notin> set ?gone) ?its)) \<le> ms_max s"
    if "int (length ?its) > ms_max s" using assms(3) that by (simp only: length_map)
  then show ?thesis using assms(3) by (simp add: mem_sweep_def Let_def del: length_map)
qed

lemma mem_sweep_keeps_newest:
  assumes srt: "slice_sorts srt" and wf: "mem_wf s" and r: "map_of (ms_items s) r = Some it"
    and young: "ms_ttl s > 0 \<longrightarrow> \<not> time_sub now (mi_created it) > ms_ttl s"
    and newest: "\<forall>(r', it') \<in> set (ms_items s). r' \<noteq> r \<longrightarrow> mi_created it' < mi_created it"
  shows "map_of (ms_items (mem_sweep srt now s)) r = Some it"
proof -
  let ?its = "if ms_ttl s > 0
    then filter (\<lambda>(r, it). \<not> time_sub now (mi_created it) > ms_ttl s) (ms_items s) else ms_items s"
  let ?live = "map (\<lambda>(r, it). (r, mi_created it)) ?its"
  let ?gone = "oldest srt (ms_max s) ?live"
  have d: "distinct (map fst ?its)" using wf by (simp add: mem_wf_def distinct_fst_filter)
  then have dl: "distinct (map fst ?live)" by (simp only: live_keys)
  have r': "map_of ?its r = Some it"
    using wf r young by (simp add: mem_wf_def map_of_filter_Some)
  from map_of_SomeD [OF this] have "(r, mi_created it) \<in> set ?live"
    unfolding set_map by (rule rev_image_eqI) simp
  moreover have "\<forall>(k', t') \<in> set ?live. k' \<noteq> r \<longrightarrow> t' < mi_created it"
    using newest by auto
  ultimately have "r \<notin> set ?gone" if "0 < ms_max s"
    using srt dl that by (intro oldest_keeps_newest) auto
  then have "map_of (filter (\<lambda>(r, it). r \<notin> set ?gone) ?its) r = Some it" if "0 < ms_max s"
    using r' that d by (simp add: map_of_filter_Some del: filter_filter)
  then show ?thesis using r r' by (auto simp: mem_sweep_def Let_def simp del: filter_filter)
qed

lemma newest_after_add:
  assumes "map_of (ms_items s) r = None"
    and "\<forall>(r', it') \<in> set (ms_items s). mi_created it' < pe_created env"
  shows "\<forall>(r', it') \<in> set (ms_items (mem_add env r p w s)). r' \<noteq> r \<longrightarrow> mi_created it' < pe_created env"
proof -
  have "ms_items (mem_add env r p w s) = ms_items s @
      [(r, \<lparr>mi_payload = p, mi_owner = w, mi_created = pe_created env\<rparr>)]"
    using assms(1) by (simp add: mem_add_def update_new)
  with assms(2) show ?thesis by auto
qed

section \<open>Properties\<close>

text \<open>
  A handle is the only name the file store ever derives a path from: the handles
  \<open>randRef\<close> mints are recognised with a 12-character token, and whatever handle a caller
  supplies, the file name derived from it is \<open>ref_\<close>, base-62 characters and \<open>.enc\<close>, with
  no separator, and determines the handle.
\<close>

theorem ref_handles_safe:
  "(randRef rnd = Some (r, rest) \<longrightarrow> (\<exists>tok. refToken r = Some tok \<and> length tok = 12)) \<and>
   (safeRefFile q = Some name \<longrightarrow>
      CHR ''/'' \<notin> set name \<and> CHR 0x5C \<notin> set name \<and> CHR 0x00 \<notin> set name \<and> name \<noteq> ''..'' \<and>
      (\<exists>tok. q = ''<ref_'' @ tok @ ''>'' \<and> name = ''ref_'' @ tok @ ''.enc'' \<and> list_all base62 tok))"
proof (intro conjI impI)
  assume "randRef rnd = Some (r, rest)"
  then obtain out where out: "randToken 12 rnd = Some (out, rest)" and r: "r = ''<ref_'' @ out @ ''>''"
    by (auto simp: randRef_def refTokenLen_def split: option.splits)
  from randToken_shape [OF out] r have "refToken r = Some out" and "length out = 12"
    by (auto simp: refToken_iff)
  then show "\<exists>tok. refToken r = Some tok \<and> length tok = 12" by blast
next
  assume "safeRefFile q = Some name"
  then obtain tok where tok: "q = ''<ref_'' @ tok @ ''>''" "name = ''ref_'' @ tok @ ''.enc''"
    "list_all base62 tok"
    by (auto simp: safeRefFile_def refToken_iff split: option.splits)
  then show "CHR ''/'' \<notin> set name" and "CHR 0x5C \<notin> set name" and "CHR 0x00 \<notin> set name"
    and "name \<noteq> ''..''"
    and "\<exists>tok. q = ''<ref_'' @ tok @ ''>'' \<and> name = ''ref_'' @ tok @ ''.enc'' \<and> list_all base62 tok"
    by (auto simp: list_all_iff dest: base62_not)
qed

theorem ref_handles_safe_witness:
  "refToken ''<ref_000000000000>'' = Some ''000000000000'' \<and> CHR ''/'' \<notin> set ''ref_0.enc''"
proof -
  have r: "randRef ''>>>>>>>>>>>>'' = Some (''<ref_000000000000>'', [])"
    by (simp add: randRef_def refTokenLen_def numeral_eq_Suc refAlphabet_def)
  have f: "safeRefFile ''<ref_0>'' = Some ''ref_0.enc''"
    by (simp add: safeRefFile_def refToken_def Let_def base62_def less_eq_char_def)
  show ?thesis using ref_handles_safe [of "''>>>>>>>>>>>>''" "''<ref_000000000000>''" "[]" "''<ref_0>''" "''ref_0.enc''"] r f
    by (simp add: refToken_def Let_def base62_def less_eq_char_def)
qed

text \<open>
  A bounded store that is asked for a handle and gets one back holds at most
  \<open>maxEntries\<close> entries afterwards, and a \<open>Get\<close> of the new handle returns the payload with
  its owner, provided the new entry is strictly newer than every other one and within its
  time to live: whatever order \<open>sort.Slice\<close> gives equal time stamps.
\<close>

theorem mem_put_then_get:
  assumes "slice_sorts (pe_sort env)" and "mem_wf s" and "mem_Put env p w s = Some (s', r, n)"
    and "\<forall>(r', it') \<in> set (ms_items s). mi_created it' < pe_created env"
    and "ms_ttl s > 0 \<longrightarrow> time_sub (pe_sweep env) (pe_created env) \<le> ms_ttl s"
    and "ms_ttl s > 0 \<longrightarrow> time_sub t (pe_created env) \<le> ms_ttl s"
  shows "(ms_max s > 0 \<longrightarrow> int (length (ms_items s')) \<le> ms_max s) \<and> mem_Get t r s' = (s', Some (p, w))"
proof -
  let ?s1 = "mem_add env r p w s"
  note D = mem_Put_SomeD [OF assms(3)]
  have keep: "ms_ttl ?s1 = ms_ttl s" "ms_max ?s1 = ms_max s" by (simp_all add: mem_add_def)
  have ttl: "ms_ttl (mem_sweep srt now x) = ms_ttl x" for srt now x
    by (simp add: mem_sweep_def Let_def)
  have it: "map_of (ms_items ?s1) r = Some \<lparr>mi_payload = p, mi_owner = w, mi_created = pe_created env\<rparr>"
    by (simp add: mem_add_def update_conv)
  have "map_of (ms_items s') r = Some \<lparr>mi_payload = p, mi_owner = w, mi_created = pe_created env\<rparr>"
    using D newest_after_add [OF _ assms(4), of r p w] assms(1,2,5) keep it
    by (auto intro!: mem_sweep_keeps_newest mem_add_wf)
  moreover have "ms_max s > 0 \<longrightarrow> int (length (ms_items s')) \<le> ms_max s"
    using D keep mem_sweep_bounded
      [OF assms(1) mem_add_wf [OF assms(2)], where now = "pe_sweep env", of env r p w] by simp
  moreover have "ms_ttl s' = ms_ttl s" using D ttl keep by simp
  ultimately show ?thesis using assms(6) by (auto simp: mem_Get_def)
qed

definition example_env :: "time \<Rightarrow> string slice_sort \<Rightarrow> put_env" where
  "example_env t srt = \<lparr>pe_ids = [''<ref_a>'', ''<ref_b>''], pe_created = t, pe_sweep = t, pe_sort = srt\<rparr>"

definition example_store :: mem_store where
  "example_store =
     \<lparr>ms_items = [(''<ref_a>'', \<lparr>mi_payload = ''x'', mi_owner = ''o'', mi_created = 5\<rparr>)],
      ms_ttl = 100, ms_max = 1\<rparr>"

theorem mem_put_then_get_witness:
  "\<exists>s'. mem_Put (example_env 6 (sort_key snd)) ''data'' ''alice'' example_store = Some (s', ''<ref_b>'', 4) \<and>
     length (ms_items s') \<le> 1 \<and> mem_Get 7 ''<ref_b>'' s' = (s', Some (''data'', ''alice''))"
proof -
  have srt: "slice_sorts (pe_sort (example_env 6 (sort_key snd)))"
    using slice_sorts_sort_key [of "\<lambda>xs. xs"] by (simp add: example_env_def)
  have wf: "mem_wf example_store" by (simp add: mem_wf_def example_store_def)
  have "\<exists>s'. mem_Put (example_env 6 (sort_key snd)) ''data'' ''alice'' example_store = Some (s', ''<ref_b>'', 4)"
    by (simp add: mem_Put_def Let_def example_env_def example_store_def)
  then obtain s' where put:
    "mem_Put (example_env 6 (sort_key snd)) ''data'' ''alice'' example_store = Some (s', ''<ref_b>'', 4)" ..
  have "(ms_max example_store > 0 \<longrightarrow> int (length (ms_items s')) \<le> ms_max example_store) \<and>
      mem_Get 7 ''<ref_b>'' s' = (s', Some (''data'', ''alice''))"
    by (rule mem_put_then_get [OF srt wf put])
      (simp_all add: example_env_def example_store_def time_sub_def)
  with put show ?thesis by (auto simp: example_store_def)
qed

text \<open>
  The comment on \<open>Put\<close> that the sweep never evicts the new entry because it is the
  newest holds only for distinct time stamps. When an older entry carries the same creation
  time, an order that \<open>sort.Slice\<close> is allowed to produce evicts the entry just stored: the
  handle returned by \<open>Put\<close> is already dead.
\<close>

theorem mem_put_may_evict_itself:
  "\<exists>srt s'. slice_sorts srt \<and>
     mem_Put (example_env 5 srt) ''data'' ''alice'' example_store = Some (s', ''<ref_b>'', 4) \<and>
     mem_Get 5 ''<ref_b>'' s' = (s', None)"
proof -
  let ?srt = "\<lambda>xs :: (string \<times> int) list. sort_key snd (rev xs)"
  have "slice_sorts ?srt" using slice_sorts_sort_key [of rev] by simp
  moreover have "mem_Put (example_env 5 ?srt) ''data'' ''alice'' example_store =
      Some (example_store, ''<ref_b>'', 4)"
    by (simp add: mem_Put_def Let_def example_env_def example_store_def mem_sweep_def time_sub_def oldest_def)
  moreover have "mem_Get 5 ''<ref_b>'' example_store = (example_store, None)"
    by (simp add: mem_Get_def example_store_def)
  ultimately show ?thesis by blast
qed

text \<open>
  What the encrypted file store returns for a handle, after any run of puts and gets
  from an empty directory, was put under exactly that handle with exactly that payload and
  owner: expiry, eviction, failed writes and other handles never change the content or the
  owner behind a handle.
\<close>

theorem file_get_was_put:
  assumes "aead_ok A"
    and "\<forall>x \<in> set ops. case x of DoPut env p w \<Rightarrow> file_admitted env w | DoGet t r \<Rightarrow> True"
    and "foldl (store_step file_Put file_Get)
      (\<lparr>fs_files = [], fs_aead = A, fs_ttl = ttl, fs_max = cap\<rparr>, []) ops = (s, log)"
    and "file_Get t r s = (s', Some (p, w))"
  shows "(r, p, w) \<in> set log"
  using assms
  by (intro file_st.get_was_put [of _ ops s log t r s' p w])
    (auto simp: file_wf_def file_view_def file_st.op_ok_def split: option.splits)

definition toy_aead :: aead where
  "toy_aead = \<lparr>seal = (\<lambda>n pt. n @ pt), unseal = (\<lambda>n ct. if take (length n) ct = n then Some (drop (length n) ct) else None),
     nonce_size = 12\<rparr>"

definition toy_env :: file_env where
  "toy_env = \<lparr>pe_ids = [''<ref_a>''], pe_created = 7, pe_sweep = 7, pe_sort = sort_key snd,
     fe_nonce = ''abcdefghijkl'', fe_write = WriteOK\<rparr>"

definition toy_store :: "(string \<times> string) list \<Rightarrow> file_store" where
  "toy_store fs = \<lparr>fs_files = fs, fs_aead = toy_aead, fs_ttl = 0, fs_max = 0\<rparr>"

lemma toy_run:
  "foldl (store_step file_Put file_Get) (toy_store [], []) [DoPut toy_env ''pay'' ''bob''] =
    (toy_store [(''ref_a.enc'', record_bytes toy_aead 7 ''abcdefghijkl'' ''bob'' ''pay'')],
     [(''<ref_a>'', ''pay'', ''bob'')])"
  by (simp add: toy_store_def file_Put_def toy_env_def writeLocked_def Let_def file_sweep_def
      safeRefFile_def refToken_def base62_def less_eq_char_def)

lemma toy_aead_ok: "aead_ok toy_aead"
  by (simp add: aead_ok_def toy_aead_def)

theorem file_get_was_put_witness:
  "\<exists>s log s'. foldl (store_step file_Put file_Get) (toy_store [], []) [DoPut toy_env ''pay'' ''bob''] = (s, log) \<and>
     file_Get 9 ''<ref_a>'' s = (s', Some (''pay'', ''bob'')) \<and> (''<ref_a>'', ''pay'', ''bob'') \<in> set log"
proof -
  have adm: "\<forall>x \<in> set [DoPut toy_env ''pay'' ''bob'']. case x of DoPut env p w \<Rightarrow> file_admitted env w | DoGet t r \<Rightarrow> True"
    by (simp add: file_admitted_def toy_env_def)
  have len: "20 \<le> length (record_bytes toy_aead 7 ''abcdefghijkl'' ''bob'' ''pay'')"
    by (simp add: record_bytes_def)
  have name: "safeRefFile ''<ref_a>'' = Some ''ref_a.enc''"
    by (simp add: safeRefFile_def refToken_def Let_def base62_def less_eq_char_def)
  have get: "file_Get 9 ''<ref_a>'' (toy_store [(''ref_a.enc'', record_bytes toy_aead 7 ''abcdefghijkl'' ''bob'' ''pay'')])
     = (toy_store [(''ref_a.enc'', record_bytes toy_aead 7 ''abcdefghijkl'' ''bob'' ''pay'')], Some (''pay'', ''bob''))"
    using len open_record_bytes [OF toy_aead_ok, of "''abcdefghijkl''" "''bob''" 7 "''pay''"]
    by (simp add: file_Get_def toy_store_def name) (simp add: toy_aead_def)
  show ?thesis
    using toy_run get file_get_was_put [OF toy_aead_ok adm toy_run [unfolded toy_store_def] get [unfolded toy_store_def]]
    by blast
qed

end
