(* ===== verification/Budget_Router.thy ===== *)
theory Budget_Router
  imports Ref_Store
begin

text \<open>
  The byte budget and the router (\<open>src/internal/budget/budget.go\<close>,
  \<open>src/internal/router/router.go\<close>): every executor result passes the gate before it can
  reach the model, inline when it fits the budget and as a reference otherwise. The gate
  works against any \<open>Store\<close>; the sandbox provider is an argument.
\<close>

section \<open>The gate\<close>

record gate_outcome =
  go_reffed :: bool
  go_inline :: string
  go_ref :: string
  go_bytes :: nat

type_synonym ('c, 's) put_op = "'c \<Rightarrow> string \<Rightarrow> string \<Rightarrow> 's \<Rightarrow> ('s \<times> string \<times> nat) option"

text \<open>\<open>None\<close> is a \<open>Put\<close> that did not return (no unused handle was ever drawn).\<close>

definition Apply ::
    "('c, 's) put_op \<Rightarrow> int \<Rightarrow> 'c \<Rightarrow> string \<Rightarrow> string \<Rightarrow> 's \<Rightarrow> ('s \<times> gate_outcome) option" where
  "Apply put MaxBytes env payload owner store =
     (if int (length payload) \<le> MaxBytes
      then Some (store, \<lparr>go_reffed = False, go_inline = payload, go_ref = [], go_bytes = 0\<rparr>)
      else case put env payload owner store of
        None \<Rightarrow> None
      | Some (store', ref, n) \<Rightarrow>
          Some (store', \<lparr>go_reffed = True, go_inline = [], go_ref = ref, go_bytes = n\<rparr>))"

section \<open>The router\<close>

record sandbox_input =
  in_data :: string
  in_path :: string

record sandbox_spec =
  sp_name :: string
  sp_image :: string
  sp_code :: string
  sp_code_path :: string
  sp_command :: string
  sp_inputs :: "sandbox_input list"
  sp_timeout :: duration

record sandbox_result =
  sr_stdout :: string
  sr_stderr :: string
  sr_exit :: int
  sr_start_error :: string

record request =
  rq_name :: string
  rq_code :: string
  rq_inputs :: "sandbox_input list"
  rq_owner :: string

record decision =
  d_reffed :: bool
  d_inline :: string
  d_ref :: string
  d_bytes :: nat
  d_exit :: int
  d_start_error :: string
  d_stderr :: string

datatype 'e router_error = EmptyCode | EmptyName | ProviderError 'e

record router =
  r_max_bytes :: int
  r_image :: string
  r_code_path :: string
  r_timeout :: duration

definition maxStderrBytes :: nat where
  "maxStderrBytes = 4096"

definition CapStderr :: "string \<Rightarrow> string" where
  "CapStderr s =
     (if length s > maxStderrBytes then take maxStderrBytes s @ (CHR 0x0A # ''...[stderr truncated]'') else s)"

definition router_Run ::
    "(sandbox_spec \<Rightarrow> ('e, sandbox_result) result) \<Rightarrow> ('c, 's) put_op \<Rightarrow> router \<Rightarrow> 'c \<Rightarrow> request \<Rightarrow> 's \<Rightarrow>
     ('s \<times> ('e router_error, decision) result) option" where
  "router_Run provider put r env req store =
     (if trim_space (rq_code req) = [] then Some (store, Inl EmptyCode)
      else if rq_name req = [] then Some (store, Inl EmptyName)
      else case provider
          \<lparr>sp_name = rq_name req, sp_image = r_image r, sp_code = rq_code req,
           sp_code_path = r_code_path r, sp_command = ''python '' @ r_code_path r,
           sp_inputs = rq_inputs req, sp_timeout = r_timeout r\<rparr> of
        Inl e \<Rightarrow> Some (store, Inl (ProviderError e))
      | Inr res \<Rightarrow>
          (case Apply put (r_max_bytes r) env (sr_stdout res) (rq_owner req) store of
             None \<Rightarrow> None
           | Some (store', out) \<Rightarrow>
               Some (store', Inr \<lparr>d_reffed = go_reffed out, d_inline = go_inline out, d_ref = go_ref out,
                 d_bytes = go_bytes out, d_exit = sr_exit res, d_start_error = sr_start_error res,
                 d_stderr = CapStderr (sr_stderr res)\<rparr>)))"

section \<open>The gate over any store\<close>

context ref_store
begin

lemma Apply_inline:
  "Apply put m c p w s = Some (s', out) \<Longrightarrow> \<not> go_reffed out \<Longrightarrow>
   s' = s \<and> go_inline out = p \<and> int (length p) \<le> m"
  by (auto simp: Apply_def split: if_splits option.splits)

lemma Apply_reffed:
  assumes "invar s" and "admitted c w" and "Apply put m c p w s = Some (s', out)" and "go_reffed out"
  shows "m < int (length p) \<and> go_inline out = [] \<and> go_bytes out = length p \<and>
    view s (go_ref out) = None \<and> invar s' \<and> view s' \<subseteq>\<^sub>m (view s)(go_ref out \<mapsto> (p, w))"
proof -
  from assms(3,4) obtain n where put: "put c p w s = Some (s', go_ref out, n)"
    and m: "m < int (length p)" and out: "go_inline out = []" "go_bytes out = n"
    by (auto simp: Apply_def split: if_splits option.splits)
  then show ?thesis
    using put_fresh [OF assms(1) put] put_size [OF put] put_view [OF assms(1,2) put] put_invar [OF assms(1) put]
    by auto
qed

end

section \<open>Properties\<close>

lemma CapStderr_length: "length (CapStderr s) \<le> maxStderrBytes + 22"
  by (simp add: CapStderr_def)

text \<open>What a successful run did.\<close>

lemma router_Run_Inr:
  assumes "router_Run provider put r env req s = Some (s', Inr d)"
  shows "\<exists>res out. provider
      \<lparr>sp_name = rq_name req, sp_image = r_image r, sp_code = rq_code req,
       sp_code_path = r_code_path r, sp_command = ''python '' @ r_code_path r,
       sp_inputs = rq_inputs req, sp_timeout = r_timeout r\<rparr> = Inr res \<and>
    Apply put (r_max_bytes r) env (sr_stdout res) (rq_owner req) s = Some (s', out) \<and>
    d_reffed d = go_reffed out \<and> d_inline d = go_inline out \<and> d_ref d = go_ref out \<and>
    d_bytes d = go_bytes out \<and> d_stderr d = CapStderr (sr_stderr res)"
  using assms by (auto simp: router_Run_def split: if_splits sum.splits option.splits)

text \<open>
  Whatever the sandbox printed, a decision of the router carries at most the byte
  budget of it inline. An output over the budget leaves only a handle that was not in use and
  its size in the decision, the in-memory store then holds under that handle nothing but the
  whole output, owned by the requesting subject; the operator-bound diagnostics are bounded
  too.
\<close>

theorem router_output_within_budget:
  assumes "mem_wf s" and "0 \<le> r_max_bytes r"
    and "router_Run provider mem_Put r env req s = Some (s', Inr d)"
  shows "int (length (d_inline d)) \<le> r_max_bytes r \<and> length (d_stderr d) \<le> 4118 \<and>
    (d_reffed d \<longrightarrow> d_inline d = [] \<and> r_max_bytes r < int (d_bytes d) \<and> mem_view s (d_ref d) = None \<and>
      (\<forall>p w. mem_view s' (d_ref d) = Some (p, w) \<longrightarrow> length p = d_bytes d \<and> w = rq_owner req)) \<and>
    (\<not> d_reffed d \<longrightarrow> s' = s)"
proof -
  from router_Run_Inr [OF assms(3)] obtain res :: sandbox_result and out where
    ap: "Apply mem_Put (r_max_bytes r) env (sr_stdout res) (rq_owner req) s = Some (s', out)"
    and d: "d_reffed d = go_reffed out" "d_inline d = go_inline out" "d_ref d = go_ref out"
      "d_bytes d = go_bytes out" "d_stderr d = CapStderr (sr_stderr res)" by blast
  have err: "length (d_stderr d) \<le> 4118"
    using CapStderr_length [of "sr_stderr res"] d by (simp add: maxStderrBytes_def)
  show ?thesis
  proof (cases "go_reffed out")
    case True
    from mem.Apply_reffed [OF assms(1) _ ap True] d assms(2) err True show ?thesis
      by (auto dest!: map_le_Some)
  next
    case False
    from mem.Apply_inline [OF ap False] d err False show ?thesis by simp
  qed
qed

definition example_router :: router where
  "example_router = \<lparr>r_max_bytes = 3, r_image = ''img'', r_code_path = ''/app/run.py'', r_timeout = minute\<rparr>"

definition example_request :: request where
  "example_request = \<lparr>rq_name = ''n'', rq_code = ''print(1)'', rq_inputs = [], rq_owner = ''alice''\<rparr>"

definition example_provider :: "sandbox_spec \<Rightarrow> (nat, sandbox_result) result" where
  "example_provider sp = Inr \<lparr>sr_stdout = ''long out'', sr_stderr = [], sr_exit = 0, sr_start_error = []\<rparr>"

theorem router_output_within_budget_witness:
  "\<exists>s' d. router_Run example_provider mem_Put example_router (example_env 6 (sort_key snd)) example_request
      NewMemStore = Some (s', Inr d) \<and> d_reffed d \<and> d_inline d = [] \<and> mem_view NewMemStore (d_ref d) = None"
proof -
  have trim: "trim_space ''print(1)'' = ''print(1)''" by code_simp
  have "\<exists>s' d. router_Run example_provider mem_Put example_router (example_env 6 (sort_key snd)) example_request
      NewMemStore = Some (s', Inr d) \<and> d_reffed d"
    by (simp add: router_Run_def example_provider_def example_router_def example_request_def trim Apply_def
        mem_Put_def NewMemStore_def example_env_def Let_def)
  then obtain s' d where run: "router_Run example_provider mem_Put example_router (example_env 6 (sort_key snd))
      example_request NewMemStore = Some (s', Inr d)" and ref: "d_reffed d" by blast
  have "mem_wf NewMemStore" and "0 \<le> r_max_bytes example_router"
    by (simp_all add: mem_wf_def NewMemStore_def example_router_def)
  from router_output_within_budget [OF this run] run ref show ?thesis by blast
qed

end
