(* ===== verification/Safe_Dial.thy ===== *)
theory Safe_Dial
  imports Grant "HOL-Library.Word"
begin

unbundle bit_operations_syntax

text \<open>
  The dialer for untrusted targets (\<open>src/internal/safedial\<close>): which addresses it refuses, which
  URLs it lets through, how far it follows redirects, and the variant for one destination the
  operator has declared. An address is Go's \<open>net.IP\<close>, four or sixteen bytes, with the predicates
  of the \<open>net\<close> package written out; parsing of addresses is a field of \<open>dial_lib\<close>.

  The redirect loop of \<open>http.Client\<close> has no bound of its own, so it is a partial function; what
  the network does (addresses tried, answers of the resolver, replies) is its argument.
\<close>

section \<open>Addresses\<close>

type_synonym byte = "8 word"
type_synonym ip = "byte list"

definition v4_prefix :: ip where
  "v4_prefix = replicate 10 0 @ [0xff, 0xff]"

definition ip_to4 :: "ip \<Rightarrow> ip option" where
  "ip_to4 ip = (if length ip = 4 then Some ip
     else if length ip = 16 \<and> take 12 ip = v4_prefix then Some (drop 12 ip) else None)"

definition ip_equal :: "ip \<Rightarrow> ip \<Rightarrow> bool" where
  "ip_equal a b \<longleftrightarrow>
     (if length a = length b then a = b
      else if length a = 4 \<and> length b = 16 then take 12 b = v4_prefix \<and> a = drop 12 b
      else if length a = 16 \<and> length b = 4 then take 12 a = v4_prefix \<and> drop 12 a = b
      else False)"

definition v6_unspecified :: ip where "v6_unspecified = replicate 16 0"
definition v6_loopback :: ip where "v6_loopback = replicate 15 0 @ [1]"
definition v4_zero :: ip where "v4_zero = v4_prefix @ [0, 0, 0, 0]"

definition IsUnspecified :: "ip \<Rightarrow> bool" where
  "IsUnspecified ip \<longleftrightarrow> ip_equal ip v4_zero \<or> ip_equal ip v6_unspecified"

definition IsLoopback :: "ip \<Rightarrow> bool" where
  "IsLoopback ip \<longleftrightarrow> (case ip_to4 ip of Some a \<Rightarrow> a ! 0 = 127 | None \<Rightarrow> ip_equal ip v6_loopback)"

definition IsPrivate :: "ip \<Rightarrow> bool" where
  "IsPrivate ip \<longleftrightarrow>
     (case ip_to4 ip of
        Some a \<Rightarrow> a ! 0 = 10 \<or> (a ! 0 = 172 \<and> a ! 1 AND 0xf0 = 16) \<or> (a ! 0 = 192 \<and> a ! 1 = 168)
      | None \<Rightarrow> length ip = 16 \<and> ip ! 0 AND 0xfe = 0xfc)"

definition IsMulticast :: "ip \<Rightarrow> bool" where
  "IsMulticast ip \<longleftrightarrow>
     (case ip_to4 ip of Some a \<Rightarrow> a ! 0 AND 0xf0 = 0xe0 | None \<Rightarrow> length ip = 16 \<and> ip ! 0 = 0xff)"

definition IsInterfaceLocalMulticast :: "ip \<Rightarrow> bool" where
  "IsInterfaceLocalMulticast ip \<longleftrightarrow> length ip = 16 \<and> ip ! 0 = 0xff \<and> ip ! 1 AND 0x0f = 0x01"

definition IsLinkLocalMulticast :: "ip \<Rightarrow> bool" where
  "IsLinkLocalMulticast ip \<longleftrightarrow>
     (case ip_to4 ip of Some a \<Rightarrow> a ! 0 = 224 \<and> a ! 1 = 0 \<and> a ! 2 = 0
      | None \<Rightarrow> length ip = 16 \<and> ip ! 0 = 0xff \<and> ip ! 1 AND 0x0f = 0x02)"

definition IsLinkLocalUnicast :: "ip \<Rightarrow> bool" where
  "IsLinkLocalUnicast ip \<longleftrightarrow>
     (case ip_to4 ip of Some a \<Rightarrow> a ! 0 = 169 \<and> a ! 1 = 254
      | None \<Rightarrow> length ip = 16 \<and> ip ! 0 = 0xfe \<and> ip ! 1 AND 0xc0 = 0x80)"

definition isInternal :: "ip option \<Rightarrow> bool" where
  "isInternal ip_opt \<longleftrightarrow>
     (case ip_opt of None \<Rightarrow> True
      | Some ip \<Rightarrow>
          IsLoopback ip \<or> IsLinkLocalUnicast ip \<or> IsLinkLocalMulticast ip \<or> IsPrivate ip \<or>
          IsUnspecified ip \<or> IsMulticast ip \<or> IsInterfaceLocalMulticast ip \<or>
          (case ip_to4 ip of None \<Rightarrow> False | Some a \<Rightarrow> a ! 0 = 100 \<and> a ! 1 AND 0xc0 = 64))"

text \<open>\<open>fd00:ec2::254\<close>, the metadata service of one cloud on IPv6.\<close>

definition ec2_metadata :: ip where
  "ec2_metadata = [0xfd, 0, 0x0e, 0xc2] @ replicate 10 0 @ [0x02, 0x54]"

definition alwaysRefused :: "ip option \<Rightarrow> bool" where
  "alwaysRefused ip_opt \<longleftrightarrow>
     (case ip_opt of None \<Rightarrow> True
      | Some ip \<Rightarrow>
          IsLinkLocalUnicast ip \<or> IsLinkLocalMulticast ip \<or> IsUnspecified ip \<or> IsMulticast ip \<or>
          IsInterfaceLocalMulticast ip \<or> ip_equal ip ec2_metadata)"

section \<open>Targets\<close>

record dial_lib = go_lib +
  parse_ip :: "string \<Rightarrow> ip option"
  split_host_port :: "string \<Rightarrow> (string \<times> string) option"

datatype dial_error =
    BadAddress string
  | InternalAddress string
  | NeverPermitted string
  | BadTarget
  | InternalUrl string
  | NotAuthorized
  | TooManyRedirects
  | OtherOrigin string
  | BadDestinationUrl string
  | DestinationScheme
  | DestinationNoHost
  | DestinationRefused string

definition join_host_port :: "string \<Rightarrow> string \<Rightarrow> string" where
  "join_host_port host port =
     (if CHR '':'' \<in> set host then ''['' @ host @ '']:'' @ port else host @ '':'' @ port)"

definition guardControl :: "'a dial_lib_scheme \<Rightarrow> string \<Rightarrow> dial_error option" where
  "guardControl L address =
     (case split_host_port L address of None \<Rightarrow> Some (BadAddress address)
      | Some (host, _) \<Rightarrow> if isInternal (parse_ip L host) then Some (InternalAddress host) else None)"

type_synonym url_policy = "url \<Rightarrow> bool"

definition validateTarget :: "'a dial_lib_scheme \<Rightarrow> url option \<Rightarrow> url_policy option \<Rightarrow> dial_error option" where
  "validateTarget L target policy =
     (case target of None \<Rightarrow> Some BadTarget
      | Some u \<Rightarrow>
          if (u_scheme u \<noteq> ''http'' \<and> u_scheme u \<noteq> ''https'') \<or> u_host u = [] \<or> u_user u then Some BadTarget
          else if parse_ip L (u_hostname u) \<noteq> None \<and> isInternal (parse_ip L (u_hostname u))
          then Some (InternalUrl (u_hostname u))
          else case policy of None \<Rightarrow> None | Some p \<Rightarrow> if p u then None else Some NotAuthorized)"

definition default_port :: "url \<Rightarrow> string" where
  "default_port u = (if u_scheme u = ''https'' then ''443'' else ''80'')"

definition canonicalOrigin :: "'a dial_lib_scheme \<Rightarrow> url option \<Rightarrow> string" where
  "canonicalOrigin L target =
     (case target of None \<Rightarrow> []
      | Some u \<Rightarrow>
          let host = to_lower L (trim_suffix (u_hostname u) ''.'');
              port = (if u_port u \<noteq> [] then u_port u
                else if u_scheme u = ''https'' then ''443'' else if u_scheme u = ''http'' then ''80'' else [])
          in to_lower L (u_scheme u) @ ''://'' @ join_host_port host port)"

section \<open>Clients\<close>

text \<open>What a client checks: the target of each request, each address dialed, each redirect.\<close>

record http_client =
  cl_dial_timeout :: duration
  cl_request_timeout :: duration
  cl_validate :: "url option \<Rightarrow> dial_error option"
  cl_control :: "(string \<Rightarrow> ip list option) \<Rightarrow> string \<Rightarrow> dial_error option"
  cl_redirect :: "url option \<Rightarrow> url list \<Rightarrow> dial_error option"

definition dial_default :: "duration \<Rightarrow> duration" where
  "dial_default d = (if d \<le> 0 then 10 * second else d)"

definition request_default :: "duration \<Rightarrow> duration" where
  "request_default d = (if d \<le> 0 then 5 * minute else d)"

definition check_redirect :: "'a dial_lib_scheme \<Rightarrow> url_policy option \<Rightarrow> url option \<Rightarrow> url list \<Rightarrow> dial_error option" where
  "check_redirect L policy target via =
     (if length via \<ge> 10 then Some TooManyRedirects
      else if policy \<noteq> None then validateTarget L target policy
      else if via \<noteq> [] \<and> canonicalOrigin L target \<noteq> canonicalOrigin L (Some (hd via))
      then Some (OtherOrigin (canonicalOrigin L target))
      else validateTarget L target None)"

definition guardedClient :: "'a dial_lib_scheme \<Rightarrow> duration \<Rightarrow> duration \<Rightarrow> url_policy option \<Rightarrow> http_client" where
  "guardedClient L dialTimeout requestTimeout policy =
     \<lparr>cl_dial_timeout = dial_default dialTimeout, cl_request_timeout = request_default requestTimeout,
      cl_validate = (\<lambda>target. validateTarget L target policy),
      cl_control = (\<lambda>_. guardControl L), cl_redirect = check_redirect L policy\<rparr>"

definition GuardedClient :: "'a dial_lib_scheme \<Rightarrow> duration \<Rightarrow> duration \<Rightarrow> http_client" where
  "GuardedClient L dialTimeout requestTimeout = guardedClient L dialTimeout requestTimeout None"

definition GuardedClientForPolicy ::
    "'a dial_lib_scheme \<Rightarrow> duration \<Rightarrow> duration \<Rightarrow> url_policy option \<Rightarrow> http_client" where
  "GuardedClientForPolicy L dialTimeout requestTimeout policy = guardedClient L dialTimeout requestTimeout policy"

section \<open>The declared destination\<close>

record destination =
  d_host :: string
  d_ip :: "ip option"
  d_port :: string

definition url_port :: "url \<Rightarrow> string" where
  "url_port u = (if u_port u = [] then default_port u else u_port u)"

definition ParseDestination :: "'a dial_lib_scheme \<Rightarrow> string \<Rightarrow> (dial_error, destination) result" where
  "ParseDestination L raw =
     (case url_parse L raw of None \<Rightarrow> Inl (BadDestinationUrl raw)
      | Some target \<Rightarrow>
          if u_scheme target \<noteq> ''http'' \<and> u_scheme target \<noteq> ''https'' then Inl DestinationScheme
          else let host = to_lower L (trim_suffix (u_hostname target) ''.'')
          in if host = [] then Inl DestinationNoHost
          else let d = \<lparr>d_host = host, d_ip = parse_ip L host, d_port = url_port target\<rparr>
          in if d_ip d \<noteq> None \<and> alwaysRefused (d_ip d) then Inl (DestinationRefused host) else Inr d)"

definition permits :: "destination \<Rightarrow> (string \<Rightarrow> ip list option) \<Rightarrow> ip option \<Rightarrow> string \<Rightarrow> bool" where
  "permits d lookup_ip ip_opt port \<longleftrightarrow>
     (case ip_opt of None \<Rightarrow> False
      | Some ip \<Rightarrow>
          if port \<noteq> d_port d then False
          else case d_ip d of
            Some dip \<Rightarrow> if ip_equal dip ip then True else IsLoopback dip \<and> IsLoopback ip
          | None \<Rightarrow>
              (case lookup_ip (d_host d) of None \<Rightarrow> False
               | Some resolved \<Rightarrow> list_ex (\<lambda>candidate. ip_equal candidate ip) resolved))"

definition matchesURL :: "'a dial_lib_scheme \<Rightarrow> destination \<Rightarrow> url option \<Rightarrow> bool" where
  "matchesURL L d target \<longleftrightarrow>
     (case target of None \<Rightarrow> False
      | Some u \<Rightarrow> to_lower L (trim_suffix (u_hostname u) ''.'') = d_host d \<and> url_port u = d_port d)"

definition permitsLoopbackURL :: "destination \<Rightarrow> ip \<Rightarrow> url \<Rightarrow> bool" where
  "permitsLoopbackURL d ip target \<longleftrightarrow>
     (case d_ip d of None \<Rightarrow> False
      | Some dip \<Rightarrow> if \<not> IsLoopback dip \<or> \<not> IsLoopback ip then False else url_port target = d_port d)"

definition destinationGuard ::
    "'a dial_lib_scheme \<Rightarrow> destination \<Rightarrow> (string \<Rightarrow> ip list option) \<Rightarrow> string \<Rightarrow> dial_error option" where
  "destinationGuard L dest lookup_ip address =
     (case split_host_port L address of None \<Rightarrow> Some (BadAddress address)
      | Some (host, port) \<Rightarrow>
          let ip = parse_ip L host
          in if alwaysRefused ip then Some (NeverPermitted host)
          else if \<not> isInternal ip then None
          else if permits dest lookup_ip ip port then None
          else Some (InternalAddress host))"

definition validateDestinationTarget :: "'a dial_lib_scheme \<Rightarrow> url option \<Rightarrow> destination \<Rightarrow> dial_error option" where
  "validateDestinationTarget L target dest =
     (case target of None \<Rightarrow> Some BadTarget
      | Some u \<Rightarrow>
          if (u_scheme u \<noteq> ''http'' \<and> u_scheme u \<noteq> ''https'') \<or> u_host u = [] \<or> u_user u then Some BadTarget
          else case parse_ip L (u_hostname u) of None \<Rightarrow> None
          | Some ip \<Rightarrow>
              if isInternal (Some ip) \<and>
                 (alwaysRefused (Some ip) \<or> \<not> (matchesURL L dest target \<or> permitsLoopbackURL dest ip u))
              then Some (InternalUrl (u_hostname u)) else None)"

definition destination_redirect :: "'a dial_lib_scheme \<Rightarrow> destination \<Rightarrow> url option \<Rightarrow> url list \<Rightarrow> dial_error option" where
  "destination_redirect L dest target via =
     (if length via \<ge> 10 then Some TooManyRedirects
      else if via \<noteq> [] \<and> canonicalOrigin L target \<noteq> canonicalOrigin L (Some (hd via))
      then Some (OtherOrigin (canonicalOrigin L target))
      else validateDestinationTarget L target dest)"

definition GuardedClientForDestination ::
    "'a dial_lib_scheme \<Rightarrow> duration \<Rightarrow> duration \<Rightarrow> destination \<Rightarrow> http_client" where
  "GuardedClientForDestination L dialTimeout requestTimeout dest =
     \<lparr>cl_dial_timeout = dial_default dialTimeout, cl_request_timeout = request_default requestTimeout,
      cl_validate = (\<lambda>target. validateDestinationTarget L target dest),
      cl_control = destinationGuard L dest, cl_redirect = destination_redirect L dest\<rparr>"

section \<open>Requests\<close>

text \<open>
  One round trip: the addresses tried, each with the answers the resolver would give at that
  moment, and what comes back from the server when a connection was made.
\<close>

datatype reply = Broken | Final | Redirect url

record hop =
  h_attempts :: "(string \<times> (string \<Rightarrow> ip list option)) list"
  h_reply :: reply

datatype outcome = Refused dial_error | NoConnection | Failed | Done

definition contacted :: "http_client \<Rightarrow> hop \<Rightarrow> string list" where
  "contacted C h = map fst (filter (\<lambda>(address, lookup_ip). cl_control C lookup_ip address = None) (h_attempts h))"

definition RoundTrip :: "http_client \<Rightarrow> url \<Rightarrow> hop \<Rightarrow> (dial_error, string list) result" where
  "RoundTrip C u h = (case cl_validate C (Some u) of Some e \<Rightarrow> Inl e | None \<Rightarrow> Inr (contacted C h))"

text \<open>The requests sent, each with the addresses contacted for it, and how it ended.\<close>

partial_function (option) client_do ::
    "http_client \<Rightarrow> (nat \<Rightarrow> hop) \<Rightarrow> url \<Rightarrow> url list \<Rightarrow> ((url \<times> string list) list \<times> outcome) option" where
  "client_do C net u via =
     (case RoundTrip C u (net (length via)) of
        Inl e \<Rightarrow> Some ([], Refused e)
      | Inr addrs \<Rightarrow>
          if addrs = [] then Some ([(u, [])], NoConnection)
          else (case h_reply (net (length via)) of
              Broken \<Rightarrow> Some ([(u, addrs)], Failed)
            | Final \<Rightarrow> Some ([(u, addrs)], Done)
            | Redirect next_url \<Rightarrow>
                (case cl_redirect C (Some next_url) (via @ [u]) of
                   Some e \<Rightarrow> Some ([(u, addrs)], Refused e)
                 | None \<Rightarrow> Option.bind (client_do C net next_url (via @ [u]))
                     (\<lambda>(sent, res). Some ((u, addrs) # sent, res)))))"

declare client_do.simps [code]

end
