(* ===== verification/Inflight.thy ===== *)
theory Inflight
  imports Go_Strings
begin

text \<open>
  The in-flight cache (\<open>src/internal/mcp/inflight.go\<close>): identical concurrent reads share one
  detached execution, and a finished result stays collectable for a while. The code under the
  mutex is one function each (\<open>do_enter\<close>, \<open>do_finish\<close>); a transition system interleaves callers
  that arrive, wait, are answered or give up, with executions that finish and then close their
  channel. A call cell is an element of \<open>if_cells\<close>, the map of the cache holds its index.
\<close>

section \<open>The cache\<close>

definition inflightTTL :: duration where "inflightTTL = 90 * second"
definition maxInflight :: nat where "maxInflight = 256"

record work =
  wk_caller :: string
  wk_upstream :: string
  wk_tool :: string
  wk_args :: string

definition inflight_preimage :: "work \<Rightarrow> string" where
  "inflight_preimage w = wk_caller w @ [CHR 0x00] @ wk_upstream w @ [CHR 0x00] @ wk_tool w @ [CHR 0x00] @ wk_args w"

definition inflightKey :: "(string \<Rightarrow> string) \<Rightarrow> work \<Rightarrow> string" where
  "inflightKey sha w = hex_encode (sha (inflight_preimage w))"

datatype fn_out = FnOk string | FnErr string

record cell =
  ce_work :: work
  ce_out :: "fn_out option"
  ce_at :: time
  ce_closed :: bool

record cache =
  if_calls :: "(string \<times> nat) list"
  if_cells :: "cell list"

definition newInflight :: cache where
  "newInflight = \<lparr>if_calls = [], if_cells = []\<rparr>"

definition sweepLocked :: "time \<Rightarrow> cache \<Rightarrow> cache" where
  "sweepLocked now f =
     f\<lparr>if_calls := filter (\<lambda>(k, i). let c = if_cells f ! i
         in \<not> (\<not> is_zero (ce_at c) \<and> time_sub now (ce_at c) > inflightTTL)) (if_calls f)\<rparr>"

text \<open>How \<open>do\<close> leaves the mutex: with a cached result, to wait for a call, or to run inline.\<close>

datatype entered = Hit nat | Wait nat | Inline

definition start_call :: "string \<Rightarrow> work \<Rightarrow> time \<Rightarrow> cache \<Rightarrow> cache \<times> entered" where
  "start_call key w now f =
     (let f = sweepLocked now f
      in if length (if_calls f) \<ge> maxInflight then (f, Inline)
         else (f\<lparr>if_calls := AList.update key (length (if_cells f)) (if_calls f),
                 if_cells := if_cells f @ [\<lparr>ce_work = w, ce_out = None, ce_at = 0, ce_closed = False\<rparr>]\<rparr>,
               Wait (length (if_cells f))))"

definition do_enter :: "string \<Rightarrow> work \<Rightarrow> time \<Rightarrow> time \<Rightarrow> cache \<Rightarrow> cache \<times> entered" where
  "do_enter key w now later f =
     (case map_of (if_calls f) key of
        Some i \<Rightarrow>
          let c = if_cells f ! i
          in if \<not> is_zero (ce_at c)
             then (if time_sub now (ce_at c) < inflightTTL then (f, Hit i)
                   else start_call key w later (f\<lparr>if_calls := AList.delete key (if_calls f)\<rparr>))
             else (f, Wait i)
      | None \<Rightarrow> start_call key w later f)"

definition do_finish :: "string \<Rightarrow> nat \<Rightarrow> fn_out \<Rightarrow> time \<Rightarrow> cache \<Rightarrow> cache" where
  "do_finish key i out now f =
     (let f = f\<lparr>if_cells := (if_cells f)[i := (if_cells f ! i)\<lparr>ce_out := Some out, ce_at := now\<rparr>]\<rparr>
      in case out of
           FnErr _ \<Rightarrow> if map_of (if_calls f) key = Some i then f\<lparr>if_calls := AList.delete key (if_calls f)\<rparr> else f
         | FnOk _ \<Rightarrow> f)"

definition do_close :: "nat \<Rightarrow> cache \<Rightarrow> cache" where
  "do_close i f = f\<lparr>if_cells := (if_cells f)[i := (if_cells f ! i)\<lparr>ce_closed := True\<rparr>]\<rparr>"

section \<open>Callers and executions\<close>

datatype answer = Shared nat fn_out | Own fn_out bool | GaveUp

record flight =
  fl_cache :: cache
  fl_waiting :: "(work \<times> nat) list"
  fl_inline :: "work list"
  fl_answers :: "(work \<times> answer) list"

definition first_flight :: flight where
  "first_flight = \<lparr>fl_cache = newInflight, fl_waiting = [], fl_inline = [], fl_answers = []\<rparr>"

abbreviation cells :: "flight \<Rightarrow> cell list" where
  "cells s \<equiv> if_cells (fl_cache s)"

abbreviation calls :: "flight \<Rightarrow> (string \<times> nat) list" where
  "calls s \<equiv> if_calls (fl_cache s)"

inductive flight_step :: "(string \<Rightarrow> string) \<Rightarrow> flight \<Rightarrow> flight \<Rightarrow> bool" for sha where
  hit: "do_enter (inflightKey sha w) w now later (fl_cache s) = (f, Hit i) \<Longrightarrow>
    flight_step sha s (s\<lparr>fl_cache := f, fl_answers := (w, Shared i (the (ce_out (if_cells f ! i)))) # fl_answers s\<rparr>)"
| wait: "do_enter (inflightKey sha w) w now later (fl_cache s) = (f, Wait i) \<Longrightarrow>
    flight_step sha s (s\<lparr>fl_cache := f, fl_waiting := (w, i) # fl_waiting s\<rparr>)"
| inline: "do_enter (inflightKey sha w) w now later (fl_cache s) = (f, Inline) \<Longrightarrow>
    flight_step sha s (s\<lparr>fl_cache := f, fl_inline := w # fl_inline s\<rparr>)"
| finish: "i < length (cells s) \<Longrightarrow> ce_out (cells s ! i) = None \<Longrightarrow> \<not> is_zero now \<Longrightarrow>
    flight_step sha s (s\<lparr>fl_cache := do_finish (inflightKey sha (ce_work (cells s ! i))) i out now (fl_cache s)\<rparr>)"
| close: "i < length (cells s) \<Longrightarrow> ce_out (cells s ! i) \<noteq> None \<Longrightarrow> \<not> ce_closed (cells s ! i) \<Longrightarrow>
    flight_step sha s (s\<lparr>fl_cache := do_close i (fl_cache s)\<rparr>)"
| deliver: "(w, i) \<in> set (fl_waiting s) \<Longrightarrow> ce_closed (cells s ! i) \<Longrightarrow>
    flight_step sha s (s\<lparr>fl_waiting := remove1 (w, i) (fl_waiting s),
      fl_answers := (w, Shared i (the (ce_out (cells s ! i)))) # fl_answers s\<rparr>)"
| give_up: "(w, i) \<in> set (fl_waiting s) \<Longrightarrow>
    flight_step sha s (s\<lparr>fl_waiting := remove1 (w, i) (fl_waiting s), fl_answers := (w, GaveUp) # fl_answers s\<rparr>)"
| inline_done: "w \<in> set (fl_inline s) \<Longrightarrow>
    flight_step sha s (s\<lparr>fl_inline := remove1 w (fl_inline s), fl_answers := (w, Own out canceled) # fl_answers s\<rparr>)"

inductive flight_reachable :: "(string \<Rightarrow> string) \<Rightarrow> flight \<Rightarrow> bool" for sha where
  start: "flight_reachable sha first_flight"
| step: "flight_reachable sha s \<Longrightarrow> flight_step sha s s' \<Longrightarrow> flight_reachable sha s'"

end
