(* ===== verification/Gateway.thy ===== *)
theory Gateway
  imports Minimize Arg_Capture Registry Audit_Log Decision_Ledger Budget_Router Safe_Dial Inflight
begin

text \<open>
  The path of one tool call through the gateway: \<open>callTool\<close>, \<open>invokeUpstream\<close>, \<open>proxyCall\<close>,
  \<open>fetchOffload\<close> and \<open>recordProxy\<close> of \<open>src/internal/mcp/gateway.go\<close>, the declarative transform of
  \<open>fused.go\<close> and the task id of \<open>taskid.go\<close>. It composes the registry, the grants, the decision
  ledger, field minimization, the reference store and the audit log. A tool result is a value that
  says which text is sent; its encoding enters by its length only. What a connection, the network,
  the engine, the clock and the disks answer is in \<open>call_io\<close>. \<open>sv_dials\<close> is a history: the calls
  handed to a connection, or to the in-flight cache in front of it.
\<close>

section \<open>Contexts and results\<close>

record transform =
  tf_query :: string
  tf_engine :: string

record program_policy =
  pp_allowed :: "string list"
  pp_parent :: string
  pp_request :: string

record call_ctx =
  cx_principal :: "principal option"
  cx_task :: string
  cx_transform :: "transform option"
  cx_program :: "program_policy option"

datatype transform_error =
    TransformMalformed
  | TransformTrailing
  | TransformNoQuery
  | TransformTooLong nat
  | TransformNoStore
  | TransformDisabled
  | TransformUnknownEngine string "string list"

datatype task_error = TaskTooLong | TaskBadRune

datatype fetch_error =
    BadOffloadUrl
  | OffloadNotGranted
  | OffloadUrlRefused grant_error
  | OffloadTransport outcome
  | OffloadStatus int
  | OffloadRead
  | OffloadTooBig
  | OffloadGzip
  | OffloadGunzipRead
  | OffloadGunzipTooBig

datatype tool_error =
    Unauthorized string
  | UnknownTool string
  | NotEnabled string string
  | AmbiguousCall string string string string string bool "peer list"
  | NoVerifiedEmail string
  | ProgramNotGranted string
  | ProgramReadOnly string
  | ReadOnlyUpstream string string
  | SchemaBlock string tool "gap list"
  | UpstreamRunning string
  | UpstreamFailed string string
  | OverGrantBytes string
  | MalformedResult string
  | OffloadWithheld string fetch_error
  | MinimizeWithheld string
  | FusedWithheld string string
  | CallToolNoName
  | CallToolTask task_error
  | CallToolTransform transform_error

datatype proxy_error =
    NoCallerIdentity
  | ProgramAllowlist
  | ProgramReads
  | ReadOnlyWrite
  | SchemaGaps "gap list"
  | CallFailed string
  | GrantBytesExceeded
  | ResultMalformed
  | OffloadFailed fetch_error
  | MinimizeFailed min_error
  | FusedFailed string "int option"

datatype tool_result =
    ToolError tool_error
  | Envelope envelope
  | RefHandle string nat string "preview option"
  | Truncated string
  | Rehydrated string "json option"
  | FusedInline string string transform string
  | FusedRef string string transform string nat "preview option"

record proxy_outcome =
  po_result :: tool_result
  po_raw :: nat
  po_minimized :: int
  po_err :: "proxy_error option"
  po_gate :: gate_outcome
  po_host :: string
  po_protected :: int
  po_extra :: "audit_event list"
  po_ran :: bool
  po_in :: nat
  po_out :: nat
  po_latency :: int
  po_status :: string

text \<open>A composite literal: the fields it does not name are zero.\<close>

definition outcome_of :: "tool_result \<Rightarrow> proxy_outcome" where
  "outcome_of r =
     \<lparr>po_result = r, po_raw = 0, po_minimized = 0, po_err = None,
      po_gate = \<lparr>go_reffed = False, go_inline = [], go_ref = [], go_bytes = 0\<rparr>, po_host = [],
      po_protected = 0, po_extra = [], po_ran = False, po_in = 0, po_out = 0, po_latency = 0, po_status = []\<rparr>"

definition refusal :: "tool_error \<Rightarrow> proxy_error \<Rightarrow> proxy_outcome" where
  "refusal e err = (outcome_of (ToolError e))\<lparr>po_err := Some err\<rparr>"

section \<open>The server and its surroundings\<close>

record dialed =
  di_caller :: string
  di_upstream :: string
  di_tool :: string
  di_args :: string
  di_conn :: conn
  di_delegated :: "(string \<times> string) option"
  di_shared :: bool

record 's server =
  sv_reg :: registry
  sv_min :: min_state
  sv_ledger :: ledger
  sv_ledger_world :: ledger_world
  sv_audit :: audit_log
  sv_audit_world :: audit_world
  sv_store :: "'s option"
  sv_max_bytes :: int
  sv_high :: bool
  sv_multi :: bool
  sv_emails :: "(string \<Rightarrow> string) option"
  sv_engines :: "string list"
  sv_default_engine :: string
  sv_client :: "http_client option"
  sv_dials :: "dialed list"

record ('c, 's) store_ops =
  so_put :: "('c, 's) put_op"
  so_get :: "time \<Rightarrow> string \<Rightarrow> 's \<Rightarrow> 's \<times> (string \<times> string) option"

text \<open>
  The fields of a run record that the run store only keeps: \<open>gl_extra\<close> encodes them, the error
  and the reason of a denial as their texts.
\<close>

datatype audit_error = NoError | ProxyFailed proxy_error | Denied string decision_error

record run_extra =
  ex_upstream :: string
  ex_tool :: string
  ex_args :: string
  ex_capture :: string
  ex_shape :: "string option"
  ex_digest :: string
  ex_parent :: string
  ex_delivery :: string
  ex_request :: string
  ex_user :: string
  ex_campaign :: string
  ex_delegated :: string
  ex_transform_engine :: string
  ex_transform_digest :: string
  ex_transform_status :: string
  ex_exit :: int
  ex_error :: audit_error
  ex_audit :: "audit_event list"
  ex_grant :: string
  ex_grant_digest :: string
  ex_effect :: string
  ex_resources :: "string list"

record call_request =
  cq_name :: string
  cq_arguments :: string
  cq_transform :: string
  cq_task :: string

record gw_lib =
  gl_dial :: dial_lib
  gl_text :: text_lib
  gl_json :: json_lib
  gl_args :: arg_lib
  gl_ledger :: ledger_lib
  gl_audit :: audit_lib
  gl_order :: "string list \<Rightarrow> string list"
  gl_fold_eq :: "string \<Rightarrow> string \<Rightarrow> bool"
  gl_decode :: "string \<Rightarrow> json option"
  gl_call :: "string \<Rightarrow> call_request option"
  gl_transform :: "string \<Rightarrow> (string \<times> string \<times> bool) option"
  gl_spec_text :: "string \<Rightarrow> tool \<Rightarrow> string"
  gl_error_text :: "grant_error \<Rightarrow> string"
  gl_result_len :: "tool_result \<Rightarrow> nat"
  gl_extra :: "run_extra \<Rightarrow> string"
  gl_url_string :: "url \<Rightarrow> string"
  gl_quote :: "string \<Rightarrow> string"

abbreviation go :: "gw_lib \<Rightarrow> go_lib" where
  "go L \<equiv> go_lib.truncate (gl_dial L)"

text \<open>What is read from a stream before it ends or fails.\<close>

record stream =
  sm_bytes :: string
  sm_fails :: bool

record fetch_io =
  fi_net :: "nat \<Rightarrow> hop"
  fi_status :: int
  fi_body :: stream
  fi_gunzip :: "string \<Rightarrow> stream option"

datatype engine_answer =
    EngineOk string
  | EngineExit string int string
  | EngineError string

record 'c call_io =
  ci_now :: time
  ci_eval_at :: time
  ci_decide_at :: time
  ci_health_at :: time
  ci_get_at :: time
  ci_record_at :: time
  ci_ledger :: ledger_io
  ci_audit :: audit_io
  ci_direct :: "dialed \<Rightarrow> string \<times> string option"
  ci_shared :: "dialed \<Rightarrow> string \<times> string option \<times> bool"
  ci_fetch :: fetch_io
  ci_put :: 'c
  ci_engine :: "string \<Rightarrow> string \<Rightarrow> string \<Rightarrow> engine_answer"
  ci_latency :: int
  ci_run_latency :: int
  ci_transform_latency :: int

definition multiPrincipalAudit :: "'s server \<Rightarrow> bool" where
  "multiPrincipalAudit sv \<longleftrightarrow> sv_multi sv \<or> sv_high sv"

definition delegationSubjectForSubject :: "'s server \<Rightarrow> string \<Rightarrow> string" where
  "delegationSubjectForSubject sv subject = (case sv_emails sv of None \<Rightarrow> [] | Some f \<Rightarrow> f subject)"

definition delegationSubject :: "'s server \<Rightarrow> call_ctx \<Rightarrow> string" where
  "delegationSubject sv cx = delegationSubjectForSubject sv (p_subject (principalOf (cx_principal cx)))"

definition delegationSubjectForKey :: "'s server \<Rightarrow> string \<Rightarrow> string" where
  "delegationSubjectForKey sv key =
     (case SplitPrincipalKey key of Inl _ \<Rightarrow> [] | Inr (_, subject) \<Rightarrow> delegationSubjectForSubject sv subject)"

definition programAuditContext :: "call_ctx \<Rightarrow> string \<times> string \<times> string" where
  "programAuditContext cx =
     (case cx_program cx of None \<Rightarrow> ([], [], []) | Some p \<Rightarrow> (pp_parent p, ''program'', pp_request p))"

abbreviation caller_of :: "call_ctx \<Rightarrow> string" where
  "caller_of cx \<equiv> callerKey (cx_principal cx)"

abbreviation campaign_of :: "call_ctx \<Rightarrow> string" where
  "campaign_of cx \<equiv> campaignOf (cx_principal cx)"

section \<open>Task ids and transforms\<close>

definition maxTaskIDBytes :: nat where "maxTaskIDBytes = 64"

definition ascii_alnum :: "char \<Rightarrow> bool" where
  "ascii_alnum r \<longleftrightarrow> (CHR ''a'' \<le> r \<and> r \<le> CHR ''z'') \<or> (CHR ''A'' \<le> r \<and> r \<le> CHR ''Z'') \<or> (CHR ''0'' \<le> r \<and> r \<le> CHR ''9'')"

text \<open>A rune outside ASCII is refused, and so is each of its bytes.\<close>

definition task_text :: "string \<Rightarrow> bool" where
  "task_text i \<longleftrightarrow> list_all (\<lambda>r. ascii_alnum r \<or> r \<in> set ''._:-'') i \<and> (i = [] \<or> ascii_alnum (hd i))"

definition validateTaskID :: "(string \<Rightarrow> string) \<Rightarrow> string \<Rightarrow> (task_error, string) result" where
  "validateTaskID sha raw =
     (let i = trim_space raw
      in if i = [] then Inr []
         else if length i > maxTaskIDBytes then Inl TaskTooLong
         else if \<not> task_text i then Inl TaskBadRune
         else Inr (''task_'' @ hex_encode (take 16 (sha i))))"

definition maxFusedQueryBytes :: nat where "maxFusedQueryBytes = 16 * 1024"

fun firstNonEmpty :: "string list \<Rightarrow> string" where
  "firstNonEmpty [] = []"
| "firstNonEmpty (v # vs) = (if trim_space v \<noteq> [] then v else firstNonEmpty vs)"

definition engineFromQuery :: "(string \<Rightarrow> string) \<Rightarrow> string \<Rightarrow> string" where
  "engineFromQuery lower query =
     (let q = trim_space query; l = lower q
      in if q = [] then []
         else if has_prefix l ''select '' \<or> has_prefix l (''select'' @ [CHR 0x0A]) \<or> has_prefix l ''with '' then ''sql''
         else if hd q \<in> set ''.[{('' then ''jq''
         else [])"

definition detectEngine :: "gw_lib \<Rightarrow> 's server \<Rightarrow> string \<Rightarrow> string" where
  "detectEngine L sv query =
     (let d = engineFromQuery (tx_lower (gl_text L)) query
      in if d \<noteq> [] \<and> d \<in> set (sv_engines sv) then d else [])"

definition wasmEngineNames :: "'s server \<Rightarrow> string list" where
  "wasmEngineNames sv = sort (sv_engines sv)"

definition parseTransform :: "gw_lib \<Rightarrow> 's server \<Rightarrow> string \<Rightarrow> (transform_error, transform option) result" where
  "parseTransform L sv raw =
     (if trim_space raw = [] \<or> trim_space raw = ''null'' then Inr None
      else case gl_transform L raw of None \<Rightarrow> Inl TransformMalformed
      | Some (query, engine, at_eof) \<Rightarrow>
          if \<not> at_eof then Inl TransformTrailing
          else let query = trim_space query; engine = trim_space engine
          in if query = [] then Inl TransformNoQuery
             else if length query > maxFusedQueryBytes then Inl (TransformTooLong (length query))
             else if sv_store sv = None then Inl TransformNoStore
             else let name = firstNonEmpty [engine, detectEngine L sv query, sv_default_engine sv]
             in if name = [] then Inl TransformDisabled
                else if name \<notin> set (sv_engines sv) then Inl (TransformUnknownEngine name (wasmEngineNames sv))
                else Inr (Some \<lparr>tf_query = query, tf_engine = name\<rparr>))"

definition transformDigest :: "gw_lib \<Rightarrow> string \<Rightarrow> string" where
  "transformDigest L query = hex_encode (sha256 (gl_dial L) query)"

definition capQueryDiagnostic :: "string \<Rightarrow> string" where
  "capQueryDiagnostic stderr =
     (let s = trim_space stderr
      in if s = [] then ''(no diagnostic)''
         else let s = takeWhile (\<lambda>c. c \<noteq> CHR 0x0A) s
         in if length s > 300 then take 300 s @ [CHR 0xE2, CHR 0x80, CHR 0xA6] else s)"

section \<open>Retrieving an offloaded result\<close>

definition maxOffloadBytes :: int where "maxOffloadBytes = 64 * 1024 * 1024"

text \<open>\<open>io.ReadAll(io.LimitReader(r, n))\<close>.\<close>

definition read_limited :: "int \<Rightarrow> stream \<Rightarrow> string option" where
  "read_limited n s =
     (if int (length (sm_bytes s)) \<ge> n then Some (take (nat n) (sm_bytes s))
      else if sm_fails s then None else Some (sm_bytes s))"

text \<open>\<open>http.DefaultClient\<close>: no checks but the number of redirects.\<close>

definition default_client :: http_client where
  "default_client =
     \<lparr>cl_dial_timeout = 0, cl_request_timeout = 0, cl_validate = (\<lambda>_. None), cl_control = (\<lambda>_ _. None),
      cl_redirect = (\<lambda>_ via. if length via \<ge> 10 then Some TooManyRedirects else None)\<rparr>"

definition httpClient :: "'s server \<Rightarrow> http_client" where
  "httpClient sv = (case sv_client sv of Some c \<Rightarrow> c | None \<Rightarrow> default_client)"

definition url_origin :: "url \<Rightarrow> string" where
  "url_origin u = u_scheme u @ ''://'' @ u_host u"

definition offload_policy :: "gw_lib \<Rightarrow> url_target_grant \<Rightarrow> url \<Rightarrow> url_policy" where
  "offload_policy L target first next_url \<longleftrightarrow>
     validateGrantedURL (go L) (gl_url_string L next_url) target = None \<and>
     (ut_redirect target \<or> origin_or_empty (go L) (url_origin next_url) = origin_or_empty (go L) (url_origin first))"

definition fetch_client ::
    "gw_lib \<Rightarrow> 's server \<Rightarrow> string \<Rightarrow> url \<Rightarrow> evaluated_grant option \<Rightarrow> (fetch_error, http_client) result" where
  "fetch_client L sv raw u evaluated =
     (case evaluated of None \<Rightarrow> Inr (httpClient sv)
      | Some ev \<Rightarrow>
          (case findURLTarget (og_url_targets (eg_grant ev)) ''offload'' of None \<Rightarrow> Inl OffloadNotGranted
           | Some target \<Rightarrow>
               (case validateGrantedURL (go L) raw target of Some e \<Rightarrow> Inl (OffloadUrlRefused e)
                | None \<Rightarrow> Inr (GuardedClientForPolicy (gl_dial L) 0 0 (Some (offload_policy L target u))))))"

definition read_offload :: "fetch_io \<Rightarrow> (fetch_error, string) result" where
  "read_offload io =
     (if fi_status io \<noteq> 200 then Inl (OffloadStatus (fi_status io))
      else case read_limited (maxOffloadBytes + 1) (fi_body io) of None \<Rightarrow> Inl OffloadRead
      | Some data \<Rightarrow>
          if int (length data) > maxOffloadBytes then Inl OffloadTooBig
          else if length data \<ge> 2 \<and> data ! 0 = CHR 0x1F \<and> data ! 1 = CHR 0x8B
          then (case fi_gunzip io data of None \<Rightarrow> Inl OffloadGzip
                | Some z \<Rightarrow>
                    (case read_limited (maxOffloadBytes + 1) z of None \<Rightarrow> Inl OffloadGunzipRead
                     | Some un \<Rightarrow> if int (length un) > maxOffloadBytes then Inl OffloadGunzipTooBig else Inr un))
          else Inr data)"

text \<open>The requests sent, and the bytes; \<open>None\<close> when the client never returns.\<close>

definition fetchOffload ::
    "gw_lib \<Rightarrow> 's server \<Rightarrow> fetch_io \<Rightarrow> string \<Rightarrow> evaluated_grant option \<Rightarrow>
     ((url \<times> string list) list \<times> (fetch_error, string) result) option" where
  "fetchOffload L sv io raw evaluated =
     (case url_parse (gl_dial L) raw of None \<Rightarrow> Some ([], Inl BadOffloadUrl)
      | Some u \<Rightarrow>
          (case fetch_client L sv raw u evaluated of Inl e \<Rightarrow> Some ([], Inl e)
           | Inr C \<Rightarrow>
               (case client_do C (fi_net io) u [] of None \<Rightarrow> None
                | Some (sent, Done) \<Rightarrow> Some (sent, read_offload io)
                | Some (sent, out) \<Rightarrow> Some (sent, Inl (OffloadTransport out)))))"

section \<open>Shaping the result\<close>

text \<open>The result of a step that may not return, with the server it leaves behind.\<close>

type_synonym ('s, 'a) step = "'s server \<times> 'a option"

text \<open>A \<open>Put\<close> on the store, which panics when there is none.\<close>

definition store_put :: "('c, 's) store_ops \<Rightarrow> ('c, 's option) put_op" where
  "store_put ops c payload owner st =
     Option.bind st (\<lambda>s. map_option (\<lambda>(s', ref, n). (Some s', ref, n)) (so_put ops c payload owner s))"

definition refPreview ::
    "gw_lib \<Rightarrow> ('c, 's) store_ops \<Rightarrow> 'c call_io \<Rightarrow> string \<Rightarrow> string \<Rightarrow> 's server \<Rightarrow> 's server \<times> preview option" where
  "refPreview L ops io ref owner sv =
     (case sv_store sv of None \<Rightarrow> (sv, None)
      | Some st \<Rightarrow>
          let (st', got) = so_get ops (ci_get_at io) ref st; sv' = sv\<lparr>sv_store := Some st'\<rparr>
          in case got of
               Some (data, w) \<Rightarrow> if w = owner then (sv', structuralPreview (tx_unmarshal (gl_text L)) data) else (sv', None)
             | None \<Rightarrow> (sv', None))"

definition refHandleResult ::
    "gw_lib \<Rightarrow> ('c, 's) store_ops \<Rightarrow> 'c call_io \<Rightarrow> string \<Rightarrow> nat \<Rightarrow> string \<Rightarrow> string \<Rightarrow> 's server \<Rightarrow> 's server \<times> tool_result" where
  "refHandleResult L ops io ref n tool_name owner sv =
     (let (sv', p) = refPreview L ops io ref owner sv in (sv', RefHandle ref n tool_name p))"

definition rehydratedResult :: "gw_lib \<Rightarrow> string \<Rightarrow> tool_result" where
  "rehydratedResult L payload = Rehydrated payload (tx_unmarshal (gl_text L) payload)"

definition set_member :: "string \<Rightarrow> json \<Rightarrow> envelope \<Rightarrow> envelope" where
  "set_member k v ms = filter (\<lambda>(k', _). k' \<noteq> k) ms @ [(k, v)]"

definition attachToolSpec :: "gw_lib \<Rightarrow> envelope \<Rightarrow> string \<Rightarrow> tool \<Rightarrow> envelope" where
  "attachToolSpec L result name spec =
     (let block = JObj [(''type'', JStr ''text''), (''text'', JStr (gl_spec_text L name spec))]
      in set_member ''content'' (case member result ''content'' of Some (JArr c) \<Rightarrow> JArr (c @ [block]) | _ \<Rightarrow> JArr [block]) result)"

definition marshalLen :: "gw_lib \<Rightarrow> envelope \<Rightarrow> nat" where
  "marshalLen L v = (case js_marshal (gl_json L) v of None \<Rightarrow> 0 | Some b \<Rightarrow> length b)"

definition minimized_bytes :: "gw_lib \<Rightarrow> envelope \<Rightarrow> envelope \<Rightarrow> int" where
  "minimized_bytes L before after =
     (let n = int (marshalLen L before) - int (marshalLen L after) in if n < 0 then 0 else n)"

definition fusedFailure ::
    "string \<Rightarrow> nat \<Rightarrow> nat \<Rightarrow> nat \<Rightarrow> string \<Rightarrow> string \<Rightarrow> string \<Rightarrow> bool \<Rightarrow> proxy_outcome" where
  "fusedFailure run_id raw inp out status host detail did_run =
     (outcome_of (ToolError (FusedWithheld run_id detail)))\<lparr>po_raw := raw, po_err := Some (FusedFailed status None),
       po_host := host, po_ran := did_run, po_in := inp, po_out := out, po_status := status\<rparr>"

definition fusedResult ::
    "gw_lib \<Rightarrow> ('c, 's) store_ops \<Rightarrow> 'c call_io \<Rightarrow> string \<Rightarrow> string \<Rightarrow> transform \<Rightarrow> gate_outcome \<Rightarrow> string \<Rightarrow>
     's server \<Rightarrow> 's server \<times> tool_result" where
  "fusedResult L ops io run_id source tf out owner sv =
     (if go_reffed out
      then let (sv', p) = refPreview L ops io (go_ref out) owner sv
           in (sv', FusedRef run_id source tf (go_ref out) (go_bytes out) p)
      else (sv, FusedInline run_id source tf (go_inline out)))"

definition exit_status :: "gw_lib \<Rightarrow> string \<Rightarrow> engine_answer \<Rightarrow> string \<times> string \<times> int" where
  "exit_status L engine a =
     (case a of
        EngineExit _ code stderr \<Rightarrow>
          if code = 2
          then (''bad_query'', ''the '' @ gl_quote L engine @ '' engine rejected the transformation query: '' @
                capQueryDiagnostic stderr, code)
          else (''engine_error'', ''the declarative transformation failed'', code)
      | _ \<Rightarrow> (''engine_error'', ''the declarative transformation failed'', 1))"

definition engine_failure ::
    "gw_lib \<Rightarrow> string \<Rightarrow> nat \<Rightarrow> nat \<Rightarrow> string \<Rightarrow> string \<Rightarrow> engine_answer \<Rightarrow> string \<Rightarrow> int \<Rightarrow> proxy_outcome" where
  "engine_failure L run_id raw inp host engine a summary latency =
     (let (status, detail, code) = exit_status L engine a;
          out = (fusedFailure run_id raw inp (length summary) status host detail True)\<lparr>po_latency := latency\<rparr>
      in if code \<noteq> 0 then out\<lparr>po_err := Some (FusedFailed status (Some code))\<rparr> else out)"

text \<open>The part of \<open>fusedProxyResult\<close> after the engine answered.\<close>

definition fused_answer ::
    "gw_lib \<Rightarrow> ('c, 's) store_ops \<Rightarrow> 'c call_io \<Rightarrow> call_ctx \<Rightarrow> string \<Rightarrow> string \<Rightarrow> string \<Rightarrow> string \<Rightarrow> transform \<Rightarrow>
     nat \<Rightarrow> nat \<Rightarrow> string \<Rightarrow> string \<Rightarrow> 's server \<Rightarrow> ('s, proxy_outcome) step" where
  "fused_answer L ops io cx run_id upstream tool source tf raw inp host summary sv =
     (let pre = [(''result'', JStr summary)]; late = ci_transform_latency io;
          (mz, scrub) = scrubInbound (gl_json L) (sv_min sv) (caller_of cx) upstream tool pre;
          sv = sv\<lparr>sv_min := mz\<rparr>
      in case scrub of
           Inl _ \<Rightarrow> (sv, Some ((fusedFailure run_id raw inp (length summary) ''minimize_error'' host
             ''field minimization failed after transformation; the answer and raw result were withheld'' True)\<lparr>po_latency := late\<rparr>))
         | Inr (scrubbed, alerts, protected) \<Rightarrow>
             (case member scrubbed ''result'' of
                Some (JStr answer) \<Rightarrow>
                  (case Apply (store_put ops) (sv_max_bytes sv) (ci_put io) answer (caller_of cx) (sv_store sv) of
                     None \<Rightarrow> (sv, None)
                   | Some (st, out) \<Rightarrow>
                       let (sv', r) = fusedResult L ops io run_id source tf out (caller_of cx) (sv\<lparr>sv_store := st\<rparr>)
                       in (sv', Some ((outcome_of r)\<lparr>po_raw := raw, po_minimized := minimized_bytes L pre scrubbed,
                                 po_gate := out, po_host := host, po_protected := protected,
                                 po_extra := minimizeAlertEvents alerts, po_ran := True, po_in := inp,
                                 po_out := length summary, po_latency := late, po_status := ''succeeded''\<rparr>)))
              | _ \<Rightarrow> (sv, Some ((fusedFailure run_id raw inp (length summary) ''minimize_shape_error'' host
                  ''field minimization returned an invalid transformed-answer shape; the result was withheld'' True)\<lparr>po_latency := late\<rparr>))))"

text \<open>
  \<open>fusedProxyResult\<close> before the engine runs: the payload and the raw size, or the outcome that
  withholds the result. \<open>None\<close> is a fetch or a notice that does not return.
\<close>

definition fused_input ::
    "gw_lib \<Rightarrow> 's server \<Rightarrow> fetch_io \<Rightarrow> string \<Rightarrow> string \<Rightarrow> envelope \<Rightarrow> string \<Rightarrow> evaluated_grant option \<Rightarrow>
     (proxy_outcome, string \<times> nat) result option" where
  "fused_input L sv io run_id host passthrough raw evaluated =
     (let payload = resultPayload (gl_text L) passthrough; bytes = max (length raw) (length payload);
          link = offloadURL (gl_text L) payload;
          fetched = (if link = [] then Some (Inr (payload, bytes))
            else case fetchOffload L sv io link evaluated of None \<Rightarrow> None
            | Some (_, Inl e) \<Rightarrow> Some (Inl (fusedFailure run_id bytes 0 0 ''offload_error'' host
                ''the upstream result could not be retrieved for transformation; it was withheld'' False))
            | Some (_, Inr data) \<Rightarrow> Some (Inr (data, max bytes (length data))))
      in case fetched of None \<Rightarrow> None
         | Some (Inl out) \<Rightarrow> Some (Inl out)
         | Some (Inr (payload, bytes)) \<Rightarrow>
             (case truncatedNotice (gl_text L) payload of NoticePanic \<Rightarrow> None
              | Notice _ \<Rightarrow> Some (Inl (fusedFailure run_id bytes (length payload) 0 ''truncated_input'' host
                  ''the upstream returned truncated or malformed data, so the transformation was not run and the raw result was withheld'' False))
              | NoNotice \<Rightarrow> Some (Inr (payload, bytes))))"

definition fusedProxyResult ::
    "gw_lib \<Rightarrow> ('c, 's) store_ops \<Rightarrow> 'c call_io \<Rightarrow> call_ctx \<Rightarrow> string \<Rightarrow> string \<Rightarrow> string \<Rightarrow> string \<Rightarrow> transform \<Rightarrow>
     envelope \<Rightarrow> string \<Rightarrow> string \<Rightarrow> evaluated_grant option \<Rightarrow> 's server \<Rightarrow> ('s, proxy_outcome) step" where
  "fusedProxyResult L ops io cx run_id upstream tool source tf passthrough raw host evaluated sv =
     (case fused_input L sv (ci_fetch io) run_id host passthrough raw evaluated of None \<Rightarrow> (sv, None)
      | Some (Inl out) \<Rightarrow> (sv, Some out)
      | Some (Inr (payload, bytes)) \<Rightarrow>
          (case ci_engine io (tf_engine tf) (tf_query tf) payload of
             EngineOk summary \<Rightarrow>
               fused_answer L ops io cx run_id upstream tool source tf bytes (length payload) host summary sv
           | EngineExit summary code err \<Rightarrow> (sv, Some (engine_failure L run_id bytes (length payload) host (tf_engine tf)
               (EngineExit summary code err) summary (ci_run_latency io)))
           | EngineError summary \<Rightarrow> (sv, Some (engine_failure L run_id bytes (length payload) host (tf_engine tf)
               (EngineError summary) summary (ci_run_latency io)))))"

text \<open>The last part of \<open>proxyCall\<close>: field minimization of a result that goes inline.\<close>

definition inline_result ::
    "gw_lib \<Rightarrow> call_ctx \<Rightarrow> string \<Rightarrow> string \<Rightarrow> string \<Rightarrow> tool option \<Rightarrow> string \<Rightarrow> nat \<Rightarrow> envelope \<Rightarrow> 's server \<Rightarrow>
     's server \<times> proxy_outcome" where
  "inline_result L cx upstream tool name spec host raw passthrough sv =
     (let passthrough = (case spec of
            Some t \<Rightarrow> if resultIsError passthrough then attachToolSpec L passthrough name t else passthrough
          | None \<Rightarrow> passthrough);
          (mz, scrub) = scrubInbound (gl_json L) (sv_min sv) (caller_of cx) upstream tool passthrough;
          sv = sv\<lparr>sv_min := mz\<rparr>
      in case scrub of
           Inl e \<Rightarrow> (sv, (refusal (MinimizeWithheld upstream) (MinimizeFailed e))\<lparr>po_raw := raw, po_host := host\<rparr>)
         | Inr (scrubbed, alerts, protected) \<Rightarrow>
             (sv, (outcome_of (Envelope scrubbed))\<lparr>po_raw := raw, po_minimized := minimized_bytes L passthrough scrubbed,
                po_host := host, po_protected := protected, po_extra := minimizeAlertEvents alerts\<rparr>))"

text \<open>
  Reference by default: what happens to the payload of a successful result, its size already
  known. \<open>Inr\<close> is the fall through to the inline path.
\<close>

definition park ::
    "gw_lib \<Rightarrow> ('c, 's) store_ops \<Rightarrow> 'c call_io \<Rightarrow> call_ctx \<Rightarrow> string \<Rightarrow> string \<Rightarrow> string \<Rightarrow> string \<Rightarrow> bool \<Rightarrow>
     's server \<Rightarrow> ('s, proxy_outcome option) step" where
  "park L ops io cx name host res payload rehydrated sv =
     (case truncatedNotice (gl_text L) payload of NoticePanic \<Rightarrow> (sv, None)
      | Notice n \<Rightarrow> (sv, Some (Some ((outcome_of (Truncated n))\<lparr>po_raw := length res, po_host := host\<rparr>)))
      | NoNotice \<Rightarrow>
          if int (length payload) > sv_max_bytes sv \<or> (\<not> rehydrated \<and> int (length res) > sv_max_bytes sv)
          then let stored = (if \<not> rehydrated \<and> length payload < length res div 2 then res else payload)
            in (case store_put ops (ci_put io) stored (caller_of cx) (sv_store sv) of None \<Rightarrow> (sv, None)
                | Some (st, ref, n) \<Rightarrow>
                    let (sv', r) = refHandleResult L ops io ref n name (caller_of cx) (sv\<lparr>sv_store := st\<rparr>)
                    in (sv', Some (Some ((outcome_of r)\<lparr>po_raw := max (length res) (length stored),
                              po_gate := \<lparr>go_reffed = True, go_inline = [], go_ref = ref, go_bytes = n\<rparr>, po_host := host\<rparr>))))
          else if rehydrated
          then (sv, Some (Some ((outcome_of (rehydratedResult L payload))\<lparr>po_raw := length payload, po_host := host\<rparr>)))
          else (sv, Some None))"

definition hold_result ::
    "gw_lib \<Rightarrow> ('c, 's) store_ops \<Rightarrow> 'c call_io \<Rightarrow> call_ctx \<Rightarrow> string \<Rightarrow> string \<Rightarrow> string \<Rightarrow> string \<Rightarrow>
     evaluated_grant option \<Rightarrow> envelope \<Rightarrow> 's server \<Rightarrow> ('s, proxy_outcome option) step" where
  "hold_result L ops io cx upstream name host res evaluated passthrough sv =
     (let payload = resultPayload (gl_text L) passthrough; link = offloadURL (gl_text L) payload
      in if link = [] then park L ops io cx name host res payload False sv
         else case fetchOffload L sv (ci_fetch io) link evaluated of None \<Rightarrow> (sv, None)
         | Some (_, Inl e) \<Rightarrow> (sv, Some (Some ((refusal (OffloadWithheld upstream e) (OffloadFailed e))\<lparr>po_host := host\<rparr>)))
         | Some (_, Inr data) \<Rightarrow> park L ops io cx name host res data True sv)"

section \<open>Calling the upstream\<close>

text \<open>What \<open>proxyCall\<close> does with a result that arrived within the grant's bound.\<close>

definition shape_result ::
    "gw_lib \<Rightarrow> ('c, 's) store_ops \<Rightarrow> 'c call_io \<Rightarrow> call_ctx \<Rightarrow> string \<Rightarrow> string \<Rightarrow> string \<Rightarrow> string \<Rightarrow> tool option \<Rightarrow>
     string \<Rightarrow> string \<Rightarrow> evaluated_grant option \<Rightarrow> 's server \<Rightarrow> ('s, proxy_outcome) step" where
  "shape_result L ops io cx run_id upstream tool name spec host res evaluated sv =
     (case js_unmarshal (gl_json L) res of
        None \<Rightarrow> (sv, Some ((refusal (MalformedResult upstream) ResultMalformed)\<lparr>po_raw := length res, po_host := host\<rparr>))
      | Some passthrough \<Rightarrow>
          let sv = sv\<lparr>sv_reg := bumpUsage name (sv_reg sv)\<rparr>; failed = resultIsError passthrough;
              inline = (\<lambda>sv. apsnd Some (inline_result L cx upstream tool name spec host (length res) passthrough sv))
          in case (if failed then None else cx_transform cx) of
               Some tf \<Rightarrow> fusedProxyResult L ops io cx run_id upstream tool name tf passthrough res host evaluated sv
             | None \<Rightarrow>
                 if sv_store sv \<noteq> None \<and> \<not> failed
                 then (case hold_result L ops io cx upstream name host res evaluated passthrough sv of
                         (sv, None) \<Rightarrow> (sv, None)
                       | (sv, Some (Some out)) \<Rightarrow> (sv, Some out)
                       | (sv, Some None) \<Rightarrow> inline sv)
                 else inline sv)"

text \<open>The refusals of \<open>proxyCall\<close> before any egress.\<close>

definition pre_dial ::
    "gw_lib \<Rightarrow> call_ctx \<Rightarrow> string \<Rightarrow> string \<Rightarrow> upstream \<Rightarrow> tool option \<Rightarrow> string \<Rightarrow> proxy_outcome option" where
  "pre_dial L cx upstream name u spec args =
     (let writes = (case spec of None \<Rightarrow> True | Some t \<Rightarrow> isWriteTool (gl_text L) t)
      in if (case cx_program cx of None \<Rightarrow> False | Some p \<Rightarrow> name \<notin> set (pp_allowed p))
         then Some (refusal (ProgramNotGranted name) ProgramAllowlist)
         else if cx_program cx \<noteq> None \<and> writes then Some (refusal (ProgramReadOnly name) ProgramReads)
         else if up_read_only u \<and> writes then Some (refusal (ReadOnlyUpstream upstream name) ReadOnlyWrite)
         else case spec of None \<Rightarrow> None
         | Some t \<Rightarrow>
             if isWriteTool (gl_text L) t \<and> schemaGaps (gl_text L) (tl_schema t) args \<noteq> []
             then Some (refusal (SchemaBlock name t (schemaGaps (gl_text L) (tl_schema t) args))
               (SchemaGaps (schemaGaps (gl_text L) (tl_schema t) args)))
             else None)"

text \<open>A result after the dial: the upstream's health is recorded, then its error or its size decides.\<close>

definition after_dial ::
    "gw_lib \<Rightarrow> ('c, 's) store_ops \<Rightarrow> 'c call_io \<Rightarrow> call_ctx \<Rightarrow> string \<Rightarrow> string \<Rightarrow> string \<Rightarrow> string \<Rightarrow> tool option \<Rightarrow>
     string \<Rightarrow> evaluated_grant option \<Rightarrow> string \<Rightarrow> string option \<Rightarrow> 's server \<Rightarrow> ('s, proxy_outcome) step" where
  "after_dial L ops io cx run_id upstream tool name spec host evaluated res err sv =
     (let sv = sv\<lparr>sv_reg := recordUpstreamHealth upstream err (ci_health_at io) (sv_reg sv)\<rparr>
      in case err of
           Some e \<Rightarrow> (sv, Some ((refusal (UpstreamFailed upstream e) (CallFailed e))\<lparr>po_raw := length res, po_host := host\<rparr>))
         | None \<Rightarrow>
             if (case evaluated of None \<Rightarrow> False | Some ev \<Rightarrow> int (length res) > og_max_response_bytes (eg_grant ev))
             then (sv, Some ((refusal (OverGrantBytes upstream) GrantBytesExceeded)\<lparr>po_raw := length res, po_host := host\<rparr>))
             else shape_result L ops io cx run_id upstream tool name spec host res evaluated sv)"

definition proxyCall ::
    "gw_lib \<Rightarrow> ('c, 's) store_ops \<Rightarrow> 'c call_io \<Rightarrow> call_ctx \<Rightarrow> string \<Rightarrow> string \<Rightarrow> string \<Rightarrow> string \<Rightarrow> upstream \<Rightarrow>
     string \<Rightarrow> evaluated_grant option \<Rightarrow> (string \<times> string) option \<Rightarrow> 's server \<Rightarrow> ('s, proxy_outcome) step" where
  "proxyCall L ops io cx run_id upstream tool name u args evaluated delegated sv =
     (let host = hostFromURL (gl_text L) (cn_endpoint (up_conn u)); spec = findTool (up_tools u) tool;
          shared = (case spec of None \<Rightarrow> False | Some t \<Rightarrow> \<not> isWriteTool (gl_text L) t);
          d = \<lparr>di_caller = caller_of cx, di_upstream = upstream, di_tool = tool, di_args = args,
               di_conn = up_conn u, di_delegated = delegated, di_shared = shared\<rparr>
      in case pre_dial L cx upstream name u spec args of Some out \<Rightarrow> (sv, Some out)
      | None \<Rightarrow>
          let sv = sv\<lparr>sv_dials := sv_dials sv @ [d]\<rparr>
          in if shared
             then let (res, err, canceled) = ci_shared io d
               in if canceled
                  then (sv, Some ((outcome_of (ToolError (UpstreamRunning upstream)))\<lparr>po_err := map_option CallFailed err, po_host := host\<rparr>))
                  else after_dial L ops io cx run_id upstream tool name spec host evaluated res err sv
             else let (res, err) = ci_direct io d
               in after_dial L ops io cx run_id upstream tool name spec host evaluated res err sv)"

section \<open>Records\<close>

definition blank_extra :: run_extra where
  "blank_extra =
     \<lparr>ex_upstream = [], ex_tool = [], ex_args = [], ex_capture = [], ex_shape = None, ex_digest = [],
      ex_parent = [], ex_delivery = [], ex_request = [], ex_user = [], ex_campaign = [], ex_delegated = [],
      ex_transform_engine = [], ex_transform_digest = [], ex_transform_status = [], ex_exit = 0,
      ex_error = NoError, ex_audit = [], ex_grant = [], ex_grant_digest = [], ex_effect = [], ex_resources = []\<rparr>"

definition blank_run :: "string \<Rightarrow> string \<Rightarrow> run_record" where
  "blank_run kind other =
     \<lparr>rr_kind = kind, rr_task_id = [], rr_source_id = [], rr_substrate = [], rr_engine = [], rr_latency_ms = 0,
      rr_input_bytes = 0, rr_output_bytes = 0, rr_raw_bytes = 0, rr_parked_bytes = 0, rr_minimized_bytes = 0,
      rr_context_measured = False, rr_full_schema = 0, rr_schema_digest = 0, rr_summarized = 0, rr_omitted = 0,
      rr_exact_schema = False, rr_fused = False, rr_transform_input = 0, rr_transform_output = 0,
      rr_transform_latency = 0, rr_reffed = False, rr_ref = [], rr_bytes = 0, rr_protected = 0,
      rr_timestamp = 0, rr_other = other\<rparr>"

definition next_run :: "'s server \<Rightarrow> 's server \<times> string" where
  "next_run sv =
     (let (rs, run_id) = nextRunID (ad_runs (sv_audit sv))
      in (sv\<lparr>sv_audit := (sv_audit sv)\<lparr>ad_runs := rs\<rparr>\<rparr>, run_id))"

definition put_run :: "gw_lib \<Rightarrow> 'c call_io \<Rightarrow> string \<Rightarrow> run_record \<Rightarrow> 's server \<Rightarrow> 's server" where
  "put_run L io run_id r sv =
     (let (a, w) = putRun (gl_audit L) (sv_audit sv) (sv_audit_world sv) run_id r (ci_record_at io) (ci_audit io)
      in sv\<lparr>sv_audit := a, sv_audit_world := w\<rparr>)"

definition denial_extra :: "call_ctx \<Rightarrow> string \<Rightarrow> string \<Rightarrow> string \<Rightarrow> string \<Rightarrow> string \<Rightarrow> decision_error \<Rightarrow> run_extra" where
  "denial_extra cx upstream tool grant_id digest reason err =
     blank_extra\<lparr>ex_upstream := upstream, ex_tool := tool, ex_user := caller_of cx, ex_campaign := campaign_of cx,
       ex_grant := grant_id, ex_grant_digest := digest, ex_exit := 1, ex_error := Denied reason err\<rparr>"

definition recordGovernedDenial ::
    "gw_lib \<Rightarrow> 'c call_io \<Rightarrow> call_ctx \<Rightarrow> string \<Rightarrow> string \<Rightarrow> string \<Rightarrow> string \<Rightarrow> string \<Rightarrow> decision_error \<Rightarrow>
     's server \<Rightarrow> 's server" where
  "recordGovernedDenial L io cx upstream tool grant_id digest reason err sv =
     (let (sv, run_id) = next_run sv
      in put_run L io run_id
           (blank_run ''decision'' (gl_extra L (denial_extra cx upstream tool grant_id digest reason err))) sv)"

text \<open>The arguments a record keeps: their text, how they were captured, their shape and digest.\<close>

definition captured_args ::
    "gw_lib \<Rightarrow> 's server \<Rightarrow> bool \<Rightarrow> bool \<Rightarrow> string \<Rightarrow> string \<times> string \<times> string option \<times> string" where
  "captured_args L sv governed full args =
     (let (kept, capture, shape, digest) =
            (if multiPrincipalAudit sv \<and> \<not> full
             then ([], ''structure'', argShape (gl_args L) args, argsSHA256 (gl_args L) args)
             else if multiPrincipalAudit sv \<and> \<not> governed then (args, ''full'', None, [])
             else (args, [], None, []))
      in (if governed then [] else kept, capture, shape, digest))"

definition egress_events :: "proxy_outcome \<Rightarrow> audit_event list" where
  "egress_events out =
     (if po_host out = [] then [] else [\<lparr>ae_event = ''egress_allow'', ae_host = po_host out, ae_reason = []\<rparr>]) @ po_extra out"

definition proxy_extra ::
    "gw_lib \<Rightarrow> 's server \<Rightarrow> call_ctx \<Rightarrow> string \<Rightarrow> string \<Rightarrow> string \<Rightarrow> proxy_outcome \<Rightarrow> evaluated_grant option \<Rightarrow> bool \<Rightarrow>
     string \<Rightarrow> run_extra" where
  "proxy_extra L sv cx upstream tool args out evaluated full delegated =
     (let (kept, capture, shape, digest) = captured_args L sv (evaluated \<noteq> None) full args;
          (parent, delivery, request) = programAuditContext cx; tf = cx_transform cx
      in \<lparr>ex_upstream = upstream, ex_tool = tool, ex_args = kept, ex_capture = capture, ex_shape = shape,
          ex_digest = digest, ex_parent = parent, ex_delivery = delivery, ex_request = request,
          ex_user = caller_of cx, ex_campaign = campaign_of cx, ex_delegated = delegated,
          ex_transform_engine = (case tf of None \<Rightarrow> [] | Some t \<Rightarrow> tf_engine t),
          ex_transform_digest = (case tf of None \<Rightarrow> [] | Some t \<Rightarrow> transformDigest L (tf_query t)),
          ex_transform_status = (if tf \<noteq> None \<and> po_status out = [] then ''not_run'' else po_status out),
          ex_exit = (if po_err out = None then 0 else 1),
          ex_error = (case po_err out of None \<Rightarrow> NoError | Some e \<Rightarrow> ProxyFailed e),
          ex_audit = egress_events out,
          ex_grant = (case evaluated of None \<Rightarrow> [] | Some ev \<Rightarrow> og_id (eg_grant ev)),
          ex_grant_digest = (case evaluated of None \<Rightarrow> [] | Some ev \<Rightarrow> eg_digest ev),
          ex_effect = (case evaluated of None \<Rightarrow> [] | Some ev \<Rightarrow> og_effect (eg_grant ev)),
          ex_resources = (case evaluated of None \<Rightarrow> [] | Some ev \<Rightarrow> eg_resource_ids ev)\<rparr>)"

definition proxy_run ::
    "call_ctx \<Rightarrow> string \<Rightarrow> nat \<Rightarrow> int \<Rightarrow> proxy_outcome \<Rightarrow> string \<Rightarrow> run_record" where
  "proxy_run cx args context_bytes latency out other =
     (let parked = (if go_reffed (po_gate out) then int (go_bytes (po_gate out)) else 0)
      in (blank_run ''proxy'' other)\<lparr>rr_task_id := cx_task cx,
           rr_substrate := (if po_ran out then ''wasm'' else []),
           rr_engine := (if po_ran out then case cx_transform cx of None \<Rightarrow> [] | Some t \<Rightarrow> tf_engine t else []),
           rr_latency_ms := latency, rr_input_bytes := int (length args),
           rr_output_bytes := (if cx_program cx \<noteq> None then 0 else int context_bytes),
           rr_raw_bytes := int (po_raw out), rr_parked_bytes := parked, rr_minimized_bytes := po_minimized out,
           rr_context_measured := True, rr_fused := po_ran out, rr_transform_input := int (po_in out),
           rr_transform_output := int (po_out out), rr_transform_latency := po_latency out,
           rr_reffed := go_reffed (po_gate out), rr_ref := go_ref (po_gate out), rr_bytes := parked,
           rr_protected := po_protected out\<rparr>)"

definition recordProxy ::
    "gw_lib \<Rightarrow> 'c call_io \<Rightarrow> call_ctx \<Rightarrow> string \<Rightarrow> string \<Rightarrow> string \<Rightarrow> string \<Rightarrow> nat \<Rightarrow> proxy_outcome \<Rightarrow>
     evaluated_grant option \<Rightarrow> bool \<Rightarrow> string \<Rightarrow> 's server \<Rightarrow> 's server" where
  "recordProxy L io cx run_id upstream tool args context_bytes out evaluated full delegated sv =
     put_run L io run_id (proxy_run cx args context_bytes (ci_latency io) out
       (gl_extra L (proxy_extra L sv cx upstream tool args out evaluated full delegated))) sv"

section \<open>The invocation gate\<close>

text \<open>
  What the checks of \<open>invokeUpstream\<close> decide before the ledger is asked: nothing is changed until
  then. \<open>Deny\<close> is a governed denial with its connection, grant, digest and reason.
\<close>

datatype verdict =
    NotNamed
  | Explain tool_error
  | Deny string string string string
  | Pass upstream string "evaluated_grant option"

definition effect_disagrees :: "gw_lib \<Rightarrow> upstream \<Rightarrow> string \<Rightarrow> operation_grant \<Rightarrow> bool" where
  "effect_disagrees L u tool g =
     (case findTool (up_tools u) tool of None \<Rightarrow> True
      | Some t \<Rightarrow>
          (isHighAssuranceWriteTool (gl_text L) t \<and> og_effect g \<noteq> effectWrite) \<or>
          (\<not> isHighAssuranceWriteTool (gl_text L) t \<and> og_effect g \<noteq> effectRead))"

definition program_denies :: "call_ctx \<Rightarrow> string \<Rightarrow> operation_grant \<Rightarrow> bool" where
  "program_denies cx name g =
     (case cx_program cx of None \<Rightarrow> False | Some p \<Rightarrow> name \<notin> set (pp_allowed p) \<or> og_effect g \<noteq> effectRead)"

text \<open>The reason a governed call is denied before its arguments are evaluated, in the code's order.\<close>

definition grant_objection ::
    "gw_lib \<Rightarrow> 's server \<Rightarrow> call_ctx \<Rightarrow> string \<Rightarrow> string \<Rightarrow> upstream \<Rightarrow> operation_grant \<Rightarrow> string option" where
  "grant_objection L sv cx name tool u g =
     (if sv_high sv \<and> \<not> og_high_assurance g then Some ''grant is not marked high assurance''
      else if up_owner u = [] \<and> \<not> og_allow_shared g
      then Some ''shared connection credential is not explicitly granted''
      else if effect_disagrees L u tool g then Some ''operation effect disagrees with retained tool authority''
      else if up_read_only u \<and> og_effect g = effectWrite then Some ''connection is read-only''
      else if program_denies cx name g then Some ''governed program authority does not include the operation''
      else if og_effect g = effectWrite \<and> og_resources g = []
      then Some ''write operation has no explicit resource namespace''
      else if up_owner u = [] \<and> og_effect g = effectWrite \<and> \<not> list_all rg_shared_writable (og_resources g)
      then Some ''shared writable namespace is not explicitly granted''
      else None)"

definition governed_verdict ::
    "gw_lib \<Rightarrow> 's server \<Rightarrow> 'c call_io \<Rightarrow> call_ctx \<Rightarrow> string \<Rightarrow> string \<Rightarrow> string \<Rightarrow> upstream \<Rightarrow> string \<Rightarrow>
     operation_grant option \<Rightarrow> string \<Rightarrow> verdict" where
  "governed_verdict L sv io cx name upName tool u args grant digest =
     (case grant of None \<Rightarrow> Deny upName [] [] ''exact operation grant is absent''
      | Some g \<Rightarrow>
          (case grant_objection L sv cx name tool u g of Some reason \<Rightarrow> Deny upName (og_id g) digest reason
           | None \<Rightarrow>
               (case evaluateOperationGrant (go L) g (caller_of cx) (campaign_of cx) tool (gl_decode L args) (ci_eval_at io) of
                  Inl e \<Rightarrow> Deny upName (og_id g) digest (gl_error_text L e)
                | Inr ev \<Rightarrow> Pass u args (Some ev))))"

definition ambiguous :: "gw_lib \<Rightarrow> 's server \<Rightarrow> 'c call_io \<Rightarrow> call_ctx \<Rightarrow> string \<Rightarrow> string \<Rightarrow> upstream \<Rightarrow> peer list option" where
  "ambiguous L sv io cx upName tool u =
     (let peers = indistinguishablePeers (go L) (gl_text L) (sv_high sv) (ci_now io) (caller_of cx) (campaign_of cx)
            (delegationSubjectForKey sv (caller_of cx)) upName u tool (sv_reg sv)
      in if peers \<noteq> [] \<and> \<not> labelDistinguishes (gl_fold_eq L) (up_label u) peers then Some peers else None)"

definition gate :: "gw_lib \<Rightarrow> 's server \<Rightarrow> 'c call_io \<Rightarrow> call_ctx \<Rightarrow> string \<Rightarrow> string \<Rightarrow> verdict" where
  "gate L sv io cx name args =
     (case str_cut nsSep name of None \<Rightarrow> NotNamed
      | Some (upName, tool) \<Rightarrow>
      (case lookup (sv_reg sv) upName of
         None \<Rightarrow> if sv_high sv then Deny upName [] [] ''connection or operation is not granted'' else Explain (UnknownTool name)
       | Some u \<Rightarrow>
           let governed = (sv_high sv \<or> up_grants u \<noteq> []);
               grant = matchingGrant u (caller_of cx) (campaign_of cx) tool;
               grant_id = (case grant of None \<Rightarrow> [] | Some g \<Rightarrow> og_id g);
               digest = (case grant of None \<Rightarrow> [] | Some g \<Rightarrow> (case grantDigest (go L) g of None \<Rightarrow> [] | Some d \<Rightarrow> d));
               stop = (\<lambda>reason e. if governed then Deny upName grant_id digest reason else Explain e)
           in if up_owner u \<noteq> [] \<and> up_owner u \<noteq> caller_of cx
              then stop ''caller does not own the connection'' (UnknownTool name)
              else if up_revoked u then stop ''connection authority is revoked'' (UnknownTool name)
              else if \<not> up_enabled u then stop ''connection is not enabled'' (NotEnabled name upName)
              else case (if governed then None else ambiguous L sv io cx upName tool u) of
                Some peers \<Rightarrow> Explain (AmbiguousCall name upName (up_template u) tool (up_label u) (up_owner u \<noteq> []) peers)
              | None \<Rightarrow>
                  let args = resolveOutbound (gl_order L) (sv_min sv) (caller_of cx) upName args
                  in if governed then governed_verdict L sv io cx name upName tool u args grant digest else Pass u args None))"

section \<open>One call\<close>

datatype invoked = NotATool | Answered tool_result | NoReturn

definition deny ::
    "gw_lib \<Rightarrow> 'c call_io \<Rightarrow> call_ctx \<Rightarrow> string \<Rightarrow> string \<Rightarrow> string \<Rightarrow> string \<Rightarrow> string \<Rightarrow> string \<Rightarrow> 's server \<Rightarrow>
     's server \<times> invoked" where
  "deny L io cx name tool connection grant_id digest reason sv =
     (let (l, w, e) = refuseDecision (gl_ledger L) (sv_ledger sv) (sv_ledger_world sv) (caller_of cx) (campaign_of cx)
            connection tool grant_id digest reason (ci_decide_at io) (ci_ledger io)
      in (recordGovernedDenial L io cx connection tool grant_id digest reason e (sv\<lparr>sv_ledger := l, sv_ledger_world := w\<rparr>),
          Answered (ToolError (Unauthorized name))))"

text \<open>\<open>invokeUpstream\<close> once every check and the ledger let the call pass.\<close>

definition cross ::
    "gw_lib \<Rightarrow> ('c, 's) store_ops \<Rightarrow> 'c call_io \<Rightarrow> call_ctx \<Rightarrow> string \<Rightarrow> string \<Rightarrow> string \<Rightarrow> upstream \<Rightarrow> string \<Rightarrow>
     evaluated_grant option \<Rightarrow> 's server \<Rightarrow> 's server \<times> invoked" where
  "cross L ops io cx name upName tool u args evaluated sv =
     (let subject = (if up_delegation u = None then [] else delegationSubject sv cx); (sv, run_id) = next_run sv
      in if up_delegation u \<noteq> None \<and> subject = []
         then let out = refusal (NoVerifiedEmail upName) NoCallerIdentity
              in (recordProxy L io cx run_id upName tool args (gl_result_len L (po_result out)) out evaluated (up_audit_full u) [] sv,
                  Answered (po_result out))
         else case proxyCall L ops io cx run_id upName tool name u args evaluated
                (if up_delegation u = None then None else Some (caller_of cx, subject)) sv of
           (sv, None) \<Rightarrow> (sv, NoReturn)
         | (sv, Some out) \<Rightarrow>
             (recordProxy L io cx run_id upName tool args (gl_result_len L (po_result out)) out evaluated (up_audit_full u) subject sv,
              Answered (po_result out)))"

definition split_name :: "string \<Rightarrow> string \<times> string" where
  "split_name name = (case str_cut nsSep name of None \<Rightarrow> ([], []) | Some p \<Rightarrow> p)"

definition invokeUpstream ::
    "gw_lib \<Rightarrow> ('c, 's) store_ops \<Rightarrow> 'c call_io \<Rightarrow> call_ctx \<Rightarrow> string \<Rightarrow> string \<Rightarrow> 's server \<Rightarrow> 's server \<times> invoked" where
  "invokeUpstream L ops io cx name args sv =
     (let (upName, tool) = split_name name
      in case gate L sv io cx name args of
           NotNamed \<Rightarrow> (sv, NotATool)
         | Explain e \<Rightarrow> (sv, Answered (ToolError e))
         | Deny connection grant_id digest reason \<Rightarrow> deny L io cx name tool connection grant_id digest reason sv
         | Pass u args None \<Rightarrow> cross L ops io cx name upName tool u args None sv
         | Pass u args (Some ev) \<Rightarrow>
             (case authorizeDecision (gl_ledger L) (sv_ledger sv) (sv_ledger_world sv) ev (int (length args))
                (ci_decide_at io) (ci_ledger io) of
                (l, w, Some e) \<Rightarrow>
                  (recordGovernedDenial L io cx upName tool (og_id (eg_grant ev))
                     (case grantDigest (go L) (eg_grant ev) of None \<Rightarrow> [] | Some d \<Rightarrow> d)
                     ''decision ledger or budget refused crossing'' e (sv\<lparr>sv_ledger := l, sv_ledger_world := w\<rparr>),
                   Answered (ToolError (Unauthorized name)))
              | (l, w, None) \<Rightarrow> cross L ops io cx name upName tool u args (Some ev) (sv\<lparr>sv_ledger := l, sv_ledger_world := w\<rparr>)))"

definition callTool ::
    "gw_lib \<Rightarrow> ('c, 's) store_ops \<Rightarrow> 'c call_io \<Rightarrow> call_ctx \<Rightarrow> string \<Rightarrow> 's server \<Rightarrow> 's server \<times> tool_result option" where
  "callTool L ops io cx args sv =
     (case gl_call L args of None \<Rightarrow> (sv, Some (ToolError CallToolNoName))
      | Some q \<Rightarrow>
          if cq_name q = [] then (sv, Some (ToolError CallToolNoName))
          else case validateTaskID (sha256 (gl_dial L)) (cq_task q) of Inl e \<Rightarrow> (sv, Some (ToolError (CallToolTask e)))
          | Inr task \<Rightarrow>
              (case parseTransform L sv (cq_transform q) of Inl e \<Rightarrow> (sv, Some (ToolError (CallToolTransform e)))
               | Inr tf \<Rightarrow>
                   let cx = cx\<lparr>cx_task := (if task = [] then cx_task cx else task),
                          cx_transform := (if tf = None then cx_transform cx else tf)\<rparr>
                   in (case invokeUpstream L ops io cx (cq_name q) (cq_arguments q) sv of
                         (sv, NotATool) \<Rightarrow> (sv, Some (ToolError (UnknownTool (cq_name q))))
                       | (sv, Answered r) \<Rightarrow> (sv, Some r)
                       | (sv, NoReturn) \<Rightarrow> (sv, None))))"

end
