(* ===== verification/Grant_Safety.thy ===== *)
theory Grant_Safety
  imports Grant
begin

text \<open>
  What the grant code guarantees: an installed grant is well formed and bounded, and a call
  it lets through has every scalar of its arguments checked by a rule of the grant. The
  proofs rest on one fact about JSON pointers: the pointer that \<open>visit\<close> builds while it walks
  down the arguments leads \<open>pointerValue\<close> back to the very subtree it was built for.
\<close>

section \<open>Pointer tokens\<close>

definition tok_esc :: "char \<Rightarrow> string" where
  "tok_esc c = (if c = CHR ''~'' then ''~0'' else if c = CHR ''/'' then ''~1'' else [c])"

definition tok_half :: "char \<Rightarrow> string" where
  "tok_half c = (if c = CHR ''~'' then ''~0'' else [c])"

lemma escape_token_eq: "escape_token k = concat (map tok_esc k)"
  unfolding escape_token_def replace_all_char
  by (induction k) (auto simp: tok_esc_def)

lemma escape_token_no_slash: "CHR ''/'' \<notin> set (escape_token k)"
  by (auto simp: escape_token_eq tok_esc_def)

lemma unescape_token_first: "replace_all ''~1'' ''/'' (concat (map tok_esc k)) = concat (map tok_half k)"
proof (induction k)
  case (Cons c k)
  consider "c = CHR ''~''" | "c = CHR ''/''" | "c \<noteq> CHR ''~''" "c \<noteq> CHR ''/''" by blast
  then show ?case by cases (use Cons in \<open>simp_all add: tok_esc_def tok_half_def\<close>)
qed simp

lemma unescape_token_second: "replace_all ''~0'' ''~'' (concat (map tok_half k)) = k"
proof (induction k)
  case (Cons c k)
  then show ?case by (cases "c = CHR ''~''") (simp_all add: tok_half_def)
qed simp

lemma unescape_escape_token [simp]: "unescape_token (escape_token k) = k"
  by (simp add: unescape_token_def escape_token_eq unescape_token_first unescape_token_second)

lemma replace_all_absent: "d \<notin> set s \<Longrightarrow> replace_all (d # ds) new s = s"
  by (induction s) auto

lemma digits_no: "c \<in> set (itoa i) \<Longrightarrow> c \<noteq> CHR ''~'' \<and> c \<noteq> CHR ''/''"
  using itoa_chars [of c i] by (auto simp: is_digit_def less_eq_char_def)

lemma unescape_itoa [simp]: "unescape_token (itoa i) = itoa i"
proof -
  have "CHR ''~'' \<notin> set (itoa i)" using digits_no by blast
  then show ?thesis by (simp add: unescape_token_def replace_all_absent)
qed

section \<open>Positions in a document\<close>

text \<open>Every subtree with the pointer tokens that lead to it, as \<open>visit\<close> writes them.\<close>

fun subtrees :: "json \<Rightarrow> (string list \<times> json) list"
and subtrees_members :: "(string \<times> json) list \<Rightarrow> (string list \<times> json) list"
and subtrees_items :: "nat \<Rightarrow> json list \<Rightarrow> (string list \<times> json) list" where
  "subtrees v = ([], v) #
     (case v of JObj ms \<Rightarrow> subtrees_members ms | JArr vs \<Rightarrow> subtrees_items 0 vs | _ \<Rightarrow> [])"
| "subtrees_members [] = []"
| "subtrees_members ((k, v) # ms) = map (apfst (Cons (escape_token k))) (subtrees v) @ subtrees_members ms"
| "subtrees_items i [] = []"
| "subtrees_items i (v # vs) = map (apfst (Cons (itoa i))) (subtrees v) @ subtrees_items (Suc i) vs"

declare subtrees.simps [simp del]

definition ptr_of :: "string list \<Rightarrow> string" where
  "ptr_of ts = concat (map (Cons (CHR ''/'')) ts)"

definition is_leaf :: "json \<Rightarrow> bool" where
  "is_leaf v \<longleftrightarrow> (case v of JObj _ \<Rightarrow> False | JArr _ \<Rightarrow> False | _ \<Rightarrow> True)"

lemma is_leaf_simps [simp]:
  "\<not> is_leaf (JObj ms)" "\<not> is_leaf (JArr vs)" "is_leaf (JStr s)" "is_leaf (JNum n)" "is_leaf (JBool b)"
  "is_leaf JNull"
  by (simp_all add: is_leaf_def)

text \<open>Array lengths are Go \<open>int\<close>s.\<close>

definition arrays_fit :: "json \<Rightarrow> bool" where
  "arrays_fit v \<longleftrightarrow> (\<forall>(p, w) \<in> set (subtrees v). \<forall>vs. w = JArr vs \<longrightarrow> int (length vs) < 2 ^ 63)"

lemma ptr_of_simps [simp]: "ptr_of [] = []" "ptr_of (t # ts) = ''/'' @ t @ ptr_of ts"
  by (simp_all add: ptr_of_def)

lemma ptr_of_join: "ts \<noteq> [] \<Longrightarrow> ptr_of ts = CHR ''/'' # join_with ''/'' ts"
  by (induction ts rule: induct_list012) auto

lemma split_ptr_of:
  assumes "ts \<noteq> []" and "\<forall>t \<in> set ts. CHR ''/'' \<notin> set t"
  shows "split_on (CHR ''/'') (trim_prefix (ptr_of ts) ''/'') = ts"
  using split_join [OF assms] ptr_of_join [OF assms(1)] by (simp add: trim_prefix_def)

lemma subtrees_members_in:
  "(p, w) \<in> set (subtrees_members ms) \<longleftrightarrow>
   (\<exists>k v q. (k, v) \<in> set ms \<and> (q, w) \<in> set (subtrees v) \<and> p = escape_token k # q)"
  by (induction ms) (auto simp: image_iff apfst_def map_prod_def split: prod.splits, blast+)

lemma subtrees_items_in:
  "(p, w) \<in> set (subtrees_items i vs) \<longleftrightarrow>
   (\<exists>j q. j < length vs \<and> (q, w) \<in> set (subtrees (vs ! j)) \<and> p = itoa (i + j) # q)"
proof (induction vs arbitrary: i)
  case (Cons v vs)
  have "(p, w) \<in> set (subtrees_items i (v # vs)) \<longleftrightarrow>
    (\<exists>q. (q, w) \<in> set (subtrees v) \<and> p = itoa i # q) \<or>
    (\<exists>j q. j < length vs \<and> (q, w) \<in> set (subtrees (vs ! j)) \<and> p = itoa (Suc i + j) # q)"
    using Cons.IH [of "Suc i"] by (auto simp: image_iff apfst_def map_prod_def split: prod.splits)
  also have "\<dots> \<longleftrightarrow> (\<exists>j q. j < length (v # vs) \<and> (q, w) \<in> set (subtrees ((v # vs) ! j)) \<and> p = itoa (i + j) # q)"
    by (auto simp: less_Suc_eq_0_disj)
  finally show ?case .
qed simp


text \<open>The subtrees of a document by the shape of their path; from here on only these are used.\<close>

lemma subtrees_Nil [simp]: "([], w) \<in> set (subtrees v) \<longleftrightarrow> w = v"
  unfolding subtrees.simps [of v] by (cases v) (auto simp: subtrees_members_in subtrees_items_in)

lemma subtrees_Cons:
  "(t # p, w) \<in> set (subtrees v) \<longleftrightarrow>
   (\<exists>k u ms. v = JObj ms \<and> (k, u) \<in> set ms \<and> t = escape_token k \<and> (p, w) \<in> set (subtrees u)) \<or>
   (\<exists>j vs. v = JArr vs \<and> j < length vs \<and> t = itoa j \<and> (p, w) \<in> set (subtrees (vs ! j)))"
  unfolding subtrees.simps [of v] by (cases v) (auto simp: subtrees_members_in subtrees_items_in)

lemma subtrees_no_slash: "(p, w) \<in> set (subtrees v) \<Longrightarrow> \<forall>t \<in> set p. CHR ''/'' \<notin> set t"
proof (induction p arbitrary: v)
  case (Cons t p)
  have "CHR ''/'' \<notin> set t"
    using Cons.prems escape_token_no_slash digits_no by (auto simp: subtrees_Cons)
  moreover have "\<forall>t \<in> set p. CHR ''/'' \<notin> set t"
    using Cons by (auto simp: subtrees_Cons)
  ultimately show ?case by simp
qed simp

lemma subtrees_append:
  "(p @ q, w) \<in> set (subtrees v) \<longleftrightarrow> (\<exists>u. (p, u) \<in> set (subtrees v) \<and> (q, w) \<in> set (subtrees u))"
proof (induction p arbitrary: v)
  case (Cons t p)
  then show ?case unfolding append_Cons subtrees_Cons by blast
qed simp

lemma subtrees_split:
  "(p, w) \<in> set (subtrees v) \<Longrightarrow>
   \<exists>u. (take n p, u) \<in> set (subtrees v) \<and> (drop n p, w) \<in> set (subtrees u)"
  using subtrees_append [of "take n p" "drop n p"] by simp

section \<open>Pointers lead back to where they were built\<close>

lemma dup_members_distinct:
  "dup_members seen ms = None \<Longrightarrow>
   distinct (map fst ms) \<and> set (map fst ms) \<inter> set seen = {} \<and> (\<forall>x \<in> set ms. dup_value (snd x) = None)"
proof (induction ms arbitrary: seen)
  case (Cons x ms)
  obtain k v where x: "x = (k, v)" by (cases x)
  from Cons.prems x have "k \<notin> set seen" and "dup_value v = None" and "dup_members (k # seen) ms = None"
    by (auto split: if_splits option.splits)
  with Cons.IH [of "k # seen"] x show ?case by auto
qed simp

lemma dup_items_all: "dup_items vs = None \<Longrightarrow> \<forall>v \<in> set vs. dup_value v = None"
  by (induction vs) (auto split: option.splits)

lemma arrays_fit_sub:
  assumes "arrays_fit v" and "(p, u) \<in> set (subtrees v)"
  shows "arrays_fit u"
proof -
  have "(p @ q, w) \<in> set (subtrees v)" if "(q, w) \<in> set (subtrees u)" for q w
    using assms(2) that by (auto simp: subtrees_append)
  with assms(1) show ?thesis unfolding arrays_fit_def by fast
qed

lemma follow_subtrees:
  "dup_value v = None \<Longrightarrow> arrays_fit v \<Longrightarrow> (p, w) \<in> set (subtrees v) \<Longrightarrow> follow v p = Some w"
proof (induction p arbitrary: v)
  case (Cons t p)
  from Cons.prems(3) consider
    k u ms where "v = JObj ms" "(k, u) \<in> set ms" "(p, w) \<in> set (subtrees u)" "t = escape_token k"
    | j vs where "v = JArr vs" "j < length vs" "(p, w) \<in> set (subtrees (vs ! j))" "t = itoa j"
    by (auto simp: subtrees_Cons)
  then show ?case
  proof cases
    case 1
    from 1(1) Cons.prems(1) have d: "distinct (map fst ms)" and du: "dup_value u = None"
      using dup_members_distinct [of "[]" ms] 1(2) by auto
    have "([t], u) \<in> set (subtrees v)" using 1(1,2,4) by (auto simp: subtrees_Cons)
    then have "arrays_fit u" by (rule arrays_fit_sub [OF Cons.prems(2)])
    from Cons.IH [OF du this 1(3)] 1(1,2,4) d show ?thesis by (simp add: member_distinct)
  next
    case 2
    from 2(1,2) Cons.prems(1) have du: "dup_value (vs ! j) = None"
      using dup_items_all [of vs] by auto
    have "([t], vs ! j) \<in> set (subtrees v)" using 2(1,2,4) by (auto simp: subtrees_Cons)
    then have "arrays_fit (vs ! j)" by (rule arrays_fit_sub [OF Cons.prems(2)])
    note ih = Cons.IH [OF du this 2(3)]
    have "([], v) \<in> set (subtrees v)" by simp
    with Cons.prems(2) 2(1) have "int (length vs) < 2 ^ 63" unfolding arrays_fit_def by blast
    with 2(2) have "atoi (itoa j) = Some (int j)" by (intro atoi_itoa) linarith
    with ih 2(1,2,4) show ?thesis by simp
  qed
qed simp

lemma pointerValue_subtrees:
  assumes "dup_value v = None" and "arrays_fit v" and "(p, w) \<in> set (subtrees v)" and "p \<noteq> []"
  shows "pointerValue v (ptr_of p) = Some w"
  using follow_subtrees [OF assms(1-3)] split_ptr_of [OF assms(4) subtrees_no_slash [OF assms(3)]]
  by (simp add: pointerValue_def)

section \<open>Every scalar is governed\<close>

text \<open>\<open>visit\<close> accepts exactly the documents whose leaves all lie under an allowed pointer.\<close>

definition under :: "string list \<Rightarrow> string \<Rightarrow> string list \<Rightarrow> bool" where
  "under allowed ptr p \<longleftrightarrow> (\<exists>n. ptr @ ptr_of (take n p) \<in> set allowed)"

lemma under_Cons:
  "under allowed ptr (t # p) \<longleftrightarrow> ptr \<in> set allowed \<or> under allowed (ptr @ ''/'' @ t) p"
proof
  assume "under allowed ptr (t # p)"
  then obtain n where n: "ptr @ ptr_of (take n (t # p)) \<in> set allowed" by (auto simp: under_def)
  then show "ptr \<in> set allowed \<or> under allowed (ptr @ ''/'' @ t) p"
    by (cases n) (auto simp: under_def)
next
  assume "ptr \<in> set allowed \<or> under allowed (ptr @ ''/'' @ t) p"
  then show "under allowed ptr (t # p)"
  proof
    assume "ptr \<in> set allowed"
    then have "ptr @ ptr_of (take 0 (t # p)) \<in> set allowed" by simp
    then show ?thesis unfolding under_def by blast
  next
    assume "under allowed (ptr @ ''/'' @ t) p"
    then obtain n where "(ptr @ ''/'' @ t) @ ptr_of (take n p) \<in> set allowed" by (auto simp: under_def)
    then have "ptr @ ptr_of (take (Suc n) (t # p)) \<in> set allowed" by simp
    then show ?thesis unfolding under_def by blast
  qed
qed

lemma under_Nil [simp]: "under allowed ptr [] \<longleftrightarrow> ptr \<in> set allowed"
  by (simp add: under_def)

lemma under_start: "ptr \<in> set allowed \<Longrightarrow> under allowed ptr p"
  by (cases p) (auto simp: under_Cons)

definition all_under :: "string list \<Rightarrow> json \<Rightarrow> string \<Rightarrow> bool" where
  "all_under allowed v ptr \<longleftrightarrow> (\<forall>p w. (p, w) \<in> set (subtrees v) \<longrightarrow> is_leaf w \<longrightarrow> under allowed ptr p)"

lemma visit_cases:
  "visit allowed (JArr vs) ptr = (if ptr \<in> set allowed then None else visit_items allowed 0 vs ptr)"
  "visit allowed (JObj ms) ptr = (if ptr \<in> set allowed then None else visit_members allowed ms ptr)"
  "is_leaf v \<Longrightarrow> visit allowed v ptr = (if ptr \<in> set allowed then None else Some Ungoverned)"
  by (simp_all add: is_leaf_def split: json.splits)

declare visit.simps [simp del]

lemma visit_iff:
  "visit allowed v ptr = None \<longleftrightarrow> all_under allowed v ptr"
  "visit_members allowed ms ptr = None \<longleftrightarrow>
    (\<forall>(k, v) \<in> set ms. all_under allowed v (ptr @ ''/'' @ escape_token k))"
  "visit_items allowed i vs ptr = None \<longleftrightarrow>
    (\<forall>j < length vs. all_under allowed (vs ! j) (ptr @ ''/'' @ itoa (i + j)))"
proof (induction allowed v ptr and allowed ms ptr and allowed i vs ptr
    rule: visit_visit_members_visit_items.induct)
  case (1 allowed v ptr)
  show ?case
  proof (cases "ptr \<in> set allowed")
    case True
    then show ?thesis by (simp add: visit.simps [of allowed v ptr] all_under_def under_start)
  next
    case False
    have split: "all_under allowed v ptr \<longleftrightarrow> (\<not> is_leaf v) \<and>
      (\<forall>t p w. (t # p, w) \<in> set (subtrees v) \<longrightarrow> is_leaf w \<longrightarrow> under allowed (ptr @ ''/'' @ t) p)"
    proof -
      have all: "(\<forall>p. Q p) \<longleftrightarrow> Q [] \<and> (\<forall>t p. Q (t # p))" for Q :: "string list \<Rightarrow> bool"
        by (metis list.exhaust)
      show ?thesis unfolding all_under_def
        by (subst all) (use False in \<open>auto simp: under_Cons\<close>)
    qed
    show ?thesis
    proof (cases v)
      case (JArr vs)
      with 1 False have "visit allowed v ptr = None \<longleftrightarrow>
          (\<forall>j < length vs. all_under allowed (vs ! j) (ptr @ ''/'' @ itoa j))"
        by (simp add: visit_cases)
      moreover from JArr split have "all_under allowed v ptr \<longleftrightarrow>
          (\<forall>t p w. (\<exists>j < length vs. t = itoa j \<and> (p, w) \<in> set (subtrees (vs ! j))) \<longrightarrow> is_leaf w \<longrightarrow>
             under allowed (ptr @ ''/'' @ t) p)"
        by (simp add: subtrees_Cons)
      moreover have "\<dots> \<longleftrightarrow> (\<forall>j < length vs. all_under allowed (vs ! j) (ptr @ ''/'' @ itoa j))"
        unfolding all_under_def by blast
      ultimately show ?thesis by simp
    next
      case (JObj ms)
      with 1 False have "visit allowed v ptr = None \<longleftrightarrow>
          (\<forall>(k, u) \<in> set ms. all_under allowed u (ptr @ ''/'' @ escape_token k))"
        by (simp add: visit_cases)
      moreover from JObj split have "all_under allowed v ptr \<longleftrightarrow>
          (\<forall>t p w. (\<exists>k u. (k, u) \<in> set ms \<and> t = escape_token k \<and> (p, w) \<in> set (subtrees u)) \<longrightarrow>
             is_leaf w \<longrightarrow> under allowed (ptr @ ''/'' @ t) p)"
        by (simp add: subtrees_Cons)
      moreover have "\<dots> \<longleftrightarrow> (\<forall>(k, u) \<in> set ms. all_under allowed u (ptr @ ''/'' @ escape_token k))"
        unfolding all_under_def by blast
      ultimately show ?thesis by simp
    qed (use False split in \<open>simp_all add: visit_cases\<close>)
  qed
next
  case (3 allowed k v ms ptr)
  then show ?case by (auto split: option.splits)
next
  case (5 allowed i v vs ptr)
  have "(\<forall>j < length (v # vs). all_under allowed ((v # vs) ! j) (ptr @ ''/'' @ itoa (i + j))) \<longleftrightarrow>
    all_under allowed v (ptr @ ''/'' @ itoa i) \<and>
    (\<forall>j < length vs. all_under allowed (vs ! j) (ptr @ ''/'' @ itoa (Suc i + j)))"
    by (auto simp: less_Suc_eq_0_disj)
  with 5 show ?case by (auto split: option.splits)
qed auto


text \<open>What a value that passed its rule consists of.\<close>

lemma scalars_Some:
  "scalars vs = Some ss \<Longrightarrow> v \<in> set vs \<Longrightarrow> \<exists>s \<in> set ss. scalarString v = Some s"
  by (induction vs arbitrary: ss) (auto split: option.splits)

lemma scalarString_leaf: "scalarString v = Some s \<Longrightarrow> (p, w) \<in> set (subtrees v) \<Longrightarrow> p = [] \<and> w = v"
  by (cases v; cases p) (auto simp: subtrees_Cons)

lemma flattenScalars_scalar:
  assumes "flattenScalars u \<noteq> []" and "(p, w) \<in> set (subtrees u)" and "\<forall>vs. u \<noteq> JArr vs"
  shows "\<exists>s \<in> set (flattenScalars u). scalarString w = Some s"
proof -
  from assms(1,3) obtain s where s: "scalarString u = Some s" "flattenScalars u = [s]"
    by (cases u) (auto simp: flattenScalars_def)
  with scalarString_leaf [OF s(1) assms(2)] show ?thesis by simp
qed

lemma flattenScalars_leaf:
  assumes "flattenScalars u \<noteq> []" and "(p, w) \<in> set (subtrees u)" and "is_leaf w"
  shows "\<exists>s \<in> set (flattenScalars u). scalarString w = Some s"
proof (cases u)
  case (JArr vs)
  with assms(1) obtain ss where ss: "scalars vs = Some ss"
    by (auto simp: flattenScalars_def split: option.splits)
  from assms(2,3) JArr obtain t q j where "p = t # q" "j < length vs" "(q, w) \<in> set (subtrees (vs ! j))"
    by (cases p) (auto simp: subtrees_Cons)
  moreover from this obtain s where "s \<in> set ss" "scalarString (vs ! j) = Some s"
    using scalars_Some [OF ss] by (meson nth_mem)
  ultimately show ?thesis using JArr ss by (auto simp: flattenScalars_def dest: scalarString_leaf)
next
  case (JObj ms)
  with assms(1) show ?thesis by (simp add: flattenScalars_def)
qed (use assms flattenScalars_scalar in auto)

section \<open>Installed grants\<close>

lemma check_arguments_None:
  assumes "check_arguments L seen i rs = None"
  shows "distinct (map ag_pointer rs) \<and> set (map ag_pointer rs) \<inter> set seen = {} \<and>
    (\<forall>r \<in> set rs. validatePointer (ag_pointer r) = None \<and>
       (ag_values r \<noteq> [] \<or> ag_pattern r \<noteq> [] \<or> ag_url_target r \<noteq> []) \<and>
       (ag_pattern r \<noteq> [] \<longrightarrow> 0 < ag_max_bytes r \<and> re_compiles L (''^(?:'' @ ag_pattern r @ '')$'')))"
  using assms
proof (induction L seen i rs rule: check_arguments.induct)
  case (2 L seen i r rs)
  from "2.prems" have ok: "validatePointer (ag_pointer r) = None" "ag_pointer r \<notin> set seen"
    "ag_values r \<noteq> [] \<or> ag_pattern r \<noteq> [] \<or> ag_url_target r \<noteq> []"
    "ag_pattern r \<noteq> [] \<longrightarrow> 0 < ag_max_bytes r \<and> re_compiles L (''^(?:'' @ ag_pattern r @ '')$'')"
    "check_arguments L (ag_pointer r # seen) (Suc i) rs = None"
    by (auto split: option.splits if_splits)
  have "check_arguments L seen i (r # rs) = check_arguments L (ag_pointer r # seen) (Suc i) rs"
    using ok(1-4) by auto
  have "\<not> (ag_values r = [] \<and> ag_pattern r = [] \<and> ag_url_target r = [])"
    "\<not> (ag_pattern r \<noteq> [] \<and> ag_max_bytes r \<le> 0)"
    "\<not> (ag_pattern r \<noteq> [] \<and> \<not> re_compiles L (''^(?:'' @ ag_pattern r @ '')$''))"
    using ok(3,4) by auto
  note IH = "2.IH" [OF ok(1,2) this ok(5)]
  from IH ok(1-4) show ?case by auto
qed simp

lemma check_targets_None:
  assumes "check_targets L seen i ts = None"
  shows "distinct (map ut_id ts) \<and> set (map ut_id ts) \<inter> set seen = {} \<and>
    (\<forall>t \<in> set ts. ut_id t \<noteq> [] \<and> ut_origins t \<noteq> [] \<and>
       (\<forall>raw \<in> set (ut_origins t). \<exists>n. parseGrantOrigin L raw = Inr n) \<and>
       (\<forall>p \<in> set (ut_paths t). has_prefix p ''/'' \<and> \<not> contains_sub p ''//'' \<and> path_clean p = p))"
  using assms
proof (induction L seen i ts rule: check_targets.induct)
  case (2 L seen i t ts)
  from "2.prems" have ok: "ut_id t \<noteq> []" "ut_id t \<notin> set seen" "ut_origins t \<noteq> []"
    "check_all (\<lambda>org. case parseGrantOrigin L org of Inl e \<Rightarrow> Some e | Inr _ \<Rightarrow> None) (ut_origins t) = None"
    "\<not> list_ex (\<lambda>p. \<not> has_prefix p ''/'' \<or> contains_sub p ''//'' \<or> alternate_path L p \<or> path_clean p \<noteq> p) (ut_paths t)"
    "\<not> list_ex (\<lambda>(k, vs). trim_space k = []) (ut_query t)"
    "check_targets L (ut_id t # seen) (Suc i) ts = None"
    by (simp_all split: option.splits if_splits)
  have "\<forall>raw \<in> set (ut_origins t). \<exists>n. parseGrantOrigin L raw = Inr n"
  proof
    fix raw assume "raw \<in> set (ut_origins t)"
    with ok(4) show "\<exists>n. parseGrantOrigin L raw = Inr n"
      by (cases "parseGrantOrigin L raw") (auto simp: check_all_None)
  qed
  moreover have "\<forall>p \<in> set (ut_paths t). has_prefix p ''/'' \<and> \<not> contains_sub p ''//'' \<and> path_clean p = p"
    using ok(5) by (auto simp: list_ex_iff)
  moreover have "\<not> (ut_id t = [] \<or> ut_id t \<in> set seen \<or> ut_origins t = [])" using ok(1-3) by simp
  note "2.IH" [OF this ok(4-7)]
  ultimately show ?case using ok(1-3) by auto
qed simp

lemma check_target_refs_None:
  "check_target_refs ids i rs = None \<Longrightarrow>
   \<forall>r \<in> set rs. ag_url_target r = [] \<or> ag_url_target r \<in> set ids"
  by (induction ids i rs rule: check_target_refs.induct) (auto split: if_splits)

lemma check_resources_Inr:
  assumes "check_resources seen i rs = Inr rs'"
  shows "length rs' = length rs \<and> distinct (map resource_key rs') \<and>
    set (map resource_key rs') \<inter> set seen = {} \<and>
    (\<forall>r \<in> set rs'. rg_kind r \<noteq> [] \<and> rg_namespace r \<noteq> [] \<and> (rg_argument r = []) \<noteq> (rg_value r = []) \<and>
       (rg_argument r \<noteq> [] \<longrightarrow> validatePointer (rg_argument r) = None))"
  using assms
proof (induction seen i rs arbitrary: rs' rule: check_resources.induct)
  case (2 seen i r0 rs)
  let ?r = "trim_resource r0"
  from "2.prems" obtain rs1 where ok: "rg_kind ?r \<noteq> []" "rg_namespace ?r \<noteq> []"
    "(rg_argument ?r = []) \<noteq> (rg_value ?r = [])"
    "rg_argument ?r \<noteq> [] \<longrightarrow> validatePointer (rg_argument ?r) = None" "resource_key ?r \<notin> set seen"
    and rest: "check_resources (resource_key ?r # seen) (Suc i) rs = Inr rs1" "rs' = ?r # rs1"
    by (simp add: Let_def split: if_splits option.splits sum.splits)
  have "length rs1 = length rs \<and> distinct (map resource_key rs1) \<and>
    set (map resource_key rs1) \<inter> set (resource_key ?r # seen) = {} \<and>
    (\<forall>r \<in> set rs1. rg_kind r \<noteq> [] \<and> rg_namespace r \<noteq> [] \<and> (rg_argument r = []) \<noteq> (rg_value r = []) \<and>
       (rg_argument r \<noteq> [] \<longrightarrow> validatePointer (rg_argument r) = None))"
    by (rule "2.IH" [OF refl _ _ _ rest(1)]) (use ok in \<open>auto split: option.splits\<close>)
  with ok rest(2) show ?case by auto
qed simp

text \<open>What \<open>validateOperationGrant\<close> leaves of a grant, one guard at a time.\<close>

lemma validateOperationGrant_Inr:
  assumes "validateOperationGrant L g0 connection = Inr g"
  shows "og_version g = grantVersion" and "og_connection g = connection"
    and "og_id g \<noteq> []" and "og_tool g \<noteq> []" and "og_campaign g \<noteq> []"
    and "og_effect g = effectRead \<or> og_effect g = effectWrite"
    and "\<exists>p. SplitPrincipalKey (og_principal g) = Inr p"
    and "\<exists>t. parse_rfc3339 L (og_expires_at g) = Some t \<and> \<not> is_zero t"
    and "0 < og_max_requests g \<and> og_max_requests g \<le> maxGrantRequests"
    and "0 < og_max_response_bytes g \<and> og_max_response_bytes g < og_max_bytes g \<and> og_max_bytes g \<le> maxGrantBytes"
    and "0 < rate_requests (og_rate g) \<and> rate_requests (og_rate g) \<le> maxGrantRequests"
    and "0 < rate_window_s (og_rate g) \<and> rate_window_s (og_rate g) \<le> maxGrantRateWindow"
    and "length (og_arguments g) \<le> maxGrantEntries"
    and "check_arguments L [] 0 (og_arguments g) = None"
    and "check_targets L [] 0 (og_url_targets g) = None"
    and "check_target_refs (map ut_id (og_url_targets g)) 0 (og_arguments g) = None"
    and "\<exists>rs. check_resources [] 0 rs = Inr (og_resources g)"
  using assms unfolding validateOperationGrant_def trim_grant_def Let_def
  by (auto split: if_splits sum.splits option.splits)

lemma evaluateOperationGrant_Inr:
  assumes "evaluateOperationGrant L g caller campaign tool args now = Inr ev"
  obtains doc ids where "args = Some doc" and "caller = og_principal g" and "campaign = og_campaign g"
    and "campaign \<noteq> []" and "tool = og_tool g"
    and "now < (case parse_rfc3339 L (og_expires_at g) of None \<Rightarrow> 0 | Some t \<Rightarrow> t)"
    and "dup_value doc = None" and "rejectUngovernedArguments doc g = None"
    and "check_all (check_rule L doc (og_url_targets g)) (og_arguments g) = None"
    and "map_res (resource_id L g doc) (og_resources g) = Inr ids"
    and "eg_grant ev = g" and "grantDigest L g = Some (eg_digest ev)"
    and "eg_resource_ids ev = sort (map fst ids)"
    and "eg_shared_writable ev = sort (map fst (filter snd ids))"
  using assms unfolding evaluateOperationGrant_def
  by (auto split: if_splits option.splits sum.splits)

lemma validatePointer_neq_Nil: "validatePointer p = None \<Longrightarrow> p \<noteq> []"
  by (auto simp: validatePointer_def split: if_splits)

lemma ptr_of_take_neq_Nil: "ptr_of (take n p) \<noteq> [] \<Longrightarrow> take n p \<noteq> []"
  by (metis ptr_of_simps(1))

text \<open>A leaf under an argument rule that the call satisfied.\<close>

lemma leaf_under_rule:
  assumes fit: "arrays_fit doc" and dup: "dup_value doc = None"
    and rule: "check_rule L doc targets r = None" and r: "ag_pointer r = ptr_of (take n p)" "ag_pointer r \<noteq> []"
    and leaf: "(p, w) \<in> set (subtrees doc)" "is_leaf w"
  shows "\<exists>s. scalarString w = Some s \<and> check_value L r targets s = None"
proof -
  obtain u where u: "(take n p, u) \<in> set (subtrees doc)" "(drop n p, w) \<in> set (subtrees u)"
    using subtrees_split [OF leaf(1)] by blast
  have "pointerValue doc (ag_pointer r) = Some u"
    using pointerValue_subtrees [OF dup fit u(1)] r ptr_of_take_neq_Nil by metis
  with rule have ok: "flattenScalars u \<noteq> []" "check_all (check_value L r targets) (flattenScalars u) = None"
    by (auto simp: check_rule_def validateArgumentValue_def split: if_splits)
  from flattenScalars_leaf [OF ok(1) u(2) leaf(2)] ok(2) show ?thesis by (auto simp: check_all_None)
qed

lemma leaf_under_resource:
  assumes fit: "arrays_fit doc" and dup: "dup_value doc = None"
    and ok: "resource_value doc rs = Inr v" and rs: "rg_argument rs = ptr_of (take n p)" "rg_argument rs \<noteq> []"
    and leaf: "(p, w) \<in> set (subtrees doc)"
  shows "rg_argument rs = ptr_of p \<and> scalarString w = Some v"
proof -
  obtain u where u: "(take n p, u) \<in> set (subtrees doc)" "(drop n p, w) \<in> set (subtrees u)"
    using subtrees_split [OF leaf] by blast
  have "pointerValue doc (rg_argument rs) = Some u"
    using pointerValue_subtrees [OF dup fit u(1)] rs ptr_of_take_neq_Nil by metis
  with ok rs(2) have s: "scalarString u = Some v"
    by (auto simp: resource_value_def split: option.splits if_splits)
  from scalarString_leaf [OF s u(2)] have "drop n p = []" "w = u" by auto
  with rs(1) s show ?thesis by (metis append_Nil2 append_take_drop_id)
qed

lemma map_res_all: "map_res f xs = Inr ys \<Longrightarrow> x \<in> set xs \<Longrightarrow> \<exists>y \<in> set ys. f x = Inr y"
  by (induction xs arbitrary: ys) (auto split: sum.splits)

text \<open>
  C16. No argument escapes an operation grant. When an installed grant is evaluated for a call
  and the call is let through, the caller is the grant's principal, the campaign and the tool
  are the granted ones and the grant has not expired; and every scalar anywhere in the
  argument document is governed: it passed the byte bound, allowlist, pattern and URL checks
  of the argument rule on one of its enclosing pointers, or it is the value of a named
  resource. A null is never let through.
\<close>

theorem granted_arguments_governed:
  assumes installed: "validateOperationGrant L g0 connection = Inr g"
    and granted: "evaluateOperationGrant L g caller campaign tool (Some doc) now = Inr ev"
    and fit: "arrays_fit doc"
  shows "caller = og_principal g \<and> campaign = og_campaign g \<and> tool = og_tool g \<and>
    (\<exists>t. parse_rfc3339 L (og_expires_at g) = Some t \<and> now < t) \<and>
    (\<forall>p w. (p, w) \<in> set (subtrees doc) \<longrightarrow> is_leaf w \<longrightarrow>
       (\<exists>s. scalarString w = Some s \<and>
          ((\<exists>r \<in> set (og_arguments g). \<exists>n. ag_pointer r = ptr_of (take n p) \<and>
              check_value L r (og_url_targets g) s = None) \<or>
           (\<exists>r \<in> set (og_resources g). rg_argument r = ptr_of p \<and> resource_value doc r = Inr s))))"
proof -
  from granted obtain ids where ev: "caller = og_principal g" "campaign = og_campaign g" "tool = og_tool g"
    and now: "now < (case parse_rfc3339 L (og_expires_at g) of None \<Rightarrow> 0 | Some t \<Rightarrow> t)"
    and dup: "dup_value doc = None" and gov: "rejectUngovernedArguments doc g = None"
    and rules: "check_all (check_rule L doc (og_url_targets g)) (og_arguments g) = None"
    and ids: "map_res (resource_id L g doc) (og_resources g) = Inr ids"
    by (rule evaluateOperationGrant_Inr) auto
  have ptrs: "\<forall>r \<in> set (og_arguments g). ag_pointer r \<noteq> []"
    using check_arguments_None [OF validateOperationGrant_Inr(14) [OF installed]] validatePointer_neq_Nil by blast
  have "\<exists>s. scalarString w = Some s \<and>
      ((\<exists>r \<in> set (og_arguments g). \<exists>n. ag_pointer r = ptr_of (take n p) \<and>
          check_value L r (og_url_targets g) s = None) \<or>
       (\<exists>r \<in> set (og_resources g). rg_argument r = ptr_of p \<and> resource_value doc r = Inr s))"
    if leaf: "(p, w) \<in> set (subtrees doc)" "is_leaf w" for p w
  proof -
    from gov leaf obtain n where "ptr_of (take n p) \<in> set (allowed_pointers g)"
      by (auto simp: rejectUngovernedArguments_def visit_iff(1) all_under_def under_def)
    then consider r where "r \<in> set (og_arguments g)" "ag_pointer r = ptr_of (take n p)"
      | r where "r \<in> set (og_resources g)" "rg_argument r = ptr_of (take n p)" "rg_argument r \<noteq> []"
      by (auto simp: allowed_pointers_def)
    then show ?thesis
    proof cases
      case 1
      from 1(1) rules have "check_rule L doc (og_url_targets g) r = None" by (simp add: check_all_None)
      from leaf_under_rule [OF fit dup this 1(2) bspec [OF ptrs 1(1)] leaf] 1 show ?thesis by blast
    next
      case 2
      from map_res_all [OF ids 2(1)] obtain v where "resource_value doc r = Inr v"
        by (auto simp: resource_id_def split: sum.splits)
      with leaf_under_resource [OF fit dup this 2(2,3) leaf(1)] 2(1) show ?thesis by auto
    qed
  qed
  moreover have "\<exists>t. parse_rfc3339 L (og_expires_at g) = Some t \<and> now < t"
    using validateOperationGrant_Inr(8) [OF installed] now by auto
  ultimately show ?thesis using ev by blast
qed

text \<open>An example grant, its library and a call it governs.\<close>

definition example_url :: "string \<Rightarrow> url" where
  "example_url path = \<lparr>u_scheme = ''https'', u_host = ''api.example.com'', u_user = False, u_path = path,
     u_raw_path = [], u_escaped_path = path, u_raw_query = [], u_fragment = [],
     u_hostname = ''api.example.com'', u_port = []\<rparr>"

definition example_lib :: go_lib where
  "example_lib = \<lparr>url_parse = (\<lambda>s. if s = ''https://api.example.com'' then Some (example_url [])
       else if s = ''https://api.example.com/v1/items'' then Some (example_url ''/v1/items'') else None),
     is_ip_literal = (\<lambda>_. False), re_compiles = (\<lambda>_. True), re_matches = (\<lambda>_ v. v = ''blue''),
     to_lower = id, parse_rfc3339 = (\<lambda>s. if s = ''2030'' then Some 1000 else None),
     sha256 = id, marshal_grant = (\<lambda>g. Some (og_id g))\<rparr>"

definition example_grant :: operation_grant where
  "example_grant = \<lparr>og_version = grantVersion, og_id = ''g1'', og_connection = ''crm'', og_tool = ''fetch'',
     og_effect = effectWrite, og_principal = ''https://as#alice'', og_campaign = ''c1'', og_expires_at = ''2030'',
     og_arguments = [
       \<lparr>ag_pointer = ''/url'', ag_required = True, ag_values = [], ag_pattern = [], ag_max_bytes = 0,
         ag_url_target = ''t1''\<rparr>,
       \<lparr>ag_pointer = ''/tags'', ag_required = False, ag_values = [], ag_pattern = ''[a-z]+'',
         ag_max_bytes = 16, ag_url_target = []\<rparr>],
     og_resources = [\<lparr>rg_kind = ''doc'', rg_namespace = ''crm'', rg_argument = ''/id'', rg_value = [],
       rg_shared_writable = False\<rparr>],
     og_url_targets = [\<lparr>ut_id = ''t1'', ut_origins = [''https://api.example.com''], ut_paths = [''/v1''],
       ut_query = [], ut_redirect = False\<rparr>],
     og_max_requests = 10, og_max_bytes = 1000, og_max_response_bytes = 100,
     og_rate = \<lparr>rate_requests = 5, rate_window_s = 60\<rparr>, og_metadata = [], og_allow_shared = False,
     og_high_assurance = False\<rparr>"

definition example_doc :: json where
  "example_doc = JObj [(''url'', JStr ''https://api.example.com/v1/items''),
     (''tags'', JArr [JStr ''blue'']), (''id'', JNum ''7'')]"

definition example_evaluated :: evaluated_grant where
  "example_evaluated = (case evaluateOperationGrant example_lib example_grant ''https://as#alice'' ''c1''
     ''fetch'' (Some example_doc) 10 of Inr ev \<Rightarrow> ev | Inl _ \<Rightarrow>
       \<lparr>eg_grant = example_grant, eg_digest = [], eg_resource_ids = [], eg_shared_writable = []\<rparr>)"

lemma example_installed: "validateOperationGrant example_lib example_grant ''crm'' = Inr example_grant"
  by code_simp

lemma example_granted:
  "evaluateOperationGrant example_lib example_grant ''https://as#alice'' ''c1'' ''fetch''
     (Some example_doc) 10 = Inr example_evaluated"
  by code_simp

lemma example_fits: "arrays_fit example_doc"
  by (auto simp: arrays_fit_def example_doc_def subtrees.simps)

theorem granted_arguments_governed_witness:
  "\<exists>s. scalarString (JStr ''blue'') = Some s \<and>
     (\<exists>r \<in> set (og_arguments example_grant). check_value example_lib r (og_url_targets example_grant) s = None)"
proof -
  have "([''tags'', ''0''], JStr ''blue'') \<in> set (subtrees example_doc)" by code_simp
  then have "\<exists>s. scalarString (JStr ''blue'') = Some s \<and>
      ((\<exists>r \<in> set (og_arguments example_grant). \<exists>n. ag_pointer r = ptr_of (take n [''tags'', ''0'']) \<and>
          check_value example_lib r (og_url_targets example_grant) s = None) \<or>
       (\<exists>r \<in> set (og_resources example_grant).
          rg_argument r = ptr_of [''tags'', ''0''] \<and> resource_value example_doc r = Inr s))"
    using granted_arguments_governed [OF example_installed example_granted example_fits] is_leaf_simps(3)
    by blast
  moreover have "\<forall>r \<in> set (og_resources example_grant). rg_argument r \<noteq> ptr_of [''tags'', ''0'']"
    by code_simp
  ultimately show ?thesis by blast
qed

text \<open>
  C18. An installed grant is well formed and bounded: it names its tool on the connection it is
  installed for, its principal is a canonical caller key, its expiry parses, every budget is
  positive and within its ceiling with room for a request beside the largest response, no two
  rules have the same pointer, every rule constrains its value and one with a pattern bounds its
  length, every URL target exists once with origins that parse and path prefixes in normal form,
  and every resource is named once, by exactly one of an argument or a fixed value.
\<close>

theorem installed_grant_wellformed:
  assumes "validateOperationGrant L g0 connection = Inr g"
  shows "og_version g = grantVersion \<and> og_connection g = connection \<and> og_tool g \<noteq> [] \<and>
    (\<exists>i s. i \<noteq> [] \<and> s \<noteq> [] \<and> og_principal g = PrincipalKey i s) \<and>
    (\<exists>t. parse_rfc3339 L (og_expires_at g) = Some t) \<and>
    og_max_requests g \<in> {1..1000000} \<and> rate_requests (og_rate g) \<in> {1..1000000} \<and>
    og_max_response_bytes g \<in> {1..<og_max_bytes g} \<and> og_max_bytes g \<le> 2 ^ 40 \<and>
    rate_window_s (og_rate g) \<in> {1..31536000} \<and>
    distinct (map ag_pointer (og_arguments g)) \<and> distinct (map ut_id (og_url_targets g)) \<and>
    distinct (map resource_key (og_resources g)) \<and>
    (\<forall>r \<in> set (og_arguments g). (ag_values r \<noteq> [] \<or> ag_pattern r \<noteq> [] \<or> ag_url_target r \<noteq> []) \<and>
       (ag_pattern r = [] \<or> 0 < ag_max_bytes r) \<and>
       (ag_url_target r = [] \<or> ag_url_target r \<in> ut_id ` set (og_url_targets g))) \<and>
    (\<forall>t \<in> set (og_url_targets g). ut_origins t \<noteq> [] \<and>
       (\<forall>raw \<in> set (ut_origins t). \<exists>n. parseGrantOrigin L raw = Inr n) \<and>
       (\<forall>p \<in> set (ut_paths t). has_prefix p ''/'' \<and> path_clean p = p)) \<and>
    (\<forall>r \<in> set (og_resources g). (rg_argument r = []) \<noteq> (rg_value r = []))"
proof -
  note ok = validateOperationGrant_Inr [OF assms]
  from ok(7) obtain i s where "SplitPrincipalKey (og_principal g) = Inr (i, s)" by auto
  then have "i \<noteq> [] \<and> s \<noteq> [] \<and> og_principal g = PrincipalKey i s"
    using SplitPrincipalKey_canonical SplitPrincipalKey_PrincipalKey by (metis Inl_Inr_False)
  moreover note check_arguments_None [OF ok(14)] check_targets_None [OF ok(15)]
    check_target_refs_None [OF ok(16)]
  moreover obtain rs where "check_resources [] 0 rs = Inr (og_resources g)" using ok(17) by blast
  note check_resources_Inr [OF this]
  ultimately show ?thesis
    using ok(1-4,8-12) by (simp add: maxGrantRequests_def maxGrantBytes_def maxGrantRateWindow_def) blast
qed

theorem installed_grant_wellformed_witness:
  "og_max_response_bytes example_grant \<in> {1..<og_max_bytes example_grant} \<and>
   distinct (map ag_pointer (og_arguments example_grant))"
  using installed_grant_wellformed [OF example_installed] by blast

section \<open>Destinations\<close>

lemma parseGrantOrigin_neq_Nil: "parseGrantOrigin L raw = Inr n \<Longrightarrow> n \<noteq> []"
  by (auto simp: parseGrantOrigin_def Let_def split: option.splits if_splits)

definition plain_seg :: "string \<Rightarrow> bool" where
  "plain_seg g \<longleftrightarrow> g \<noteq> ''..'' \<and> g \<noteq> ''.'' \<and> CHR ''/'' \<notin> set g"

lemma clean_segs_plain:
  "list_all plain_seg st \<Longrightarrow> \<forall>g \<in> set gs. CHR ''/'' \<notin> set g \<Longrightarrow> list_all plain_seg (clean_segs True st gs)"
proof (induction gs arbitrary: st)
  case (Cons g gs)
  consider "g = []" | "g = ''.''" | "g = ''..''" | "g \<noteq> []" "g \<noteq> ''.''" "g \<noteq> ''..''" by blast
  then show ?case
  proof cases
    case 3
    with Cons show ?thesis by (cases st) (auto simp: plain_seg_def)
  next
    case 4
    with Cons show ?thesis by (auto simp: plain_seg_def)
  qed (use Cons in auto)
qed (simp add: list_all_iff)

text \<open>A rooted path that is its own normal form has no dot segment.\<close>

lemma clean_path_no_dots:
  assumes "path_clean p = p" and "has_prefix p ''/''"
  shows "''..'' \<notin> set (split_on (CHR ''/'') p)"
proof -
  let ?gs = "clean_segs True [] (split_on (CHR ''/'') p)"
  have plain: "list_all plain_seg ?gs"
    by (rule clean_segs_plain) (simp_all add: split_on_free)
  from assms have p: "p = CHR ''/'' # join_with ''/'' ?gs"
    by (auto simp: path_clean_def Let_def split: if_splits)
  show ?thesis
  proof (cases "?gs = []")
    case True
    with p have "p = ''/''" by simp
    then show ?thesis by simp
  next
    case False
    have "split_on (CHR ''/'') (join_with ''/'' ?gs) = ?gs"
      by (rule split_join [OF False]) (use plain in \<open>auto simp: list_all_iff plain_seg_def\<close>)
    then have "split_on (CHR ''/'') p = [] # ?gs" by (subst p) simp
    moreover have "''..'' \<notin> set ?gs" using plain by (auto simp: list_all_iff plain_seg_def)
    ultimately show ?thesis by (metis list.distinct(1) set_ConsD)
  qed
qed

lemma path_granted_iff:
  "path_granted p prefix \<longleftrightarrow> p = prefix \<or> (\<exists>rest. p = trim_suffix prefix ''/'' @ ''/'' @ rest)"
  by (simp add: path_granted_def has_prefix_iff)

lemma validateGrantedURL_None:
  assumes "validateGrantedURL L raw t = None"
  obtains u n where "url_parse L raw = Some u" and "u_scheme u = ''https''" and "\<not> u_user u"
    and "u_fragment u = []" and "\<not> is_ip_literal L (u_hostname u)"
    and "path_clean (u_path u) = u_path u" and "u_raw_path u = []"
    and "parseGrantOrigin L (''https://'' @ u_host u) = Inr n" and "\<exists>want \<in> set (ut_origins t). n = origin_or_empty L want"
    and "ut_paths t = [] \<or> (\<exists>p \<in> set (ut_paths t). path_granted (u_escaped_path u) p)"
    and "u_raw_query u = query_encode (ut_query t)"
  using assms unfolding validateGrantedURL_def
  by (auto simp: list_ex_iff split: option.splits if_splits sum.splits)

text \<open>
  C17. A value let through by an argument rule reaches only granted destinations. If it parses
  as a URL with a scheme and a host, or its rule names a URL target, then that target exists and
  the value is an \<open>https\<close> URL without user, fragment or IP literal, whose origin is the
  normal form of a granted origin, whose escaped path is a granted path or lies below one at a
  segment boundary, with no \<open>..\<close> segment, and whose query is exactly the granted one.
\<close>

theorem granted_url_safe:
  assumes ok: "check_value L r targets v = None"
    and url: "looksLikeURL L v \<or> ag_url_target r \<noteq> []"
  shows "\<exists>t u n. t \<in> set targets \<and> ut_id t = ag_url_target r \<and> url_parse L v = Some u \<and>
    u_scheme u = ''https'' \<and> \<not> u_user u \<and> u_fragment u = [] \<and> \<not> is_ip_literal L (u_hostname u) \<and>
    parseGrantOrigin L (''https://'' @ u_host u) = Inr n \<and>
    (\<exists>want \<in> set (ut_origins t). parseGrantOrigin L want = Inr n) \<and>
    (ut_paths t = [] \<or> (\<exists>p \<in> set (ut_paths t). u_escaped_path u = p \<or>
       (\<exists>rest. u_escaped_path u = trim_suffix p ''/'' @ ''/'' @ rest))) \<and>
    (has_prefix (u_path u) ''/'' \<longrightarrow> ''..'' \<notin> set (split_on (CHR ''/'') (u_path u))) \<and>
    u_raw_query u = query_encode (ut_query t)"
proof -
  from ok url have "ag_url_target r \<noteq> []"
    by (auto simp: check_value_def split: if_splits)
  with ok obtain t where t: "findURLTarget targets (ag_url_target r) = Some t" "validateGrantedURL L v t = None"
    by (auto simp: check_value_def split: if_splits option.splits)
  from t(2) obtain u n where u: "url_parse L v = Some u" "u_scheme u = ''https''" "\<not> u_user u"
      "u_fragment u = []" "\<not> is_ip_literal L (u_hostname u)" "path_clean (u_path u) = u_path u"
      "parseGrantOrigin L (''https://'' @ u_host u) = Inr n"
      "\<exists>want \<in> set (ut_origins t). n = origin_or_empty L want"
      "ut_paths t = [] \<or> (\<exists>p \<in> set (ut_paths t). path_granted (u_escaped_path u) p)"
      "u_raw_query u = query_encode (ut_query t)"
    by (rule validateGrantedURL_None) blast
  have "t \<in> set targets \<and> ut_id t = ag_url_target r"
    using t(1) by (auto simp: findURLTarget_def find_Some_iff in_set_conv_nth)
  moreover have "\<exists>want \<in> set (ut_origins t). parseGrantOrigin L want = Inr n"
  proof -
    from u(8) obtain want where want: "want \<in> set (ut_origins t)" "n = origin_or_empty L want" by blast
    with parseGrantOrigin_neq_Nil [OF u(7)] show ?thesis
      by (cases "parseGrantOrigin L want") (auto simp: origin_or_empty_def)
  qed
  ultimately show ?thesis
    using u(1-5,7,9,10) clean_path_no_dots [OF u(6)] unfolding path_granted_iff by blast
qed

theorem granted_url_safe_witness:
  "\<exists>t \<in> set (og_url_targets example_grant).
     ut_id t = ''t1'' \<and> (\<exists>u. url_parse example_lib ''https://api.example.com/v1/items'' = Some u)"
proof -
  have "check_value example_lib (hd (og_arguments example_grant)) (og_url_targets example_grant)
      ''https://api.example.com/v1/items'' = None"
    and "ag_url_target (hd (og_arguments example_grant)) = ''t1''" by code_simp+
  with granted_url_safe [OF this(1)] show ?thesis by auto
qed

section \<open>Resource identities\<close>

lemma resource_preimage_inject:
  assumes "resource_preimage o1 c1 k1 n1 v1 = resource_preimage o2 c2 k2 n2 v2"
    and "\<forall>s \<in> {o1, c1, k1, n1, o2, c2, k2, n2}. CHR 0x00 \<notin> set s"
  shows "o1 = o2 \<and> c1 = c2 \<and> k1 = k2 \<and> n1 = n2 \<and> v1 = v2"
  using assms unfolding resource_preimage_def by (auto dest!: sep_unique)

lemma hex_encode_inject: "hex_encode a = hex_encode b \<longleftrightarrow> a = b"
  by (metis hex_decode_encode option.inject)

text \<open>
  Resource identities separate owners and campaigns. Two evaluated resources get the same
  opaque identity only if they have the same privacy owner, campaign, kind, namespace and value,
  or their own two preimages differ and their SHA-256 digests agree on the first 16 bytes; and
  the owner of a shared writable resource is never the caller key of a principal, so a private
  resource and a shared one are never the same without such a collision. Names are free of NUL
  bytes, which separate the parts of the preimage.
\<close>

theorem resource_ids_isolated:
  assumes "resource_id L g1 doc1 r1 = Inr (i, b1)" and "resource_id L g2 doc2 r2 = Inr (i, b2)"
    and "SplitPrincipalKey (og_principal g1) = Inr p1" and "SplitPrincipalKey (og_principal g2) = Inr p2"
    and nul: "\<forall>s \<in> {og_principal g1, og_campaign g1, rg_kind r1, rg_namespace r1,
       og_principal g2, og_campaign g2, rg_kind r2, rg_namespace r2}. CHR 0x00 \<notin> set s"
  shows "og_campaign g1 = og_campaign g2 \<and> rg_kind r1 = rg_kind r2 \<and> rg_namespace r1 = rg_namespace r2 \<and>
      resource_value doc1 r1 = resource_value doc2 r2 \<and> rg_shared_writable r1 = rg_shared_writable r2 \<and>
      (rg_shared_writable r1 \<or> og_principal g1 = og_principal g2) \<or>
    (\<exists>v1 v2 x y. resource_value doc1 r1 = Inr v1 \<and> resource_value doc2 r2 = Inr v2 \<and>
      x = resource_preimage (privacy_owner g1 r1) (og_campaign g1) (rg_kind r1) (rg_namespace r1) v1 \<and>
      y = resource_preimage (privacy_owner g2 r2) (og_campaign g2) (rg_kind r2) (rg_namespace r2) v2 \<and>
      x \<noteq> y \<and> take 16 (sha256 L x) = take 16 (sha256 L y))"
proof -
  obtain v1 where v1: "resource_value doc1 r1 = Inr v1"
    "i = opaqueResourceID L (privacy_owner g1 r1) (og_campaign g1) (rg_kind r1) (rg_namespace r1) v1"
    using assms(1) by (auto simp: resource_id_def split: sum.splits)
  obtain v2 where v2: "resource_value doc2 r2 = Inr v2"
    "i = opaqueResourceID L (privacy_owner g2 r2) (og_campaign g2) (rg_kind r2) (rg_namespace r2) v2"
    using assms(2) by (auto simp: resource_id_def split: sum.splits)
  have "CHR ''#'' \<in> set (og_principal g1)" "CHR ''#'' \<in> set (og_principal g2)"
    using assms(3,4) SplitPrincipalKey_canonical hash_in_key by (metis surj_pair)+
  then have keys: "og_principal g1 \<noteq> ''shared-writable''" "og_principal g2 \<noteq> ''shared-writable''" by auto
  let ?x = "resource_preimage (privacy_owner g1 r1) (og_campaign g1) (rg_kind r1) (rg_namespace r1) v1"
  let ?y = "resource_preimage (privacy_owner g2 r2) (og_campaign g2) (rg_kind r2) (rg_namespace r2) v2"
  show ?thesis
  proof (cases "?x = ?y")
    case True
    have "privacy_owner g1 r1 = privacy_owner g2 r2 \<and> og_campaign g1 = og_campaign g2 \<and>
        rg_kind r1 = rg_kind r2 \<and> rg_namespace r1 = rg_namespace r2 \<and> v1 = v2"
      by (rule resource_preimage_inject [OF True]) (use nul in \<open>auto simp: privacy_owner_def\<close>)
    with v1(1) v2(1) keys show ?thesis by (auto simp: privacy_owner_def split: if_splits)
  next
    case False
    moreover have "take 16 (sha256 L ?x) = take 16 (sha256 L ?y)"
      using v1(2) v2(2) by (simp add: opaqueResourceID_def hex_encode_inject)
    ultimately show ?thesis using v1(1) v2(1) by blast
  qed
qed

definition example_doc2 :: json where
  "example_doc2 = JObj [(''id'', JStr ''7'')]"

theorem resource_ids_isolated_witness:
  "resource_value example_doc (hd (og_resources example_grant)) =
   resource_value example_doc2 (hd (og_resources example_grant))"
proof -
  let ?r = "hd (og_resources example_grant)"
  have r: "resource_id example_lib example_grant example_doc ?r = Inr (hd (eg_resource_ids example_evaluated), False)"
    "resource_id example_lib (example_grant\<lparr>og_id := ''g2''\<rparr>) example_doc2 ?r =
      Inr (hd (eg_resource_ids example_evaluated), False)"
    and k: "SplitPrincipalKey (og_principal example_grant) = Inr (''https://as'', ''alice'')"
    "SplitPrincipalKey (og_principal (example_grant\<lparr>og_id := ''g2''\<rparr>)) = Inr (''https://as'', ''alice'')"
    and n: "\<forall>s \<in> {og_principal example_grant, og_campaign example_grant, rg_kind ?r, rg_namespace ?r,
       og_principal (example_grant\<lparr>og_id := ''g2''\<rparr>), og_campaign (example_grant\<lparr>og_id := ''g2''\<rparr>),
       rg_kind ?r, rg_namespace ?r}. CHR 0x00 \<notin> set s"
    and v: "resource_value example_doc ?r = Inr ''7''" "resource_value example_doc2 ?r = Inr ''7''"
    by code_simp+
  from resource_ids_isolated [OF r k n] show ?thesis
    by (auto simp: v privacy_owner_def)
qed

end
