(* ===== verification/Ledger_Budgets.thy ===== *)
theory Ledger_Budgets
  imports Decision_Ledger Grant_Safety
begin

text \<open>
  The budgets of a grant over the life of a deployment: any sequence of authorizations and
  refusals, with every outcome of the disk, the signer and the secret store, and of restarts
  that reload the ledger. A crossing is \<open>permitted\<close> when \<open>authorizeDecision\<close> returned without
  an error; the theorem bounds the permitted crossings of one grant by its budgets.
\<close>

section \<open>What an append does\<close>

definition ext_by :: "decision_record \<Rightarrow> ledger_file \<Rightarrow> ledger_file \<Rightarrow> bool" where
  "ext_by r f f' \<longleftrightarrow> f' = f \<or> f' = f\<lparr>lf_exists := True\<rparr> \<or>
     (\<exists>x torn. (x = Garbage \<or> (\<exists>l. x = Line l \<and> dl_record l = r)) \<and> f' = glue f x torn)"

lemma defaultDecisionAppend_ext:
  "defaultDecisionAppend out line f = (f', ok) \<Longrightarrow> ext_by (dl_record line) f f' \<and>
   (ok \<longrightarrow> f' = glue f (Line line) False)"
  unfolding defaultDecisionAppend_def ext_by_def
  by (cases out rule: append_outcome.exhaust; cases "case out of WriteFailed p \<Rightarrow> p | _ \<Rightarrow> NoBytes") auto

lemma append_effect:
  assumes "appendDecisionLocked L s w r io = (s', w', e)"
  shows "ls_usage s' = ls_usage s" and "ls_load_err s' = ls_load_err s"
    and "ls_state_dir s' = ls_state_dir s" and "ls_signer s' = ls_signer s" and "ls_secrets s' = ls_secrets s"
    and "ext_by r (lw_file w) (lw_file w')"
    and "e = None \<Longrightarrow> ls_load_err s = [] \<and>
      (\<exists>l. dl_record l = r \<and> lw_file w' = glue (lw_file w) (Line l) False)"
proof -
  have same: "ext_by r f f" for f by (simp add: ext_by_def)
  have app: "defaultDecisionAppend out l f = (f', ok) \<Longrightarrow> dl_record l = r \<Longrightarrow> ext_by r f f' \<and>
      (ok \<longrightarrow> (\<exists>l. dl_record l = r \<and> f' = glue f (Line l) False))" for out l f f' ok
    using defaultDecisionAppend_ext [of out l f f' ok] by auto
  show "ls_usage s' = ls_usage s" "ls_load_err s' = ls_load_err s" "ls_state_dir s' = ls_state_dir s"
    "ls_signer s' = ls_signer s" "ls_secrets s' = ls_secrets s"
    using assms unfolding appendDecisionLocked_def Let_def
    by (auto split: if_splits option.splits prod.splits)
  show "ext_by r (lw_file w) (lw_file w')"
    using assms same unfolding appendDecisionLocked_def Let_def
    by (auto split: if_splits option.splits prod.splits dest!: app)
  show "e = None \<Longrightarrow> ls_load_err s = [] \<and>
      (\<exists>l. dl_record l = r \<and> lw_file w' = glue (lw_file w) (Line l) False)"
    using assms unfolding appendDecisionLocked_def Let_def
    by (auto split: if_splits option.splits prod.splits dest!: app)
qed

section \<open>Charges on disk\<close>

definition charges :: "string \<Rightarrow> decision_record \<Rightarrow> (time \<times> int) list" where
  "charges d r = (if dr_decision r = ''authorized'' \<and> dr_grant_digest r = d
     then [(dr_timestamp r, dr_reserved_bytes r)] else [])"

fun line_charges :: "string \<Rightarrow> decision_line file_line \<Rightarrow> (time \<times> int) list" where
  "line_charges d (Line l) = charges d (dl_record l)"
| "line_charges d Garbage = []"

definition file_charges :: "string \<Rightarrow> decision_line file_line list \<Rightarrow> (time \<times> int) list" where
  "file_charges d ls = concat (map (line_charges d) ls)"

lemma file_charges_simps [simp]:
  "file_charges d [] = []" "file_charges d (x # xs) = line_charges d x @ file_charges d xs"
  "file_charges d (xs @ ys) = file_charges d xs @ file_charges d ys"
  by (simp_all add: file_charges_def)

definition file_inv :: "string \<Rightarrow> int \<Rightarrow> nat \<Rightarrow> (time \<times> int) list \<Rightarrow> ledger_file \<Rightarrow> bool" where
  "file_inv d cap n P f \<longleftrightarrow>
     (lf_exists f \<or> lf_lines f = []) \<and> (lf_torn f \<longrightarrow> lf_lines f \<noteq> []) \<and> length (lf_lines f) \<le> n \<and>
     (\<forall>(t, b) \<in> set (file_charges d (lf_lines f)). 0 \<le> b \<and> b \<le> cap) \<and>
     (Garbage \<in> set (lf_lines f) \<or> mset P \<subseteq># mset (file_charges d (lf_lines f)))"

lemma file_charges_butlast: "set (file_charges d (butlast ls)) \<subseteq> set (file_charges d ls)"
  by (auto simp: file_charges_def dest: in_set_butlastD)

lemma file_inv_glue:
  assumes "file_inv d cap n P f" and "x = Garbage \<or> (\<exists>l. x = Line l \<and> dl_record l = r)"
    and "\<forall>(t, b) \<in> set (charges d r). 0 \<le> b \<and> b \<le> cap"
  shows "file_inv d cap (Suc n) P (glue f x torn)"
proof -
  have "\<forall>(t, b) \<in> set (line_charges d x). 0 \<le> b \<and> b \<le> cap" using assms(2,3) by auto
  moreover have "mset P \<subseteq># mset (file_charges d (lf_lines f)) + mset (line_charges d x)"
    if "mset P \<subseteq># mset (file_charges d (lf_lines f))"
    using that by (metis mset_subset_eq_add_left subset_mset.order_trans)
  ultimately show ?thesis
    using assms(1) file_charges_butlast [of d "lf_lines f"]
    by (cases "lf_torn f") (auto simp: file_inv_def glue_def)
qed

lemma file_inv_ext:
  assumes "file_inv d cap n P f" and "ext_by r f f'" and "\<forall>(t, b) \<in> set (charges d r). 0 \<le> b \<and> b \<le> cap"
  shows "file_inv d cap (Suc n) P f'"
proof -
  consider "f' = f" | "f' = f\<lparr>lf_exists := True\<rparr>"
    | x torn where "x = Garbage \<or> (\<exists>l. x = Line l \<and> dl_record l = r)" "f' = glue f x torn"
    using assms(2) unfolding ext_by_def by blast
  then show ?thesis
  proof cases
    case 3
    with file_inv_glue [OF assms(1) 3(1) assms(3)] show ?thesis by simp
  qed (use assms(1) in \<open>auto simp: file_inv_def\<close>)
qed

lemma file_inv_charge:
  assumes "file_inv d cap n P f" and "charges d (dl_record l) = [c]" and "0 \<le> snd c \<and> snd c \<le> cap"
  shows "file_inv d cap (Suc n) (P @ [c]) (glue f (Line l) False)"
proof -
  have "file_inv d cap (Suc n) P (glue f (Line l) False)"
    by (rule file_inv_glue [OF assms(1)]) (use assms(2,3) in auto)
  with assms(1,2) show ?thesis
    by (cases "lf_torn f") (auto simp: file_inv_def glue_def)
qed

section \<open>Reloading\<close>

text \<open>
  A process restart: the configuration is read again, the memory is empty, and the ledger is
  loaded from the disk. The file cannot be opened for another reason than its absence, it is read to
  its end, or the scan stops after some lines.
\<close>

datatype ledger_scan = WholeFile | StopsAfter nat | CannotOpen string

definition read_file :: "ledger_scan \<Rightarrow> ledger_file \<Rightarrow> ledger_read" where
  "read_file scan f =
     (case scan of
        CannotOpen e \<Rightarrow> ReadOpenError e
      | WholeFile \<Rightarrow> if lf_exists f then ReadLines (map read_line (lf_lines f)) None else ReadNotExist
      | StopsAfter n \<Rightarrow>
          if lf_exists f then ReadLines (take n (map read_line (lf_lines f))) (Some ''token too long'')
          else ReadNotExist)"

definition opened :: "ledger_scan \<Rightarrow> bool" where
  "opened scan = (case scan of CannotOpen e \<Rightarrow> False | _ \<Rightarrow> True)"

definition restart ::
    "ledger_lib \<Rightarrow> ledger \<Rightarrow> ledger_world \<Rightarrow> bool \<Rightarrow> bool \<Rightarrow> ledger_scan \<Rightarrow> bool \<Rightarrow> ledger" where
  "restart L s w signer secrets scan anchor_fails =
     loadDecisionLedger L
       \<lparr>ls_state_dir = ls_state_dir s, ls_signer = signer, ls_secrets = secrets, ls_load_err = [],
        ls_sequence = 0, ls_hash = [], ls_usage = []\<rparr>
       (read_file scan (lw_file w))
       (if anchor_fails then AnchorReadError
        else case lw_anchor w of None \<Rightarrow> AnchorNotFound | Some a \<Rightarrow> AnchorRead a)"

lemma load_lines_Inl: "load_lines L signer prev sq usage xs = Inl e \<Longrightarrow> e \<noteq> []"
  by (induction L signer prev sq usage xs rule: load_lines.induct) (auto split: if_splits)

lemma load_lines_Inr:
  "load_lines L signer prev sq usage xs = Inr (prev', sq', usage') \<Longrightarrow>
   \<exists>ls. xs = map Some ls \<and> usage' = foldl (\<lambda>u l. charge (dl_record l) u) usage ls"
proof (induction L signer prev sq usage xs rule: load_lines.induct)
  case (3 L signer prev sq usage l xs)
  then obtain ls where "xs = map Some ls" "usage' = foldl (\<lambda>u l. charge (dl_record l) u) (charge (dl_record l) usage) ls"
    by (auto split: if_splits)
  then have "Some l # xs = map Some (l # ls)" "usage' = foldl (\<lambda>u l. charge (dl_record l) u) usage (l # ls)" by simp_all
  then show ?case by (intro exI [of _ "l # ls"]) simp
qed simp_all

definition add_charge :: "grant_usage \<Rightarrow> time \<times> int \<Rightarrow> grant_usage" where
  "add_charge u c = \<lparr>us_requests = wrap64 (us_requests u + 1), us_bytes = wrap64 (us_bytes u + snd c),
     us_times = us_times u @ [fst c]\<rparr>"

definition look :: "(string \<times> grant_usage) list \<Rightarrow> string \<Rightarrow> grant_usage" where
  "look usage d = (case map_of usage d of None \<Rightarrow> no_usage | Some u \<Rightarrow> u)"

lemma look_charge:
  "d \<noteq> [] \<Longrightarrow> look (charge r usage) d = foldl add_charge (look usage d) (charges d r)"
  by (auto simp: look_def charge_def charges_def add_charge_def Let_def update_conv' split: option.splits)

lemma look_charges:
  "d \<noteq> [] \<Longrightarrow> look (foldl (\<lambda>u l. charge (dl_record l) u) usage ls) d =
     foldl add_charge (look usage d) (file_charges d (map Line ls))"
  by (induction ls arbitrary: usage) (simp_all add: look_charge)

lemma add_charges_nowrap:
  assumes "\<forall>c \<in> set cs. 0 \<le> snd c \<and> snd c \<le> 2 ^ 40" and "length cs < 2 ^ 22"
  shows "foldl add_charge no_usage cs =
     \<lparr>us_requests = int (length cs), us_bytes = sum_list (map snd cs), us_times = map fst cs\<rparr> \<and>
     0 \<le> sum_list (map snd cs) \<and> sum_list (map snd cs) \<le> int (length cs) * 2 ^ 40"
  using assms
proof (induction cs rule: rev_induct)
  case (snoc c cs)
  then have ih: "foldl add_charge no_usage cs =
     \<lparr>us_requests = int (length cs), us_bytes = sum_list (map snd cs), us_times = map fst cs\<rparr>"
     "0 \<le> sum_list (map snd cs)" "sum_list (map snd cs) \<le> int (length cs) * 2 ^ 40"
    and c: "0 \<le> snd c" "snd c \<le> 2 ^ 40" and n: "int (length cs) < 2 ^ 22" by auto
  have sum: "sum_list (map snd cs) + snd c \<le> int (length cs) * 2 ^ 40 + 2 ^ 40" using ih(3) c(2) by linarith
  also have "\<dots> \<le> 2 ^ 62" using n by simp
  finally have "in_int64 (sum_list (map snd cs) + snd c)" "in_int64 (int (length cs) + 1)"
    using ih(2) c(1) n by (simp_all add: in_int64_def)
  then have "add_charge (foldl add_charge no_usage cs) c =
      \<lparr>us_requests = int (length (cs @ [c])), us_bytes = sum_list (map snd (cs @ [c])), us_times = map fst (cs @ [c])\<rparr>"
    unfolding ih(1) by (simp add: add_charge_def wrap64_id)
  with ih(2) c(1) sum show ?case by (simp add: distrib_right)
qed (simp add: no_usage_def)

lemma length_file_charges: "length (file_charges d ls) \<le> length ls"
proof (induction ls)
  case (Cons x ls)
  then show ?case by (cases x) (auto simp: charges_def)
qed simp

lemma restart_usage:
  assumes "ls_load_err (restart L s w signer secrets scan fails) = []" and "d \<noteq> []"
    and inv: "file_inv d (2 ^ 40) n P (lw_file w)" and n: "n < 2 ^ 22" and dir: "ls_state_dir s \<noteq> []"
    and opened: "opened scan"
  shows "\<exists>cs. look (ls_usage (restart L s w signer secrets scan fails)) d =
     \<lparr>us_requests = int (length cs), us_bytes = sum_list (map snd cs), us_times = map fst cs\<rparr> \<and>
     mset P \<subseteq># mset cs \<and> length cs \<le> n \<and> (\<forall>c \<in> set cs. 0 \<le> snd c) \<and> 0 \<le> sum_list (map snd cs) \<and> sum_list (map snd cs) \<le> int (length cs) * 2 ^ 40"
proof (cases "lf_exists (lw_file w)")
  case False
  with inv have "mset P \<subseteq># mset []" by (auto simp: file_inv_def)
  moreover have "ls_usage (restart L s w signer secrets scan fails) = []"
    using False opened
    by (auto simp: restart_def loadDecisionLedger_def read_file_def opened_def split: option.splits ledger_scan.splits)
  ultimately show ?thesis
    by (intro exI [of _ "[]"]) (simp add: look_def no_usage_def)
next
  case True
  let ?f = "lw_file w"
  let ?s0 = "\<lparr>ls_state_dir = ls_state_dir s, ls_signer = signer, ls_secrets = secrets, ls_load_err = [],
        ls_sequence = 0, ls_hash = [], ls_usage = []\<rparr>"
  have path: "decisionLedgerPath ?s0 \<noteq> []" using dir by (simp add: decisionLedgerPath_def path_clean_def Let_def)
  from assms(1) True path opened have scan: "scan = WholeFile"
    by (auto simp: restart_def loadDecisionLedger_def read_file_def opened_def dest: load_lines_Inl
        split: option.splits sum.splits ledger_scan.splits)
  from assms(1) True path scan obtain prev sq usage where
    load: "load_lines L signer [] 0 [] (map read_line (lf_lines ?f)) = Inr (prev, sq, usage)"
    by (auto simp: restart_def loadDecisionLedger_def read_file_def dest: load_lines_Inl split: sum.splits)
  have u: "ls_usage (restart L s w signer secrets scan fails) = usage"
    using True path scan load
    by (auto simp: restart_def loadDecisionLedger_def read_file_def Let_def split: option.splits)
  from load_lines_Inr [OF load] obtain ls where ls: "map read_line (lf_lines ?f) = map Some ls"
    "usage = foldl (\<lambda>u l. charge (dl_record l) u) [] ls" by blast
  note lines = read_line_Some [OF ls(1)]
  let ?cs = "file_charges d (map Line ls)"
  have "length ?cs \<le> n" using inv length_file_charges [of d "map Line ls"] lines by (simp add: file_inv_def)
  moreover have "\<forall>c \<in> set ?cs. 0 \<le> snd c \<and> snd c \<le> 2 ^ 40" and "mset P \<subseteq># mset ?cs"
    using inv lines by (auto simp: file_inv_def)
  ultimately show ?thesis
    using add_charges_nowrap [of ?cs] n look_charges [OF assms(2), of "[]" ls] ls(2) u
    by (intro exI [of _ ?cs]) (simp add: look_def)
qed

section \<open>Authorizing\<close>

definition pruned_ledger :: "evaluated_grant \<Rightarrow> time \<Rightarrow> ledger \<Rightarrow> ledger" where
  "pruned_ledger ev now s =
     (case map_of (ls_usage s) (eg_digest ev) of None \<Rightarrow> s
      | Some u \<Rightarrow> s\<lparr>ls_usage := AList.update (eg_digest ev) (prune_times (eg_grant ev) now u) (ls_usage s)\<rparr>)"

lemma look_pruned:
  "look (ls_usage (pruned_ledger ev now s)) d =
     (if d = eg_digest ev then prune_times (eg_grant ev) now (look (ls_usage s) d) else look (ls_usage s) d)"
  by (auto simp: pruned_ledger_def look_def update_conv' prune_times_def no_usage_def split: option.splits)

lemma pruned_config [simp]:
  "ls_load_err (pruned_ledger ev now s) = ls_load_err s" "ls_state_dir (pruned_ledger ev now s) = ls_state_dir s"
  by (simp_all add: pruned_ledger_def split: option.splits)

definition reserved_bytes :: "evaluated_grant \<Rightarrow> int \<Rightarrow> int" where
  "reserved_bytes ev args_bytes = wrap64 (args_bytes + og_max_response_bytes (eg_grant ev))"

definition charged :: "evaluated_grant \<Rightarrow> int \<Rightarrow> time \<Rightarrow> ledger \<Rightarrow> ledger \<Rightarrow> ledger" where
  "charged ev args_bytes now s s2 = s2\<lparr>ls_usage := AList.update (eg_digest ev)
     (add_charge (prune_times (eg_grant ev) now (look (ls_usage s) (eg_digest ev)))
       (now, reserved_bytes ev args_bytes)) (ls_usage s2)\<rparr>"

lemma look_charged:
  "look (ls_usage (charged ev a now s s2)) d =
     (if d = eg_digest ev then add_charge (prune_times (eg_grant ev) now (look (ls_usage s) d)) (now, reserved_bytes ev a)
      else look (ls_usage s2) d)"
  by (simp add: charged_def look_def update_conv')

lemma authorize_cases:
  assumes "authorizeDecision L s w ev a now io = (s', w', e)"
  obtains (refused) s1 reason e' where "s1 = s \<or> s1 = pruned_ledger ev now s"
      "refuseDecisionLocked L s1 w (og_principal (eg_grant ev)) (og_campaign (eg_grant ev)) (og_connection (eg_grant ev))
         (og_tool (eg_grant ev)) (og_id (eg_grant ev)) (eg_digest ev) reason now io = (s', w', e')" "e = Some e'"
    | (failed) err where
      "wrap64 (us_bytes (look (ls_usage s) (eg_digest ev)) + reserved_bytes ev a) \<le> og_max_bytes (eg_grant ev)"
      "appendDecisionLocked L (pruned_ledger ev now s) w
         (authorization_record ev a (reserved_bytes ev a) now) io = (s', w', Some err)" "e = Some (LedgerUnavailable err)"
    | (granted) s2 where
      "wrap64 (us_requests (look (ls_usage s) (eg_digest ev)) + 1) \<le> og_max_requests (eg_grant ev)"
      "wrap64 (us_bytes (look (ls_usage s) (eg_digest ev)) + reserved_bytes ev a) \<le> og_max_bytes (eg_grant ev)"
      "wrap64 (int (length (us_times (prune_times (eg_grant ev) now (look (ls_usage s) (eg_digest ev))))) + 1)
         \<le> rate_requests (og_rate (eg_grant ev))"
      "appendDecisionLocked L (pruned_ledger ev now s) w
         (authorization_record ev a (reserved_bytes ev a) now) io = (s2, w', None)"
      "s' = charged ev a now s s2" "e = None"
proof -
  let ?u = "look (ls_usage s) (eg_digest ev)" and ?g = "eg_grant ev"
  have u: "usage_of s (eg_digest ev) = ?u" by (simp add: usage_of_def look_def)
  have p: "(case map_of (ls_usage s) (eg_digest ev) of None \<Rightarrow> s
      | Some _ \<Rightarrow> s\<lparr>ls_usage := AList.update (eg_digest ev) (prune_times ?g now ?u) (ls_usage s)\<rparr>) = pruned_ledger ev now s"
    by (simp add: pruned_ledger_def look_def split: option.splits)
  note def = authorizeDecision_def [of L s w ev a now io, unfolded Let_def u p, folded reserved_bytes_def]
  show thesis
    using assms refused failed granted unfolding def charged_def add_charge_def
    by (auto split: if_splits prod.splits option.splits)
qed

section \<open>One grant's budgets\<close>

definition window_of :: "operation_grant \<Rightarrow> duration" where
  "window_of g = rate_window_s (og_rate g) * second"

text \<open>
  The crossings of a grant, each with its time and the bytes reserved for it, stay within the
  grant: their number, their bytes, and at every crossing the number in the window it ends.
\<close>

definition within_budget :: "operation_grant \<Rightarrow> (time \<times> int) list \<Rightarrow> bool" where
  "within_budget g P \<longleftrightarrow>
     int (length P) \<le> og_max_requests g \<and> sum_list (map snd P) \<le> og_max_bytes g \<and>
     (\<forall>t \<in> fst ` set P. int (length (filter (\<lambda>t'. t - window_of g < t' \<and> t' \<le> t) (map fst P)))
        \<le> rate_requests (og_rate g))"

definition grant_bounded :: "operation_grant \<Rightarrow> bool" where
  "grant_bounded g \<longleftrightarrow> 0 < og_max_requests g \<and> 0 < og_max_bytes g \<and> og_max_bytes g \<le> 2 ^ 40 \<and>
     0 < og_max_response_bytes g \<and> og_max_response_bytes g < og_max_bytes g \<and>
     0 < rate_requests (og_rate g) \<and> 0 < rate_window_s (og_rate g) \<and> rate_window_s (og_rate g) \<le> 31536000"

definition usage_inv :: "operation_grant \<Rightarrow> nat \<Rightarrow> time \<Rightarrow> (time \<times> int) list \<Rightarrow> grant_usage \<Rightarrow> bool" where
  "usage_inv g n clock P u \<longleftrightarrow>
     int (length P) \<le> us_requests u \<and> us_requests u \<le> int n \<and>
     sum_list (map snd P) \<le> us_bytes u \<and> 0 \<le> us_bytes u \<and> us_bytes u \<le> int n * 2 ^ 40 \<and>
     length (us_times u) \<le> n \<and>
     mset (filter (\<lambda>t. clock - window_of g < t) (map fst P)) \<subseteq># mset (us_times u)"

lemma window_wrap: "grant_bounded g \<Longrightarrow> wrap64 (rate_window_s (og_rate g) * second) = window_of g"
  unfolding window_of_def by (rule wrap64_id) (auto simp: grant_bounded_def in_int64_def)

lemma filter_mset_later:
  assumes "clock \<le> now" and "mset (filter (\<lambda>t. clock - w < t) xs) \<subseteq># mset ys"
  shows "mset (filter (\<lambda>t. now - w < t) xs) \<subseteq># mset (filter (\<lambda>t. now - w < (t :: int)) ys)"
proof -
  have "filter (\<lambda>t. now - w < t) xs = filter (\<lambda>t. now - w < t) (filter (\<lambda>t. clock - w < t) xs)"
    using assms(1) by (auto intro: filter_cong)
  then have "mset (filter (\<lambda>t. now - w < t) xs) =
      filter_mset (\<lambda>t. now - w < t) (mset (filter (\<lambda>t. clock - w < t) xs))"
    by (metis mset_filter)
  then show ?thesis using multiset_filter_mono [OF assms(2), of "\<lambda>t. now - w < t"] by (simp only: mset_filter)
qed

lemma usage_inv_later:
  assumes "usage_inv g n clock P u" and "clock \<le> now" and "n \<le> m"
  shows "usage_inv g m now P u"
proof -
  have "mset (filter (\<lambda>t. now - window_of g < t) (map fst P)) \<subseteq># mset (us_times u)"
    using filter_mset_later [OF assms(2), of "window_of g" "map fst P" "us_times u"] assms(1)
      multiset_filter_subset [of _ "mset (us_times u)"]
    by (auto simp: usage_inv_def intro: subset_mset.order_trans)
  with assms(1,3) show ?thesis
    by (auto simp: usage_inv_def intro: order_trans [OF _ mult_right_mono])
qed

lemma usage_inv_prune:
  assumes "usage_inv g n clock P u" and "clock \<le> now" and "n \<le> m" and "grant_bounded g"
  shows "usage_inv g m now P (prune_times g now u)"
proof -
  have "mset (filter (\<lambda>t. now - window_of g < t) (map fst P)) \<subseteq># mset (us_times (prune_times g now u))"
    using filter_mset_later [OF assms(2), of "window_of g" "map fst P" "us_times u"] assms(1,4)
    by (simp add: usage_inv_def prune_times_def window_wrap)
  moreover have "length (us_times (prune_times g now u)) \<le> length (us_times u)"
    by (simp add: prune_times_def)
  moreover have "us_requests (prune_times g now u) = us_requests u" "us_bytes (prune_times g now u) = us_bytes u"
    by (simp_all add: prune_times_def)
  ultimately show ?thesis using usage_inv_later [OF assms(1-3)] assms(1,3) by (auto simp: usage_inv_def)
qed

lemma window_count:
  assumes "\<forall>t \<in> set ts. t \<le> now" and "mset (filter (\<lambda>t. now - w < t) ts) \<subseteq># mset us"
  shows "length (filter (\<lambda>t. now - w < t \<and> t \<le> (now :: int)) ts) \<le> length us"
proof -
  have "filter (\<lambda>t. now - w < t \<and> t \<le> now) ts = filter (\<lambda>t. now - w < t) ts"
    using assms(1) by (auto intro: filter_cong)
  then show ?thesis using size_mset_mono [OF assms(2)] by (simp only: size_mset)
qed

lemma permit_bytes:
  assumes u: "usage_inv g n now P u" and n: "n < 2 ^ 22" and g: "grant_bounded g" and b: "0 \<le> b" "b < 2 ^ 62"
    and ok: "wrap64 (us_bytes u + b) \<le> og_max_bytes g"
  shows "in_int64 (us_bytes u + b)" and "us_bytes u + b \<le> og_max_bytes g" and "b \<le> 2 ^ 40"
proof -
  have "us_bytes u \<le> int n * 2 ^ 40" and "int n < 2 ^ 22" and pos: "0 \<le> us_bytes u"
    using u n by (simp_all add: usage_inv_def)
  then have "us_bytes u < 2 ^ 62" by simp
  with pos b show int64: "in_int64 (us_bytes u + b)" by (simp add: in_int64_def)
  from ok show le: "us_bytes u + b \<le> og_max_bytes g" by (simp add: wrap64_id [OF int64])
  from le pos g show "b \<le> 2 ^ 40" by (simp add: grant_bounded_def)
qed

lemma permit:
  assumes u: "usage_inv g n now P u" and n: "n < 2 ^ 22" and times: "\<forall>t \<in> fst ` set P. t \<le> now"
    and g: "grant_bounded g" and P: "within_budget g P" and b: "0 \<le> b" "b < 2 ^ 62"
    and ok: "wrap64 (us_requests u + 1) \<le> og_max_requests g" "wrap64 (us_bytes u + b) \<le> og_max_bytes g"
      "wrap64 (int (length (us_times u)) + 1) \<le> rate_requests (og_rate g)"
  shows "within_budget g (P @ [(now, b)])" and "usage_inv g (Suc n) now (P @ [(now, b)]) (add_charge u (now, b))"
proof -
  note bytes = permit_bytes [OF u n g b ok(2)]
  have "us_requests u \<le> int n" "0 \<le> us_requests u" "length (us_times u) \<le> n" "int n < 2 ^ 22"
    using u n by (simp_all add: usage_inv_def)
  then have int64: "in_int64 (us_requests u + 1)" "in_int64 (us_bytes u + b)" "in_int64 (int (length (us_times u)) + 1)"
    using bytes(1) by (simp_all add: in_int64_def)
  note ok' = ok(1) [unfolded wrap64_id [OF int64(1)]] bytes(2) ok(3) [unfolded wrap64_id [OF int64(3)]]
  have now: "length (filter (\<lambda>t'. now - window_of g < t' \<and> t' \<le> now) (map fst P)) \<le> length (us_times u)"
    by (rule window_count) (use times u in \<open>auto simp: usage_inv_def\<close>)
  have "int (length (filter (\<lambda>t'. t - window_of g < t' \<and> t' \<le> t) (map fst (P @ [(now, b)])))) \<le> rate_requests (og_rate g)"
    if t: "t \<in> fst ` set (P @ [(now, b)])" for t
  proof (cases "t = now")
    case True
    with now ok'(3) show ?thesis by simp
  next
    case False
    with t times have "t < now" "t \<in> fst ` set P" by force+
    with P show ?thesis by (auto simp: within_budget_def)
  qed
  with ok'(1,2) u show "within_budget g (P @ [(now, b)])" by (auto simp: within_budget_def usage_inv_def)
  have "0 < window_of g" using g by (simp add: window_of_def grant_bounded_def)
  with u b bytes(3) show "usage_inv g (Suc n) now (P @ [(now, b)]) (add_charge u (now, b))"
    by (auto simp: usage_inv_def add_charge_def wrap64_id [OF int64(1)] wrap64_id [OF int64(2)] distrib_right)
qed

section \<open>Deployments\<close>

record system =
  sy_ledger :: ledger
  sy_world :: ledger_world
  sy_clock :: time
  sy_count :: nat
  sy_permitted :: "(string \<times> time \<times> int) list"

text \<open>Operations carry how much later than the previous one they happen.\<close>

datatype ledger_op =
    Authorize evaluated_grant int nat ledger_io
  | Refuse string string string string string string string nat ledger_io
  | Restart bool bool ledger_scan bool nat

fun system_step :: "ledger_lib \<Rightarrow> system \<Rightarrow> ledger_op \<Rightarrow> system" where
  "system_step L y (Authorize ev args_bytes delay io) =
     (let now = sy_clock y + int delay
      in case authorizeDecision L (sy_ledger y) (sy_world y) ev args_bytes now io of
        (s, w, e) \<Rightarrow>
          \<lparr>sy_ledger = s, sy_world = w, sy_clock = now, sy_count = Suc (sy_count y),
           sy_permitted = sy_permitted y @
             (if e = None then [(eg_digest ev, now, reserved_bytes ev args_bytes)] else [])\<rparr>)"
| "system_step L y (Refuse owner campaign connection operation grant_id digest reason delay io) =
     (let now = sy_clock y + int delay
      in case refuseDecision L (sy_ledger y) (sy_world y) owner campaign connection operation grant_id digest
          reason now io of
        (s, w, e) \<Rightarrow>
          \<lparr>sy_ledger = s, sy_world = w, sy_clock = now, sy_count = Suc (sy_count y),
           sy_permitted = sy_permitted y\<rparr>)"
| "system_step L y (Restart signer secrets scan anchor_fails delay) =
     y\<lparr>sy_ledger := restart L (sy_ledger y) (sy_world y) signer secrets scan anchor_fails,
       sy_clock := sy_clock y + int delay, sy_count := Suc (sy_count y)\<rparr>"

definition crossings :: "string \<Rightarrow> system \<Rightarrow> (time \<times> int) list" where
  "crossings d y = map snd (filter (\<lambda>c. fst c = d) (sy_permitted y))"

definition system_inv :: "string \<Rightarrow> operation_grant \<Rightarrow> system \<Rightarrow> bool" where
  "system_inv d g y \<longleftrightarrow> ls_state_dir (sy_ledger y) \<noteq> [] \<and> (sy_count y < 2 ^ 22 \<longrightarrow>
     within_budget g (crossings d y) \<and> (\<forall>t \<in> fst ` set (crossings d y). t \<le> sy_clock y) \<and>
     file_inv d (2 ^ 40) (sy_count y) (crossings d y) (lw_file (sy_world y)) \<and>
     (ls_load_err (sy_ledger y) = [] \<longrightarrow>
        usage_inv g (sy_count y) (sy_clock y) (crossings d y) (look (ls_usage (sy_ledger y)) d)))"

text \<open>
  The operations the theorem is about: the digest of the grant is the digest of no other grant
  (its collision resistance), an argument document has fewer than 2^61 bytes, and a restart can
  open the ledger file (otherwise the usage starts again at zero).
\<close>

fun admitted_op :: "string \<Rightarrow> operation_grant \<Rightarrow> ledger_op \<Rightarrow> bool" where
  "admitted_op d g (Authorize ev args_bytes delay io) =
     ((eg_digest ev = d \<longrightarrow> eg_grant ev = g) \<and> 0 \<le> args_bytes \<and> args_bytes < 2 ^ 61)"
| "admitted_op d g (Restart signer secrets scan anchor_fails delay) = opened scan"
| "admitted_op d g _ = True"

lemma append_untrusted:
  "appendDecisionLocked L s w r io = (s', w', e) \<Longrightarrow> ls_load_err s \<noteq> [] \<Longrightarrow> s' = s \<and> w' = w"
  by (simp add: appendDecisionLocked_def)

lemma refuse_effect:
  assumes "refuseDecisionLocked L s w pr ca co op gi di re now io = (s', w', e)"
  shows "ls_usage s' = ls_usage s" and "ls_load_err s' = ls_load_err s" and "ls_state_dir s' = ls_state_dir s"
    and "ext_by (refusal_record pr ca co op gi di re now) (lw_file w) (lw_file w')"
proof -
  obtain e' where "appendDecisionLocked L s w (refusal_record pr ca co op gi di re now) io = (s', w', e')"
    using assms by (auto simp: refuseDecisionLocked_def split: prod.splits option.splits)
  note eff = append_effect [OF this]
  show "ls_usage s' = ls_usage s" "ls_load_err s' = ls_load_err s" "ls_state_dir s' = ls_state_dir s"
    "ext_by (refusal_record pr ca co op gi di re now) (lw_file w) (lw_file w')"
    by (fact eff)+
qed

lemma charges_refusal [simp]: "charges d (refusal_record pr ca co op gi di re now) = []"
  by (simp add: charges_def refusal_record_def)

lemma charges_authorization [simp]:
  "charges d (authorization_record ev a b now) = (if eg_digest ev = d then [(now, b)] else [])"
  by (simp add: charges_def authorization_record_def Let_def)

lemma reserved_range:
  assumes "grant_bounded (eg_grant ev)" and "0 \<le> a" and "a < 2 ^ 61"
  shows "reserved_bytes ev a = a + og_max_response_bytes (eg_grant ev)" and "0 \<le> reserved_bytes ev a" and "reserved_bytes ev a < 2 ^ 62"
proof -
  have "in_int64 (a + og_max_response_bytes (eg_grant ev))" "a + og_max_response_bytes (eg_grant ev) < 2 ^ 62"
    using assms by (auto simp: grant_bounded_def in_int64_def)
  with assms show "reserved_bytes ev a = a + og_max_response_bytes (eg_grant ev)"
    "0 \<le> reserved_bytes ev a" "reserved_bytes ev a < 2 ^ 62"
    by (auto simp: reserved_bytes_def wrap64_id grant_bounded_def)
qed

text \<open>The parts of the invariant that an operation without a crossing keeps.\<close>

lemma system_inv_quiet:
  assumes inv: "system_inv d g y" and "ls_state_dir s = ls_state_dir (sy_ledger y)" and "sy_clock y \<le> now"
    and ext: "Suc (sy_count y) < 2 ^ 22 \<Longrightarrow> file_inv d (2 ^ 40) (Suc (sy_count y)) (crossings d y) (lw_file w)"
    and usage: "Suc (sy_count y) < 2 ^ 22 \<Longrightarrow> ls_load_err s = [] \<Longrightarrow>
      usage_inv g (Suc (sy_count y)) now (crossings d y) (look (ls_usage s) d)"
  shows "system_inv d g \<lparr>sy_ledger = s, sy_world = w, sy_clock = now, sy_count = Suc (sy_count y),
    sy_permitted = sy_permitted y\<rparr>"
  using assms by (force simp: system_inv_def crossings_def)

lemma sum_list_submset:
  assumes "mset P \<subseteq># mset cs" and "\<forall>c \<in> set cs. 0 \<le> snd c"
  shows "sum_list (map snd P) \<le> sum_list (map (snd :: _ \<Rightarrow> int) cs)"
proof -
  obtain R where R: "mset cs = mset P + R" using assms(1) by (metis mset_subset_eq_exists_conv)
  then have "sum_list (map snd cs) = sum_list (map snd P) + sum_mset (image_mset snd R)"
    by (metis image_mset_union mset_map sum_mset.union sum_mset_sum_list)
  moreover have "\<forall>c \<in># R. 0 \<le> snd c" using assms(2) R by (metis set_mset_mset union_iff)
  then have "0 \<le> sum_mset (image_mset snd R)" by (induction R) auto
  ultimately show ?thesis by simp
qed

lemma restart_config: "ls_state_dir (restart L s w signer secrets scan fails) = ls_state_dir s"
  by (auto simp: restart_def loadDecisionLedger_def Let_def
      split: ledger_read.splits anchor_read.splits sum.splits option.splits)

lemma restart_inv:
  assumes inv: "system_inv d g y" and d: "d \<noteq> []" and g: "grant_bounded g" and opened: "opened scan"
  shows "system_inv d g (system_step L y (Restart signer secrets scan fails delay))"
proof -
  let ?s = "restart L (sy_ledger y) (sy_world y) signer secrets scan fails" and ?P = "crossings d y"
    and ?n = "sy_count y" and ?now = "sy_clock y + int delay"
  have f: "Suc ?n < 2 ^ 22 \<Longrightarrow> file_inv d (2 ^ 40) ?n ?P (lw_file (sy_world y))"
    using inv by (simp add: system_inv_def)
  have u: "usage_inv g (Suc ?n) ?now ?P (look (ls_usage ?s) d)"
    if n: "Suc ?n < 2 ^ 22" and ok: "ls_load_err ?s = []"
  proof -
    have "?n < 2 ^ 22" and "ls_state_dir (sy_ledger y) \<noteq> []" using n inv by (simp_all add: system_inv_def)
    from restart_usage [OF ok d f [OF n] this opened] obtain cs where cs: "look (ls_usage ?s) d =
        \<lparr>us_requests = int (length cs), us_bytes = sum_list (map snd cs), us_times = map fst cs\<rparr>"
        "mset ?P \<subseteq># mset cs" "length cs \<le> ?n" "0 \<le> sum_list (map snd cs)"
        "sum_list (map snd cs) \<le> int (length cs) * 2 ^ 40" and pos: "\<forall>c \<in> set cs. 0 \<le> snd c"
      by blast
    have "int (length cs) * 2 ^ 40 \<le> int (Suc ?n) * 2 ^ 40" using cs(3) by simp
    moreover have "mset (filter (\<lambda>t. ?now - window_of g < t) (map fst ?P)) \<subseteq># mset (map fst cs)"
      using image_mset_subseteq_mono [OF cs(2), of fst] multiset_filter_subset subset_mset.order_trans
      by (metis mset_filter mset_map)
    ultimately show ?thesis
      using cs(1,3-5) size_mset_mono [OF cs(2)] sum_list_submset [OF cs(2) pos] by (simp add: usage_inv_def)
  qed
  have f': "Suc ?n < 2 ^ 22 \<Longrightarrow> file_inv d (2 ^ 40) (Suc ?n) ?P (lw_file (sy_world y))"
    using f by (simp add: file_inv_def)
  have step: "system_step L y (Restart signer secrets scan fails delay) =
      \<lparr>sy_ledger = ?s, sy_world = sy_world y, sy_clock = ?now, sy_count = Suc ?n, sy_permitted = sy_permitted y\<rparr>"
    by simp
  show ?thesis unfolding step
    by (rule system_inv_quiet [OF inv restart_config _ f' u]) simp_all
qed

lemma refuse_inv:
  assumes inv: "system_inv d g y"
  shows "system_inv d g (system_step L y (Refuse pr ca co op gi di re delay io))"
proof -
  let ?now = "sy_clock y + int delay"
  obtain s w e where r: "refuseDecisionLocked L (sy_ledger y) (sy_world y) pr ca co op gi di re ?now io = (s, w, e)"
    by (metis prod_cases3)
  note eff = refuse_effect [OF r]
  have "system_inv d g \<lparr>sy_ledger = s, sy_world = w, sy_clock = ?now, sy_count = Suc (sy_count y),
      sy_permitted = sy_permitted y\<rparr>"
  proof (rule system_inv_quiet [OF inv eff(3)])
    assume n: "Suc (sy_count y) < 2 ^ 22"
    then have f: "file_inv d (2 ^ 40) (sy_count y) (crossings d y) (lw_file (sy_world y))"
      using inv by (simp add: system_inv_def)
    show "file_inv d (2 ^ 40) (Suc (sy_count y)) (crossings d y) (lw_file w)"
      by (rule file_inv_ext [OF f eff(4)]) simp
    assume "ls_load_err s = []"
    with inv n eff(2) have "usage_inv g (sy_count y) (sy_clock y) (crossings d y) (look (ls_usage (sy_ledger y)) d)"
      by (simp add: system_inv_def)
    then show "usage_inv g (Suc (sy_count y)) ?now (crossings d y) (look (ls_usage s) d)"
      unfolding eff(1) by (rule usage_inv_later) simp_all
  qed simp
  with r show ?thesis by (simp add: refuseDecision_def Let_def)
qed

lemma authorize_inv:
  assumes inv: "system_inv d g y" and g: "grant_bounded g" and adm: "admitted_op d g (Authorize ev a delay io)"
  shows "system_inv d g (system_step L y (Authorize ev a delay io))"
proof -
  let ?now = "sy_clock y + int delay" and ?s = "sy_ledger y" and ?n = "sy_count y" and ?P = "crossings d y"
  let ?r = "authorization_record ev a (reserved_bytes ev a) ?now"
  obtain s w e where r: "authorizeDecision L ?s (sy_world y) ev a ?now io = (s, w, e)"
    by (metis prod_cases3)
  have step: "system_step L y (Authorize ev a delay io) =
      \<lparr>sy_ledger = s, sy_world = w, sy_clock = ?now, sy_count = Suc ?n, sy_permitted = sy_permitted y @
        (if e = None then [(eg_digest ev, ?now, reserved_bytes ev a)] else [])\<rparr>"
    using r by (simp add: Let_def)
  have f: "file_inv d (2 ^ 40) ?n ?P (lw_file (sy_world y))" if "Suc ?n < 2 ^ 22"
    using inv that by (simp add: system_inv_def)
  have u0: "usage_inv g ?n (sy_clock y) ?P (look (ls_usage ?s) d)" if "Suc ?n < 2 ^ 22" "ls_load_err ?s = []"
    using inv that by (simp add: system_inv_def)
  have up: "usage_inv g ?n ?now ?P (look (ls_usage (pruned_ledger ev ?now ?s)) d)"
    if "Suc ?n < 2 ^ 22" "ls_load_err ?s = []"
    using usage_inv_prune [OF u0 [OF that] _ _ g] usage_inv_later [OF u0 [OF that]] adm
    by (auto simp: look_pruned)
  have u1: "usage_inv g (Suc ?n) ?now ?P (look (ls_usage s1) d)"
    if "Suc ?n < 2 ^ 22" "ls_load_err ?s = []" "s1 = ?s \<or> s1 = pruned_ledger ev ?now ?s" for s1
    using usage_inv_later [OF u0 [OF that(1,2)]] usage_inv_later [OF up [OF that(1,2)]] that(3) by auto
  have permitted: "usage_inv g ?n ?now ?P u" "\<forall>t \<in> fst ` set ?P. t \<le> ?now" "within_budget g ?P"
    "0 \<le> reserved_bytes ev a" "reserved_bytes ev a < 2 ^ 62"
    if "Suc ?n < 2 ^ 22" "ls_load_err ?s = []" "eg_digest ev = d"
      "u = prune_times g ?now (look (ls_usage ?s) d)" for u
    using up [OF that(1,2)] that adm inv reserved_range [of ev a] g
    by (auto simp: look_pruned system_inv_def)
  from r show ?thesis
  proof (cases rule: authorize_cases)
    case (refused s1 reason e')
    note eff = refuse_effect [OF refused(2)]
    have dir: "ls_state_dir s = ls_state_dir ?s" "ls_load_err s = ls_load_err ?s" using eff(2,3) refused(1) by auto
    have "system_inv d g \<lparr>sy_ledger = s, sy_world = w, sy_clock = ?now, sy_count = Suc ?n, sy_permitted = sy_permitted y\<rparr>"
      by (rule system_inv_quiet [OF inv dir(1)])
        (use file_inv_ext [OF f eff(4)] u1 [OF _ _ refused(1)] dir(2) eff(1) in auto)
    with step refused(3) show ?thesis by simp
  next
    case (failed err)
    note eff = append_effect [OF failed(2), unfolded pruned_config]
    have fi: "file_inv d (2 ^ 40) (Suc ?n) ?P (lw_file w)" if n: "Suc ?n < 2 ^ 22"
    proof (cases "ls_load_err ?s = []")
      case True
      have "reserved_bytes ev a \<le> 2 ^ 40" "0 \<le> reserved_bytes ev a" if d: "eg_digest ev = d"
      proof -
        note pm = permitted [OF n True d refl]
        have "eg_grant ev = g" using adm d by simp
        with failed(1) d have "wrap64 (us_bytes (prune_times g ?now (look (ls_usage ?s) d)) + reserved_bytes ev a) \<le> og_max_bytes g"
          by (simp add: prune_times_def)
        from permit_bytes(3) [OF pm(1) _ g pm(4,5) this] n pm(4)
        show "reserved_bytes ev a \<le> 2 ^ 40" "0 \<le> reserved_bytes ev a" by simp_all
      qed
      then show ?thesis by (intro file_inv_ext [OF f [OF n] eff(6)]) simp
    next
      case False
      with append_untrusted [OF failed(2)] f [OF n] show ?thesis by (simp add: file_inv_def)
    qed
    have "system_inv d g \<lparr>sy_ledger = s, sy_world = w, sy_clock = ?now, sy_count = Suc ?n, sy_permitted = sy_permitted y\<rparr>"
      by (rule system_inv_quiet [OF inv eff(3) _ fi]) (use u1 eff(1,2) in auto)
    with step failed(3) show ?thesis by simp
  next
    case (granted s2)
    note eff = append_effect [OF granted(4), unfolded pruned_config]
    from eff(7) [OF refl] obtain l where ok: "ls_load_err ?s = []" and l: "dl_record l = ?r"
      "lw_file w = glue (lw_file (sy_world y)) (Line l) False" by blast
    show ?thesis
    proof (cases "eg_digest ev = d")
      case True
      have "within_budget g (?P @ [(?now, reserved_bytes ev a)])"
        "usage_inv g (Suc ?n) ?now (?P @ [(?now, reserved_bytes ev a)]) (look (ls_usage s) d)"
        "file_inv d (2 ^ 40) (Suc ?n) (?P @ [(?now, reserved_bytes ev a)]) (lw_file w)"
        "\<forall>t \<in> fst ` set ?P. t \<le> ?now" if n: "Suc ?n < 2 ^ 22"
      proof -
        note pm = permitted [OF n ok True refl]
        have grant: "eg_grant ev = g" using adm True by simp
        have checks: "wrap64 (us_requests (prune_times g ?now (look (ls_usage ?s) d)) + 1) \<le> og_max_requests g"
          "wrap64 (us_bytes (prune_times g ?now (look (ls_usage ?s) d)) + reserved_bytes ev a) \<le> og_max_bytes g"
          "wrap64 (int (length (us_times (prune_times g ?now (look (ls_usage ?s) d)))) + 1) \<le> rate_requests (og_rate g)"
          using granted(1-3) True grant by (simp_all add: prune_times_def)
        have n22: "?n < 2 ^ 22" using n by simp
        note p = permit [OF pm(1) n22 pm(2) g pm(3-5) checks]
        show "within_budget g (?P @ [(?now, reserved_bytes ev a)])" by (rule p(1))
        show "usage_inv g (Suc ?n) ?now (?P @ [(?now, reserved_bytes ev a)]) (look (ls_usage s) d)"
          using p(2) granted(5) True grant by (simp add: look_charged)
        show "file_inv d (2 ^ 40) (Suc ?n) (?P @ [(?now, reserved_bytes ev a)]) (lw_file w)"
          unfolding l(2) by (rule file_inv_charge [OF f [OF n]])
            (use l(1) True pm(4) permit_bytes(3) [OF pm(1) n22 g pm(4,5) checks(2)] in simp_all)
        show "\<forall>t \<in> fst ` set ?P. t \<le> ?now" by (rule pm(2))
      qed
      moreover have "ls_state_dir s \<noteq> []" using granted(5) eff(3) inv by (simp add: charged_def system_inv_def)
      ultimately show ?thesis unfolding step using granted(6) True by (auto simp: system_inv_def crossings_def)
    next
      case False
      have same: "look (ls_usage s) d = look (ls_usage (pruned_ledger ev ?now ?s)) d"
        using granted(5) False eff(1) by (simp add: look_charged)
      have dir: "ls_state_dir s = ls_state_dir ?s" using granted(5) eff(3) by (simp add: charged_def)
      have "system_inv d g \<lparr>sy_ledger = s, sy_world = w, sy_clock = ?now, sy_count = Suc ?n, sy_permitted = sy_permitted y\<rparr>"
        by (rule system_inv_quiet [OF inv dir])
          (use file_inv_ext [OF f eff(6)] False u1 [OF _ ok] in \<open>auto simp: same\<close>)
      then show ?thesis unfolding step using False granted(6) by (simp add: system_inv_def crossings_def)
    qed
  qed
qed

interpretation dep: stepper "system_step L" "admitted_op d g" "\<lambda>y. d \<noteq> [] \<and> grant_bounded g \<and> system_inv d g y"
  for L d g
proof
  fix y x
  assume "d \<noteq> [] \<and> grant_bounded g \<and> system_inv d g y" and "admitted_op d g x"
  then show "d \<noteq> [] \<and> grant_bounded g \<and> system_inv d g (system_step L y x)"
    using authorize_inv [of d g y _ _ _ _ L] refuse_inv [of d g y L] restart_inv [of d g y _ L]
    by (cases x) (auto simp del: system_step.simps admitted_op.simps simp: admitted_op.simps(2))
qed

text \<open>A deployment that has not written a ledger yet.\<close>

definition new_system :: "string \<Rightarrow> bool \<Rightarrow> bool \<Rightarrow> time \<Rightarrow> system" where
  "new_system dir signer secrets now =
     \<lparr>sy_ledger = \<lparr>ls_state_dir = dir, ls_signer = signer, ls_secrets = secrets, ls_load_err = [],
        ls_sequence = 0, ls_hash = [], ls_usage = []\<rparr>,
      sy_world = \<lparr>lw_file = \<lparr>lf_exists = False, lf_lines = [], lf_torn = False\<rparr>, lw_anchor = None\<rparr>,
      sy_clock = now, sy_count = 0, sy_permitted = []\<rparr>"

lemma new_system_inv:
  "dir \<noteq> [] \<Longrightarrow> grant_bounded g \<Longrightarrow> system_inv d g (new_system dir signer secrets now)"
  by (auto simp: system_inv_def new_system_def crossings_def within_budget_def file_inv_def usage_inv_def
      look_def no_usage_def grant_bounded_def)

lemma count_run: "sy_count (foldl (system_step L) y ops) = sy_count y + length ops"
proof (induction ops arbitrary: y)
  case (Cons x ops)
  have "sy_count (system_step L y x) = Suc (sy_count y)"
    by (cases x) (simp_all add: Let_def split: prod.splits)
  with Cons show ?case by simp
qed simp


definition example_io :: ledger_io where
  "example_io = \<lparr>io_sig = Some ''s'', io_marshal = True, io_append = Synced, io_anchor_sig = Some ''a'', io_save = Saved\<rparr>"

definition example_ledger_lib :: ledger_lib where
  "example_ledger_lib = \<lparr>ll_sha256 = (\<lambda>s. take 4 s), ll_entry = (\<lambda>n r. dr_grant_id r), ll_anchor = (\<lambda>n h. h),
     ll_verify = (\<lambda>m b. True)\<rparr>"

definition example_ev :: evaluated_grant where
  "example_ev = \<lparr>eg_grant = example_grant, eg_digest = ''6731'', eg_resource_ids = [], eg_shared_writable = []\<rparr>"

definition example_ops :: "ledger_op list" where
  "example_ops = [Authorize example_ev 20 1 example_io, Restart True True WholeFile False 5,
     Authorize example_ev 30 2 (example_io\<lparr>io_append := WriteFailed SomeBytes\<rparr>),
     Authorize example_ev 30 2 example_io, Restart True True WholeFile False 1,
     Authorize example_ev 30 2 example_io]"


end
