(* ===== verification/Ledger_Integrity.thy ===== *)
theory Ledger_Integrity
  imports Ledger_Budgets
begin

text \<open>
  What the decision ledger proves about the past: a crossing leaves a signed, chained and
  anchored line behind, the next start reads back what was written, and a file that a start
  trusts holds a record sequence that the server anchored. The verification report agrees with
  what a start trusts, except for an emptied file and for one that cannot be opened.
\<close>

section \<open>The ledger as a hash chain\<close>

definition entry :: "ledger_lib \<Rightarrow> decision_line \<Rightarrow> string" where
  "entry L l = ll_entry L (dl_sequence l) (dl_record l)"

definition ledger_accepts :: "ledger_lib \<Rightarrow> string \<Rightarrow> decision_line list \<Rightarrow> bool" where
  "ledger_accepts L prev ls \<longleftrightarrow> (\<exists>sq usage r. load_lines L True prev sq usage (map Some ls) = Inr r)"

interpretation lg: chained_log "ll_sha256 L" dl_hash "entry L" "ledger_accepts L" for L
proof
  fix prev l ls
  assume "ledger_accepts L prev (l # ls)"
  then show "dl_hash l = link_hash (ll_sha256 L) prev (entry L l) \<and> ledger_accepts L (dl_hash l) ls"
    by (auto simp: ledger_accepts_def line_ok_def decisionHash_def entry_def split: if_splits) blast
qed

lemma load_lines_sequence:
  "load_lines L signer prev sq usage (map Some ls) = Inr (prev', sq', usage') \<Longrightarrow> 0 \<le> sq \<Longrightarrow>
   sq + int (length ls) < 2 ^ 63 \<Longrightarrow>
   sq' = sq + int (length ls) \<and> prev' = (if ls = [] then prev else dl_hash (last ls)) \<and> (ls \<noteq> [] \<longrightarrow> signer)"
proof (induction ls arbitrary: prev sq usage)
  case (Cons l ls)
  from Cons.prems(1) have l: "line_ok L prev sq l" "signer"
    and rest: "load_lines L signer (dl_hash l) (dl_sequence l) (charge (dl_record l) usage) (map Some ls) = Inr (prev', sq', usage')"
    by (auto split: if_splits)
  have "wrap64 (sq + 1) = sq + 1" using Cons.prems(2,3) by (intro wrap64_id) (simp add: in_int64_def)
  with l have "dl_sequence l = sq + 1" by (simp add: line_ok_def)
  with Cons.IH [OF rest] Cons.prems(2,3) l(2) show ?case by auto
qed simp

lemma load_trusted:
  assumes "ls_load_err (loadDecisionLedger L s (ReadLines xs scan) ar) = []" and "decisionLedgerPath s \<noteq> []"
    and "xs \<noteq> []" and "length xs < 2 ^ 63" and "scan \<noteq> Some []"
  obtains ls a usage where "xs = map Some ls" and "scan = None" and "ls_signer s" and "ls_secrets s" and "ar = AnchorRead a"
    and "load_lines L True [] 0 [] xs = Inr (dl_hash (last ls), int (length ls), usage)"
    and "anchor_matches L a (int (length ls)) (dl_hash (last ls))"
    and "loadDecisionLedger L s (ReadLines xs scan) ar =
      s\<lparr>ls_hash := dl_hash (last ls), ls_sequence := int (length ls), ls_usage := usage\<rparr>"
proof -
  from assms(1,2) obtain prev sq usage where load: "load_lines L (ls_signer s) [] 0 [] xs = Inr (prev, sq, usage)"
    by (auto simp: loadDecisionLedger_def dest: load_lines_Inl split: sum.splits)
  from load_lines_Inr [OF this] obtain ls where ls: "xs = map Some ls" by blast
  have "int (length ls) < 2 ^ 63" using assms(4) ls by (simp flip: of_nat_less_numeral_power_cancel_iff)
  from load_lines_sequence [OF load [unfolded ls] _ ] this ls assms(3)
  have sq: "sq = int (length ls)" "prev = dl_hash (last ls)" "ls_signer s" "sq \<noteq> 0" by auto
  from assms(1,2,5) load sq(4) have more: "scan = None" "ls_secrets s"
    by (auto simp: loadDecisionLedger_def Let_def split: option.splits if_splits)
  from assms(1,2) load sq(4) more obtain a where a: "ar = AnchorRead a" "anchor_matches L a sq prev"
    by (auto simp: loadDecisionLedger_def Let_def split: anchor_read.splits if_splits)
  show thesis
    by (rule that [OF ls more(1) sq(3) more(2) a(1)])
      (use load sq a more assms(2) in \<open>simp_all add: loadDecisionLedger_def Let_def\<close>)
qed

section \<open>Tampering\<close>

text \<open>
  The one audit key signs four kinds of messages: hashes of lines, of this ledger and of the audit log,
  also of lines whose write then failed (hexadecimal digests); anchors of the audit log (a number, a
  NUL byte and a head); and anchors of this ledger, for the record sequences \<open>H\<close> that the server
  had in force when it signed them.
\<close>

definition key_signs :: "ledger_lib \<Rightarrow> string list set \<Rightarrow> string \<Rightarrow> bool" where
  "key_signs L H m \<longleftrightarrow> (\<exists>x. m = hex_encode x) \<or> (\<exists>n h. m = fmt_int n @ [CHR 0x00] @ h) \<or>
     (\<exists>c \<in> H. m = ll_anchor L (int (length c)) (head_of (ll_sha256 L) [] c))"

lemma brace_not_hex: "''{'' @ j \<noteq> hex_encode x"
proof
  assume eq: "''{'' @ j = hex_encode x"
  have "CHR ''{'' \<in> set (''{'' @ j)" by simp
  then show False unfolding eq using hex_encode_set by fastforce
qed

lemma brace_not_number: "''{'' @ j \<noteq> fmt_int n @ h"
proof
  assume eq: "''{'' @ j = fmt_int n @ h"
  have "fmt_int n \<noteq> []" and "CHR ''{'' \<notin> set (fmt_int n)"
    using itoa_digits itoa_chars [of "CHR ''{''"]
    by (auto simp: fmt_int_def is_digit_def less_eq_char_def)
  with eq show False by (cases "fmt_int n") auto
qed

text \<open>What a trusted start continues from is the chain of the records in the file.\<close>

lemma trusted_chain:
  assumes "ls_load_err (loadDecisionLedger L s (ReadLines xs scan) ar) = []" and "decisionLedgerPath s \<noteq> []"
    and "xs \<noteq> []" and "length xs < 2 ^ 63" and "scan \<noteq> Some []"
  obtains ls b where "xs = map Some ls" and "ls_sequence (loadDecisionLedger L s (ReadLines xs scan) ar) = int (length ls)"
    and "ls_hash (loadDecisionLedger L s (ReadLines xs scan) ar) = head_of (ll_sha256 L) [] (map (entry L) ls)"
    and "ll_verify L (ll_anchor L (int (length ls)) (head_of (ll_sha256 L) [] (map (entry L) ls))) b"
proof -
  from load_trusted [OF assms] obtain ls a usage where ls: "xs = map Some ls"
    and lines: "load_lines L True [] 0 [] xs = Inr (dl_hash (last ls), int (length ls), usage)"
    and a: "anchor_matches L a (int (length ls)) (dl_hash (last ls))"
    and s': "loadDecisionLedger L s (ReadLines xs scan) ar =
      s\<lparr>ls_hash := dl_hash (last ls), ls_sequence := int (length ls), ls_usage := usage\<rparr>"
    by metis
  have "ledger_accepts L [] ls" using lines ls unfolding ledger_accepts_def by blast
  then have head: "dl_hash (last ls) = head_of (ll_sha256 L) [] (map (entry L) ls)"
    using lg.accepted_head ls assms(3) by auto
  from a obtain b where "ll_verify L (ll_anchor L (int (length ls)) (dl_hash (last ls))) b"
    by (auto simp: anchor_matches_def sig_ok_def split: option.splits)
  with that [OF ls] s' head show thesis by simp
qed

text \<open>
  C20. A ledger that a start trusts was written by this deployment. The key that signs the ledger
  also signs the audit log; suppose that only what it signed verifies (\<open>key_signs\<close>), that the
  encoding of a ledger anchor determines it and is a JSON object, and that the digest is not
  empty. If loading a non-empty file leaves the ledger trusted, then every line of it decoded, the
  encoded records of the file are, in order, exactly a record sequence the deployment anchored, or two
  preimages of the file and of an anchored sequence of the same length collide under SHA-256; and the server
  continues from the head and the number of these records.
\<close>

theorem trusted_ledger_is_history:
  assumes unforgeable: "\<And>m b. ll_verify L m b \<Longrightarrow> key_signs L H m"
    and encoding: "\<And>n h n' h'. ll_anchor L n h = ll_anchor L n' h' \<Longrightarrow> n = n' \<and> h = h'"
      "\<And>n h. \<exists>j. ll_anchor L n h = ''{'' @ j"
    and digest: "\<forall>x. ll_sha256 L x \<noteq> []"
    and load: "ls_load_err (loadDecisionLedger L s (ReadLines xs scan) ar) = []"
    and conf: "decisionLedgerPath s \<noteq> []" "scan \<noteq> Some []" "xs \<noteq> []" "length xs < 2 ^ 63"
  shows "\<exists>ls. xs = map Some ls \<and>
    (map (entry L) ls \<in> H \<or> (\<exists>c \<in> H. length c = length ls \<and> collision (ll_sha256 L) (map (entry L) ls) c)) \<and>
    ls_sequence (loadDecisionLedger L s (ReadLines xs scan) ar) = int (length ls) \<and>
    ls_hash (loadDecisionLedger L s (ReadLines xs scan) ar) = head_of (ll_sha256 L) [] (map (entry L) ls)"
proof -
  let ?head = "head_of (ll_sha256 L) []"
  from trusted_chain [OF load conf(1,3,4,2)] obtain ls b where ls: "xs = map Some ls"
    "ls_sequence (loadDecisionLedger L s (ReadLines xs scan) ar) = int (length ls)"
    "ls_hash (loadDecisionLedger L s (ReadLines xs scan) ar) = ?head (map (entry L) ls)"
    and b: "ll_verify L (ll_anchor L (int (length ls)) (?head (map (entry L) ls))) b" by metis
  obtain j where j: "ll_anchor L (int (length ls)) (?head (map (entry L) ls)) = ''{'' @ j" using encoding(2) by blast
  from unforgeable [OF b] obtain c where c: "c \<in> H"
    "ll_anchor L (int (length ls)) (?head (map (entry L) ls)) = ll_anchor L (int (length c)) (?head c)"
    unfolding key_signs_def j using brace_not_hex brace_not_number by metis
  with encoding(1) [OF c(2)] head_inject [OF digest, of "map (entry L) ls" c] ls show ?thesis by auto
qed

section \<open>Reading back\<close>

lemma verify_load_lines:
  "(\<forall>e. load_lines L signer prev sq usage xs = Inl e \<longrightarrow>
      (\<exists>v. verify_lines L signer prev sq xs = Inl v \<and> \<not> dv_intact v)) \<and>
   (\<forall>p n u. load_lines L signer prev sq usage xs = Inr (p, n, u) \<longrightarrow> verify_lines L signer prev sq xs = Inr (p, n))"
  by (induction L signer prev sq usage xs rule: load_lines.induct) (auto simp: dv_failed_def)

text \<open>
  The verification report and the start of the server agree on every ledger file with
  content: \<open>VerifyDecisionLedger\<close> reports the file as intact exactly when \<open>loadDecisionLedger\<close>
  trusts it, with the number of records and the head that the server continues from.
\<close>

theorem verify_agrees_with_load:
  assumes "decisionLedgerPath s \<noteq> []" and "ls_load_err s = []" and "xs \<noteq> []" and "length xs < 2 ^ 63"
    and "scan \<noteq> Some []"
  shows "(ls_load_err (loadDecisionLedger L s (ReadLines xs scan) ar) = []) =
      dv_intact (VerifyDecisionLedger L s (ReadLines xs scan) ar) \<and>
    (dv_intact (VerifyDecisionLedger L s (ReadLines xs scan) ar) \<longrightarrow>
      dv_anchored (VerifyDecisionLedger L s (ReadLines xs scan) ar) \<and>
      dv_records (VerifyDecisionLedger L s (ReadLines xs scan) ar) = ls_sequence (loadDecisionLedger L s (ReadLines xs scan) ar) \<and>
      dv_head (VerifyDecisionLedger L s (ReadLines xs scan) ar) = ls_hash (loadDecisionLedger L s (ReadLines xs scan) ar))"
proof (cases "load_lines L (ls_signer s) [] 0 [] xs")
  case (Inl e)
  with verify_load_lines [of L "ls_signer s" "[]" 0 "[]" xs] load_lines_Inl [OF Inl] assms(1) show ?thesis
    by (auto simp: loadDecisionLedger_def VerifyDecisionLedger_def)
next
  case (Inr r)
  obtain prev sq usage where r: "r = (prev, sq, usage)" by (cases r)
  from load_lines_Inr [OF Inr [unfolded r]] obtain ls where ls: "xs = map Some ls" by blast
  have "int (length ls) < 2 ^ 63" using assms(4) ls by (simp flip: of_nat_less_numeral_power_cancel_iff)
  with load_lines_sequence [OF Inr [unfolded r ls]] ls assms(3) have "sq \<noteq> 0" "ls_signer s" by auto
  moreover have "verify_lines L (ls_signer s) [] 0 xs = Inr (prev, sq)"
    using verify_load_lines [of L "ls_signer s" "[]" 0 "[]" xs] Inr r by blast
  ultimately show ?thesis
    using Inr r assms(1,2,5)
    by (auto simp: loadDecisionLedger_def VerifyDecisionLedger_def Let_def dv_failed_def anchor_matches_def
        split: option.splits anchor_read.splits)
qed

text \<open>
  C21. An emptied or unopenable ledger file is trusted. Loading an empty file never looks at the anchor: the
  ledger stays trusted, the next line starts a new chain, and every grant has its whole budget
  again, whatever anchor the secret store holds, while the verification report of the same file
  says that it does not match its anchor; a missing file with an anchor is refused. A file that
  cannot be opened, for another reason than its absence, is likewise loaded as trusted, with the
  usage a fresh server has, although the verification report of it reports the error.
\<close>

theorem lost_ledger_resets_budgets:
  assumes "decisionLedgerPath s \<noteq> []" and "ls_load_err s = []" and "ls_secrets s" and "da_sequence a \<noteq> 0"
  shows "ls_load_err (loadDecisionLedger L s (ReadLines [] None) (AnchorRead a)) = [] \<and>
    ls_sequence (loadDecisionLedger L s (ReadLines [] None) (AnchorRead a)) = 0 \<and>
    usage_of (loadDecisionLedger L s (ReadLines [] None) (AnchorRead a)) d = no_usage \<and>
    \<not> dv_intact (VerifyDecisionLedger L s (ReadLines [] None) (AnchorRead a)) \<and>
    ls_load_err (loadDecisionLedger L s ReadNotExist (AnchorRead a)) \<noteq> [] \<and>
    ls_load_err (loadDecisionLedger L s (ReadOpenError e) (AnchorRead a)) = [] \<and>
    usage_of (loadDecisionLedger L s (ReadOpenError e) (AnchorRead a)) d = usage_of s d \<and>
    \<not> dv_intact (VerifyDecisionLedger L s (ReadOpenError e) (AnchorRead a))"
  using assms by (simp add: loadDecisionLedger_def VerifyDecisionLedger_def usage_of_def dv_failed_def Let_def)

section \<open>A crossing is on record\<close>

text \<open>
  The disk holds exactly the lines the server has in mind: a start would trust them, continue
  from the same head, and charge the same requests and bytes.
\<close>

definition in_sync :: "ledger_lib \<Rightarrow> ledger \<Rightarrow> ledger_world \<Rightarrow> bool" where
  "in_sync L s w \<longleftrightarrow> \<not> lf_torn (lw_file w) \<and>
     (\<exists>ls usage. lf_lines (lw_file w) = map Line ls \<and> (ls \<noteq> [] \<longrightarrow> lf_exists (lw_file w)) \<and>
        load_lines L True [] 0 [] (map Some ls) = Inr (ls_hash s, ls_sequence s, usage) \<and>
        (\<forall>d. d \<noteq> [] \<longrightarrow> us_requests (look usage d) = us_requests (look (ls_usage s) d) \<and>
           us_bytes (look usage d) = us_bytes (look (ls_usage s) d)) \<and>
        (if ls = [] then lw_anchor w = None
         else \<exists>a. lw_anchor w = Some a \<and> anchor_matches L a (ls_sequence s) (ls_hash s)))"

lemma in_sync_cong:
  assumes "in_sync L s w" and "ls_hash s' = ls_hash s" and "ls_sequence s' = ls_sequence s"
    and "\<And>d. us_requests (look (ls_usage s') d) = us_requests (look (ls_usage s) d) \<and>
      us_bytes (look (ls_usage s') d) = us_bytes (look (ls_usage s) d)"
  shows "in_sync L s' w"
  using assms(1)
  unfolding in_sync_def assms(2,3) assms(4) [THEN conjunct1] assms(4) [THEN conjunct2] .

lemma load_lines_snoc:
  "load_lines L signer prev sq usage (xs @ [Some l]) =
     (case load_lines L signer prev sq usage xs of Inl e \<Rightarrow> Inl e
      | Inr (p, n, u) \<Rightarrow> load_lines L signer p n u [Some l])"
  by (induction L signer prev sq usage xs rule: load_lines.induct) auto

lemma append_Some:
  assumes "appendDecisionLocked L s w r io = (s', w', None)"
  obtains sig asig l where "io_sig io = Some sig" and "io_anchor_sig io = Some asig" and "ls_load_err s = []"
    and "ls_signer s" and "ls_secrets s" and "decisionLedgerPath s \<noteq> []"
    and "l = \<lparr>dl_sequence = wrap64 (ls_sequence s + 1), dl_record = r, dl_prev = ls_hash s,
      dl_hash = decisionHash L (ls_hash s) (wrap64 (ls_sequence s + 1)) r, dl_sig = hex_encode sig\<rparr>"
    and "s' = s\<lparr>ls_sequence := dl_sequence l, ls_hash := dl_hash l\<rparr>"
    and "lw_file w' = glue (lw_file w) (Line l) False"
    and "lw_anchor w' = Some \<lparr>da_sequence = dl_sequence l, da_head = dl_hash l, da_sig = hex_encode asig\<rparr>"
proof -
  have wr: "defaultDecisionAppend out l f = (f', True) \<Longrightarrow> f' = glue f (Line l) False" for out l f f'
    using defaultDecisionAppend_ext by blast
  have save: "save_anchor out a old = (x, True) \<Longrightarrow> x = Some a" for out a old x
    by (auto simp: save_anchor_def split: save_outcome.splits)
  show thesis
    using assms that unfolding appendDecisionLocked_def Let_def
    by (auto split: if_splits option.splits prod.splits dest!: wr save)
qed

lemma in_sync_append:
  assumes sync: "in_sync L s w" and app: "appendDecisionLocked L s w r io = (s', w', None)"
    and sig: "\<And>sig. io_sig io = Some sig \<Longrightarrow> ll_verify L (ls_hash s') sig"
      "\<And>sig. io_anchor_sig io = Some sig \<Longrightarrow> ll_verify L (ll_anchor L (ls_sequence s') (ls_hash s')) sig"
    and usage: "\<And>d. d \<noteq> [] \<Longrightarrow> us_requests (look usage' d) = us_requests (foldl add_charge (look (ls_usage s) d) (charges d r)) \<and>
      us_bytes (look usage' d) = us_bytes (foldl add_charge (look (ls_usage s) d) (charges d r))"
  shows "in_sync L (s'\<lparr>ls_usage := usage'\<rparr>) w' \<and>
    (\<exists>l. lf_lines (lw_file w') = lf_lines (lw_file w) @ [Line l] \<and> dl_record l = r \<and> dl_hash l = ls_hash s')"
proof -
  from app obtain sg asig l where io: "io_sig io = Some sg" "io_anchor_sig io = Some asig"
    and l: "l = \<lparr>dl_sequence = wrap64 (ls_sequence s + 1), dl_record = r, dl_prev = ls_hash s,
      dl_hash = decisionHash L (ls_hash s) (wrap64 (ls_sequence s + 1)) r, dl_sig = hex_encode sg\<rparr>"
    and s': "s' = s\<lparr>ls_sequence := dl_sequence l, ls_hash := dl_hash l\<rparr>"
    and w': "lw_file w' = glue (lw_file w) (Line l) False"
      "lw_anchor w' = Some \<lparr>da_sequence = dl_sequence l, da_head = dl_hash l, da_sig = hex_encode asig\<rparr>"
    by (rule append_Some) blast
  from sync obtain ls u where ls: "lf_lines (lw_file w) = map Line ls" "\<not> lf_torn (lw_file w)"
      "load_lines L True [] 0 [] (map Some ls) = Inr (ls_hash s, ls_sequence s, u)"
    and u: "\<forall>d. d \<noteq> [] \<longrightarrow> us_requests (look u d) = us_requests (look (ls_usage s) d) \<and>
           us_bytes (look u d) = us_bytes (look (ls_usage s) d)"
    unfolding in_sync_def by blast
  have lines: "lf_lines (lw_file w') = map Line (ls @ [l])" using w'(1) ls(1,2) by (simp add: glue_def)
  have ok: "line_ok L (ls_hash s) (ls_sequence s) l" "sig_ok L (dl_hash l) (dl_sig l)"
    using sig(1) [OF io(1)] by (simp_all add: l s' line_ok_def sig_ok_def)
  have load: "load_lines L True [] 0 [] (map Some (ls @ [l])) = Inr (dl_hash l, dl_sequence l, charge r u)"
    using ls(3) ok by (simp add: load_lines_snoc l)
  have "us_requests (look (charge r u) d) = us_requests (look usage' d) \<and>
      us_bytes (look (charge r u) d) = us_bytes (look usage' d)" if d: "d \<noteq> []" for d
    using usage [OF d] u d by (auto simp: look_charge charges_def add_charge_def)
  moreover have "anchor_matches L \<lparr>da_sequence = dl_sequence l, da_head = dl_hash l, da_sig = hex_encode asig\<rparr>
      (dl_sequence l) (dl_hash l)"
    using sig(2) [OF io(2)] by (simp add: s' anchor_matches_def sig_ok_def)
  ultimately have "in_sync L (s'\<lparr>ls_usage := usage'\<rparr>) w'"
    unfolding in_sync_def using lines load w' s' by (auto simp: glue_def intro!: exI [of _ "ls @ [l]"])
  with lines ls(1) s' show ?thesis by (auto simp: l)
qed

lemma in_sync_restart:
  assumes "in_sync L s w" and "decisionLedgerPath s \<noteq> []"
  shows "ls_load_err (restart L s w True True WholeFile False) = [] \<and>
    ls_hash (restart L s w True True WholeFile False) = ls_hash s \<and>
    ls_sequence (restart L s w True True WholeFile False) = ls_sequence s \<and>
    (\<forall>d. d \<noteq> [] \<longrightarrow>
      us_requests (usage_of (restart L s w True True WholeFile False) d) = us_requests (usage_of s d) \<and>
      us_bytes (usage_of (restart L s w True True WholeFile False) d) = us_bytes (usage_of s d))"
proof -
  from assms(1) obtain ls u where ls: "lf_lines (lw_file w) = map Line ls" "ls \<noteq> [] \<longrightarrow> lf_exists (lw_file w)"
      "load_lines L True [] 0 [] (map Some ls) = Inr (ls_hash s, ls_sequence s, u)"
    and u: "\<forall>d. d \<noteq> [] \<longrightarrow> us_requests (look u d) = us_requests (look (ls_usage s) d) \<and>
           us_bytes (look u d) = us_bytes (look (ls_usage s) d)"
    and a: "if ls = [] then lw_anchor w = None
         else \<exists>a. lw_anchor w = Some a \<and> anchor_matches L a (ls_sequence s) (ls_hash s)"
    unfolding in_sync_def by blast
  let ?s0 = "\<lparr>ls_state_dir = ls_state_dir s, ls_signer = True, ls_secrets = True, ls_load_err = [],
        ls_sequence = 0, ls_hash = [], ls_usage = []\<rparr>"
  have path: "decisionLedgerPath ?s0 \<noteq> []" using assms(2) by (auto simp: decisionLedgerPath_def split: if_splits)
  have rl: "map read_line (lf_lines (lw_file w)) = map Some ls" using ls(1) by simp
  show ?thesis
  proof (cases "ls = []")
    case True
    with ls(3) a u path show ?thesis
      by (auto simp: restart_def read_file_def loadDecisionLedger_def usage_of_def look_def rl no_usage_def)
  next
    case False
    with ls(2,3) a u path show ?thesis
      by (auto simp: restart_def read_file_def loadDecisionLedger_def usage_of_def look_def rl Let_def)
  qed
qed

lemma look_usage_of: "look (ls_usage s) d = usage_of s d"
  by (simp add: look_def usage_of_def)


text \<open>Witnesses, on the ledger of a deployment that authorizes one call.\<close>

definition example_system :: system where
  "example_system = system_step example_ledger_lib (new_system ''/s'' True True 0) (Authorize example_ev 20 1 example_io)"


theorem verify_agrees_with_load_witness:
  "dv_intact (VerifyDecisionLedger example_ledger_lib (sy_ledger example_system)
     (read_file WholeFile (lw_file (sy_world example_system)))
     (case lw_anchor (sy_world example_system) of None \<Rightarrow> AnchorNotFound | Some a \<Rightarrow> AnchorRead a))"
proof -
  let ?s = "sy_ledger example_system"
  have "decisionLedgerPath ?s \<noteq> []" "ls_load_err ?s = []" "map read_line (lf_lines (lw_file (sy_world example_system))) \<noteq> []"
    and one: "length (map read_line (lf_lines (lw_file (sy_world example_system)))) = 1"
    and f: "read_file WholeFile (lw_file (sy_world example_system)) =
      ReadLines (map read_line (lf_lines (lw_file (sy_world example_system)))) None"
    and load: "ls_load_err (loadDecisionLedger example_ledger_lib ?s (read_file WholeFile (lw_file (sy_world example_system)))
      (case lw_anchor (sy_world example_system) of None \<Rightarrow> AnchorNotFound | Some a \<Rightarrow> AnchorRead a)) = []"
    by code_simp+
  from one have "length (map read_line (lf_lines (lw_file (sy_world example_system)))) < 2 ^ 63" by simp
  from verify_agrees_with_load [OF \<open>decisionLedgerPath ?s \<noteq> []\<close> \<open>ls_load_err ?s = []\<close> \<open>map _ _ \<noteq> []\<close> this, of None example_ledger_lib]
  show ?thesis using load unfolding f by blast
qed

theorem lost_ledger_resets_budgets_witness:
  "usage_of (sy_ledger example_system) ''6731'' \<noteq> no_usage \<and>
   usage_of (loadDecisionLedger example_ledger_lib (sy_ledger example_system) (ReadLines [] None)
     (AnchorRead (the (lw_anchor (sy_world example_system))))) ''6731'' = no_usage"
proof -
  let ?s = "sy_ledger example_system" and ?a = "the (lw_anchor (sy_world example_system))"
  have "decisionLedgerPath ?s \<noteq> []" "ls_load_err ?s = []" "ls_secrets ?s" "da_sequence ?a \<noteq> 0"
    and "us_requests (usage_of ?s ''6731'') \<noteq> us_requests no_usage"
    by code_simp+
  with lost_ledger_resets_budgets [of ?s ?a] show ?thesis by metis
qed

text \<open>A key that signed a line, its anchor and an anchor of the audit log; a hash that keeps its input.\<close>

definition example_head :: string where
  "example_head = link_hash (\<lambda>x. CHR ''h'' # x) [] ''g1''"

definition example_anchor :: "int \<Rightarrow> string \<Rightarrow> string" where
  "example_anchor n h = ''{'' @ (if n < 0 then ''-'' else []) @ itoa (nat \<bar>n\<bar>) @ [CHR '',''] @ h"

definition keyed_lib :: ledger_lib where
  "keyed_lib = \<lparr>ll_sha256 = (\<lambda>x. CHR ''h'' # x), ll_entry = (\<lambda>n r. dr_grant_id r), ll_anchor = example_anchor,
     ll_verify = (\<lambda>m b. m \<in> set [example_head, example_anchor 1 example_head, fmt_int 64 @ [CHR 0x00] @ ''head''])\<rparr>"

lemma example_anchor_inject: "example_anchor n h = example_anchor n' h' \<Longrightarrow> n = n' \<and> h = h'"
proof -
  assume eq: "example_anchor n h = example_anchor n' h'"
  let ?d = "\<lambda>n :: int. (if n < 0 then ''-'' else []) @ itoa (nat \<bar>n\<bar>)"
  have free: "CHR '','' \<notin> set (?d n)" for n using itoa_chars [of "CHR '',''"] by (auto simp: is_digit_def less_eq_char_def)
  from eq have "?d n @ CHR '','' # h = ?d n' @ CHR '','' # h'" by (simp add: example_anchor_def)
  from sep_unique [OF this free free] have d: "?d n = ?d n'" and h: "h = h'" by simp_all
  have "hd (itoa k) \<noteq> CHR ''-''" for k
    using itoa_digits [of k] by (cases "itoa k") (auto simp: is_digit_def less_eq_char_def)
  with d have "n < 0 \<longleftrightarrow> n' < 0" "itoa (nat \<bar>n\<bar>) = itoa (nat \<bar>n'\<bar>)"
    by (auto split: if_splits) (metis list.sel(1))+
  with itoa_inject h show ?thesis by fastforce
qed

definition keyed_system :: system where
  "keyed_system = system_step keyed_lib (new_system ''/s'' True True 0) (Authorize example_ev 20 1 example_io)"

theorem trusted_ledger_is_history_witness:
  "\<exists>ls. map read_line (lf_lines (lw_file (sy_world keyed_system))) = map Some ls \<and>
     map (entry keyed_lib) ls = [''g1'']"
proof -
  let ?s = "sy_ledger keyed_system" and ?xs = "map read_line (lf_lines (lw_file (sy_world keyed_system)))"
  have conf: "decisionLedgerPath ?s \<noteq> []" "?xs \<noteq> []" and one: "length ?xs = 1"
    and load: "ls_load_err (loadDecisionLedger keyed_lib ?s (ReadLines ?xs None)
      (AnchorRead (the (lw_anchor (sy_world keyed_system))))) = []"
    by code_simp+
  have "key_signs keyed_lib {[''g1'']} m" if "ll_verify keyed_lib m b" for m b
  proof -
    from that consider "m = example_head" | "m = example_anchor 1 example_head" | "m = fmt_int 64 @ [CHR 0x00] @ ''head''"
      by (auto simp: keyed_lib_def)
    then show ?thesis
    proof cases
      case 1
      then show ?thesis unfolding key_signs_def example_head_def link_hash_def by blast
    next
      case 2
      then show ?thesis by (simp add: key_signs_def keyed_lib_def example_head_def)
    next
      case 3
      then show ?thesis unfolding key_signs_def by blast
    qed
  qed
  moreover have "\<exists>j. ll_anchor keyed_lib n h = ''{'' @ j" for n h by (simp add: keyed_lib_def example_anchor_def)
  moreover have "\<forall>x. ll_sha256 keyed_lib x \<noteq> []" by (simp add: keyed_lib_def)
  moreover have "n = n' \<and> h = h'" if "ll_anchor keyed_lib n h = ll_anchor keyed_lib n' h'" for n h n' h'
    using example_anchor_inject that by (simp add: keyed_lib_def)
  moreover have "\<not> collision (ll_sha256 keyed_lib) bs cs" for bs cs
    by (auto simp: collision_def keyed_lib_def)
  ultimately show ?thesis
    using trusted_ledger_is_history [of keyed_lib "{[''g1'']}", OF _ _ _ _ load conf(1)] conf(2) one by auto
qed

end
