(* ===== verification/Gateway_Safety.thy ===== *)
theory Gateway_Safety
  imports Gateway Ledger_Integrity
begin

text \<open>
  Who a call through \<open>Gateway\<close> can reach: what the steps after the gates leave alone, what a call that
  passes the gates has satisfied, and the theorem that a dial implies all of it.
\<close>

section \<open>What a step leaves alone\<close>

text \<open>Shaping a result changes the registry's statistics, the placeholders and the store, and nothing else.\<close>

definition keeps :: "'s server \<Rightarrow> 's server \<Rightarrow> bool" where
  "keeps sv sv' \<longleftrightarrow> sv' = sv\<lparr>sv_reg := sv_reg sv', sv_min := sv_min sv', sv_store := sv_store sv'\<rparr>"

lemma keeps_refl [simp]: "keeps sv sv"
  by (simp add: keeps_def)

lemma keeps_trans: "keeps sv sv' \<Longrightarrow> keeps sv' sv'' \<Longrightarrow> keeps sv sv''"
  unfolding keeps_def by (cases sv; cases sv'; cases sv'') simp

lemma keeps_update [simp]:
  "keeps sv (sv'\<lparr>sv_reg := r\<rparr>) = keeps sv sv'" "keeps sv (sv'\<lparr>sv_min := m\<rparr>) = keeps sv sv'"
  "keeps sv (sv'\<lparr>sv_store := st\<rparr>) = keeps sv sv'"
  "keeps (sv\<lparr>sv_reg := r\<rparr>) sv' = keeps sv sv'" "keeps (sv\<lparr>sv_min := m\<rparr>) sv' = keeps sv sv'"
  "keeps (sv\<lparr>sv_store := st\<rparr>) sv' = keeps sv sv'"
  unfolding keeps_def by (cases sv; cases sv'; simp)+

lemma keepsD:
  assumes "keeps sv sv'"
  shows "sv_dials sv' = sv_dials sv" "sv_audit sv' = sv_audit sv" "sv_audit_world sv' = sv_audit_world sv"
    "sv_ledger sv' = sv_ledger sv" "sv_ledger_world sv' = sv_ledger_world sv"
    "sv_max_bytes sv' = sv_max_bytes sv" "sv_high sv' = sv_high sv" "sv_multi sv' = sv_multi sv"
    "sv_client sv' = sv_client sv"
  using assms unfolding keeps_def by (cases sv; cases sv'; simp)+

lemma keeps_preview: "keeps sv (fst (refPreview L ops io ref owner sv))"
  by (auto simp: refPreview_def Let_def split: option.splits prod.splits)

lemma keeps_handle: "keeps sv (fst (refHandleResult L ops io ref n name owner sv))"
  using keeps_preview [of sv L ops io ref owner] by (auto simp: refHandleResult_def Let_def split: prod.splits)

lemma keeps_fusedResult: "keeps sv (fst (fusedResult L ops io run_id source tf out owner sv))"
  using keeps_preview [of sv L ops io "go_ref out" owner] by (auto simp: fusedResult_def Let_def split: prod.splits)

lemma keeps_fused_answer:
  "keeps sv (fst (fused_answer L ops io cx run_id upstream tool source tf raw inp host summary sv))"
proof -
  have "keeps sv sv'" if "fusedResult L ops io run_id source tf out (caller_of cx) (sv\<lparr>sv_min := m, sv_store := st\<rparr>) = (sv', r)"
    for m st sv' r out
    using keeps_fusedResult [of "sv\<lparr>sv_min := m, sv_store := st\<rparr>" L ops io run_id source tf out "caller_of cx"] that by simp
  then show ?thesis
    by (auto simp: fused_answer_def Let_def split: prod.splits sum.splits option.splits json.splits)
qed

lemma keeps_fusedProxyResult:
  "keeps sv (fst (fusedProxyResult L ops io cx run_id upstream tool source tf passthrough raw host evaluated sv))"
  by (auto simp: fusedProxyResult_def keeps_fused_answer split: option.splits sum.splits prod.splits engine_answer.splits)

lemma keeps_inline: "keeps sv (fst (inline_result L cx upstream tool name spec host raw passthrough sv))"
  by (auto simp: inline_result_def Let_def split: prod.splits sum.splits)

lemma keeps_park: "keeps sv (fst (park L ops io cx name host res payload rehydrated sv))"
proof -
  have "keeps sv sv'" if "refHandleResult L ops io ref n name (caller_of cx) (sv\<lparr>sv_store := st\<rparr>) = (sv', r)" for st sv' r ref n
    using keeps_handle [of "sv\<lparr>sv_store := st\<rparr>" L ops io ref n name "caller_of cx"] that by simp
  then show ?thesis by (auto simp: park_def Let_def split: notice.splits option.splits prod.splits)
qed

lemma keeps_hold: "keeps sv (fst (hold_result L ops io cx upstream name host res evaluated passthrough sv))"
  by (auto simp: hold_result_def Let_def keeps_park split: option.splits prod.splits sum.splits)

lemma keeps_shape:
  "keeps sv (fst (shape_result L ops io cx run_id upstream tool name spec host res evaluated sv))"
proof -
  let ?b = "sv\<lparr>sv_reg := bumpUsage name (sv_reg sv)\<rparr>"
  have hold: "keeps sv sv'" if "hold_result L ops io cx upstream name host res evaluated p ?b = (sv', r)" for p sv' r
    using keeps_hold [of ?b L ops io cx upstream name host res evaluated p] that by simp
  have inl: "keeps sv (fst (inline_result L cx upstream tool name spec host raw p sv'))" if "keeps sv sv'" for p sv' raw
    using keeps_trans [OF that keeps_inline] .
  have fused: "keeps sv (fst (fusedProxyResult L ops io cx run_id upstream tool source tf p res host evaluated ?b))" for p source tf
    using keeps_fusedProxyResult [of ?b] by simp
  show ?thesis
    by (auto simp: shape_result_def Let_def inl fused intro: inl hold split: option.splits prod.splits)
qed

lemma keeps_after:
  "keeps sv (fst (after_dial L ops io cx run_id upstream tool name spec host evaluated res err sv))"
  using keeps_shape [of "sv\<lparr>sv_reg := recordUpstreamHealth upstream err (ci_health_at io) (sv_reg sv)\<rparr>"]
  by (auto simp: after_dial_def Let_def split: option.splits)

section \<open>Who may reach an upstream\<close>

lemma str_cut_join: "str_cut sep s = Some (a, b) \<Longrightarrow> s = a @ sep @ b"
  by (induction sep s arbitrary: a rule: str_cut.induct) (auto simp: has_prefix_iff split: if_splits)

text \<open>A tool the gateway treats as a write: one it does not know, or one it classifies so.\<close>

definition may_write :: "gw_lib \<Rightarrow> upstream \<Rightarrow> string \<Rightarrow> bool" where
  "may_write L u tool = (case findTool (up_tools u) tool of None \<Rightarrow> True | Some t \<Rightarrow> isWriteTool (gl_text L) t)"

text \<open>The connection admits the caller, the tool and the arguments.\<close>

definition admits :: "gw_lib \<Rightarrow> call_ctx \<Rightarrow> string \<Rightarrow> upstream \<Rightarrow> string \<Rightarrow> string \<Rightarrow> bool" where
  "admits L cx name u tool args \<longleftrightarrow>
     (up_owner u = [] \<or> up_owner u = caller_of cx) \<and> \<not> up_revoked u \<and> up_enabled u \<and>
     (may_write L u tool \<longrightarrow> \<not> up_read_only u \<and> cx_program cx = None) \<and>
     (\<forall>p. cx_program cx = Some p \<longrightarrow> name \<in> set (pp_allowed p)) \<and>
     (\<forall>t. findTool (up_tools u) tool = Some t \<and> isWriteTool (gl_text L) t \<longrightarrow> schemaGaps (gl_text L) (tl_schema t) args = [])"

definition tool_effect :: "gw_lib \<Rightarrow> tool \<Rightarrow> string" where
  "tool_effect L t = (if isHighAssuranceWriteTool (gl_text L) t then effectWrite else effectRead)"

text \<open>A grant of the connection is for exactly this call.\<close>

definition grants_call :: "gw_lib \<Rightarrow> 's server \<Rightarrow> 'c call_io \<Rightarrow> call_ctx \<Rightarrow> upstream \<Rightarrow> string \<Rightarrow> string \<Rightarrow> evaluated_grant \<Rightarrow> bool" where
  "grants_call L sv io cx u tool args ev \<longleftrightarrow>
     (let g = eg_grant ev
      in g \<in> set (up_grants u) \<and> og_principal g = caller_of cx \<and> og_campaign g = campaign_of cx \<and> og_tool g = tool \<and>
         (sv_high sv \<longrightarrow> og_high_assurance g) \<and> (up_owner u = [] \<longrightarrow> og_allow_shared g) \<and>
         (\<exists>t. findTool (up_tools u) tool = Some t \<and>
            og_effect g = tool_effect L t) \<and>
         (og_effect g = effectWrite \<longrightarrow> og_resources g \<noteq> [] \<and> \<not> up_read_only u \<and> cx_program cx = None \<and>
            (up_owner u = [] \<longrightarrow> list_all rg_shared_writable (og_resources g))) \<and>
         evaluateOperationGrant (go L) g (caller_of cx) (campaign_of cx) tool (gl_decode L args) (ci_eval_at io) = Inr ev)"

lemma evaluate_grant: "evaluateOperationGrant G g caller campaign tool doc now = Inr ev \<Longrightarrow> eg_grant ev = g"
  by (auto simp: evaluateOperationGrant_def split: if_splits option.splits sum.splits)

lemma matching_grant:
  "matchingGrant u caller campaign tool = Some g \<Longrightarrow>
   g \<in> set (up_grants u) \<and> og_principal g = caller \<and> og_campaign g = campaign \<and> og_tool g = tool"
  by (auto simp: matchingGrant_def find_Some_iff)

lemma no_objection:
  "grant_objection L sv cx name tool u g = None \<Longrightarrow>
   (sv_high sv \<longrightarrow> og_high_assurance g) \<and> (up_owner u = [] \<longrightarrow> og_allow_shared g) \<and>
   (\<exists>t. findTool (up_tools u) tool = Some t \<and>
      og_effect g = tool_effect L t) \<and>
   (og_effect g = effectWrite \<longrightarrow> og_resources g \<noteq> [] \<and> \<not> up_read_only u \<and> cx_program cx = None \<and>
      (up_owner u = [] \<longrightarrow> list_all rg_shared_writable (og_resources g)))"
  by (auto simp: grant_objection_def effect_disagrees_def tool_effect_def program_denies_def effectRead_def effectWrite_def
      split: if_splits option.splits)

lemma governed_Pass:
  assumes "governed_verdict L sv io cx name upName tool u args (matchingGrant u (caller_of cx) (campaign_of cx) tool) digest = Pass u' args' ev"
  shows "u' = u \<and> args' = args \<and> (\<exists>e. ev = Some e \<and> grants_call L sv io cx u tool args e)"
  using assms matching_grant [of u "caller_of cx" "campaign_of cx" tool]
    no_objection [of L sv cx name tool u] evaluate_grant
  unfolding governed_verdict_def grants_call_def Let_def
  by (auto split: option.splits sum.splits)

text \<open>The checks that do not need the ledger.\<close>

lemma gate_Pass:
  assumes "gate L sv io cx name args = Pass u args' ev"
  obtains upName tool where "split_name name = (upName, tool)" "name = full_name upName tool"
    "lookup (sv_reg sv) upName = Some u" "up_owner u = [] \<or> up_owner u = caller_of cx" "\<not> up_revoked u" "up_enabled u"
    "args' = resolveOutbound (gl_order L) (sv_min sv) (caller_of cx) upName args"
    "if sv_high sv \<or> up_grants u \<noteq> [] then \<exists>e. ev = Some e \<and> grants_call L sv io cx u tool args' e
     else ev = None \<and> ambiguous L sv io cx upName tool u = None"
proof -
  obtain upName tool where c: "str_cut nsSep name = Some (upName, tool)"
    using assms by (auto simp: gate_def split: option.splits)
  obtain u0 where l: "lookup (sv_reg sv) upName = Some u0"
    using assms by (auto simp: gate_def c split: option.splits if_splits)
  have ok: "up_owner u0 = [] \<or> up_owner u0 = caller_of cx" "\<not> up_revoked u0" "up_enabled u0"
    using assms by (auto simp: gate_def c l Let_def split: if_splits)
  show thesis
  proof (cases "sv_high sv \<or> up_grants u0 \<noteq> []")
    case True
    with assms ok have "governed_verdict L sv io cx name upName tool u0 (resolveOutbound (gl_order L) (sv_min sv) (caller_of cx) upName args)
        (matchingGrant u0 (caller_of cx) (campaign_of cx) tool)
        (case matchingGrant u0 (caller_of cx) (campaign_of cx) tool of None \<Rightarrow> [] | Some g \<Rightarrow> (case grantDigest (go L) g of None \<Rightarrow> [] | Some d \<Rightarrow> d))
        = Pass u args' ev"
      by (simp add: gate_def c l Let_def del: de_Morgan_disj split: if_splits)
    from governed_Pass [OF this] show ?thesis
      by (intro that [of upName tool]) (use c l ok True in \<open>auto simp: split_name_def full_name_def str_cut_join\<close>)
  next
    case False
    with assms ok have "u = u0 \<and> ev = None \<and> args' = resolveOutbound (gl_order L) (sv_min sv) (caller_of cx) upName args \<and>
        ambiguous L sv io cx upName tool u0 = None"
      by (cases "ambiguous L sv io cx upName tool u0") (auto simp: gate_def c l Let_def)
    with False show ?thesis
      by (intro that [of upName tool]) (use c l ok in \<open>auto simp: split_name_def full_name_def str_cut_join\<close>)
  qed
qed

lemma pre_dial_None:
  assumes "pre_dial L cx upstream name u (findTool (up_tools u) tool) args = None"
    "up_owner u = [] \<or> up_owner u = caller_of cx" "\<not> up_revoked u" "up_enabled u"
  shows "admits L cx name u tool args"
  using assms by (auto simp: pre_dial_def admits_def may_write_def Let_def split: if_splits option.splits)

text \<open>The call \<open>proxyCall\<close> hands over when nothing refuses it.\<close>

definition call_of :: "gw_lib \<Rightarrow> call_ctx \<Rightarrow> string \<Rightarrow> string \<Rightarrow> upstream \<Rightarrow> string \<Rightarrow> (string \<times> string) option \<Rightarrow> dialed" where
  "call_of L cx upstream tool u args delegated =
     \<lparr>di_caller = caller_of cx, di_upstream = upstream, di_tool = tool, di_args = args, di_conn = up_conn u,
      di_delegated = delegated, di_shared = \<not> may_write L u tool\<rparr>"

lemma call_of_eq:
  "call_of L cx upstream tool u args delegated =
     \<lparr>di_caller = caller_of cx, di_upstream = upstream, di_tool = tool, di_args = args, di_conn = up_conn u,
      di_delegated = delegated,
      di_shared = (case findTool (up_tools u) tool of None \<Rightarrow> False | Some t \<Rightarrow> \<not> isWriteTool (gl_text L) t)\<rparr>"
  by (simp add: call_of_def may_write_def split: option.splits)

lemma proxyCall_eq:
  "proxyCall L ops io cx run_id upstream tool name u args evaluated delegated sv =
     (let d = call_of L cx upstream tool u args delegated; spec = findTool (up_tools u) tool;
          host = hostFromURL (gl_text L) (cn_endpoint (up_conn u)); sv1 = sv\<lparr>sv_dials := sv_dials sv @ [d]\<rparr>
      in case pre_dial L cx upstream name u spec args of Some out \<Rightarrow> (sv, Some out)
      | None \<Rightarrow>
          if di_shared d
          then (case ci_shared io d of (res, err, canceled) \<Rightarrow>
            if canceled
            then (sv1, Some ((outcome_of (ToolError (UpstreamRunning upstream)))\<lparr>po_err := map_option CallFailed err, po_host := host\<rparr>))
            else after_dial L ops io cx run_id upstream tool name spec host evaluated res err sv1)
          else (case ci_direct io d of (res, err) \<Rightarrow>
            after_dial L ops io cx run_id upstream tool name spec host evaluated res err sv1))"
  unfolding proxyCall_def Let_def call_of_eq by simp

lemma proxyCall_cases:
  assumes "proxyCall L ops io cx run_id upstream tool name u args evaluated delegated sv = (sv', r)"
  obtains (refused) out where "pre_dial L cx upstream name u (findTool (up_tools u) tool) args = Some out" "sv' = sv" "r = Some out"
  | (dialed) "pre_dial L cx upstream name u (findTool (up_tools u) tool) args = None"
      "keeps (sv\<lparr>sv_dials := sv_dials sv @ [call_of L cx upstream tool u args delegated]\<rparr>) sv'"
proof (cases "pre_dial L cx upstream name u (findTool (up_tools u) tool) args")
  case (Some out)
  with assms have "sv' = sv" "r = Some out" by (simp_all add: proxyCall_eq Let_def)
  with Some show thesis by (rule refused)
next
  case None
  let ?sv = "sv\<lparr>sv_dials := sv_dials sv @ [call_of L cx upstream tool u args delegated]\<rparr>"
  have "keeps ?sv sv'"
    using assms keeps_after [of ?sv L ops io cx run_id upstream tool name "findTool (up_tools u) tool"
        "hostFromURL (gl_text L) (cn_endpoint (up_conn u))" evaluated]
    unfolding proxyCall_eq Let_def None
    by (simp split: if_splits prod.splits) (metis fst_conv)+
  with None dialed show thesis by blast
qed

lemma recordProxy_keeps [simp]:
  "sv_dials (recordProxy L io cx run_id upstream tool args n out ev full dg sv) = sv_dials sv"
  "sv_ledger (recordProxy L io cx run_id upstream tool args n out ev full dg sv) = sv_ledger sv"
  "sv_ledger_world (recordProxy L io cx run_id upstream tool args n out ev full dg sv) = sv_ledger_world sv"
  by (simp_all add: recordProxy_def put_run_def split: prod.splits)

lemma recordGovernedDenial_keeps [simp]:
  "sv_dials (recordGovernedDenial L io cx upstream tool g d reason e sv) = sv_dials sv"
  by (simp add: recordGovernedDenial_def put_run_def next_run_def Let_def split: prod.splits)

lemma next_run_keeps:
  "next_run sv = (sv', i) \<Longrightarrow> sv_dials sv' = sv_dials sv \<and> sv_ledger sv' = sv_ledger sv \<and> sv_ledger_world sv' = sv_ledger_world sv"
  by (auto simp: next_run_def split: prod.splits)

definition delegates :: "'s server \<Rightarrow> call_ctx \<Rightarrow> upstream \<Rightarrow> dialed \<Rightarrow> bool" where
  "delegates sv cx u d =
     (if up_delegation u = None then di_delegated d = None
      else delegationSubject sv cx \<noteq> [] \<and> di_delegated d = Some (caller_of cx, delegationSubject sv cx))"

lemma cross_dials:
  assumes "cross L ops io cx name upName tool u args evaluated sv = (sv', r)" and "sv_dials sv' \<noteq> sv_dials sv"
    and "up_owner u = [] \<or> up_owner u = caller_of cx" "\<not> up_revoked u" "up_enabled u"
  obtains d where "sv_dials sv' = sv_dials sv @ [d]" "admits L cx name u tool args" "delegates sv cx u d"
    "di_caller d = caller_of cx" "di_upstream d = upName" "di_tool d = tool" "di_args d = args" "di_conn d = up_conn u"
    "sv_ledger sv' = sv_ledger sv" "sv_ledger_world sv' = sv_ledger_world sv"
proof -
  obtain sv1 run_id where n: "next_run sv = (sv1, run_id)" by force
  let ?s = "if up_delegation u = None then [] else delegationSubject sv cx"
  let ?dg = "if up_delegation u = None then None else Some (caller_of cx, ?s)"
  have s: "\<not> (up_delegation u \<noteq> None \<and> ?s = [])"
    using assms(1,2) next_run_keeps [OF n] by (auto simp: cross_def n Let_def)
  obtain sv2 out where p: "proxyCall L ops io cx run_id upName tool name u args evaluated ?dg sv1 = (sv2, out)" by force
  have sv': "sv_dials sv' = sv_dials sv2" "sv_ledger sv' = sv_ledger sv2" "sv_ledger_world sv' = sv_ledger_world sv2"
    using assms(1) s p by (auto simp: cross_def n Let_def split: option.splits)
  show thesis
  proof (rule proxyCall_cases [OF p])
    assume "sv2 = sv1"
    with assms(2) sv' next_run_keeps [OF n] show thesis by simp
  next
    assume none: "pre_dial L cx upName name u (findTool (up_tools u) tool) args = None"
      and k: "keeps (sv1\<lparr>sv_dials := sv_dials sv1 @ [call_of L cx upName tool u args ?dg]\<rparr>) sv2"
    show thesis
      by (rule that [of "call_of L cx upName tool u args ?dg", OF _ pre_dial_None [OF none assms(3-5)]])
        (use s sv' keepsD [OF k] next_run_keeps [OF n] in \<open>auto simp: call_of_def delegates_def split: if_splits\<close>)
  qed
qed

text \<open>
  C1. A call reaches an upstream only if the connection exists, is enabled and not revoked, belongs
  to the caller or to everyone, is not read-only for a tool that may write, and the arguments of a
  write satisfy its schema; a governed program only calls what it was allowed and nothing that may
  write; a delegated connection acts as the caller's own verified identity. Where grants govern the
  connection, one of them is for this caller, campaign, tool and effect, its evaluation accepts
  exactly the arguments that are sent, and the ledger recorded and charged the crossing; where none
  does, the tool was not ambiguous. A call reaches at most one upstream, once.
\<close>

theorem upstream_call_authorized:
  assumes "invokeUpstream L ops io cx name args sv = (sv', r)" and "sv_dials sv' \<noteq> sv_dials sv"
  shows "\<exists>u d. sv_dials sv' = sv_dials sv @ [d] \<and> name = full_name (di_upstream d) (di_tool d) \<and>
    lookup (sv_reg sv) (di_upstream d) = Some u \<and> di_conn d = up_conn u \<and> di_caller d = caller_of cx \<and>
    di_args d = resolveOutbound (gl_order L) (sv_min sv) (caller_of cx) (di_upstream d) args \<and>
    admits L cx name u (di_tool d) (di_args d) \<and> delegates sv cx u d \<and>
    (if sv_high sv \<or> up_grants u \<noteq> []
     then \<exists>ev. grants_call L sv io cx u (di_tool d) (di_args d) ev \<and>
       authorizeDecision (gl_ledger L) (sv_ledger sv) (sv_ledger_world sv) ev (int (length (di_args d))) (ci_decide_at io)
         (ci_ledger io) = (sv_ledger sv', sv_ledger_world sv', None)
     else ambiguous L sv io cx (di_upstream d) (di_tool d) u = None)"
proof -
  obtain u args' ev where g: "gate L sv io cx name args = Pass u args' ev"
    using assms by (cases "gate L sv io cx name args") (auto simp: invokeUpstream_def deny_def Let_def split: prod.splits)
  then obtain upName tool where n: "split_name name = (upName, tool)" "name = full_name upName tool"
    and u: "lookup (sv_reg sv) upName = Some u" "up_owner u = [] \<or> up_owner u = caller_of cx" "\<not> up_revoked u" "up_enabled u"
      "args' = resolveOutbound (gl_order L) (sv_min sv) (caller_of cx) upName args"
    and e: "if sv_high sv \<or> up_grants u \<noteq> [] then \<exists>e. ev = Some e \<and> grants_call L sv io cx u tool args' e
      else ev = None \<and> ambiguous L sv io cx upName tool u = None"
    by (rule gate_Pass)
  show ?thesis
  proof (cases ev)
    case None
    have c: "cross L ops io cx name upName tool u args' None sv = (sv', r)"
      using assms(1) by (simp add: invokeUpstream_def n(1) g None)
    show ?thesis
      by (rule cross_dials [OF c assms(2) u(2-4)]) (use e n(2) u None in \<open>auto split: if_splits\<close>)
  next
    case (Some v)
    obtain l w err where a: "authorizeDecision (gl_ledger L) (sv_ledger sv) (sv_ledger_world sv) v (int (length args'))
        (ci_decide_at io) (ci_ledger io) = (l, w, err)" by (cases rule: prod_cases3)
    have "err = None" using assms a by (cases err) (auto simp: invokeUpstream_def n(1) g Some)
    with assms(1) a have c: "cross L ops io cx name upName tool u args' (Some v) (sv\<lparr>sv_ledger := l, sv_ledger_world := w\<rparr>) = (sv', r)"
      by (simp add: invokeUpstream_def n(1) g Some)
    have "sv_dials sv' \<noteq> sv_dials (sv\<lparr>sv_ledger := l, sv_ledger_world := w\<rparr>)" using assms(2) by simp
    from cross_dials [OF c this u(2-4)] show ?thesis
      by (rule) (use e n(2) u a Some \<open>err = None\<close> in \<open>auto simp: delegates_def delegationSubject_def delegationSubjectForSubject_def split: if_splits\<close>)
  qed
qed

end
