(* ===== verification/Dial_Safety.thy ===== *)
theory Dial_Safety
  imports Safe_Dial
begin

text \<open>
  What the guarded clients guarantee: the refused addresses are exactly the listed networks, every
  address contacted and every request sent passed its check, redirects stay within ten requests
  and (without a policy) within one origin, and the loop returns whatever the network does.
\<close>

section \<open>Networks\<close>

definition be_val :: "ip \<Rightarrow> nat" where
  "be_val bs = foldl (\<lambda>n b. n * 256 + unat b) 0 bs"

text \<open>An address lies in a network when they agree on the first bits.\<close>

definition in_net :: "nat \<Rightarrow> nat \<Rightarrow> ip \<times> nat \<Rightarrow> bool" where
  "in_net bits n = (\<lambda>(net, len). n div 2 ^ (bits - len) = be_val net div 2 ^ (bits - len))"

definition internal_v4 :: "(ip \<times> nat) list" where
  "internal_v4 =
     [([0, 0, 0, 0], 32), ([10, 0, 0, 0], 8), ([100, 64, 0, 0], 10), ([127, 0, 0, 0], 8),
      ([169, 254, 0, 0], 16), ([172, 16, 0, 0], 12), ([192, 168, 0, 0], 16), ([224, 0, 0, 0], 4)]"

definition internal_v6 :: "(ip \<times> nat) list" where
  "internal_v6 =
     [(replicate 16 0, 128), (replicate 15 0 @ [1], 128), (0xfc # replicate 15 0, 7),
      ([0xfe, 0x80] @ replicate 14 0, 10), (0xff # replicate 15 0, 8)]"

lemma and_high_bits:
  fixes n :: nat
  assumes "n < 2 ^ (k + m)"
  shows "n AND (2 ^ k * (2 ^ m - 1)) = 2 ^ k * (n div 2 ^ k)"
proof -
  have "n AND (2 ^ k * (2 ^ m - 1)) = n AND push_bit k (mask m)"
    by (simp add: push_bit_eq_mult mask_eq_exp_minus_1 mult.commute)
  also have "\<dots> = push_bit k (drop_bit k n AND mask m)"
    by (rule bit_eqI) (auto simp: bit_simps)
  also have "\<dots> = 2 ^ k * take_bit m (n div 2 ^ k)"
    by (simp add: push_bit_eq_mult take_bit_eq_mask drop_bit_eq_div mult.commute)
  also have "take_bit m (n div 2 ^ k) = n div 2 ^ k"
    using assms by (intro take_bit_nat_eq_self less_mult_imp_div_less) (simp add: power_add mult.commute)
  finally show ?thesis .
qed

lemma byte_lt [simp]: "unat (b :: byte) < 256"
  using unsigned_less [of b] by simp

lemma byte_mask:
  fixes b :: byte
  assumes "k + m = 8" "unat msk = 2 ^ k * (2 ^ m - 1)" "unat v = 2 ^ k * c"
  shows "b AND msk = v \<longleftrightarrow> unat b div 2 ^ k = c"
proof -
  have "b AND msk = v \<longleftrightarrow> unat b AND unat msk = unat v"
    by (metis unsigned_and_eq unsigned_word_eqI)
  also have "unat b AND unat msk = 2 ^ k * (unat b div 2 ^ k)"
    using and_high_bits [of "unat b" k m] assms(1,2) by simp
  finally show ?thesis using assms(3) by simp
qed

lemma byte_masks:
  fixes b :: byte
  shows "b AND 0xf0 = 16 \<longleftrightarrow> unat b div 16 = 1" "b AND 0xf0 = 0xe0 \<longleftrightarrow> unat b div 16 = 14"
    "b AND 0xc0 = 64 \<longleftrightarrow> unat b div 64 = 1" "b AND 0xc0 = 0x80 \<longleftrightarrow> unat b div 64 = 2"
    "b AND 0xfe = 0xfc \<longleftrightarrow> unat b div 2 = 126"
  using byte_mask [of 4 4 "0xf0" 16 1 b] byte_mask [of 4 4 "0xf0" "0xe0" 14 b]
    byte_mask [of 6 2 "0xc0" 64 1 b] byte_mask [of 6 2 "0xc0" "0x80" 2 b]
    byte_mask [of 1 7 "0xfe" "0xfc" 126 b] by simp_all

lemma be_val_Cons: "be_val (b # bs) = unat b * 256 ^ length bs + be_val bs"
proof -
  have "foldl (\<lambda>n b. n * 256 + unat b) m bs = m * 256 ^ length bs + foldl (\<lambda>n b. n * 256 + unat b) 0 bs" for m
  proof (induction bs arbitrary: m)
    case (Cons c bs)
    show ?case using Cons [of "m * 256 + unat c"] Cons [of "unat c"] by (simp add: algebra_simps)
  qed simp
  from this [of "unat b"] show ?thesis by (simp add: be_val_def)
qed

lemma be_val_Nil [simp]: "be_val [] = 0"
  by (simp add: be_val_def)

lemma be_val_less: "be_val bs < 256 ^ length bs"
proof (induction bs)
  case (Cons b bs)
  have "unat b * 256 ^ length bs + be_val bs < (unat b + 1) * 256 ^ length bs" using Cons by simp
  also have "\<dots> \<le> 256 * 256 ^ length bs" using byte_lt [of b] by (intro mult_right_mono) (simp_all add: Suc_le_eq del: byte_lt)
  finally show ?case by (simp add: be_val_Cons)
qed simp

lemma be_val_inject: "length xs = length ys \<Longrightarrow> be_val xs = be_val ys \<longleftrightarrow> xs = ys"
proof (induction xs ys rule: list_induct2)
  case (Cons x xs y ys)
  have "unat x = unat y \<and> be_val xs = be_val ys" if "be_val (x # xs) = be_val (y # ys)"
  proof -
    have "(unat x * 256 ^ length xs + be_val xs) div 256 ^ length xs = unat x"
      "(unat y * 256 ^ length xs + be_val ys) div 256 ^ length xs = unat y"
      using be_val_less [of xs] be_val_less [of ys] Cons.hyps by simp_all
    with that Cons.hyps show ?thesis by (simp add: be_val_Cons)
  qed
  then have "be_val (x # xs) = be_val (y # ys) \<longleftrightarrow> unat x = unat y \<and> be_val xs = be_val ys"
    using Cons.hyps by (auto simp: be_val_Cons)
  then show ?case unfolding Cons.IH list.inject word_unat_eq_iff .
qed simp

lemma v4_networks:
  assumes "a < 256" "b < 256" "c < 256" "d < 256" and n: "n = a * 2 ^ 24 + b * 2 ^ 16 + c * 2 ^ 8 + (d :: nat)"
  shows "n div 2 ^ 24 = a" "n div 2 ^ 22 = a * 4 + b div 64" "n div 2 ^ 20 = a * 16 + b div 16"
    "n div 2 ^ 16 = a * 256 + b" "n div 2 ^ 28 = a div 16"
proof -
  show d16: "n div 2 ^ 16 = a * 256 + b" using assms by simp
  then have "n div 2 ^ 20 = (a * 256 + b) div 2 ^ 4" "n div 2 ^ 22 = (a * 256 + b) div 2 ^ 6"
    "n div 2 ^ 24 = (a * 256 + b) div 2 ^ 8" "n div 2 ^ 28 = (a * 256 + b) div 2 ^ 12"
    by (simp_all add: div_mult2_eq [symmetric] flip: d16)
  then show "n div 2 ^ 24 = a" "n div 2 ^ 22 = a * 4 + b div 64" "n div 2 ^ 20 = a * 16 + b div 16"
    "n div 2 ^ 28 = a div 16" using assms(1,2) by simp_all
qed

lemma two_digits:
  assumes "y < m" "v < (m :: nat)"
  shows "x * m + y = u * m + v \<longleftrightarrow> x = u \<and> y = v"
proof -
  have "(x * m + y) div m = x" "(x * m + y) mod m = y" "(u * m + v) div m = u" "(u * m + v) mod m = v"
    using assms by simp_all
  then show ?thesis by auto
qed

lemma internal_v4_nets:
  assumes "length a = 4"
  shows "(\<exists>net \<in> set internal_v4. in_net 32 (be_val a) net) \<longleftrightarrow>
    a = [0, 0, 0, 0] \<or> a ! 0 = 127 \<or> (a ! 0 = 169 \<and> a ! 1 = 254) \<or> a ! 0 = 10 \<or>
    (a ! 0 = 172 \<and> a ! 1 AND 0xf0 = 16) \<or> (a ! 0 = 192 \<and> a ! 1 = 168) \<or>
    a ! 0 AND 0xf0 = 0xe0 \<or> (a ! 0 = 100 \<and> a ! 1 AND 0xc0 = 64)"
proof -
  obtain p q r s where a: "a = [p, q, r, s]" using assms by (auto simp: length_Suc_conv numeral_eq_Suc)
  let ?n = "be_val a"
  have n: "?n = unat p * 2 ^ 24 + unat q * 2 ^ 16 + unat r * 2 ^ 8 + unat s" by (simp add: a be_val_Cons)
  note nets = v4_networks [OF byte_lt byte_lt byte_lt byte_lt n]
  have zero: "?n = 0 \<longleftrightarrow> a = [0, 0, 0, 0]" using be_val_inject [of a "[0, 0, 0, 0]"] a by (simp add: be_val_Cons)
  have lt: "unat q div 64 < 4" "unat q div 16 < 16" "unat p div 16 < 16"
    using byte_lt [of p] byte_lt [of q] by (simp_all add: div_less_iff_less_mult del: byte_lt)
  have "in_net 32 ?n ([0, 0, 0, 0], 32) \<longleftrightarrow> a = [0, 0, 0, 0]"
    using zero by (simp add: in_net_def be_val_Cons)
  moreover have "in_net 32 ?n ([10, 0, 0, 0], 8) \<longleftrightarrow> p = 10" "in_net 32 ?n ([127, 0, 0, 0], 8) \<longleftrightarrow> p = 127"
    using nets by (simp_all add: in_net_def be_val_Cons word_unat_eq_iff)
  moreover have "in_net 32 ?n ([224, 0, 0, 0], 4) \<longleftrightarrow> p AND 0xf0 = 0xe0"
    using nets unfolding byte_masks by (simp add: in_net_def be_val_Cons)
  moreover have "in_net 32 ?n ([100, 64, 0, 0], 10) \<longleftrightarrow> p = 100 \<and> q AND 0xc0 = 64"
    using nets(2) two_digits [OF lt(1), of 1 "unat p" 100]
    unfolding byte_masks by (simp add: in_net_def be_val_Cons word_unat_eq_iff)
  moreover have "in_net 32 ?n ([172, 16, 0, 0], 12) \<longleftrightarrow> p = 172 \<and> q AND 0xf0 = 16"
    using nets(3) two_digits [OF lt(2), of 1 "unat p" 172]
    unfolding byte_masks by (simp add: in_net_def be_val_Cons word_unat_eq_iff)
  moreover have "in_net 32 ?n ([169, 254, 0, 0], 16) \<longleftrightarrow> p = 169 \<and> q = 254"
    "in_net 32 ?n ([192, 168, 0, 0], 16) \<longleftrightarrow> p = 192 \<and> q = 168"
    using nets(4) two_digits [OF byte_lt [of q], of 254 "unat p" 169] two_digits [OF byte_lt [of q], of 168 "unat p" 192]
    by (simp_all add: in_net_def be_val_Cons word_unat_eq_iff)
  ultimately show ?thesis unfolding internal_v4_def by (auto simp: a)
qed

lemma be_val_zeros [simp]: "be_val (replicate k 0) = 0"
  by (induction k) (simp_all add: be_val_Cons)

lemma v6_networks:
  assumes "p < 256" "q < 256" "r < 2 ^ 112" and n: "n = p * 2 ^ 120 + q * 2 ^ 112 + (r :: nat)"
  shows "n div 2 ^ 120 = p" "n div 2 ^ 121 = p div 2" "n div 2 ^ 118 = p * 4 + q div 64"
proof -
  have "n = (p * 256 + q) * 2 ^ 112 + r" using n by simp
  with assms(3) have d: "n div 2 ^ 112 = p * 256 + q" by simp
  have split: "n div 2 ^ (112 + k) = (p * 256 + q) div 2 ^ k" for k
    by (simp only: power_add div_mult2_eq d)
  have "(p * 256 + q) div 2 ^ 9 = p div 2" using assms(2) div_mult2_eq [of "p * 256 + q" 256 2] by simp
  moreover have "(p * 256 + q) div 2 ^ 8 = p" using assms(2) by simp
  moreover have "(p * 256 + q) div 2 ^ 6 = p * 4 + q div 64" using div_mult_self3 [of 64 q "p * 4"] by (simp add: algebra_simps)
  ultimately show "n div 2 ^ 120 = p" "n div 2 ^ 121 = p div 2" "n div 2 ^ 118 = p * 4 + q div 64"
    using split [of 8] split [of 9] split [of 6] by simp_all
qed

lemma internal_v6_nets:
  assumes "length a = 16"
  shows "(\<exists>net \<in> set internal_v6. in_net 128 (be_val a) net) \<longleftrightarrow>
    a = v6_unspecified \<or> a = v6_loopback \<or> a ! 0 AND 0xfe = 0xfc \<or> (a ! 0 = 0xfe \<and> a ! 1 AND 0xc0 = 0x80) \<or> a ! 0 = 0xff"
proof -
  obtain p q r where a: "a = p # q # r" and r: "length r = 14"
    using assms by (cases a; cases "tl a") auto
  let ?n = "be_val a"
  have n: "?n = unat p * 2 ^ 120 + unat q * 2 ^ 112 + be_val r" by (simp add: a r be_val_Cons)
  have "be_val r < 2 ^ 112" using be_val_less [of r] r by simp
  note nets = v6_networks [OF byte_lt byte_lt this n]
  have lt: "unat q div 64 < 4" using byte_lt [of q] by (simp add: div_less_iff_less_mult del: byte_lt)
  have exact: "in_net 128 ?n (b, 128) \<longleftrightarrow> a = b" if "length b = 16" for b
    using be_val_inject [of a b] that assms by (simp add: in_net_def)
  have "in_net 128 ?n (0xfc # replicate 15 0, 7) \<longleftrightarrow> p AND 0xfe = 0xfc"
    using nets(2) unfolding byte_masks by (simp add: in_net_def be_val_Cons)
  moreover have "in_net 128 ?n ([0xfe, 0x80] @ replicate 14 0, 10) \<longleftrightarrow> p = 0xfe \<and> q AND 0xc0 = 0x80"
    using nets(3) two_digits [OF lt, of 2 "unat p" 254]
    unfolding byte_masks by (simp add: in_net_def be_val_Cons word_unat_eq_iff)
  moreover have "in_net 128 ?n (0xff # replicate 15 0, 8) \<longleftrightarrow> p = 0xff"
    using nets(1) by (simp add: in_net_def be_val_Cons word_unat_eq_iff)
  ultimately show ?thesis using exact unfolding internal_v6_def v6_unspecified_def v6_loopback_def
    by (auto simp: a)
qed

lemma length_v4_prefix [simp]: "length v4_prefix = 12"
  by (simp add: v4_prefix_def)

lemma v4_prefix_nth: "v4_prefix ! 10 \<noteq> 0"
  by (simp add: v4_prefix_def nth_append)

lemma ip_to4_Some:
  assumes "ip_to4 ip = Some a"
  shows "length a = 4" "ip = a \<or> ip = v4_prefix @ a"
proof -
  have "length ip = 16 \<Longrightarrow> take 12 ip = v4_prefix \<Longrightarrow> ip = v4_prefix @ drop 12 ip"
    by (metis append_take_drop_id)
  with assms show "length a = 4" "ip = a \<or> ip = v4_prefix @ a"
    by (auto simp: ip_to4_def split: if_splits)
qed

lemma v4_zero_parts [simp]: "length v4_zero = 16" "take 12 v4_zero = v4_prefix" "drop 12 v4_zero = [0, 0, 0, 0]"
  by (simp_all add: v4_zero_def)

lemma v6_parts [simp]: "length v6_unspecified = 16" "length v6_loopback = 16"
  "take 12 v6_unspecified \<noteq> v4_prefix" "take 12 v6_loopback \<noteq> v4_prefix"
proof -
  have "take 12 v6_unspecified ! 10 = 0" "take 12 v6_loopback ! 10 = 0"
    by (simp_all add: v6_unspecified_def v6_loopback_def nth_append)
  with v4_prefix_nth show "take 12 v6_unspecified \<noteq> v4_prefix" "take 12 v6_loopback \<noteq> v4_prefix" by metis+
qed (simp_all add: v6_unspecified_def v6_loopback_def)

lemma v4_predicates:
  assumes "ip_to4 ip = Some a"
  shows "IsUnspecified ip \<longleftrightarrow> a = [0, 0, 0, 0]" "\<not> IsInterfaceLocalMulticast ip"
proof -
  note ip = ip_to4_Some [OF assms]
  have "v4_prefix @ a \<noteq> v6_unspecified"
  proof
    assume "v4_prefix @ a = v6_unspecified"
    then have "take 12 v6_unspecified = v4_prefix" by (metis append_eq_conv_conj length_v4_prefix)
    then show False by simp
  qed
  moreover have "v4_prefix @ a \<noteq> [0, 0, 0, 0]" by (rule notI, drule arg_cong [of _ _ length]) (simp add: ip)
  ultimately show "IsUnspecified ip \<longleftrightarrow> a = [0, 0, 0, 0]"
    using ip by (auto simp: IsUnspecified_def ip_equal_def v4_zero_def)
  have "(v4_prefix @ a) ! 0 = 0" by (simp add: v4_prefix_def nth_append)
  with ip show "\<not> IsInterfaceLocalMulticast ip" by (auto simp: IsInterfaceLocalMulticast_def)
qed

lemma v6_predicates:
  assumes "ip_to4 ip = None" "length ip = 16"
  shows "IsUnspecified ip \<longleftrightarrow> ip = v6_unspecified" "IsLoopback ip \<longleftrightarrow> ip = v6_loopback"
proof -
  have "ip \<noteq> v4_zero" using assms by (auto simp: ip_to4_def)
  with assms show "IsUnspecified ip \<longleftrightarrow> ip = v6_unspecified" "IsLoopback ip \<longleftrightarrow> ip = v6_loopback"
    by (simp_all add: IsUnspecified_def IsLoopback_def ip_equal_def)
qed

text \<open>
  The addresses the guard calls internal are exactly the following networks. For IPv4, also
  written inside IPv6: the unspecified address, 10.0.0.0/8, 100.64.0.0/10, 127.0.0.0/8,
  169.254.0.0/16 (with the metadata service 169.254.169.254), 172.16.0.0/12, 192.168.0.0/16 and
  224.0.0.0/4; for the rest of IPv6 the unspecified and the loopback address, fc00::/7,
  fe80::/10 and ff00::/8; and anything that is not an address.
\<close>

theorem internal_networks:
  "isInternal None \<and>
   (ip_to4 ip = Some a \<longrightarrow> isInternal (Some ip) = (\<exists>net \<in> set internal_v4. in_net 32 (be_val a) net)) \<and>
   (ip_to4 ip = None \<and> length ip = 16 \<longrightarrow>
      isInternal (Some ip) = (\<exists>net \<in> set internal_v6. in_net 128 (be_val ip) net))"
proof (intro conjI impI)
  show "isInternal None" by (simp add: isInternal_def)
next
  assume a: "ip_to4 ip = Some a"
  have "a ! 0 AND 0xf0 = 0xe0" if "a ! 0 = 224" unfolding that by simp
  then show "isInternal (Some ip) = (\<exists>net \<in> set internal_v4. in_net 32 (be_val a) net)"
    unfolding internal_v4_nets [OF ip_to4_Some(1) [OF a]]
    by (auto simp: isInternal_def v4_predicates [OF a] a IsLoopback_def IsLinkLocalUnicast_def
        IsLinkLocalMulticast_def IsPrivate_def IsMulticast_def)
next
  assume "ip_to4 ip = None \<and> length ip = 16"
  then have ip: "ip_to4 ip = None" "length ip = 16" by simp_all
  show "isInternal (Some ip) = (\<exists>net \<in> set internal_v6. in_net 128 (be_val ip) net)"
    unfolding internal_v6_nets [OF ip(2)]
    by (auto simp: isInternal_def v6_predicates [OF ip] ip IsLinkLocalUnicast_def
        IsLinkLocalMulticast_def IsPrivate_def IsMulticast_def IsInterfaceLocalMulticast_def)
qed

theorem internal_networks_witness:
  "ip_to4 (v4_prefix @ [169, 254, 169, 254]) = Some [169, 254, 169, 254] \<and>
   isInternal (Some (v4_prefix @ [169, 254, 169, 254])) \<and> ip_to4 v6_loopback = None \<and> isInternal (Some v6_loopback)"
proof -
  have a: "ip_to4 (v4_prefix @ [169, 254, 169, 254]) = Some [169, 254, 169, 254]"
    by (simp add: ip_to4_def)
  have "([169, 254, 0, 0], 16) \<in> set internal_v4" "in_net 32 (be_val [169, 254, 169, 254]) ([169, 254, 0, 0], 16)"
    by (simp_all add: internal_v4_def in_net_def be_val_Cons)
  with internal_networks [of "v4_prefix @ [169, 254, 169, 254]"] a
  have v4: "isInternal (Some (v4_prefix @ [169, 254, 169, 254]))" by blast
  have b: "ip_to4 v6_loopback = None" by (simp add: ip_to4_def)
  have "(replicate 15 0 @ [1], 128) \<in> set internal_v6" "in_net 128 (be_val v6_loopback) (replicate 15 0 @ [1], 128)"
    by (simp_all add: internal_v6_def in_net_def v6_loopback_def)
  with internal_networks [of v6_loopback] b v6_parts(2) have "isInternal (Some v6_loopback)" by blast
  with a b v4 show ?thesis by blast
qed

section \<open>Redirects\<close>

text \<open>A client whose redirect check stops after ten requests.\<close>

locale redirect_bound =
  fixes C :: http_client
  assumes stops: "cl_redirect C target via = None \<Longrightarrow> length via < 10"
begin

lemma returns:
  "length via \<le> 9 \<Longrightarrow> \<exists>sent res. client_do C net u via = Some (sent, res) \<and> length sent + length via \<le> 10"
proof (induction "10 - length via" arbitrary: u via rule: less_induct)
  case less
  show ?case
  proof (cases "\<exists>addrs next_url. RoundTrip C u (net (length via)) = Inr addrs \<and> addrs \<noteq> [] \<and>
      h_reply (net (length via)) = Redirect next_url \<and> cl_redirect C (Some next_url) (via @ [u]) = None")
    case True
    then obtain addrs next_url where hop: "RoundTrip C u (net (length via)) = Inr addrs" "addrs \<noteq> []"
      "h_reply (net (length via)) = Redirect next_url" "cl_redirect C (Some next_url) (via @ [u]) = None" by blast
    have "length (via @ [u]) \<le> 9" using stops [OF hop(4)] by simp
    moreover from this have "10 - length (via @ [u]) < 10 - length via" by simp
    ultimately obtain sent res where "client_do C net next_url (via @ [u]) = Some (sent, res)"
      "length sent + length (via @ [u]) \<le> 10"
      using less.hyps [of "via @ [u]" next_url] by blast
    with hop show ?thesis by (subst client_do.simps) simp
  next
    case False
    with less.prems show ?thesis
      by (subst (1) client_do.simps) (auto split: sum.splits reply.splits option.splits)
  qed
qed

lemma sent_cases:
  assumes run: "client_do C net u via = Some (sent, res)" and mem: "(v, addrs) \<in> set sent"
    and via: "length via \<le> 9"
  shows "cl_validate C (Some v) = None \<and>
    (\<forall>a \<in> set addrs. \<exists>n lookup_ip. (a, lookup_ip) \<in> set (h_attempts (net n)) \<and> cl_control C lookup_ip a = None) \<and>
    (v = u \<or> (\<exists>via'. cl_redirect C (Some v) via' = None \<and> via' \<noteq> [] \<and> hd via' = hd (via @ [u])))"
  using assms
proof (induction "10 - length via" arbitrary: u via sent res rule: less_induct)
  case less
  have ok: "cl_validate C (Some u) = None \<and>
      (\<forall>a \<in> set as. \<exists>n lookup_ip. (a, lookup_ip) \<in> set (h_attempts (net n)) \<and> cl_control C lookup_ip a = None)"
    if "RoundTrip C u (net (length via)) = Inr as" for as
    using that by (force simp: RoundTrip_def contacted_def split: option.splits)
  from less.prems(1) obtain as where rt: "RoundTrip C u (net (length via)) = Inr as"
    using less.prems(2) by (subst (asm) client_do.simps) (auto split: sum.splits)
  show ?case
  proof (cases "(v, addrs) = (u, as)")
    case True
    with ok [OF rt] show ?thesis by simp
  next
    case False
    with less.prems(1,2) rt obtain next_url rest where
      next_url: "cl_redirect C (Some next_url) (via @ [u]) = None"
      and rest: "client_do C net next_url (via @ [u]) = Some (rest, res)" "(v, addrs) \<in> set rest"
      by (subst (asm) client_do.simps)
        (auto split: if_splits reply.splits option.splits simp: bind_eq_Some_conv)
    have short: "length (via @ [u]) \<le> 9" using stops [OF next_url] by simp
    have "cl_validate C (Some v) = None \<and>
      (\<forall>a \<in> set addrs. \<exists>n lookup_ip. (a, lookup_ip) \<in> set (h_attempts (net n)) \<and> cl_control C lookup_ip a = None) \<and>
      (v = next_url \<or> (\<exists>via'. cl_redirect C (Some v) via' = None \<and> via' \<noteq> [] \<and> hd via' = hd ((via @ [u]) @ [next_url])))"
      using less.hyps [OF _ rest short] less.prems(3) by simp
    moreover have "hd ((via @ [u]) @ [next_url]) = hd (via @ [u])" by (cases via) simp_all
    ultimately show ?thesis using next_url by auto
  qed
qed

end

interpretation guarded: redirect_bound "guardedClient L dialTimeout requestTimeout policy"
  by unfold_locales (simp add: guardedClient_def check_redirect_def split: if_splits)

interpretation declared: redirect_bound "GuardedClientForDestination L dialTimeout requestTimeout dest"
  by unfold_locales (simp add: GuardedClientForDestination_def destination_redirect_def split: if_splits)

text \<open>
  C27. The redirect loop ends whatever the servers answer: both clients return after at most ten
  requests, for every network behaviour, every URL and every policy or destination; and their
  timeouts are positive.
\<close>

theorem guarded_clients_return:
  "(\<exists>sent res. client_do (guardedClient L dialTimeout requestTimeout policy) net u [] = Some (sent, res) \<and> length sent \<le> 10) \<and>
   (\<exists>sent res. client_do (GuardedClientForDestination L dialTimeout requestTimeout dest) net u [] = Some (sent, res) \<and>
      length sent \<le> 10) \<and>
   0 < cl_dial_timeout (guardedClient L dialTimeout requestTimeout policy) \<and>
   0 < cl_request_timeout (guardedClient L dialTimeout requestTimeout policy) \<and>
   0 < cl_dial_timeout (GuardedClientForDestination L dialTimeout requestTimeout dest) \<and>
   0 < cl_request_timeout (GuardedClientForDestination L dialTimeout requestTimeout dest)"
  using guarded.returns [of "[]" L dialTimeout requestTimeout policy net u]
    declared.returns [of "[]" L dialTimeout requestTimeout dest net u]
  by (simp add: guardedClient_def GuardedClientForDestination_def dial_default_def request_default_def)

lemma not_internal: "\<not> isInternal x \<Longrightarrow> \<exists>ip. x = Some ip \<and> \<not> isInternal (Some ip)"
  by (cases x) (simp_all add: isInternal_def)

lemma not_refused: "\<not> alwaysRefused x \<Longrightarrow> \<exists>ip. x = Some ip \<and> \<not> alwaysRefused (Some ip)"
  by (cases x) (simp_all add: alwaysRefused_def)

lemma validateTarget_None:
  "validateTarget L (Some u) policy = None \<Longrightarrow>
   u_scheme u \<in> {''http'', ''https''} \<and> u_host u \<noteq> [] \<and> \<not> u_user u \<and>
   (\<forall>ip. parse_ip L (u_hostname u) = Some ip \<longrightarrow> \<not> isInternal (Some ip)) \<and> (\<forall>p. policy = Some p \<longrightarrow> p u)"
  by (auto simp: validateTarget_def split: if_splits option.splits)

text \<open>
  C26. A guarded client never reaches an internal address. For every request it sends, to the
  first URL or after a redirect, the URL is http or https without credentials and names no
  internal address, the policy (when there is one) authorized that URL, without a policy it has
  the origin of the first URL, and every address contacted for it, whatever the resolver
  answered, parses as an address that is not internal.
\<close>

theorem guarded_client_safe:
  assumes "client_do (guardedClient L dialTimeout requestTimeout policy) net u [] = Some (sent, res)"
    and "(v, addrs) \<in> set sent"
  shows "u_scheme v \<in> {''http'', ''https''} \<and> u_host v \<noteq> [] \<and> \<not> u_user v \<and>
    (\<forall>p. policy = Some p \<longrightarrow> p v) \<and>
    (policy = None \<longrightarrow> canonicalOrigin L (Some v) = canonicalOrigin L (Some u)) \<and>
    (\<forall>a \<in> set addrs. \<exists>host port ip. split_host_port L a = Some (host, port) \<and> parse_ip L host = Some ip \<and>
       \<not> isInternal (Some ip))"
proof -
  note checked = guarded.sent_cases [OF assms, simplified]
  have valid: "validateTarget L (Some v) policy = None" using checked by (simp add: guardedClient_def)
  have "canonicalOrigin L (Some v) = canonicalOrigin L (Some u)" if "policy = None"
    using checked that by (auto simp: guardedClient_def check_redirect_def split: if_splits)
  moreover have "\<exists>host port ip. split_host_port L a = Some (host, port) \<and> parse_ip L host = Some ip \<and> \<not> isInternal (Some ip)"
    if "a \<in> set addrs" for a
  proof -
    have "guardControl L a = None" using checked that by (auto simp: guardedClient_def)
    then show ?thesis by (auto simp: guardControl_def dest: not_internal split: option.splits if_splits)
  qed
  ultimately show ?thesis using validateTarget_None [OF valid] by blast
qed

text \<open>
  The client for a declared destination reaches internal addresses only there. Every address
  it contacts is one that may be dialed at all (never link-local, metadata, unspecified or
  multicast), and if it is internal, it has the declared port and is the declared address, or
  both are loopback, or the declared name resolves to it at that moment; every request stays on
  the origin of the first URL. A destination that was parsed is itself never such an address.
\<close>

theorem destination_client_safe:
  assumes dest: "ParseDestination L raw = Inr dest"
    and run: "client_do (GuardedClientForDestination L dialTimeout requestTimeout dest) net u [] = Some (sent, res)"
    and mem: "(v, addrs) \<in> set sent" "a \<in> set addrs"
  shows "canonicalOrigin L (Some v) = canonicalOrigin L (Some u) \<and> \<not> u_user v \<and>
    (\<forall>ip. d_ip dest = Some ip \<longrightarrow> \<not> alwaysRefused (Some ip)) \<and>
    (\<exists>host port ip. split_host_port L a = Some (host, port) \<and> parse_ip L host = Some ip \<and> \<not> alwaysRefused (Some ip) \<and>
      (isInternal (Some ip) \<longrightarrow> port = d_port dest \<and>
        (case d_ip dest of
           Some dip \<Rightarrow> ip_equal dip ip \<or> IsLoopback dip \<and> IsLoopback ip
         | None \<Rightarrow> (\<exists>n lookup_ip resolved candidate. (a, lookup_ip) \<in> set (h_attempts (net n)) \<and>
             lookup_ip (d_host dest) = Some resolved \<and> candidate \<in> set resolved \<and> ip_equal candidate ip))))"
proof -
  note checked = declared.sent_cases [OF run mem(1), simplified]
  from checked mem(2) obtain n lookup_ip where att: "(a, lookup_ip) \<in> set (h_attempts (net n))"
    and guard: "destinationGuard L dest lookup_ip a = None"
    by (auto simp: GuardedClientForDestination_def)
  from guard obtain host port where hp: "split_host_port L a = Some (host, port)"
    and nref: "\<not> alwaysRefused (parse_ip L host)"
    and perm: "isInternal (parse_ip L host) \<Longrightarrow> permits dest lookup_ip (parse_ip L host) port"
    by (auto simp: destinationGuard_def Let_def split: option.splits if_splits)
  from not_refused [OF nref] obtain ip where ip: "parse_ip L host = Some ip" "\<not> alwaysRefused (Some ip)" by blast
  have "port = d_port dest \<and> (case d_ip dest of
           Some dip \<Rightarrow> ip_equal dip ip \<or> IsLoopback dip \<and> IsLoopback ip
         | None \<Rightarrow> (\<exists>n lookup_ip resolved candidate. (a, lookup_ip) \<in> set (h_attempts (net n)) \<and>
             lookup_ip (d_host dest) = Some resolved \<and> candidate \<in> set resolved \<and> ip_equal candidate ip))"
    if "isInternal (Some ip)"
    using perm that att ip(1) by (auto simp: permits_def list_ex_iff split: option.splits if_splits)
  moreover have "canonicalOrigin L (Some v) = canonicalOrigin L (Some u) \<and> \<not> u_user v"
    using checked
    by (auto simp: GuardedClientForDestination_def destination_redirect_def validateDestinationTarget_def split: if_splits)
  moreover have "\<forall>ip. d_ip dest = Some ip \<longrightarrow> \<not> alwaysRefused (Some ip)"
    using dest by (auto simp: ParseDestination_def Let_def split: option.splits if_splits)
  ultimately show ?thesis using hp ip by blast
qed

section \<open>Examples\<close>

text \<open>A network with a public server, a loopback sidecar and a server that redirects to it.\<close>

definition dial_example :: dial_lib where
  "dial_example =
     \<lparr>url_parse = (\<lambda>s. if s = ''http://127.0.0.1:8080''
        then Some \<lparr>u_scheme = ''http'', u_host = ''127.0.0.1:8080'', u_user = False, u_path = [], u_raw_path = [],
           u_escaped_path = [], u_raw_query = [], u_fragment = [], u_hostname = ''127.0.0.1'', u_port = ''8080''\<rparr>
        else None),
      is_ip_literal = (\<lambda>_. False), re_compiles = (\<lambda>_. True), re_matches = (\<lambda>_ _. False), to_lower = id,
      parse_rfc3339 = (\<lambda>_. None), sha256 = id, marshal_grant = (\<lambda>_. None),
      parse_ip = (\<lambda>s. if s = ''127.0.0.1'' then Some [127, 0, 0, 1] else if s = ''8.8.8.8'' then Some [8, 8, 8, 8] else None),
      split_host_port = (\<lambda>s. if s = ''127.0.0.1:8080'' then Some (''127.0.0.1'', ''8080'')
        else if s = ''8.8.8.8:80'' then Some (''8.8.8.8'', ''80'') else None)\<rparr>"

definition sidecar_url :: url where
  "sidecar_url = the (url_parse dial_example ''http://127.0.0.1:8080'')"

definition public_url :: url where
  "public_url = sidecar_url\<lparr>u_host := ''api.example'', u_hostname := ''api.example'', u_port := []\<rparr>"

definition rebinding :: "nat \<Rightarrow> hop" where
  "rebinding _ = \<lparr>h_attempts = [(''127.0.0.1:8080'', \<lambda>_. None), (''8.8.8.8:80'', \<lambda>_. None)], h_reply = Final\<rparr>"

definition sidecar :: destination where
  "sidecar = \<lparr>d_host = ''127.0.0.1'', d_ip = Some [127, 0, 0, 1], d_port = ''8080''\<rparr>"

lemma example_addresses:
  "isInternal (Some [127, 0, 0, 1])" "\<not> isInternal (Some [8, 8, 8, 8])" "\<not> alwaysRefused (Some [127, 0, 0, 1])"
  by code_simp+

theorem guarded_client_safe_witness:
  "client_do (guardedClient dial_example 0 0 None) rebinding public_url [] = Some ([(public_url, [''8.8.8.8:80''])], Done) \<and>
   (\<exists>host port ip. split_host_port dial_example ''8.8.8.8:80'' = Some (host, port) \<and>
      parse_ip dial_example host = Some ip \<and> \<not> isInternal (Some ip))"
proof -
  have run: "client_do (guardedClient dial_example 0 0 None) rebinding public_url [] =
      Some ([(public_url, [''8.8.8.8:80''])], Done)"
    by (subst client_do.simps)
      (simp add: RoundTrip_def contacted_def guardedClient_def validateTarget_def guardControl_def rebinding_def
        public_url_def sidecar_url_def dial_example_def example_addresses)
  with guarded_client_safe [OF run, of public_url "[''8.8.8.8:80'']"] show ?thesis by simp
qed

theorem destination_client_safe_witness:
  "ParseDestination dial_example ''http://127.0.0.1:8080'' = Inr sidecar \<and>
   client_do (GuardedClientForDestination dial_example 0 0 sidecar) rebinding sidecar_url [] =
     Some ([(sidecar_url, [''127.0.0.1:8080'', ''8.8.8.8:80''])], Done) \<and>
   (\<exists>ip. parse_ip dial_example ''127.0.0.1'' = Some ip \<and> \<not> alwaysRefused (Some ip))"
proof -
  have dest: "ParseDestination dial_example ''http://127.0.0.1:8080'' = Inr sidecar"
    by (simp add: ParseDestination_def dial_example_def sidecar_def url_port_def trim_suffix_def has_suffix_def
        example_addresses)
  have refused: "\<not> alwaysRefused (Some [8, 8, 8, 8])" by code_simp
  have run: "client_do (GuardedClientForDestination dial_example 0 0 sidecar) rebinding sidecar_url [] =
      Some ([(sidecar_url, [''127.0.0.1:8080'', ''8.8.8.8:80''])], Done)"
    by (subst client_do.simps)
      (simp add: RoundTrip_def contacted_def GuardedClientForDestination_def validateDestinationTarget_def
        destinationGuard_def rebinding_def sidecar_url_def dial_example_def example_addresses refused sidecar_def
        matchesURL_def url_port_def trim_suffix_def has_suffix_def permits_def ip_equal_def)
  from destination_client_safe [OF dest run, of sidecar_url "[''127.0.0.1:8080'', ''8.8.8.8:80'']" "''127.0.0.1:8080''"]
  obtain ip where "parse_ip dial_example ''127.0.0.1'' = Some ip" "\<not> alwaysRefused (Some ip)"
    by (auto simp: dial_example_def)
  with dest run show ?thesis by blast
qed

end
