(* ===== verification/Gateway_Results.thy ===== *)
theory Gateway_Results
  imports Gateway_Safety Dial_Safety
begin

text \<open>
  What a call through \<open>Gateway\<close> leaves on record: one record for every answer, and none for a call that
  never returns.
\<close>

section \<open>Records\<close>

text \<open>One record was added to the log, under the next run id.\<close>

definition logs :: "gw_lib \<Rightarrow> 'c call_io \<Rightarrow> 's server \<Rightarrow> run_record \<Rightarrow> 's server \<Rightarrow> bool" where
  "logs L io sv r sv' \<longleftrightarrow>
     (let (rs, run_id) = nextRunID (ad_runs (sv_audit sv))
      in (sv_audit sv', sv_audit_world sv') =
           putRun (gl_audit L) ((sv_audit sv)\<lparr>ad_runs := rs\<rparr>) (sv_audit_world sv) run_id r (ci_record_at io) (ci_audit io))"

lemma logs_denial:
  "logs L io sv (blank_run ''decision'' (gl_extra L (denial_extra cx upstream tool g d reason e)))
     (recordGovernedDenial L io cx upstream tool g d reason e (sv\<lparr>sv_ledger := l, sv_ledger_world := w\<rparr>))"
  by (auto simp: logs_def recordGovernedDenial_def next_run_def put_run_def split: prod.splits)

lemma logs_proxy:
  assumes "next_run sv = (sv1, run_id)" "sv_audit sv2 = sv_audit sv1" "sv_audit_world sv2 = sv_audit_world sv1"
  shows "logs L io sv (proxy_run cx args n (ci_latency io) out (gl_extra L (proxy_extra L sv2 cx upstream tool args out ev full dg)))
    (recordProxy L io cx run_id upstream tool args n out ev full dg sv2)"
  using assms by (auto simp: logs_def recordProxy_def next_run_def put_run_def split: prod.splits)

lemma logs_ledger [simp]: "logs L io (sv\<lparr>sv_ledger := l, sv_ledger_world := w\<rparr>) r sv' = logs L io sv r sv'"
  by (simp add: logs_def)

lemma proxy_run_kind [simp]: "rr_kind (proxy_run cx args n t out other) = ''proxy''" "rr_other (proxy_run cx args n t out other) = other"
  "rr_input_bytes (proxy_run cx args n t out other) = int (length args)" "rr_raw_bytes (proxy_run cx args n t out other) = int (po_raw out)"
  by (simp_all add: proxy_run_def blank_run_def Let_def)

text \<open>What a record says of the call it is about.\<close>

definition describes :: "call_ctx \<Rightarrow> string \<Rightarrow> string \<Rightarrow> run_extra \<Rightarrow> bool" where
  "describes cx upstream tool x \<longleftrightarrow>
     ex_user x = caller_of cx \<and> ex_campaign x = campaign_of cx \<and> ex_upstream x = upstream \<and> ex_tool x = tool"

lemma proxy_extra_describes: "describes cx upstream tool (proxy_extra L sv cx upstream tool args out ev full dg)"
  by (simp add: describes_def proxy_extra_def Let_def split: prod.splits)

lemma denial_extra_describes: "describes cx upstream tool (denial_extra cx upstream tool g d reason e)"
  by (simp add: describes_def denial_extra_def)

lemma proxy_extra_fields:
  "ex_delegated (proxy_extra L sv cx upstream tool args out ev full dg) = dg"
  "ex_audit (proxy_extra L sv cx upstream tool args out ev full dg) = egress_events out"
  "ev \<noteq> None \<or> multiPrincipalAudit sv \<and> \<not> full \<Longrightarrow> ex_args (proxy_extra L sv cx upstream tool args out ev full dg) = []"
  by (auto simp: proxy_extra_def captured_args_def Let_def split: prod.splits if_splits)

lemma cross_cases:
  fixes sv sv' :: "'s server"
  assumes "cross L ops io cx name upName tool u args ev sv = (sv', r)"
  obtains (unreturned) d where "r = NoReturn" "sv_dials sv' = sv_dials sv @ [d]" "sv_audit_world sv' = sv_audit_world sv"
      "rs_by_id (ad_runs (sv_audit sv')) = rs_by_id (ad_runs (sv_audit sv))" "di_upstream d = upName" "di_tool d = tool"
  | (recorded) out and sv2 :: "'s server" and dg where "r = Answered (po_result out)"
      "logs L io sv (proxy_run cx args (gl_result_len L (po_result out)) (ci_latency io) out
        (gl_extra L (proxy_extra L sv2 cx upName tool args out ev (up_audit_full u) dg))) sv'"
      "multiPrincipalAudit sv2 = multiPrincipalAudit sv"
      "sv_dials sv' = sv_dials sv \<or> dg = (if up_delegation u = None then [] else delegationSubject sv cx)"
proof -
  obtain sv1 run_id where n: "next_run sv = (sv1, run_id)" by force
  have n1: "sv_dials sv1 = sv_dials sv" "sv_audit_world sv1 = sv_audit_world sv" "multiPrincipalAudit sv1 = multiPrincipalAudit sv"
    "rs_by_id (ad_runs (sv_audit sv1)) = rs_by_id (ad_runs (sv_audit sv))"
    using n by (auto simp: next_run_def nextRunID_def multiPrincipalAudit_def Let_def)
  let ?s = "if up_delegation u = None then [] else delegationSubject sv cx"
  let ?dg = "if up_delegation u = None then None else Some (caller_of cx, ?s)"
  obtain sv2 out where p: "proxyCall L ops io cx run_id upName tool name u args ev ?dg sv1 = (sv2, out)" by force
  have k: "sv_audit sv2 = sv_audit sv1 \<and> sv_audit_world sv2 = sv_audit_world sv1 \<and> multiPrincipalAudit sv2 = multiPrincipalAudit sv \<and>
      (out = None \<longrightarrow> (\<exists>d. sv_dials sv2 = sv_dials sv @ [d] \<and> di_upstream d = upName \<and> di_tool d = tool))"
  proof (rule proxyCall_cases [OF p])
    assume "keeps (sv1\<lparr>sv_dials := sv_dials sv1 @ [call_of L cx upName tool u args ?dg]\<rparr>) sv2"
    from keepsD [OF this] n1 show ?thesis by (simp add: multiPrincipalAudit_def call_of_def)
  qed (use n1 in simp)
  consider (email) "up_delegation u \<noteq> None \<and> ?s = []" | (none) "out = None" "\<not> (up_delegation u \<noteq> None \<and> ?s = [])"
    | (some) o' where "out = Some o'" "\<not> (up_delegation u \<noteq> None \<and> ?s = [])"
    by (cases out) blast+
  then show thesis
  proof cases
    case email
    with assms show thesis
      by (intro recorded [of "refusal (NoVerifiedEmail upName) NoCallerIdentity" sv1 "[]"])
        (use n1 logs_proxy [OF n refl refl, of L io] in \<open>auto simp: cross_def n Let_def\<close>)
  next
    case none
    with assms p have "r = NoReturn" "sv' = sv2" by (auto simp: cross_def n Let_def)
    with k none(1) n1 unreturned show thesis by auto
  next
    case some
    with assms p k show thesis
      by (intro recorded [of o' sv2 ?s]) (use n1 logs_proxy [OF n, of sv2 L io] in \<open>auto simp: cross_def n Let_def\<close>)
  qed
qed

lemma gate_Deny: "gate L sv io cx name args = Deny c g d reason \<Longrightarrow> c = fst (split_name name)"
  by (auto simp: gate_def governed_verdict_def split_name_def Let_def split: option.splits if_splits sum.splits)

lemma gate_NotNamed: "gate L sv io cx name args = NotNamed \<longleftrightarrow> str_cut nsSep name = None"
  by (auto simp: gate_def governed_verdict_def Let_def split: option.splits if_splits sum.splits)

lemma invoke_Deny:
  "gate L sv io cx name args = Deny c g d reason \<Longrightarrow>
   invokeUpstream L ops io cx name args sv = deny L io cx name (snd (split_name name)) c g d reason sv"
  by (cases "split_name name") (simp add: invokeUpstream_def)

lemma deny_eq:
  "refuseDecision (gl_ledger L) (sv_ledger sv) (sv_ledger_world sv) (caller_of cx) (campaign_of cx) c tool g d reason
     (ci_decide_at io) (ci_ledger io) = (l, w, e) \<Longrightarrow>
   deny L io cx name tool c g d reason sv =
     (recordGovernedDenial L io cx c tool g d reason e (sv\<lparr>sv_ledger := l, sv_ledger_world := w\<rparr>), Answered (ToolError (Unauthorized name)))"
  by (simp add: deny_def)

text \<open>What the record of an answered call says.\<close>

definition accounts :: "gw_lib \<Rightarrow> 's server \<Rightarrow> call_ctx \<Rightarrow> string \<Rightarrow> tool_result \<Rightarrow> bool \<Rightarrow> run_record \<Rightarrow> bool" where
  "accounts L sv cx name res crossed r \<longleftrightarrow>
     (\<exists>x. rr_other r = gl_extra L x \<and> describes cx (fst (split_name name)) (snd (split_name name)) x \<and>
        (rr_kind r = ''decision'' \<and> res = ToolError (Unauthorized name) \<and> \<not> crossed \<or> rr_kind r = ''proxy'') \<and>
        (\<forall>u. lookup (sv_reg sv) (fst (split_name name)) = Some u \<and> multiPrincipalAudit sv \<and> \<not> up_audit_full u \<longrightarrow> ex_args x = []))"

lemma denial_accounts:
  "accounts L sv cx name (ToolError (Unauthorized name)) False
     (blank_run ''decision'' (gl_extra L (denial_extra cx (fst (split_name name)) (snd (split_name name)) g d reason e)))"
  unfolding accounts_def
  by (intro exI [of _ "denial_extra cx (fst (split_name name)) (snd (split_name name)) g d reason e"])
    (simp add: denial_extra_describes blank_run_def, simp add: denial_extra_def blank_extra_def)

lemma denial_recorded:
  assumes "sv1 = recordGovernedDenial L io cx (fst (split_name name)) (snd (split_name name)) g d reason e
      (sv\<lparr>sv_ledger := l, sv_ledger_world := w\<rparr>)"
  shows "\<exists>r. logs L io sv r sv1 \<and> accounts L sv cx name (ToolError (Unauthorized name)) (sv_dials sv1 \<noteq> sv_dials sv) r"
  unfolding assms using logs_denial [of L io sv cx "fst (split_name name)" "snd (split_name name)" g d reason e w l]
    denial_accounts [of L sv cx name g d reason e] by auto

lemma cross_accounts:
  assumes "cross L ops io cx name (fst (split_name name)) (snd (split_name name)) u args ev sv = (sv', Answered res)"
    and "lookup (sv_reg sv) (fst (split_name name)) = Some u"
  shows "\<exists>r. logs L io sv r sv' \<and> accounts L sv cx name res crossed r"
  using assms(1)
proof (cases rule: cross_cases)
  case (recorded out sv2 dg)
  have kept: "ex_args (proxy_extra L sv2 cx up t args out ev (up_audit_full u) dg) = []"
    if "multiPrincipalAudit sv" "\<not> up_audit_full u" for up t
    by (rule proxy_extra_fields(3)) (use that recorded(3) in simp)
  have "accounts L sv cx name res crossed (proxy_run cx args (gl_result_len L (po_result out)) (ci_latency io) out
      (gl_extra L (proxy_extra L sv2 cx (fst (split_name name)) (snd (split_name name)) args out ev (up_audit_full u) dg)))"
    unfolding accounts_def
    by (rule exI, rule conjI [OF proxy_run_kind(2) conjI [OF proxy_extra_describes]])
      (use assms(2) kept in auto)
  with recorded(2) show ?thesis by blast
qed simp

text \<open>
  C2. Every answered call leaves exactly one record, unless the gateway only explained that the tool
  cannot be called, which changes nothing. The record names the caller, the campaign, the connection
  and the tool; a decision record stands for a denial that did not cross, a proxy record for every
  other outcome; and on a gateway of several principals it carries no argument values of a connection
  that was not opted up to full capture.
\<close>

theorem answered_calls_recorded:
  assumes "invokeUpstream L ops io cx name args sv = (sv', Answered res)"
  shows "(sv' = sv \<and> (\<exists>e. res = ToolError e \<and> gate L sv io cx name args = Explain e)) \<or>
    (\<exists>r. logs L io sv r sv' \<and> accounts L sv cx name res (sv_dials sv' \<noteq> sv_dials sv) r)"
proof (cases "gate L sv io cx name args")
  case NotNamed
  with assms show ?thesis by (simp add: invokeUpstream_def Let_def split: prod.splits)
next
  case (Explain e)
  with assms show ?thesis by (simp add: invokeUpstream_def Let_def split: prod.splits)
next
  case (Deny c g d reason)
  have c: "c = fst (split_name name)" using Deny by (rule gate_Deny)
  obtain l w e where ref: "refuseDecision (gl_ledger L) (sv_ledger sv) (sv_ledger_world sv) (caller_of cx) (campaign_of cx)
      c (snd (split_name name)) g d reason (ci_decide_at io) (ci_ledger io) = (l, w, e)" by (cases rule: prod_cases3)
  from assms invoke_Deny [OF Deny] deny_eq [OF ref, where name = name] have res: "res = ToolError (Unauthorized name)"
    and sv': "sv' = recordGovernedDenial L io cx c (snd (split_name name)) g d reason e (sv\<lparr>sv_ledger := l, sv_ledger_world := w\<rparr>)"
    by simp_all
  show ?thesis using denial_recorded [OF sv' [unfolded c]] res by simp
next
  case (Pass u args' ev)
  have u: "lookup (sv_reg sv) (fst (split_name name)) = Some u" by (rule gate_Pass [OF Pass]) simp
  show ?thesis
  proof (cases ev)
    case None
    with Pass assms have "cross L ops io cx name (fst (split_name name)) (snd (split_name name)) u args' ev sv = (sv', Answered res)"
      by (simp add: invokeUpstream_def split: prod.splits)
    from cross_accounts [OF this u] show ?thesis by blast
  next
    case (Some v)
    obtain l w err where a: "authorizeDecision (gl_ledger L) (sv_ledger sv) (sv_ledger_world sv) v (int (length args'))
        (ci_decide_at io) (ci_ledger io) = (l, w, err)" by (cases rule: prod_cases3)
    show ?thesis
    proof (cases err)
      case None
      with Pass Some a assms have "cross L ops io cx name (fst (split_name name)) (snd (split_name name)) u args' ev
          (sv\<lparr>sv_ledger := l, sv_ledger_world := w\<rparr>) = (sv', Answered res)"
        by (simp add: invokeUpstream_def split: prod.splits)
      from cross_accounts [OF this] u show ?thesis by (auto simp: accounts_def multiPrincipalAudit_def)
    next
      case (Some e)
      with Pass \<open>ev = Some v\<close> a assms have res: "res = ToolError (Unauthorized name)"
        and sv': "sv' = recordGovernedDenial L io cx (fst (split_name name)) (snd (split_name name)) (og_id (eg_grant v))
           (case grantDigest (go L) (eg_grant v) of None \<Rightarrow> [] | Some d \<Rightarrow> d) ''decision ledger or budget refused crossing'' e
           (sv\<lparr>sv_ledger := l, sv_ledger_world := w\<rparr>)"
        by (simp_all add: invokeUpstream_def split: prod.splits)
      show ?thesis using denial_recorded [OF sv'] res by simp
    qed
  qed
qed

text \<open>
  A call that crosses and does not return is in no record: the dial happened, and neither the log
  file nor the run store has anything of it.
\<close>

theorem panicked_call_unrecorded:
  assumes "invokeUpstream L ops io cx name args sv = (sv', NoReturn)"
  shows "(\<exists>d. sv_dials sv' = sv_dials sv @ [d] \<and> name = full_name (di_upstream d) (di_tool d)) \<and>
    sv_audit_world sv' = sv_audit_world sv \<and> rs_by_id (ad_runs (sv_audit sv')) = rs_by_id (ad_runs (sv_audit sv))"
proof -
  obtain u args' ev where g: "gate L sv io cx name args = Pass u args' ev"
    using assms by (cases "gate L sv io cx name args") (auto simp: invokeUpstream_def deny_def Let_def split: prod.splits)
  then obtain upName tool where n: "split_name name = (upName, tool)" "name = full_name upName tool" by (rule gate_Pass)
  obtain l w where "cross L ops io cx name upName tool u args' ev (sv\<lparr>sv_ledger := l, sv_ledger_world := w\<rparr>) = (sv', NoReturn)"
  proof (cases ev)
    case None
    with assms have "cross L ops io cx name upName tool u args' ev sv = (sv', NoReturn)" by (simp add: invokeUpstream_def n(1) g)
    with that [where l = "sv_ledger sv" and w = "sv_ledger_world sv"] show ?thesis by simp
  next
    case (Some v)
    with assms that show ?thesis by (auto simp: invokeUpstream_def n(1) g split: prod.splits option.splits)
  qed
  then show ?thesis by (cases rule: cross_cases) (use n in auto)
qed

end
