(* ===== verification/Gateway_Context.thy ===== *)
theory Gateway_Context
  imports Gateway_Results
begin

text \<open>
  What a call through \<open>Gateway\<close> brings into the model's context, and where the rest stays: the origin
  of an answer, the byte budget, minimization, offloaded results, parked results and denials.
\<close>

section \<open>Where an answer comes from\<close>

definition upstream_answer :: "'c call_io \<Rightarrow> dialed \<Rightarrow> string option" where
  "upstream_answer io d =
     (if di_shared d then (case ci_shared io d of (res, err, canceled) \<Rightarrow> if err = None \<and> \<not> canceled then Some res else None)
      else (case ci_direct io d of (res, err) \<Rightarrow> if err = None then Some res else None))"

definition is_error :: "tool_result \<Rightarrow> bool" where
  "is_error r = (case r of ToolError _ \<Rightarrow> True | _ \<Rightarrow> False)"

lemma refusal_is_error [simp]: "is_error (po_result (refusal e err))" "is_error (ToolError x)"
  by (simp_all add: refusal_def outcome_of_def is_error_def)

lemma is_error_simps [simp]:
  "\<not> is_error (Envelope v)" "\<not> is_error (RefHandle r n m p)" "\<not> is_error (Truncated y)" "\<not> is_error (Rehydrated q j)"
  "\<not> is_error (FusedInline i s tf a)" "\<not> is_error (FusedRef i s tf r k p)"
  by (simp_all add: is_error_def)

lemma outcome_simps [simp]: "po_result (outcome_of r) = r" "po_host (outcome_of r) = []"
  by (simp_all add: outcome_of_def)

lemma refusal_result [simp]: "po_result (refusal e err) = ToolError e"
  by (simp add: refusal_def)

lemma pre_dial_error: "pre_dial L cx upstream name u spec args = Some out \<Longrightarrow> is_error (po_result out)"
  by (auto simp: pre_dial_def Let_def split: if_splits option.splits)

text \<open>
  A result that is not an error of the gateway was shaped from what the upstream answered, within
  the byte bound of the grant.
\<close>

lemma after_shape:
  assumes "after_dial L ops io cx run_id upstream tool name spec host evaluated res err sv = (sv', Some out)"
    and "\<not> is_error (po_result out)"
  obtains sv1 where "err = None" "keeps sv sv1" "sv_min sv1 = sv_min sv" "sv_store sv1 = sv_store sv"
    "shape_result L ops io cx run_id upstream tool name spec host res evaluated sv1 = (sv', Some out)"
    "\<And>ev. evaluated = Some ev \<Longrightarrow> int (length res) \<le> og_max_response_bytes (eg_grant ev)"
proof -
  let ?sv = "sv\<lparr>sv_reg := recordUpstreamHealth upstream err (ci_health_at io) (sv_reg sv)\<rparr>"
  have "err = None \<and> shape_result L ops io cx run_id upstream tool name spec host res evaluated ?sv = (sv', Some out) \<and>
      (\<forall>ev. evaluated = Some ev \<longrightarrow> int (length res) \<le> og_max_response_bytes (eg_grant ev))"
    using assms by (auto simp: after_dial_def Let_def split: option.splits if_splits)
  then show thesis by (intro that [of ?sv]) auto
qed

lemma proxy_shape:
  fixes sv sv' :: "'s server"
  assumes p: "proxyCall L ops io cx run_id upstream tool name u args evaluated delegated sv = (sv', Some out)"
    and ok: "\<not> is_error (po_result out)"
  obtains res and sv1 :: "'s server" where "upstream_answer io (call_of L cx upstream tool u args delegated) = Some res"
    "sv_dials sv' = sv_dials sv @ [call_of L cx upstream tool u args delegated]"
    "sv_min sv1 = sv_min sv" "sv_store sv1 = sv_store sv" "sv_max_bytes sv1 = sv_max_bytes sv" "sv_client sv1 = sv_client sv"
    "shape_result L ops io cx run_id upstream tool name (findTool (up_tools u) tool)
       (hostFromURL (gl_text L) (cn_endpoint (up_conn u))) res evaluated sv1 = (sv', Some out)"
    "\<And>ev. evaluated = Some ev \<Longrightarrow> int (length res) \<le> og_max_response_bytes (eg_grant ev)"
proof -
  let ?d = "call_of L cx upstream tool u args delegated" and ?host = "hostFromURL (gl_text L) (cn_endpoint (up_conn u))"
  let ?sv = "sv\<lparr>sv_dials := sv_dials sv @ [?d]\<rparr>" and ?spec = "findTool (up_tools u) tool"
  have none: "pre_dial L cx upstream name u ?spec args = None"
    using p ok pre_dial_error by (cases "pre_dial L cx upstream name u ?spec args") (auto simp: proxyCall_def Let_def)
  have "\<exists>res err. after_dial L ops io cx run_id upstream tool name ?spec ?host evaluated res err ?sv = (sv', Some out) \<and>
      (err = None \<longrightarrow> upstream_answer io ?d = Some res)"
    using p ok unfolding proxyCall_eq Let_def none
    by (cases "di_shared ?d") (auto simp: upstream_answer_def split: prod.splits if_splits)
  then obtain res err where a: "after_dial L ops io cx run_id upstream tool name ?spec ?host evaluated res err ?sv = (sv', Some out)"
    "err = None \<longrightarrow> upstream_answer io ?d = Some res" by blast
  from a(1) ok obtain sv1 where s: "err = None" "keeps ?sv sv1" "sv_min sv1 = sv_min ?sv" "sv_store sv1 = sv_store ?sv"
    "shape_result L ops io cx run_id upstream tool name ?spec ?host res evaluated sv1 = (sv', Some out)"
    "\<And>ev. evaluated = Some ev \<Longrightarrow> int (length res) \<le> og_max_response_bytes (eg_grant ev)" by (rule after_shape) blast
  have "sv_dials sv' = sv_dials sv @ [?d]"
    using keepsD(1) [OF keeps_shape [of sv1 L ops io cx run_id upstream tool name ?spec ?host res evaluated]] keepsD(1) [OF s(2)] s(5) by simp
  then show thesis
    by (intro that [of res sv1] s(6)) (use a(2) s keepsD(6,9) [OF s(2)] in simp_all)
qed

lemma recordProxy_min [simp]:
  "sv_min (recordProxy L io cx run_id upstream tool args n out ev full dg sv) = sv_min sv"
  "sv_store (recordProxy L io cx run_id upstream tool args n out ev full dg sv) = sv_store sv"
  by (simp_all add: recordProxy_def put_run_def split: prod.splits)

definition same_limits :: "'s server \<Rightarrow> 's server \<Rightarrow> bool" where
  "same_limits sv sv1 \<longleftrightarrow> sv_min sv1 = sv_min sv \<and> sv_store sv1 = sv_store sv \<and> sv_max_bytes sv1 = sv_max_bytes sv \<and>
     sv_dials sv1 = sv_dials sv \<and> sv_client sv1 = sv_client sv"

lemma next_run_limits: "next_run sv = (sv1, i) \<Longrightarrow> same_limits sv sv1"
  by (auto simp: next_run_def same_limits_def split: prod.splits)

lemma cross_proxy:
  fixes sv sv' :: "'s server"
  assumes "cross L ops io cx name upName tool u args ev sv = (sv', Answered r)" and "\<not> is_error r"
  obtains run_id dg out and sv1 sv2 :: "'s server" where
    "proxyCall L ops io cx run_id upName tool name u args ev dg sv1 = (sv2, Some out)" "r = po_result out"
    "same_limits sv sv1" "sv_min sv' = sv_min sv2" "sv_dials sv' = sv_dials sv2" "sv_store sv' = sv_store sv2"
proof -
  obtain sv1 run_id where n: "next_run sv = (sv1, run_id)" by force
  let ?s = "if up_delegation u = None then [] else delegationSubject sv cx"
  let ?dg = "if up_delegation u = None then None else Some (caller_of cx, ?s)"
  have s: "\<not> (up_delegation u \<noteq> None \<and> ?s = [])" using assms by (auto simp: cross_def n)
  obtain sv2 res where p: "proxyCall L ops io cx run_id upName tool name u args ev ?dg sv1 = (sv2, res)" by force
  with assms s obtain out where "res = Some out" "r = po_result out" "sv_min sv' = sv_min sv2" "sv_dials sv' = sv_dials sv2"
    "sv_store sv' = sv_store sv2" by (cases res) (auto simp: cross_def n Let_def)
  with p next_run_limits [OF n] that show thesis by blast
qed

lemma answered_proxy:
  fixes sv sv' :: "'s server"
  assumes "invokeUpstream L ops io cx name args sv = (sv', Answered r)" and "\<not> is_error r"
  obtains run_id dg out upName tool u args' ev and sv1 sv2 :: "'s server" where
    "split_name name = (upName, tool)" "gate L sv io cx name args = Pass u args' ev"
    "proxyCall L ops io cx run_id upName tool name u args' ev dg sv1 = (sv2, Some out)" "r = po_result out"
    "same_limits sv sv1" "sv_min sv' = sv_min sv2" "sv_dials sv' = sv_dials sv2" "sv_store sv' = sv_store sv2"
proof -
  obtain upName tool where n: "split_name name = (upName, tool)" by force
  obtain u args' ev where g: "gate L sv io cx name args = Pass u args' ev"
    using assms by (cases "gate L sv io cx name args") (auto simp: invokeUpstream_def n deny_def Let_def split: prod.splits)
  obtain sv0 where c: "cross L ops io cx name upName tool u args' ev sv0 = (sv', Answered r)" "same_limits sv sv0"
  proof (cases ev)
    case None
    with assms(1) have "cross L ops io cx name upName tool u args' ev sv = (sv', Answered r)" by (simp add: invokeUpstream_def n g)
    with that show ?thesis by (auto simp: same_limits_def)
  next
    case (Some v)
    obtain l w err where a: "authorizeDecision (gl_ledger L) (sv_ledger sv) (sv_ledger_world sv) v (int (length args'))
        (ci_decide_at io) (ci_ledger io) = (l, w, err)" by (cases rule: prod_cases3)
    have "err = None" using assms a by (cases err) (auto simp: invokeUpstream_def n g Some)
    with assms(1) a Some show ?thesis
      by (intro that [of "sv\<lparr>sv_ledger := l, sv_ledger_world := w\<rparr>"]) (simp_all add: invokeUpstream_def n g same_limits_def)
  qed
  show thesis
    by (rule cross_proxy [OF c(1) assms(2)], rule that [OF n g]) (use c(2) in \<open>auto simp: same_limits_def\<close>)
qed

section \<open>What reaches the model\<close>

lemma shape_cases:
  assumes "shape_result L ops io cx run_id upstream tool name spec host res evaluated sv = (sv', Some out)"
    and "\<not> is_error (po_result out)"
  obtains (fused) p tf s0 where "js_unmarshal (gl_json L) res = Some p" "same_limits sv s0"
      "fusedProxyResult L ops io cx run_id upstream tool name tf p res host evaluated s0 = (sv', Some out)"
  | (held) p s0 where "js_unmarshal (gl_json L) res = Some p" "same_limits sv s0" "sv_store sv \<noteq> None"
      "hold_result L ops io cx upstream name host res evaluated p s0 = (sv', Some (Some out))"
  | (inline) p s0 s1 where "js_unmarshal (gl_json L) res = Some p" "same_limits sv s0"
      "resultIsError p \<and> s1 = s0 \<or> \<not> resultIsError p \<and> sv_store sv = None \<and> s1 = s0 \<or>
       cx_transform cx = None \<and> hold_result L ops io cx upstream name host res evaluated p s0 = (s1, Some None)"
      "inline_result L cx upstream tool name spec host (length res) p s1 = (sv', out)"
proof -
  obtain p where p: "js_unmarshal (gl_json L) res = Some p"
    using assms by (cases "js_unmarshal (gl_json L) res") (auto simp: shape_result_def)
  let ?b = "sv\<lparr>sv_reg := bumpUsage name (sv_reg sv)\<rparr>"
  have b: "same_limits sv ?b" by (simp add: same_limits_def)
  have inl: "inline_result L cx upstream tool name spec host (length res) p s = (sv', out)"
    if "apsnd Some (inline_result L cx upstream tool name spec host (length res) p s) = (sv', Some out)" for s
    using that by (cases "inline_result L cx upstream tool name spec host (length res) p s") simp
  note shape = assms(1) [unfolded shape_result_def Let_def p option.case]
  show thesis
  proof (cases "if resultIsError p then None else cx_transform cx")
    case (Some tf)
    with shape fused p b show thesis by simp
  next
    case None
    note rest = shape [unfolded None option.case]
    show thesis
    proof (cases "sv_store sv \<noteq> None \<and> \<not> resultIsError p")
      case True
      obtain s1 h where h: "hold_result L ops io cx upstream name host res evaluated p ?b = (s1, h)" by force
      with True rest None show thesis
        using held [OF p b] inline [OF p b, of s1] inl by (auto split: option.splits)
    next
      case False
      with rest show thesis using inline [OF p b, of ?b] inl [of ?b] by auto
    qed
  qed
qed

text \<open>
  What an answer may carry inline besides an envelope and an error: data within the budget, a notice
  of 500 bytes, and with a reference a preview of counts and at most 25 field names of at most 64 bytes.
\<close>

definition few_names :: "string list \<Rightarrow> bool" where
  "few_names ks \<longleftrightarrow> length ks \<le> 25 \<and> (\<forall>k \<in> set ks. length k \<le> 64)"

definition small_preview :: "preview option \<Rightarrow> bool" where
  "small_preview p =
     (case p of Some (ArrayPreview _ (Some ks)) \<Rightarrow> few_names ks | Some (ObjectPreview ks) \<Rightarrow> few_names ks | _ \<Rightarrow> True)"

definition small_answer :: "int \<Rightarrow> tool_result \<Rightarrow> bool" where
  "small_answer bound r =
     (case r of
        Rehydrated t _ \<Rightarrow> int (length t) \<le> bound
      | FusedInline _ _ _ a \<Rightarrow> int (length a) \<le> bound
      | Truncated n \<Rightarrow> length n \<le> 500
      | RefHandle _ _ _ p \<Rightarrow> small_preview p
      | FusedRef _ _ _ _ _ p \<Rightarrow> small_preview p
      | _ \<Rightarrow> True)"

lemma small_answer_simps [simp]:
  "small_answer b (ToolError e)" "small_answer b (Envelope v)" "small_answer b (RefHandle r n m p) = small_preview p"
  "small_answer b (Truncated y) \<longleftrightarrow> length y \<le> 500" "small_answer b (Rehydrated q j) \<longleftrightarrow> int (length q) \<le> b"
  "small_answer b (FusedInline i s tf a) \<longleftrightarrow> int (length a) \<le> b" "small_answer b (FusedRef i s tf r k p) = small_preview p"
  by (simp_all add: small_answer_def)

lemma names_few: "fieldNameKeys ks \<Longrightarrow> few_names ks"
  by (simp add: fieldNameKeys_def few_names_def list_all_iff isFieldName_def)

lemma preview_small: "small_preview (structuralPreview f x)"
proof (cases "structuralPreview f x")
  case (Some p)
  from preview_field_names [OF this] Some show ?thesis
    by (auto simp: small_preview_def names_few split: preview.splits option.splits)
qed (simp add: small_preview_def)

lemma refPreview_small: "refPreview L ops io ref owner s = (s', p) \<Longrightarrow> small_preview p"
  using preview_small
  by (auto simp: refPreview_def Let_def small_preview_def [of None] split: option.splits prod.splits if_splits)

lemma notice_short: "truncatedNotice X payload = Notice n \<Longrightarrow> length n \<le> 500"
  by (auto simp: truncatedNotice_def truncationTail_def Let_def split: if_splits list.splits option.splits)

lemma park_small:
  "park L ops io cx name host res payload rehydrated s = (s', Some (Some out)) \<Longrightarrow> small_answer (sv_max_bytes s) (po_result out)"
  by (auto simp: park_def refHandleResult_def rehydratedResult_def Let_def
      dest: notice_short refPreview_small split: notice.splits if_splits option.splits prod.splits)

lemma hold_small:
  "hold_result L ops io cx upstream name host res evaluated p s = (s', Some (Some out)) \<Longrightarrow> small_answer (sv_max_bytes s) (po_result out)"
  by (auto simp: hold_result_def Let_def dest: park_small split: if_splits option.splits prod.splits sum.splits)

text \<open>The answer of a transform: bounded inline text, a reference, or an error.\<close>

definition fused_form :: "int \<Rightarrow> tool_result \<Rightarrow> bool" where
  "fused_form bound r =
     (case r of FusedInline _ _ _ _ \<Rightarrow> small_answer bound r | FusedRef _ _ _ _ _ _ \<Rightarrow> small_answer bound r | ToolError _ \<Rightarrow> True | _ \<Rightarrow> False)"

lemma fused_form_error [simp]: "fused_form b (ToolError e)"
  "fused_form b (po_result ((fusedFailure run_id raw inp n status host detail did)\<lparr>po_latency := k\<rparr>))"
  "fused_form b (po_result (fusedFailure run_id raw inp n status host detail did))"
  "fused_form b (po_result (engine_failure L run_id raw inp host engine a summary latency))"
  by (auto simp: fused_form_def fusedFailure_def engine_failure_def Let_def split: prod.splits)

lemma fusedResult_form:
  "Apply put bound c answer owner st = Some (st', out) \<Longrightarrow>
   fused_form bound (snd (fusedResult L ops io run_id source tf out owner' sv))"
  using refPreview_small
  by (auto simp: Apply_def fusedResult_def fused_form_def split: if_splits option.splits prod.splits)

lemma fused_answer_form:
  assumes "fused_answer L ops io cx run_id upstream tool source tf raw inp host summary s = (s', Some out)"
  shows "fused_form (sv_max_bytes s) (po_result out)"
proof -
  obtain mz scrub where m: "scrubInbound (gl_json L) (sv_min s) (caller_of cx) upstream tool [(''result'', JStr summary)] = (mz, scrub)"
    by force
  note eq = assms [unfolded fused_answer_def Let_def m prod.case]
  show ?thesis
  proof (cases scrub)
    case (Inl e)
    with eq show ?thesis by auto
  next
    case (Inr x)
    obtain scrubbed alerts k where x: "x = (scrubbed, alerts, k)" by (cases x)
    show ?thesis
    proof (cases "\<exists>a. member scrubbed ''result'' = Some (JStr a)")
      case True
      then obtain a where a: "member scrubbed ''result'' = Some (JStr a)" by blast
      obtain st gout where ap: "Apply (store_put ops) (sv_max_bytes s) (ci_put io) a (caller_of cx) (sv_store s) = Some (st, gout)"
        using eq by (auto simp: Inr x a split: option.splits)
      obtain s2 r where f: "fusedResult L ops io run_id source tf gout (caller_of cx) (s\<lparr>sv_min := mz, sv_store := st\<rparr>) = (s2, r)" by force
      have "po_result out = r" using eq by (auto simp: Inr x a ap f)
      with fusedResult_form [OF ap, of L ops io run_id source tf "caller_of cx" "s\<lparr>sv_min := mz, sv_store := st\<rparr>"] f
      show ?thesis by simp
    next
      case False
      with eq show ?thesis by (auto simp: Inr x split: option.splits json.splits)
    qed
  qed
qed

lemma fused_input_form:
  "fused_input L s io run_id host p res evaluated = Some (Inl out) \<Longrightarrow> fused_form b (po_result out)"
  by (auto simp: fused_input_def Let_def split: if_splits option.splits prod.splits sum.splits notice.splits)

lemma fused_result_form:
  "fusedProxyResult L ops io cx run_id upstream tool source tf p res host evaluated s = (s', Some out) \<Longrightarrow>
   fused_form (sv_max_bytes s) (po_result out)"
  by (auto simp: fusedProxyResult_def dest: fused_input_form fused_answer_form
      split: option.splits sum.splits prod.splits engine_answer.splits)

lemma inline_form:
  assumes "inline_result L cx upstream tool name spec host n p s = (s', out)" "\<not> is_error (po_result out)"
  obtains e q alerts k where "po_result out = Envelope e" "q = p \<or> resultIsError p \<and> (\<exists>t. q = attachToolSpec L p name t)"
    "snd (scrubInbound (gl_json L) (sv_min s) (caller_of cx) upstream tool q) = Inr (e, alerts, k)"
proof -
  let ?q = "case spec of Some t \<Rightarrow> if resultIsError p then attachToolSpec L p name t else p | None \<Rightarrow> p"
  obtain mz scrub where m: "scrubInbound (gl_json L) (sv_min s) (caller_of cx) upstream tool ?q = (mz, scrub)" by force
  note eq = assms(1) [unfolded inline_result_def Let_def m prod.case]
  obtain x where x: "scrub = Inr x" using eq assms(2) by (cases scrub) auto
  obtain e alerts k where "x = (e, alerts, k)" by (cases x)
  with eq x m show thesis by (intro that [of e ?q alerts k]) (auto split: option.splits)
qed

lemma scrub_inactive:
  "\<not> minimizeActive st upstream \<Longrightarrow> snd (scrubInbound J st caller upstream tool q) = Inr (e, alerts, k) \<Longrightarrow> e = q"
  by (auto simp: scrubInbound_def split: option.splits)

lemma hold_inline:
  "hold_result L ops io cx upstream name host res evaluated p s = (s', Some None) \<Longrightarrow>
   s' = s \<and> int (length res) \<le> sv_max_bytes s \<and> int (length (resultPayload (gl_text L) p)) \<le> sv_max_bytes s"
  by (auto simp: hold_result_def park_def Let_def split: if_splits option.splits prod.splits sum.splits notice.splits)

lemma hold_form:
  "hold_result L ops io cx upstream name host res evaluated p s = (s', Some (Some out)) \<Longrightarrow> po_result out \<noteq> Envelope e"
  by (auto simp: hold_result_def park_def refHandleResult_def rehydratedResult_def Let_def
      split: if_splits option.splits prod.splits sum.splits notice.splits)

lemma fetchOffload_client: "sv_client s = sv_client sv \<Longrightarrow> fetchOffload L s io link ev = fetchOffload L sv io link ev"
  by (simp add: fetchOffload_def fetch_client_def httpClient_def split: option.splits)


lemma hold_forward:
  assumes "data = (if offloadURL (gl_text L) (resultPayload (gl_text L) p) = [] then Some (resultPayload (gl_text L) p, False)
      else case fetchOffload L s (ci_fetch io) (offloadURL (gl_text L) (resultPayload (gl_text L) p)) ev of
        Some (_, Inr t) \<Rightarrow> Some (t, True) | _ \<Rightarrow> None)"
    and "data = Some (t, rehydrated)"
  shows "hold_result L ops io cx upstream name host res ev p s = park L ops io cx name host res t rehydrated s"
  using assms by (auto simp: hold_result_def Let_def split: if_splits option.splits prod.splits sum.splits)

text \<open>
  A call that passes the gate without grants, delegation or transform, and is answered, answers with
  what its data is parked as.
\<close>

lemma held_answer:
  fixes sv :: "'s server"
  assumes gate: "gate L sv io cx name args = Pass u args' None" "split_name name = (upName, tool)" "up_delegation u = None"
    and dial: "pre_dial L cx upName name u (findTool (up_tools u) tool) args' = None"
      "upstream_answer io (call_of L cx upName tool u args' None) = Some res"
    and answer: "js_unmarshal (gl_json L) res = Some p" "\<not> resultIsError p" "cx_transform cx = None" "sv_store sv \<noteq> None"
    and data: "if offloadURL (gl_text L) (resultPayload (gl_text L) p) = [] then t = resultPayload (gl_text L) p \<and> \<not> fetched
      else (\<exists>sent. fetchOffload L sv (ci_fetch io) (offloadURL (gl_text L) (resultPayload (gl_text L) p)) None = Some (sent, Inr t)) \<and> fetched"
  obtains s3 :: "'s server" where "sv_min s3 = sv_min sv" "sv_store s3 = sv_store sv" "sv_max_bytes s3 = sv_max_bytes sv"
    "\<And>s' out. park L ops io cx name (hostFromURL (gl_text L) (cn_endpoint (up_conn u))) res t fetched s3 = (s', Some (Some out)) \<Longrightarrow>
       \<exists>sv'. invokeUpstream L ops io cx name args sv = (sv', Answered (po_result out)) \<and> sv_min sv' = sv_min s'"
proof -
  let ?d = "call_of L cx upName tool u args' None" and ?spec = "findTool (up_tools u) tool"
    and ?host = "hostFromURL (gl_text L) (cn_endpoint (up_conn u))"
  obtain sv1 run_id where n: "next_run sv = (sv1, run_id)" by force
  let ?s1 = "sv1\<lparr>sv_dials := sv_dials sv1 @ [?d]\<rparr>"
  let ?s2 = "?s1\<lparr>sv_reg := recordUpstreamHealth upName None (ci_health_at io) (sv_reg ?s1)\<rparr>"
  let ?s3 = "?s2\<lparr>sv_reg := bumpUsage name (sv_reg ?s2)\<rparr>"
  have lim: "same_limits sv sv1" by (rule next_run_limits [OF n])
  have proxy: "proxyCall L ops io cx run_id upName tool name u args' None None sv1 =
      after_dial L ops io cx run_id upName tool name ?spec ?host None res None ?s1"
    using dial unfolding proxyCall_eq Let_def
    by (auto simp: upstream_answer_def split: if_splits prod.splits)
  have hold: "hold_result L ops io cx upName name ?host res None p ?s3 = park L ops io cx name ?host res t fetched ?s3"
    using data fetchOffload_client [of ?s3 sv L "ci_fetch io" _ None] lim
    by (intro hold_forward [OF refl]) (auto simp: same_limits_def split: if_splits)
  have "\<exists>sv'. invokeUpstream L ops io cx name args sv = (sv', Answered (po_result out)) \<and> sv_min sv' = sv_min s'"
    if park: "park L ops io cx name ?host res t fetched ?s3 = (s', Some (Some out))" for s' out
  proof -
    have "proxyCall L ops io cx run_id upName tool name u args' None None sv1 = (s', Some out)"
      unfolding proxy using answer lim hold park
      by (simp add: after_dial_def shape_result_def Let_def same_limits_def)
    then show ?thesis using gate n lim
      by (auto simp: invokeUpstream_def cross_def Let_def same_limits_def)
  qed
  then show thesis using lim by (intro that [of ?s3]) (simp_all add: same_limits_def)
qed

text \<open>
  C7. Two kinds of answers reach the model without field minimization, whatever policy the
  connection has. Take a call without grants, delegation or transform that passes the gate, on a gateway with references, and
  an answer of the upstream that is no error of the tool. If it names an off-platform link whose data is fetched, is no truncation notice and
  fits the budget, the call answers with exactly the fetched data. If the data, fetched or the upstream's own, is
  recognized as truncated, the call answers with the notice, up to 500 bytes of that text. In both cases the
  minimizer is not consulted and keeps its state.
\<close>

theorem rehydrated_data_unminimized:
  fixes sv :: "'s server"
  assumes gate: "gate L sv io cx name args = Pass u args' None" "split_name name = (upName, tool)" "up_delegation u = None"
    and dial: "pre_dial L cx upName name u (findTool (up_tools u) tool) args' = None"
      "upstream_answer io (call_of L cx upName tool u args' None) = Some res"
    and answer: "js_unmarshal (gl_json L) res = Some p" "\<not> resultIsError p" "cx_transform cx = None" "sv_store sv \<noteq> None"
    and data: "if offloadURL (gl_text L) (resultPayload (gl_text L) p) = [] then t = resultPayload (gl_text L) p \<and> \<not> fetched
      else (\<exists>sent. fetchOffload L sv (ci_fetch io) (offloadURL (gl_text L) (resultPayload (gl_text L) p)) None = Some (sent, Inr t)) \<and> fetched"
  shows "(truncatedNotice (gl_text L) t = NoNotice \<and> fetched \<and> int (length t) \<le> sv_max_bytes sv \<longrightarrow>
      (\<exists>sv'. invokeUpstream L ops io cx name args sv = (sv', Answered (Rehydrated t (tx_unmarshal (gl_text L) t))) \<and> sv_min sv' = sv_min sv)) \<and>
    (\<forall>n. truncatedNotice (gl_text L) t = Notice n \<longrightarrow>
      (\<exists>sv'. invokeUpstream L ops io cx name args sv = (sv', Answered (Truncated n)) \<and> sv_min sv' = sv_min sv))"
proof -
  obtain s3 :: "'s server" where s3: "sv_min s3 = sv_min sv" "sv_max_bytes s3 = sv_max_bytes sv"
    "\<And>s' out. park L ops io cx name (hostFromURL (gl_text L) (cn_endpoint (up_conn u))) res t fetched s3 = (s', Some (Some out)) \<Longrightarrow>
       \<exists>sv'. invokeUpstream L ops io cx name args sv = (sv', Answered (po_result out)) \<and> sv_min sv' = sv_min s'"
    using held_answer [OF assms] by metis
  note answers = s3(3) [unfolded park_def]
  show ?thesis using answers s3(1,2) by (force simp: rehydratedResult_def)
qed

section \<open>Offloaded results\<close>

lemma guarded_sent:
  assumes "client_do (guardedClient D a b policy) net u [] = Some (sent, res)" and "(v, addrs) \<in> set sent"
  shows "validateTarget D (Some v) policy = None"
    and "x \<in> set addrs \<Longrightarrow> \<exists>host port ip. split_host_port D x = Some (host, port) \<and> parse_ip D host = Some ip \<and> \<not> isInternal (Some ip)"
proof -
  note c = guarded.sent_cases [OF assms, simplified]
  show "validateTarget D (Some v) policy = None" using c by (simp add: guardedClient_def)
  show "\<exists>host port ip. split_host_port D x = Some (host, port) \<and> parse_ip D host = Some ip \<and> \<not> isInternal (Some ip)"
    if "x \<in> set addrs"
  proof -
    have "guardControl D x = None" using c that by (auto simp: guardedClient_def)
    then show ?thesis by (auto simp: guardControl_def dest: not_internal split: option.splits if_splits)
  qed
qed

lemma read_offload_length: "read_offload io = Inr data \<Longrightarrow> int (length data) \<le> maxOffloadBytes"
  by (auto simp: read_offload_def split: if_splits option.splits)

text \<open>
  C5. Retrieving the offloaded result of a governed call ends after at most ten requests. It contacts
  nothing unless the grant has an offload target and the link lies within it; every request, after
  redirects too, lies within that target, on the origin of the link unless the target admits
  redirects, and no address contacted is internal; and no more than 64 MiB come back.
\<close>

theorem offload_confined:
  "\<exists>sent r. fetchOffload L sv io raw (Some ev) = Some (sent, r) \<and> length sent \<le> 10 \<and>
     (\<forall>data. r = Inr data \<longrightarrow> int (length data) \<le> maxOffloadBytes) \<and>
     (\<forall>v addrs. (v, addrs) \<in> set sent \<longrightarrow>
        (\<exists>target u. findURLTarget (og_url_targets (eg_grant ev)) ''offload'' = Some target \<and>
           url_parse (gl_dial L) raw = Some u \<and> validateGrantedURL (go L) raw target = None \<and>
           validateGrantedURL (go L) (gl_url_string L v) target = None \<and>
           (ut_redirect target \<or> origin_or_empty (go L) (url_origin v) = origin_or_empty (go L) (url_origin u))) \<and>
        (\<forall>x \<in> set addrs. \<exists>host port ip. split_host_port (gl_dial L) x = Some (host, port) \<and>
           parse_ip (gl_dial L) host = Some ip \<and> \<not> isInternal (Some ip)))"
proof (cases "\<exists>u C. url_parse (gl_dial L) raw = Some u \<and> fetch_client L sv raw u (Some ev) = Inr C")
  case False
  then show ?thesis by (auto simp: fetchOffload_def split: option.splits sum.splits)
next
  case True
  then obtain u C where u: "url_parse (gl_dial L) raw = Some u" "fetch_client L sv raw u (Some ev) = Inr C" by blast
  obtain target where t: "findURLTarget (og_url_targets (eg_grant ev)) ''offload'' = Some target"
    "validateGrantedURL (go L) raw target = None" "C = guardedClient (gl_dial L) 0 0 (Some (offload_policy L target u))"
    using u(2) by (auto simp: fetch_client_def GuardedClientForPolicy_def split: option.splits)
  obtain sent res where run: "client_do C (fi_net io) u [] = Some (sent, res)" "length sent \<le> 10"
    using guarded.returns [of "[]" "gl_dial L" 0 0 "Some (offload_policy L target u)" "fi_net io" u] t(3) by auto
  have sent: "(\<exists>target u. findURLTarget (og_url_targets (eg_grant ev)) ''offload'' = Some target \<and>
      url_parse (gl_dial L) raw = Some u \<and> validateGrantedURL (go L) raw target = None \<and>
      validateGrantedURL (go L) (gl_url_string L v) target = None \<and>
      (ut_redirect target \<or> origin_or_empty (go L) (url_origin v) = origin_or_empty (go L) (url_origin u))) \<and>
      (\<forall>x \<in> set addrs. \<exists>host port ip. split_host_port (gl_dial L) x = Some (host, port) \<and>
         parse_ip (gl_dial L) host = Some ip \<and> \<not> isInternal (Some ip))" if "(v, addrs) \<in> set sent" for v addrs
    using guarded_sent [OF run(1) [unfolded t(3)] that] validateTarget_None [OF guarded_sent(1) [OF run(1) [unfolded t(3)] that]] t(1,2) u(1)
    by (auto simp: offload_policy_def)
  have "\<exists>r. fetchOffload L sv io raw (Some ev) = Some (sent, r) \<and> (\<forall>data. r = Inr data \<longrightarrow> int (length data) \<le> maxOffloadBytes)"
    using read_offload_length by (cases res) (auto simp: fetchOffload_def u run(1))
  with run(2) sent show ?thesis by blast
qed

section \<open>Denials\<close>

text \<open>
  C6. A caller without a grant for the operation learns nothing about a governed connection. In high
  assurance mode, or where the connection has grants, the answer is the same whether the connection
  is missing, another caller's, revoked, disabled or only not granted, and nothing is called.
\<close>

theorem governed_denials_opaque:
  assumes "str_cut nsSep name = Some (upName, tool)"
    and "sv_high sv \<or> (\<exists>u. lookup (sv_reg sv) upName = Some u \<and> up_grants u \<noteq> [])"
    and "\<And>u. lookup (sv_reg sv) upName = Some u \<Longrightarrow> matchingGrant u (caller_of cx) (campaign_of cx) tool = None"
  shows "snd (invokeUpstream L ops io cx name args sv) = Answered (ToolError (Unauthorized name)) \<and>
    sv_dials (fst (invokeUpstream L ops io cx name args sv)) = sv_dials sv"
proof -
  have "\<exists>g d reason. gate L sv io cx name args = Deny upName g d reason"
    using assms by (auto simp: gate_def governed_verdict_def Let_def split: option.splits)
  then obtain g d reason where "gate L sv io cx name args = Deny upName g d reason" by blast
  from invoke_Deny [OF this] show ?thesis by (simp add: deny_def split: prod.splits)
qed

section \<open>Parked results\<close>

text \<open>
  Both stores behind references: what is parked for a caller is held under that caller's key, and
  the preview in the answer is made of it. The lemmas use the interface of a store only.
\<close>

definition reference_of :: "tool_result \<Rightarrow> (string \<times> nat) option" where
  "reference_of r = (case r of RefHandle ref n _ _ \<Rightarrow> Some (ref, n) | FusedRef _ _ _ ref n _ \<Rightarrow> Some (ref, n) | _ \<Rightarrow> None)"

lemma reference_of_simps [simp]:
  "reference_of (ToolError e) = None" "reference_of (Envelope v) = None" "reference_of (RefHandle r n m p) = Some (r, n)"
  "reference_of (Truncated y) = None" "reference_of (Rehydrated q j) = None"
  "reference_of (FusedInline i s tf a) = None" "reference_of (FusedRef i s tf r k p) = Some (r, k)"
  by (simp_all add: reference_of_def)

lemma no_reference [simp]:
  "reference_of (po_result ((fusedFailure run_id raw inp n status host detail did)\<lparr>po_latency := k\<rparr>)) = None"
  "reference_of (po_result (fusedFailure run_id raw inp n status host detail did)) = None"
  "reference_of (po_result (engine_failure L run_id raw inp host engine a summary latency)) = None"
  by (auto simp: fusedFailure_def engine_failure_def Let_def split: prod.splits)

text \<open>A put on the store of the server and the preview of what it holds then.\<close>

definition put_then_preview ::
    "gw_lib \<Rightarrow> ('c, 's) store_ops \<Rightarrow> 'c call_io \<Rightarrow> string \<Rightarrow> string \<Rightarrow> 's option \<Rightarrow> 's server \<Rightarrow> string \<Rightarrow> nat \<Rightarrow> bool" where
  "put_then_preview L ops io owner stored before sv' ref n \<longleftrightarrow>
     (\<exists>st s0 p. store_put ops (ci_put io) stored owner before = Some (st, ref, n) \<and>
        refPreview L ops io ref owner (s0\<lparr>sv_store := st\<rparr>) = (sv', p))"

lemma put_then_previewI:
  "store_put ops (ci_put io) stored owner before = Some (st, ref, n) \<Longrightarrow>
   refPreview L ops io ref owner (s0\<lparr>sv_store := st\<rparr>) = (sv', p) \<Longrightarrow> put_then_preview L ops io owner stored before sv' ref n"
  unfolding put_then_preview_def by blast

text \<open>
  The data of a result: its payload, or what the link it names leads to; and what a reference must
  stand for: that data or the whole answer, or the answer of the transform the reference names on that data,
  after minimization.
\<close>

definition result_data :: "gw_lib \<Rightarrow> 'c call_io \<Rightarrow> 's server \<Rightarrow> evaluated_grant option \<Rightarrow> envelope \<Rightarrow> string \<Rightarrow> bool" where
  "result_data L io sv ev p data \<longleftrightarrow>
     (let payload = resultPayload (gl_text L) p; link = offloadURL (gl_text L) payload
      in if link = [] then data = payload else \<exists>sent. fetchOffload L sv (ci_fetch io) link ev = Some (sent, Inr data))"

definition transformed_data ::
    "gw_lib \<Rightarrow> 'c call_io \<Rightarrow> call_ctx \<Rightarrow> 's server \<Rightarrow> string \<Rightarrow> string \<Rightarrow> transform \<Rightarrow> string \<Rightarrow> string \<Rightarrow> bool" where
  "transformed_data L io cx sv upstream tool tf inp data \<longleftrightarrow>
     (\<exists>summary scrubbed alerts k. ci_engine io (tf_engine tf) (tf_query tf) inp = EngineOk summary \<and>
        snd (scrubInbound (gl_json L) (sv_min sv) (caller_of cx) upstream tool [(''result'', JStr summary)]) = Inr (scrubbed, alerts, k) \<and>
        member scrubbed ''result'' = Some (JStr data))"

definition stands_for ::
    "gw_lib \<Rightarrow> 'c call_io \<Rightarrow> call_ctx \<Rightarrow> 's server \<Rightarrow> evaluated_grant option \<Rightarrow> dialed \<Rightarrow> tool_result \<Rightarrow> string \<Rightarrow> bool" where
  "stands_for L io cx sv ev d r data \<longleftrightarrow>
     (\<exists>res p inp. upstream_answer io d = Some res \<and> js_unmarshal (gl_json L) res = Some p \<and> result_data L io sv ev p inp \<and>
        (case r of RefHandle _ _ _ _ \<Rightarrow> data = inp \<or> data = res
         | FusedRef _ _ tf _ _ _ \<Rightarrow> transformed_data L io cx sv (di_upstream d) (di_tool d) tf inp data
         | _ \<Rightarrow> False))"

lemma result_data_cong: "sv_client s = sv_client sv \<Longrightarrow> result_data L io s ev p data = result_data L io sv ev p data"
  by (simp add: result_data_def Let_def fetchOffload_client [of s sv])

lemma park_reference:
  assumes "park L ops io cx name host res payload rehydrated s = (s', Some (Some out))"
    and "reference_of (po_result out) = Some (ref, n)"
  obtains stored where "stored = payload \<or> stored = res" "put_then_preview L ops io (caller_of cx) stored (sv_store s) s' ref n"
    "\<exists>p. po_result out = RefHandle ref n name p"
proof -
  have "\<exists>st p. store_put ops (ci_put io) (if \<not> rehydrated \<and> length payload < length res div 2 then res else payload) (caller_of cx) (sv_store s)
      = Some (st, ref, n) \<and> refPreview L ops io ref (caller_of cx) (s\<lparr>sv_store := st\<rparr>) = (s', p) \<and> po_result out = RefHandle ref n name p"
    using assms
    by (auto simp: park_def refHandleResult_def rehydratedResult_def Let_def split: notice.splits if_splits option.splits prod.splits)
  then show thesis using that by (auto intro: put_then_previewI split: if_splits)
qed

lemma hold_reference:
  assumes "hold_result L ops io cx upstream name host res ev p s = (s', Some (Some out))"
    and "reference_of (po_result out) = Some (ref, n)"
  obtains stored inp where "result_data L io s ev p inp" "stored = inp \<or> stored = res"
    "put_then_preview L ops io (caller_of cx) stored (sv_store s) s' ref n" "\<exists>p. po_result out = RefHandle ref n name p"
proof -
  have "\<exists>inp b. result_data L io s ev p inp \<and> park L ops io cx name host res inp b s = (s', Some (Some out))"
    using assms by (auto simp: hold_result_def result_data_def Let_def split: if_splits option.splits prod.splits sum.splits)
  then obtain inp b where d: "result_data L io s ev p inp" "park L ops io cx name host res inp b s = (s', Some (Some out))" by blast
  show thesis by (rule park_reference [OF d(2) assms(2)], rule that [OF d(1)])
qed

lemma fused_answer_reference:
  assumes "fused_answer L ops io cx run_id upstream tool source tf raw inp host summary s = (s', Some out)"
    and "reference_of (po_result out) = Some (ref, n)"
  obtains stored scrubbed alerts k where
    "snd (scrubInbound (gl_json L) (sv_min s) (caller_of cx) upstream tool [(''result'', JStr summary)]) = Inr (scrubbed, alerts, k)"
    "member scrubbed ''result'' = Some (JStr stored)"
    "put_then_preview L ops io (caller_of cx) stored (sv_store s) s' ref n" "\<exists>p. po_result out = FusedRef run_id source tf ref n p"
proof -
  obtain mz scrub where m: "scrubInbound (gl_json L) (sv_min s) (caller_of cx) upstream tool [(''result'', JStr summary)] = (mz, scrub)"
    by force
  note eq = assms(1) [unfolded fused_answer_def Let_def m prod.case]
  obtain scrubbed alerts k where x: "scrub = Inr (scrubbed, alerts, k)"
    using eq assms(2) by (cases scrub) auto
  obtain a where a: "member scrubbed ''result'' = Some (JStr a)"
    using eq assms(2) by (auto simp: x split: option.splits json.splits)
  have "\<exists>st p. store_put ops (ci_put io) a (caller_of cx) (sv_store s) = Some (st, ref, n) \<and>
      refPreview L ops io ref (caller_of cx) (s\<lparr>sv_min := mz, sv_store := st\<rparr>) = (s', p) \<and> po_result out = FusedRef run_id source tf ref n p"
    using eq assms(2) by (auto simp: x a Apply_def fusedResult_def Let_def split: option.splits prod.splits if_splits)
  with m x a show thesis by (intro that [of scrubbed alerts k a]) (auto intro: put_then_previewI)
qed

lemma fused_input_cases:
  assumes "fused_input L s (ci_fetch io) run_id host p res ev = Some y"
  obtains (out) out where "y = Inl out" "reference_of (po_result out) = None"
  | (data) inp b where "y = Inr (inp, b)" "result_data L io s ev p inp"
  using assms
  by (auto simp: fused_input_def result_data_def Let_def split: if_splits option.splits prod.splits sum.splits notice.splits)

lemma fused_reference:
  assumes "fusedProxyResult L ops io cx run_id upstream tool source tf p res host ev s = (s', Some out)"
    and "reference_of (po_result out) = Some (ref, n)"
  obtains stored inp where "result_data L io s ev p inp" "transformed_data L io cx s upstream tool tf inp stored"
    "put_then_preview L ops io (caller_of cx) stored (sv_store s) s' ref n" "\<exists>p. po_result out = FusedRef run_id source tf ref n p"
proof -
  obtain y where y: "fused_input L s (ci_fetch io) run_id host p res ev = Some y"
    using assms by (cases "fused_input L s (ci_fetch io) run_id host p res ev") (auto simp: fusedProxyResult_def)
  then show thesis
  proof (cases rule: fused_input_cases)
    case (out x)
    with assms y show thesis by (simp add: fusedProxyResult_def)
  next
    case (data inp b)
    obtain summary where e: "ci_engine io (tf_engine tf) (tf_query tf) inp = EngineOk summary"
      "fused_answer L ops io cx run_id upstream tool source tf b (length inp) host summary s = (s', Some out)"
      using assms y data(1)
      by (cases "ci_engine io (tf_engine tf) (tf_query tf) inp") (auto simp: fusedProxyResult_def)
    show thesis
      by (rule fused_answer_reference [OF e(2) assms(2)], rule that [OF data(2)]) (use e(1) in \<open>auto simp: transformed_data_def\<close>)
  qed
qed

lemma invoke_reference:
  assumes "invokeUpstream L ops io cx name args sv = (sv', Answered r)" and "reference_of r = Some (ref, n)"
  obtains sv2 stored d ev where "put_then_preview L ops io (caller_of cx) stored (sv_store sv) sv2 ref n" "sv_store sv' = sv_store sv2"
    "sv_dials sv' = sv_dials sv @ [d]" "stands_for L io cx sv ev d r stored"
proof -
  have ne: "\<not> is_error r" using assms(2) by (cases r) auto
  obtain run_id dg out upName tool u args' ev sv1 sv2 where
    c: "proxyCall L ops io cx run_id upName tool name u args' ev dg sv1 = (sv2, Some out)" "r = po_result out"
    and s: "same_limits sv sv1" "sv_store sv' = sv_store sv2" "sv_dials sv' = sv_dials sv2"
    using answered_proxy [OF assms(1) ne] by metis
  note ok = ne [unfolded c(2)] and ref = assms(2) [unfolded c(2)]
  let ?d = "call_of L cx upName tool u args' dg"
  obtain res s0 where a: "upstream_answer io ?d = Some res" "sv_dials sv2 = sv_dials sv1 @ [?d]"
    "sv_min s0 = sv_min sv1" "sv_store s0 = sv_store sv1" "sv_client s0 = sv_client sv1"
    "shape_result L ops io cx run_id upName tool name (findTool (up_tools u) tool)
       (hostFromURL (gl_text L) (cn_endpoint (up_conn u))) res ev s0 = (sv2, Some out)"
    using proxy_shape [OF c(1) ok] by metis
  have d: "di_upstream ?d = upName" "di_tool ?d = tool" by (simp_all add: call_of_def)
  have like: "sv_store t = sv_store sv" "sv_min t = sv_min sv" "result_data L io t ev p x = result_data L io sv ev p x"
    if "same_limits s0 t" for t p x
    using that a(3-5) s(1) result_data_cong [of t sv] by (simp_all add: same_limits_def)
  have "\<exists>stored. put_then_preview L ops io (caller_of cx) stored (sv_store sv) sv2 ref n \<and> stands_for L io cx sv ev ?d r stored"
    using a(6) ok
  proof (cases rule: shape_cases)
    case (fused p tf t)
    note t = like [OF fused(2)]
    obtain stored inp q where "result_data L io sv ev p inp" "transformed_data L io cx t upName tool tf inp stored"
      "put_then_preview L ops io (caller_of cx) stored (sv_store sv) sv2 ref n" "po_result out = FusedRef run_id name tf ref n q"
      using fused_reference [OF fused(3) ref] t(1,3) by metis
    moreover have "stands_for L io cx sv ev ?d r stored"
      unfolding stands_for_def using calculation fused(1) a(1) c(2) t(2) d
      by (intro exI [of _ res] exI [of _ p] exI [of _ inp]) (simp add: transformed_data_def)
    ultimately show ?thesis by blast
  next
    case (held p t)
    note t = like [OF held(2)]
    obtain stored inp q where "result_data L io sv ev p inp" "stored = inp \<or> stored = res"
      "put_then_preview L ops io (caller_of cx) stored (sv_store sv) sv2 ref n" "po_result out = RefHandle ref n name q"
      using hold_reference [OF held(4) ref] t(1,3) by metis
    moreover have "stands_for L io cx sv ev ?d r stored"
      unfolding stands_for_def using calculation held(1) a(1) c(2)
      by (intro exI [of _ res] exI [of _ p] exI [of _ inp]) simp
    ultimately show ?thesis by blast
  next
    case (inline p t t1)
    show ?thesis by (rule inline_form [OF inline(4) ok]) (use ref in simp)
  qed
  then obtain stored where "put_then_preview L ops io (caller_of cx) stored (sv_store sv) sv2 ref n" "stands_for L io cx sv ev ?d r stored"
    by blast
  from this(1) s(2) _ this(2) show thesis by (rule that) (use s a(2) in \<open>simp add: same_limits_def\<close>)
qed

context keeping_store
begin

lemma invoke_holds:
  assumes "invokeUpstream L \<lparr>so_put = put, so_get = get\<rparr> io cx name args sv = (sv', Answered r)" "reference_of r = Some (ref, n)"
    and st: "sv_store sv = Some st" "invar st" "admitted (ci_put io) (caller_of cx)"
  shows "\<exists>st' data d ev. sv_store sv' = Some st' \<and> invar st' \<and> length data = n \<and>
    sv_dials sv' = sv_dials sv @ [d] \<and> stands_for L io cx sv ev d r data \<and>
    (\<forall>x. view st' ref = Some x \<longrightarrow> x = (data, caller_of cx)) \<and>
    (roomy (ci_put io) (ci_get_at io) st \<longrightarrow> view st' ref = Some (data, caller_of cx))"
proof -
  let ?ops = "\<lparr>so_put = put, so_get = get\<rparr>"
  obtain sv2 stored d ev where sv2: "put_then_preview L ?ops io (caller_of cx) stored (sv_store sv) sv2 ref n"
    "sv_store sv' = sv_store sv2" and call: "sv_dials sv' = sv_dials sv @ [d]" "stands_for L io cx sv ev d r stored"
    by (rule invoke_reference [OF assms(1,2)])
  from sv2(1) obtain s1 s0 p where p: "put (ci_put io) stored (caller_of cx) st = Some (s1, ref, n)"
    and pre: "refPreview L ?ops io ref (caller_of cx) (s0\<lparr>sv_store := Some s1\<rparr>) = (sv2, p)"
    using st(1) by (auto simp: put_then_preview_def store_put_def)
  obtain s2 y where g: "get (ci_get_at io) ref s1 = (s2, y)" by (cases "get (ci_get_at io) ref s1")
  have s2: "sv_store sv2 = Some s2"
    using pre g by (auto simp: refPreview_def Let_def split: option.splits if_splits prod.splits)
  have i1: "invar s1" "view s1 \<subseteq>\<^sub>m (view st)(ref \<mapsto> (stored, caller_of cx))" "n = length stored"
    using put_invar [OF st(2) p] put_view [OF st(2,3) p] put_size [OF p] by auto
  have i2: "invar s2" "view s2 \<subseteq>\<^sub>m view s1" using get_invar [OF i1(1) g] get_view [OF i1(1) g] by auto
  have "x = (stored, caller_of cx)" if "view s2 ref = Some x" for x
    using map_le_Some [OF map_le_trans [OF i2(2) i1(2)] that] by simp
  moreover have "view s2 ref = Some (stored, caller_of cx)" if "roomy (ci_put io) (ci_get_at io) st"
    using put_kept [OF st(2,3) that p g] .
  moreover have "sv_store sv' = Some s2" using sv2(2) s2 by simp
  ultimately show ?thesis using i2(1) i1(3) [symmetric] call by blast
qed

end

text \<open>
  C4. A result held off the model's context belongs to the caller. When a call answers with a
  reference, one call was made, and there is a payload of the size the answer names: for an upstream's
  result the whole answer, its payload or the data behind the link it names, and for a transform
  the minimized answer of the named engine and query on that payload or data. The store holds under the
  reference nothing else than this payload, owned by the caller's key; and it does hold it unless it
  was evicted or expired: when the entry is within the time to live at the sweep and at the
  preview, and the store was below its capacity. This is for the memory store and for the file store; for the latter with a cipher of 12-byte nonces whose opening inverts its sealing, a nonce
  of twelve bytes, an owner of at most 65535 bytes, and a write that completes, fails, or stops
  within the 20-byte header, and the payload is held if the write completes.
\<close>

theorem parked_results_owned:
  "(invokeUpstream L \<lparr>so_put = mem_Put, so_get = mem_Get\<rparr> io cx name args sv = (sv', Answered r) \<longrightarrow>
      reference_of r = Some (ref, n) \<longrightarrow> sv_store sv = Some st \<longrightarrow> mem_wf st \<longrightarrow>
      (\<exists>st' data d ev. sv_store sv' = Some st' \<and> mem_wf st' \<and> length data = n \<and>
         sv_dials sv' = sv_dials sv @ [d] \<and> stands_for L io cx sv ev d r data \<and>
         (\<forall>x. mem_view st' ref = Some x \<longrightarrow> x = (data, caller_of cx)) \<and>
         (mem_roomy (ci_put io) (ci_get_at io) st \<longrightarrow> mem_view st' ref = Some (data, caller_of cx)))) \<and>
   (invokeUpstream L \<lparr>so_put = file_Put, so_get = file_Get\<rparr> fio cx name args fsv = (fsv', Answered r) \<longrightarrow>
      reference_of r = Some (ref, n) \<longrightarrow> sv_store fsv = Some fst' \<longrightarrow> file_wf fst' \<longrightarrow> file_admitted (ci_put fio) (caller_of cx) \<longrightarrow>
      (\<exists>st' data d ev. sv_store fsv' = Some st' \<and> file_wf st' \<and> length data = n \<and>
         sv_dials fsv' = sv_dials fsv @ [d] \<and> stands_for L fio cx fsv ev d r data \<and>
         (\<forall>x. file_view st' ref = Some x \<longrightarrow> x = (data, caller_of cx)) \<and>
         (file_roomy (ci_put fio) (ci_get_at fio) fst' \<longrightarrow> file_view st' ref = Some (data, caller_of cx))))"
  using memk.invoke_holds [of L io cx name args sv sv' r ref n st] filek.invoke_holds [of L fio cx name args fsv fsv' r ref n fst']
  by blast

end
