(* ===== verification/Gateway_Examples.thy ===== *)
theory Gateway_Examples
  imports Gateway_Context
begin

text \<open>
  A concrete gateway with one connection, and the theorems of \<open>Gateway_Safety\<close>, \<open>Gateway_Results\<close>
  and \<open>Gateway_Context\<close> at calls through it.
\<close>

section \<open>A small gateway\<close>

text \<open>
  One connection, owned by nobody, with one read tool; a link to a file outside the platform; and
  libraries that know the few texts of the examples.
\<close>

definition files_url :: url where
  "files_url = (example_url ''/r'')\<lparr>u_host := ''files.example.com'', u_hostname := ''files.example.com''\<rparr>"

definition small_dial :: dial_lib where
  "small_dial = go_lib.extend (example_lib\<lparr>sha256 := take 4, url_parse := (\<lambda>s.
       if s = ''https://files.example.com/r'' then Some files_url
       else if s = ''https://files.example.com'' then Some (files_url\<lparr>u_path := [], u_escaped_path := []\<rparr>)
       else url_parse example_lib s)\<rparr>)
     (dial_lib.fields (\<lambda>s. if s = ''8.8.8.8'' then Some [8, 8, 8, 8] else None)
        (\<lambda>s. if s = ''8.8.8.8:443'' then Some (''8.8.8.8'', ''443'') else None))"

definition text_block :: "string \<Rightarrow> json" where
  "text_block s = JArr [JObj [(''type'', JStr ''text''), (''text'', JStr s)]]"

definition small_text :: text_lib where
  "small_text = \<lparr>tx_unmarshal = (\<lambda>s. if s = ''L'' then Some (JObj [(''download_url'', JStr ''https://files.example.com/r'')]) else None),
     tx_marshal = (\<lambda>_. []), tx_schema = (\<lambda>_. None), tx_fields = (\<lambda>_. None),
     tx_lower = (\<lambda>s. if s = growing_text 17 then grown_text 17 else s), tx_host = (\<lambda>_. Some ''crm'')\<rparr>"

definition small_json :: json_lib where
  "small_json = \<lparr>js_marshal = (\<lambda>ms. Some (text_blocks (member ms ''content''))),
     js_unmarshal = (\<lambda>s. Some [(''content'', text_block s)])\<rparr>"

definition small_lib :: gw_lib where
  "small_lib = \<lparr>gl_dial = small_dial, gl_text = small_text, gl_json = small_json, gl_args = example_args,
     gl_ledger = example_ledger_lib, gl_audit = \<lparr>au_sha256 = take 4, au_body = (\<lambda>i r. i), au_verify = (\<lambda>_ _. True)\<rparr>,
     gl_order = id, gl_fold_eq = (=), gl_decode = (\<lambda>_. Some (JObj [])),
     gl_call = (\<lambda>s. Some \<lparr>cq_name = s, cq_arguments = [], cq_transform = [], cq_task = []\<rparr>),
     gl_transform = (\<lambda>s. Some (s, [], True)), gl_spec_text = (\<lambda>n _. n), gl_error_text = (\<lambda>_. ''denied''),
     gl_result_len = (\<lambda>_. 0), gl_extra = ex_user, gl_url_string = (\<lambda>u. u_scheme u @ ''://'' @ u_host u @ u_path u), gl_quote = id\<rparr>"

definition small_tool :: tool where
  "small_tool = \<lparr>tl_name = ''get'', tl_description = [], tl_schema = [],
     tl_annotations = Some \<lparr>an_read_only = Some True, an_destructive = Some False\<rparr>\<rparr>"

definition small_grant :: operation_grant where
  "small_grant = example_grant\<lparr>og_tool := ''get'', og_effect := effectRead, og_arguments := [], og_resources := [],
     og_allow_shared := True, og_high_assurance := True\<rparr>"

definition small_upstream :: "operation_grant list \<Rightarrow> upstream" where
  "small_upstream gs = (new_upstream \<lparr>cn_id = 1, cn_endpoint = ''https://crm/mcp''\<rparr> [small_tool] True ''preloaded'' None)\<lparr>up_grants := gs\<rparr>"

definition server_on :: "'s \<Rightarrow> bool \<Rightarrow> operation_grant list \<Rightarrow> 's server" where
  "server_on st high gs =
     \<lparr>sv_reg = \<lparr>rg_conns = [(''crm'', small_upstream gs)], rg_usage = []\<rparr>, sv_min = example_min,
      sv_ledger = sy_ledger (new_system ''/s'' True True 0), sv_ledger_world = sy_world (new_system ''/s'' True True 0),
      sv_audit = \<lparr>ad_state_dir = ''/s'', ad_signer = False, ad_secrets = False, ad_hash = [], ad_chained = 0, ad_anchored_at = 0,
        ad_runs = new_store 10\<rparr>,
      sv_audit_world = \<lparr>aw_file = \<lparr>lf_exists = False, lf_lines = [], lf_torn = False\<rparr>, aw_anchor = None\<rparr>,
      sv_store = Some st, sv_max_bytes = 64, sv_high = high, sv_multi = True, sv_emails = None, sv_engines = [],
      sv_default_engine = [], sv_client = Some (GuardedClient small_dial 0 0), sv_dials = []\<rparr>"

definition small_server :: "bool \<Rightarrow> operation_grant list \<Rightarrow> mem_store server" where
  "small_server = server_on NewMemStore"

definition small_ctx :: call_ctx where
  "small_ctx = \<lparr>cx_principal = Some \<lparr>p_subject = ''alice'', p_campaign = ''c1'', p_scopes = [], p_issuer = ''https://as'', p_expiry = 0\<rparr>,
     cx_task = [], cx_transform = None, cx_program = None\<rparr>"

definition io_on :: "'c \<Rightarrow> string \<Rightarrow> 'c call_io" where
  "io_on put answer =
     \<lparr>ci_now = 1, ci_eval_at = 1, ci_decide_at = 1, ci_health_at = 1, ci_get_at = 1, ci_record_at = 1, ci_ledger = example_io,
      ci_audit = \<lparr>ai_write = AuditWritten, ai_sig = None, ai_marshal = True, ai_anchor_sig = None, ai_saved = True\<rparr>,
      ci_direct = (\<lambda>_. (answer, None)), ci_shared = (\<lambda>_. (answer, None, False)),
      ci_fetch = \<lparr>fi_net = (\<lambda>_. \<lparr>h_attempts = [(''8.8.8.8:443'', \<lambda>_. None)], h_reply = Final\<rparr>), fi_status = 200,
        fi_body = \<lparr>sm_bytes = ''card 4111'', sm_fails = False\<rparr>, fi_gunzip = (\<lambda>_. None)\<rparr>,
      ci_put = put, ci_engine = (\<lambda>_ _ p. EngineOk p), ci_latency = 1, ci_run_latency = 1,
      ci_transform_latency = 1\<rparr>"

definition small_io :: "string \<Rightarrow> put_env call_io" where
  "small_io = io_on (example_env 1 (sort_key snd))"

definition small_ops :: "(put_env, mem_store) store_ops" where
  "small_ops = \<lparr>so_put = mem_Put, so_get = mem_Get\<rparr>"

definition small_call :: "bool \<Rightarrow> operation_grant list \<Rightarrow> string \<Rightarrow> mem_store server \<times> invoked" where
  "small_call high gs answer = invokeUpstream small_lib small_ops (small_io answer) small_ctx ''crm__get'' ''{}'' (small_server high gs)"

lemma small_call_eq:
  "invokeUpstream small_lib small_ops (small_io answer) small_ctx ''crm__get'' ''{}'' (small_server high gs) =
     (fst (small_call high gs answer), snd (small_call high gs answer))"
  by (simp add: small_call_def)

lemma small_dials: "sv_dials (small_server high gs) = []" "sv_store (small_server high gs) \<noteq> None"
  "sv_max_bytes (small_server high gs) = 64" "sv_min (small_server high gs) = example_min" "sv_high (small_server high gs) = high"
  by (simp_all add: small_server_def server_on_def)

definition small_dialed :: dialed where
  "small_dialed = \<lparr>di_caller = ''https://as#alice'', di_upstream = ''crm'', di_tool = ''get'', di_args = ''{}'',
     di_conn = \<lparr>cn_id = 1, cn_endpoint = ''https://crm/mcp''\<rparr>, di_delegated = None, di_shared = True\<rparr>"

lemma small_dialed_granted: "sv_dials (fst (small_call True [small_grant] ''ok'')) = [small_dialed]"
  by code_simp

theorem upstream_call_authorized_witness:
  "sv_dials (fst (small_call True [small_grant] ''ok'')) = [small_dialed] \<and>
   (\<exists>u ev. lookup (sv_reg (small_server True [small_grant])) ''crm'' = Some u \<and> admits small_lib small_ctx ''crm__get'' u ''get'' ''{}'' \<and>
      grants_call small_lib (small_server True [small_grant]) (small_io ''ok'') small_ctx u ''get'' ''{}'' ev)"
  using upstream_call_authorized [OF small_call_eq [of "''ok''" True "[small_grant]"]]
  by (auto simp: small_dialed_granted small_dials small_dialed_def)

lemma small_dialed_plain: "sv_dials (fst (small_call False [] ''ok'')) = [small_dialed]"
  by code_simp

lemma small_plain: "\<exists>e. snd (small_call False [] ''ok'') = Answered (Envelope e)"
proof -
  have "snd (small_call False [] ''ok'') = Answered (Envelope [(''content'', text_block ''ok'')])" by code_simp
  then show ?thesis by blast
qed

theorem answered_calls_recorded_witness:
  "\<exists>res r. snd (small_call False [] ''ok'') = Answered res \<and>
     logs small_lib (small_io ''ok'') (small_server False []) r (fst (small_call False [] ''ok'')) \<and>
     accounts small_lib (small_server False []) small_ctx ''crm__get'' res True r"
proof -
  obtain e where e: "snd (small_call False [] ''ok'') = Answered (Envelope e)" using small_plain by blast
  have "fst (small_call False [] ''ok'') \<noteq> small_server False []" using small_dialed_plain small_dials(1) by fastforce
  with answered_calls_recorded [OF small_call_eq [of "''ok''" False "[]", unfolded e]] e small_dialed_plain small_dials(1) [of False "[]"]
  show ?thesis by auto
qed

lemma small_panic: "snd (small_call False [] (growing_text 17)) = NoReturn"
  by code_simp

theorem panicked_call_unrecorded_witness:
  "(\<exists>d. sv_dials (fst (small_call False [] (growing_text 17))) = [d] \<and> ''crm__get'' = full_name (di_upstream d) (di_tool d)) \<and>
   sv_audit_world (fst (small_call False [] (growing_text 17))) = sv_audit_world (small_server False [])"
  using panicked_call_unrecorded [OF small_call_eq [of "growing_text 17" False "[]", unfolded small_panic]] by (simp add: small_dials)


text \<open>
  A call for a result behind a link, on a connection whose policy replaces the digits of a card
  number: the number reaches the model.
\<close>

definition link_data :: envelope where
  "link_data = [(''content'', text_block ''L'')]"

lemma small_gate: "gate small_lib (small_server False []) (small_io ''L'') small_ctx ''crm__get'' ''{}'' = Pass (small_upstream []) ''{}'' None"
  by code_simp

lemma small_link:
  "offloadURL (gl_text small_lib) (resultPayload (gl_text small_lib) link_data) = ''https://files.example.com/r''"
  by code_simp

lemma small_link_fetch:
  "fetchOffload small_lib (small_server False []) (ci_fetch (small_io ''L'')) ''https://files.example.com/r'' None =
     Some ([(files_url, [''8.8.8.8:443''])], Inr ''card 4111'')"
  by code_simp

theorem rehydrated_data_unminimized_witness:
  "minimizeActive (sv_min (small_server False [])) ''crm'' \<and>
   snd (small_call False [] ''L'') = Answered (Rehydrated ''card 4111'' None)"
proof -
  have split: "split_name ''crm__get'' = (''crm'', ''get'')" by code_simp
  have pre: "pre_dial small_lib small_ctx ''crm'' ''crm__get'' (small_upstream []) (findTool (up_tools (small_upstream [])) ''get'') ''{}'' = None"
    by code_simp
  have ans: "upstream_answer (small_io ''L'') (call_of small_lib small_ctx ''crm'' ''get'' (small_upstream []) ''{}'' None) = Some ''L''"
    by code_simp
  have js: "js_unmarshal (gl_json small_lib) ''L'' = Some link_data" by (simp add: small_lib_def small_json_def link_data_def)
  have tf: "cx_transform small_ctx = None" "\<not> resultIsError link_data" "up_delegation (small_upstream []) = None" by code_simp+
  have notice: "truncatedNotice (gl_text small_lib) ''card 4111'' = NoNotice" by code_simp
  have none: "tx_unmarshal (gl_text small_lib) ''card 4111'' = None" by (simp add: small_lib_def small_text_def)
  have data: "if offloadURL (gl_text small_lib) (resultPayload (gl_text small_lib) link_data) = []
      then ''card 4111'' = resultPayload (gl_text small_lib) link_data \<and> \<not> True
      else (\<exists>sent. fetchOffload small_lib (small_server False []) (ci_fetch (small_io ''L''))
              (offloadURL (gl_text small_lib) (resultPayload (gl_text small_lib) link_data)) None = Some (sent, Inr ''card 4111'')) \<and> True"
    by (simp add: small_link small_link_fetch)
  from rehydrated_data_unminimized [OF small_gate split tf(3) pre ans js tf(2,1) small_dials(2) data, of small_ops, THEN conjunct1] notice none
  show ?thesis using example_min_active by (auto simp: small_dials small_call_def)
qed

definition offload_ev :: evaluated_grant where
  "offload_ev = \<lparr>eg_grant = small_grant\<lparr>og_url_targets := [\<lparr>ut_id = ''offload'', ut_origins = [''https://files.example.com''],
     ut_paths = [], ut_query = [], ut_redirect = False\<rparr>]\<rparr>, eg_digest = [], eg_resource_ids = [], eg_shared_writable = []\<rparr>"

lemma small_fetch:
  "fetchOffload small_lib (small_server True []) (ci_fetch (small_io [])) ''https://files.example.com/r'' (Some offload_ev) =
     Some ([(files_url, [''8.8.8.8:443''])], Inr ''card 4111'')"
  by code_simp

theorem offload_confined_witness:
  "\<exists>host port ip. split_host_port small_dial ''8.8.8.8:443'' = Some (host, port) \<and> parse_ip small_dial host = Some ip \<and> \<not> isInternal (Some ip)"
  using offload_confined [of small_lib "small_server True []" "ci_fetch (small_io [])" "''https://files.example.com/r''" offload_ev]
  by (simp add: small_fetch) (simp add: small_lib_def)

theorem governed_denials_opaque_witness:
  "snd (small_call True [] ''ok'') = Answered (ToolError (Unauthorized ''crm__get''))"
proof -
  have "str_cut nsSep ''crm__get'' = Some (''crm'', ''get'')" by code_simp
  from governed_denials_opaque [OF this, of "small_server True []" small_ctx small_lib small_ops "small_io ''ok''" "''{}''"] show ?thesis
    by (simp add: small_call_def small_dials) (simp add: small_server_def server_on_def lookup_def small_upstream_def new_upstream_def matchingGrant_def)
qed

definition long_answer :: string where
  "long_answer = replicate 70 (CHR ''x'')"

definition file_ops :: "(file_env, file_store) store_ops" where
  "file_ops = \<lparr>so_put = file_Put, so_get = file_Get\<rparr>"

definition file_call :: "string \<Rightarrow> file_store server \<times> invoked" where
  "file_call answer =
     invokeUpstream small_lib file_ops (io_on toy_env answer) small_ctx ''crm__get'' ''{}'' (server_on (toy_store []) False [])"

lemma long_put:
  "\<exists>st. store_put file_ops (ci_put (io_on toy_env long_answer)) long_answer owner (Some (toy_store [])) = Some (Some st, ''<ref_a>'', 70)"
  by (simp add: store_put_def file_ops_def io_on_def toy_store_def file_Put_def toy_env_def writeLocked_def Let_def file_sweep_def
      safeRefFile_def refToken_def base62_def less_eq_char_def long_answer_def)

lemma file_parked: "\<exists>p. snd (file_call long_answer) = Answered (RefHandle ''<ref_a>'' 70 ''crm__get'' p)"
proof -
  let ?sv = "server_on (toy_store []) False []" and ?io = "io_on toy_env long_answer" and ?e = "[(''content'', text_block long_answer)]"
  have gate: "gate small_lib ?sv ?io small_ctx ''crm__get'' ''{}'' = Pass (small_upstream []) ''{}'' None" by code_simp
  have split: "split_name ''crm__get'' = (''crm'', ''get'')" by code_simp
  have pre: "pre_dial small_lib small_ctx ''crm'' ''crm__get'' (small_upstream []) (findTool (up_tools (small_upstream [])) ''get'') ''{}'' = None"
    by code_simp
  have ans: "upstream_answer ?io (call_of small_lib small_ctx ''crm'' ''get'' (small_upstream []) ''{}'' None) = Some long_answer"
    by code_simp
  have js: "js_unmarshal (gl_json small_lib) long_answer = Some ?e" by (simp add: small_lib_def small_json_def)
  have tf: "cx_transform small_ctx = None" "\<not> resultIsError ?e" "up_delegation (small_upstream []) = None" by code_simp+
  have payload: "resultPayload (gl_text small_lib) ?e = long_answer" "offloadURL (gl_text small_lib) long_answer = []"
    "truncatedNotice (gl_text small_lib) long_answer = NoNotice" "length long_answer = 70" by code_simp+
  have st: "sv_store ?sv = Some (toy_store [])" "sv_max_bytes ?sv = 64" by (simp_all add: server_on_def)
  have data: "if offloadURL (gl_text small_lib) (resultPayload (gl_text small_lib) ?e) = []
      then long_answer = resultPayload (gl_text small_lib) ?e \<and> \<not> False
      else (\<exists>sent. fetchOffload small_lib ?sv (ci_fetch ?io) (offloadURL (gl_text small_lib) (resultPayload (gl_text small_lib) ?e)) None =
          Some (sent, Inr long_answer)) \<and> False"
    by (simp add: payload)
  obtain s3 where s3: "sv_store s3 = sv_store ?sv" "sv_max_bytes s3 = sv_max_bytes ?sv"
    "\<And>s' out. park small_lib file_ops ?io small_ctx ''crm__get'' (hostFromURL (gl_text small_lib) (cn_endpoint (up_conn (small_upstream []))))
        long_answer long_answer False s3 = (s', Some (Some out)) \<Longrightarrow>
       \<exists>sv'. invokeUpstream small_lib file_ops ?io small_ctx ''crm__get'' ''{}'' ?sv = (sv', Answered (po_result out)) \<and> sv_min sv' = sv_min s'"
    by (rule held_answer [OF gate split tf(3) pre ans js tf(2,1) _ data, of file_ops]) (use st in simp_all)
  obtain st where put: "store_put file_ops (ci_put ?io) long_answer (caller_of small_ctx) (Some (toy_store [])) = Some (Some st, ''<ref_a>'', 70)"
    using long_put by blast
  obtain s' p where pv: "refPreview small_lib file_ops ?io ''<ref_a>'' (caller_of small_ctx) (s3\<lparr>sv_store := Some st\<rparr>) = (s', p)" by force
  show ?thesis using s3(3) [unfolded park_def] s3(1,2) payload st put pv
    by (auto simp: refHandleResult_def file_call_def)
qed

lemma small_parked_at: "case snd (small_call False [] long_answer) of Answered (RefHandle ref n nm p) \<Rightarrow> ref = ''<ref_a>'' \<and> n = 70 | _ \<Rightarrow> False"
  by code_simp

theorem parked_results_owned_witness:
  "(\<exists>st data. sv_store (fst (small_call False [] long_answer)) = Some st \<and> length data = 70 \<and>
      mem_view st ''<ref_a>'' = Some (data, caller_of small_ctx)) \<and>
   (\<exists>st data. sv_store (fst (file_call long_answer)) = Some st \<and> length data = 70 \<and>
      file_view st ''<ref_a>'' = Some (data, caller_of small_ctx))"
proof -
  obtain nm p where r: "snd (small_call False [] long_answer) = Answered (RefHandle ''<ref_a>'' 70 nm p)"
    using small_parked_at by (auto split: invoked.splits tool_result.splits)
  obtain fp where fr: "snd (file_call long_answer) = Answered (RefHandle ''<ref_a>'' 70 ''crm__get'' fp)"
    using file_parked by blast
  have c: "invokeUpstream small_lib \<lparr>so_put = mem_Put, so_get = mem_Get\<rparr> (small_io long_answer) small_ctx ''crm__get'' ''{}'' (small_server False [])
      = (fst (small_call False [] long_answer), Answered (RefHandle ''<ref_a>'' 70 nm p))"
    using r by (simp add: prod_eq_iff small_call_def small_ops_def)
  have fc: "invokeUpstream small_lib \<lparr>so_put = file_Put, so_get = file_Get\<rparr> (io_on toy_env long_answer) small_ctx ''crm__get'' ''{}''
      (server_on (toy_store []) False []) = (fst (file_call long_answer), Answered (RefHandle ''<ref_a>'' 70 ''crm__get'' fp))"
    using fr by (simp add: prod_eq_iff file_call_def file_ops_def)
  have st: "sv_store (small_server False []) = Some NewMemStore" "sv_store (server_on (toy_store []) False []) = Some (toy_store [])"
    by (simp_all add: small_server_def server_on_def)
  have wf: "mem_wf NewMemStore" "file_wf (toy_store [])"
    using toy_aead_ok by (simp_all add: mem_wf_def NewMemStore_def file_wf_def toy_store_def)
  have adm: "file_admitted (ci_put (io_on toy_env long_answer)) (caller_of small_ctx)" by code_simp
  have room: "mem_roomy (ci_put (small_io long_answer)) (ci_get_at (small_io long_answer)) NewMemStore"
    "file_roomy (ci_put (io_on toy_env long_answer)) (ci_get_at (io_on toy_env long_answer)) (toy_store [])"
    by (simp_all add: mem_roomy_def file_roomy_def small_io_def io_on_def NewMemStore_def toy_store_def toy_env_def)
  show ?thesis
    using parked_results_owned [THEN conjunct1, rule_format, OF c reference_of_simps(3) st(1) wf(1)]
      parked_results_owned [THEN conjunct2, rule_format, OF fc reference_of_simps(3) st(2) wf(2) adm] room by blast
qed

end
