(* ===== verification/Run_Window.thy ===== *)
theory Run_Window
  imports Run_Store
begin

text \<open>
  The bounded window of recent runs and the counters that outlive it.
\<close>

section \<open>The window\<close>

definition store_wf :: "run_store \<Rightarrow> bool" where
  "store_wf s \<longleftrightarrow> distinct (rs_order s) \<and> distinct (map fst (rs_by_id s)) \<and>
     fst ` set (rs_by_id s) = set (rs_order s) \<and>
     (rs_max_kept s > 0 \<longrightarrow> int (length (rs_order s)) \<le> rs_max_kept s)"

definition excess :: "run_store \<Rightarrow> nat" where
  "excess s = (if rs_max_kept s > 0 then length (rs_order s) - nat (rs_max_kept s) else 0)"

definition keep :: "string list \<Rightarrow> (string \<times> run_record) list \<Rightarrow> (string \<times> run_record) list" where
  "keep ids m = filter (\<lambda>x. fst x \<in> set ids) m"

declare evict.simps [simp del]

text \<open>The loop in one step: drop the oldest ids in excess and their records.\<close>

lemma evict_eq:
  assumes "distinct (rs_order s)" and "fst ` set (rs_by_id s) = set (rs_order s)"
  shows "evict s = s\<lparr>rs_order := drop (excess s) (rs_order s), rs_by_id := keep (drop (excess s) (rs_order s)) (rs_by_id s)\<rparr>"
  using assms
proof (induction s rule: evict.induct)
  case (1 s)
  show ?case
  proof (cases "rs_order s")
    case Nil
    with "1.prems" show ?thesis by (simp add: evict.simps [of s] keep_def excess_def)
  next
    case (Cons i js)
    let ?t = "s\<lparr>rs_order := js, rs_by_id := AList.delete i (rs_by_id s)\<rparr>"
    show ?thesis
    proof (cases "rs_max_kept s > 0 \<and> int (length (rs_order s)) > rs_max_kept s")
      case True
      have keys: "fst ` set (rs_by_id ?t) = set (rs_order ?t)" "distinct (rs_order ?t)"
        using "1.prems" Cons by (auto simp: AList.delete_keys simp flip: set_map)
      have ex: "excess s = Suc (excess ?t)" using True Cons by (auto simp: excess_def)
      have "keep ids (AList.delete i m) = keep ids m" if "i \<notin> set ids" for ids m
        using that by (auto simp: keep_def AList.delete_eq filter_filter intro: filter_cong)
      moreover have "i \<notin> set (drop (excess ?t) js)" using "1.prems"(1) Cons by (auto dest: in_set_dropD)
      ultimately show ?thesis
        using "1.IH" [OF Cons True keys(2,1)] True Cons ex by (simp add: evict.simps [of s])
    next
      case False
      have "keep (rs_order s) (rs_by_id s) = rs_by_id s" using "1.prems"(2) by (auto simp: keep_def filter_id_conv)
      moreover have "excess s = 0" using False by (auto simp: excess_def)
      moreover have "evict s = s" using False Cons by (auto simp: evict.simps [of s])
      ultimately show ?thesis by simp
    qed
  qed
qed

lemma accumulate_window [simp]:
  "rs_order (accumulateImpactLocked r s) = rs_order s" "rs_by_id (accumulateImpactLocked r s) = rs_by_id s"
  "rs_max_kept (accumulateImpactLocked r s) = rs_max_kept s" "rs_seq (accumulateImpactLocked r s) = rs_seq s"
  "rs_total (accumulateImpactLocked r s) = rs_total s"
  by (simp_all add: accumulateImpactLocked_def)

definition appended :: "string \<Rightarrow> run_store \<Rightarrow> string list" where
  "appended i s = (if map_of (rs_by_id s) i = None then rs_order s @ [i] else rs_order s)"

definition overflow :: "string \<Rightarrow> run_store \<Rightarrow> nat" where
  "overflow i s = (if rs_max_kept s > 0 then length (appended i s) - nat (rs_max_kept s) else 0)"

lemma addRunLocked_eq:
  assumes "store_wf s"
  shows "addRunLocked i r s = s\<lparr>rs_order := drop (overflow i s) (appended i s),
      rs_by_id := keep (drop (overflow i s) (appended i s)) (AList.update i r (rs_by_id s)),
      rs_total := (if map_of (rs_by_id s) i = None then wrap64 (rs_total s + 1) else rs_total s),
      rs_impact := (if map_of (rs_by_id s) i = None \<and> rr_kind r \<noteq> ''materialize''
        then add_impact r (rs_impact s) else rs_impact s),
      rs_context := (if map_of (rs_by_id s) i = None \<and> rr_kind r \<noteq> ''materialize''
        then accumulateContextLocked r (rs_context s) else rs_context s)\<rparr>"
proof -
  let ?s1 = "if map_of (rs_by_id s) i = None
     then accumulateImpactLocked r (s\<lparr>rs_order := rs_order s @ [i], rs_total := wrap64 (rs_total s + 1)\<rparr>) else s"
  let ?s2 = "?s1\<lparr>rs_by_id := AList.update i r (rs_by_id ?s1)\<rparr>"
  have o: "rs_order ?s2 = appended i s" by (simp add: appended_def)
  have ids: "rs_by_id ?s2 = AList.update i r (rs_by_id s)" by simp
  have new: "map_of (rs_by_id s) i = None \<longleftrightarrow> i \<notin> set (rs_order s)"
    using assms by (simp add: store_wf_def map_of_eq_None_iff)
  have d: "distinct (rs_order ?s2)" "fst ` set (rs_by_id ?s2) = set (rs_order ?s2)"
    using assms new unfolding o ids by (auto simp: store_wf_def appended_def dom_update)
  have ex: "excess ?s2 = overflow i s" unfolding excess_def o by (simp add: overflow_def)
  have "addRunLocked i r s = ?s2\<lparr>rs_order := drop (overflow i s) (appended i s),
      rs_by_id := keep (drop (overflow i s) (appended i s)) (AList.update i r (rs_by_id s))\<rparr>"
    using evict_eq [OF d] unfolding o ids ex by (simp add: addRunLocked_def Let_def)
  then show ?thesis by (simp add: accumulateImpactLocked_def)
qed

lemma addRunLocked_window:
  assumes "store_wf s"
  shows "rs_order (addRunLocked i r s) = drop (overflow i s) (appended i s)"
    and "rs_by_id (addRunLocked i r s) = keep (drop (overflow i s) (appended i s)) (AList.update i r (rs_by_id s))"
    and "rs_max_kept (addRunLocked i r s) = rs_max_kept s" and "rs_seq (addRunLocked i r s) = rs_seq s"
    and "rs_total (addRunLocked i r s) = (if map_of (rs_by_id s) i = None then wrap64 (rs_total s + 1) else rs_total s)"
    and "rs_impact (addRunLocked i r s) = (if map_of (rs_by_id s) i = None \<and> rr_kind r \<noteq> ''materialize''
       then add_impact r (rs_impact s) else rs_impact s)"
  by (simp_all add: addRunLocked_eq [OF assms])

lemma store_wf_seq [simp]: "store_wf (s\<lparr>rs_seq := q\<rparr>) = store_wf s"
  by (simp add: store_wf_def)

lemma addRunLocked_seq:
  "store_wf s \<Longrightarrow> addRunLocked i r (s\<lparr>rs_seq := q\<rparr>) = (addRunLocked i r s)\<lparr>rs_seq := q\<rparr>"
  by (simp add: addRunLocked_eq appended_def overflow_def)

lemma appended_distinct:
  assumes "store_wf s" shows "distinct (appended i s)" and "i \<in> set (appended i s)"
    and "fst ` set (AList.update i r (rs_by_id s)) = set (appended i s)"
proof -
  have "map_of (rs_by_id s) i = None \<longleftrightarrow> i \<notin> set (rs_order s)"
    using assms by (simp add: store_wf_def map_of_eq_None_iff)
  with assms show "distinct (appended i s)" "i \<in> set (appended i s)"
    "fst ` set (AList.update i r (rs_by_id s)) = set (appended i s)"
    by (auto simp: store_wf_def appended_def dom_update)
qed

lemma store_wf_add [inv_intros]: "store_wf s \<Longrightarrow> store_wf (addRunLocked i r s)"
proof -
  assume wf: "store_wf s"
  note w = addRunLocked_window [OF wf, of i r] and a = appended_distinct [OF wf, of i]
  have "fst ` set (keep ids m) = set ids \<inter> fst ` set m" for ids and m :: "(string \<times> run_record) list"
    by (auto simp: keep_def image_iff)
  moreover have "distinct (map fst (keep ids (AList.update i r (rs_by_id s))))" for ids
    unfolding keep_def using wf by (intro distinct_fst_filter) (simp add: store_wf_def distinct_update)
  moreover have "set (drop (overflow i s) (appended i s)) \<subseteq> set (appended i s)" by (rule set_drop_subset)
  ultimately show "store_wf (addRunLocked i r s)"
    using a by (auto simp: store_wf_def w overflow_def)
qed

lemma keep_lookup:
  "distinct (map fst m) \<Longrightarrow> map_of (keep ids m) k = (if k \<in> set ids then map_of m k else None)"
  unfolding keep_def by (induction m) (auto simp: map_of_eq_None_iff image_iff)

lemma getRun_added:
  assumes wf: "store_wf s" and cap: "0 < rs_max_kept s"
  shows "getRun (addRunLocked i r s) i = Some r"
proof -
  have len: "length (rs_order s) \<le> nat (rs_max_kept s)" using wf cap by (simp add: store_wf_def le_nat_iff)
  have d: "distinct (map fst (AList.update i r (rs_by_id s)))" using wf by (simp add: store_wf_def distinct_update)
  have zero: "overflow i s = 0" if "map_of (rs_by_id s) i \<noteq> None"
    using that len by (auto simp: overflow_def appended_def)
  have "overflow i s \<le> length (rs_order s)" using cap by (auto simp: overflow_def appended_def)
  then have "i \<in> set (drop (overflow i s) (appended i s))"
    using zero appended_distinct(2) [OF wf, of i] by (cases "map_of (rs_by_id s) i") (auto simp: appended_def)
  then show ?thesis
    using keep_lookup [OF d] addRunLocked_window(2) [OF wf, of i r] by (simp add: getRun_def update_conv')
qed

text \<open>
  The run window is bounded and keeps the newest runs. Recording a run keeps the window
  well formed: no id twice, exactly the ids of the order have a record, and at most the cap of
  them. With a positive cap the run just recorded is found under its id, every other run is
  found unchanged unless it was evicted, and the ids evicted are the oldest ones. The all-time
  count and impact grow by this run exactly when its id was not in the window.
\<close>

theorem run_window:
  assumes wf: "store_wf s" and cap: "0 < rs_max_kept s"
  shows "store_wf (addRunLocked i r s) \<and> int (length (rs_order (addRunLocked i r s))) \<le> rs_max_kept s \<and>
    getRun (addRunLocked i r s) i = Some r \<and>
    (\<forall>j. j \<noteq> i \<longrightarrow> getRun (addRunLocked i r s) j =
       (if j \<in> set (drop (overflow i s) (rs_order s)) then getRun s j else None)) \<and>
    overflow i s \<le> 1 \<and>
    rs_total (addRunLocked i r s) = (if getRun s i = None then wrap64 (rs_total s + 1) else rs_total s) \<and>
    rs_impact (addRunLocked i r s) = (if getRun s i = None \<and> rr_kind r \<noteq> ''materialize''
       then add_impact r (rs_impact s) else rs_impact s)"
proof -
  note w = addRunLocked_window [OF wf, of i r] and a = appended_distinct [OF wf, of i]
  have wf': "store_wf (addRunLocked i r s)" by (rule store_wf_add [OF wf])
  have len: "length (rs_order s) \<le> nat (rs_max_kept s)" using wf cap by (simp add: store_wf_def le_nat_iff)
  have new: "map_of (rs_by_id s) j = None \<longleftrightarrow> j \<notin> set (rs_order s)" for j
    using wf by (simp add: store_wf_def map_of_eq_None_iff)
  have d: "distinct (map fst (AList.update i r (rs_by_id s)))" using wf by (simp add: store_wf_def distinct_update)
  have ov: "overflow i s \<le> 1" using len cap by (auto simp: overflow_def appended_def)
  have self: "getRun (addRunLocked i r s) i = Some r" by (rule getRun_added [OF wf cap])
  have other: "getRun (addRunLocked i r s) j = (if j \<in> set (drop (overflow i s) (rs_order s)) then getRun s j else None)"
    if "j \<noteq> i" for j
  proof -
    have "j \<in> set (drop (overflow i s) (appended i s)) \<longleftrightarrow> j \<in> set (drop (overflow i s) (rs_order s))"
      using that by (auto simp: appended_def drop_append dest: in_set_dropD split: if_splits)
    with that show ?thesis using keep_lookup [OF d] w(2) by (simp add: getRun_def update_conv')
  qed
  have "int (length (rs_order (addRunLocked i r s))) \<le> rs_max_kept s" using wf' cap w(3) by (simp add: store_wf_def)
  with wf' self other ov w(5,6) show ?thesis by (simp add: getRun_def)
qed

definition example_run :: run_record where
  "example_run = \<lparr>rr_kind = ''proxy'', rr_task_id = ''t'', rr_source_id = [], rr_substrate = ''wasm'', rr_engine = ''sql'',
     rr_latency_ms = 7, rr_input_bytes = 10, rr_output_bytes = 4, rr_raw_bytes = 10, rr_parked_bytes = 6,
     rr_minimized_bytes = 0, rr_context_measured = True, rr_full_schema = 0, rr_schema_digest = 0, rr_summarized = 0,
     rr_omitted = 0, rr_exact_schema = False, rr_fused = False, rr_transform_input = 0, rr_transform_output = 0,
     rr_transform_latency = 0, rr_reffed = True, rr_ref = ''ref_1'', rr_bytes = 10, rr_protected = 2,
     rr_timestamp = 5, rr_other = []\<rparr>"

lemma new_store_wf: "store_wf (new_store kept)"
  by (simp add: store_wf_def new_store_def)

theorem run_window_witness:
  "getRun (addRunLocked ''run_2'' example_run (addRunLocked ''run_1'' example_run (new_store 1))) ''run_1'' = None"
proof -
  let ?s = "addRunLocked ''run_1'' example_run (new_store 1)"
  have s: "store_wf ?s" by (intro inv_intros new_store_wf)
  have "0 < rs_max_kept ?s" "\<not> ''run_1'' \<in> set (drop (overflow ''run_2'' ?s) (rs_order ?s))" by code_simp+
  with run_window [OF s, of "''run_2''" example_run] show ?thesis by auto
qed

section \<open>Metrics\<close>

text \<open>
  The reported median is the upper median: of a non-empty sample it is a member that at
  most half of the sample lies below and less than half lies above; of an empty one it is 0.
\<close>

theorem median_correct:
  "median [] = 0 \<and>
   (v = [] \<or> median v \<in> set v \<and> 2 * length (filter (\<lambda>x. x < median v) v) \<le> length v \<and>
     2 * length (filter (\<lambda>x. median v < x) v) < length v)"
proof (cases "v = []")
  case False
  let ?s = "sort v" and ?k = "length v div 2"
  have k: "?k < length ?s" using False by simp
  have m: "median v = ?s ! ?k" using False by (simp add: median_def)
  have cnt: "length (filter P v) = length (filter P ?s)" for P
    by (metis filter_sort length_sort)
  have split: "?s = take ?k ?s @ ?s ! ?k # drop (Suc ?k) ?s" using k by (simp add: id_take_nth_drop)
  have le: "\<forall>x \<in> set (take ?k ?s). x \<le> ?s ! ?k" "\<forall>x \<in> set (drop (Suc ?k) ?s). ?s ! ?k \<le> x"
    using sorted_append [of "take ?k ?s" "?s ! ?k # drop (Suc ?k) ?s"] split sorted_sort [of v] by (metis list.set_intros(1) sorted_wrt.simps(2) sorted_simps(2))+
  have "filter (\<lambda>x. x < ?s ! ?k) ?s = filter (\<lambda>x. x < ?s ! ?k) (take ?k ?s)"
    by (subst split) (use le(2) in \<open>auto simp: filter_empty_conv\<close>)
  then have "length (filter (\<lambda>x. x < ?s ! ?k) ?s) \<le> ?k" using length_filter_le [of _ "take ?k ?s"] k by simp
  moreover have "filter (\<lambda>x. ?s ! ?k < x) ?s = filter (\<lambda>x. ?s ! ?k < x) (drop (Suc ?k) ?s)"
    by (subst split) (use le(1) in \<open>auto simp: filter_empty_conv\<close>)
  then have "length (filter (\<lambda>x. ?s ! ?k < x) ?s) \<le> length v - Suc ?k"
    using length_filter_le [of _ "drop (Suc ?k) ?s"] by simp
  moreover have "?s ! ?k \<in> set v" using k by (metis nth_mem set_sort)
  ultimately show ?thesis using k unfolding m cnt by (simp add: median_def) linarith
qed (simp add: median_def)

end
