(* ===== verification/Audit_Integrity.thy ===== *)
theory Audit_Integrity
  imports Audit_Log Run_Window
begin

text \<open>
  What the audit log proves. A log that verifies and whose last line is signed is a prefix of
  what the key signed; the log the server writes always verifies, across restarts, and never
  falls short of its anchor; a truncated log does. The replay at a start rebuilds the run store
  and never hands out a run id twice. A log without any signature verifies too, whoever wrote it.
\<close>

section \<open>Linked lines\<close>

definition body :: "audit_lib \<Rightarrow> audit_line \<Rightarrow> string" where
  "body L l = au_body L (al_run_id l) (al_rec l)"

definition sig_passes :: "(string \<Rightarrow> string \<Rightarrow> bool) option \<Rightarrow> audit_line \<Rightarrow> bool" where
  "sig_passes verify l \<longleftrightarrow> (case verify of None \<Rightarrow> True | Some f \<Rightarrow> audit_sig_ok f (al_hash l) (al_sig l))"

fun audit_linked ::
    "audit_lib \<Rightarrow> (string \<Rightarrow> string \<Rightarrow> bool) option \<Rightarrow> string \<Rightarrow> bool \<Rightarrow> audit_line list \<Rightarrow> bool" where
  "audit_linked L verify prev seen [] = True"
| "audit_linked L verify prev seen (l # ls) =
     (al_run_id l \<noteq> [] \<and> al_hash l \<noteq> [] \<and> al_prev l = prev \<and>
      al_hash l = chainHash L prev (al_run_id l) (al_rec l) \<and>
      (if al_sig l = [] then \<not> seen else sig_passes verify l) \<and>
      audit_linked L verify (al_hash l) (al_sig l \<noteq> []) ls)"

lemma audit_linked_append:
  "audit_linked L verify prev seen (ls @ ms) \<longleftrightarrow> audit_linked L verify prev seen ls \<and>
     audit_linked L verify (if ls = [] then prev else al_hash (last ls)) (if ls = [] then seen else al_sig (last ls) \<noteq> []) ms"
  by (induction ls arbitrary: prev seen) auto

definition plain :: "audit_line \<Rightarrow> bool" where
  "plain l \<longleftrightarrow> al_run_id l \<noteq> [] \<and> al_hash l = []"

interpretation au: chained_log "au_sha256 L" al_hash "body L" "\<lambda>prev ls. \<exists>verify seen. audit_linked L verify prev seen ls"
  for L
  by unfold_locales (auto simp: chainHash_def body_def, blast)

lemma walk_failed: "\<not> av_intact (av_fail d v)"
  by (simp add: av_fail_def)

text \<open>The walk accepts plain lines followed by linked ones, and counts them.\<close>

lemma walk_linked:
  "av_intact (verify_walk L verify prev True seen v xs) \<longleftrightarrow>
     av_intact v \<and> (\<exists>ls. xs = map Some ls \<and> audit_linked L verify prev seen ls)"
proof (induction xs arbitrary: prev seen v)
  case (Cons x xs)
  show ?case
  proof (cases x)
    case None
    then show ?thesis by (auto simp: walk_failed Let_def Cons_eq_map_conv)
  next
    case (Some l)
    have ex: "(\<exists>ls. Some l # xs = map Some ls \<and> P ls) \<longleftrightarrow> (\<exists>ls. xs = map Some ls \<and> P (l # ls))" for P
      by (auto simp: Cons_eq_map_conv)
    show ?thesis unfolding Some ex
      by (auto simp: walk_failed Let_def Cons.IH sig_passes_def split: option.splits)
  qed
qed simp

lemma walk_counts:
  "audit_linked L verify prev seen ls \<Longrightarrow>
   av_chained (verify_walk L verify prev sc seen v (map Some ls)) = av_chained v + int (length ls) \<and>
   av_lines (verify_walk L verify prev sc seen v (map Some ls)) = av_lines v + int (length ls) \<and>
   av_anchored (verify_walk L verify prev sc seen v (map Some ls)) = av_anchored v \<and>
   av_intact (verify_walk L verify prev sc seen v (map Some ls)) = av_intact v"
proof (induction ls arbitrary: prev sc seen v)
  case (Cons l ls)
  show ?case
  proof (cases "al_sig l = []")
    case True
    with Cons.prems Cons.IH [of "al_hash l" False] show ?thesis by (auto simp: Let_def)
  next
    case False
    with Cons.prems Cons.IH [of "al_hash l" True] show ?thesis
      by (auto simp: Let_def sig_passes_def split: option.splits)
  qed
qed simp

lemma walk_legacy:
  "av_intact (verify_walk L verify [] False False v xs) \<Longrightarrow>
   \<exists>leg ls. xs = map Some (leg @ ls) \<and> list_all plain leg \<and> audit_linked L verify [] False ls"
proof (induction xs arbitrary: v)
  case (Cons x xs)
  then obtain l where x: "x = Some l" "al_run_id l \<noteq> []"
    by (cases x) (auto simp: walk_failed Let_def split: if_splits)
  show ?case
  proof (cases "al_hash l = []")
    case True
    with Cons.prems x have "av_intact (verify_walk L verify [] False False (v\<lparr>av_lines := av_lines v + 1\<rparr>) xs)"
      by (simp add: Let_def)
    from Cons.IH [OF this] obtain leg ls where "xs = map Some (leg @ ls)" "list_all plain leg" "audit_linked L verify [] False ls"
      by blast
    with x True have "x # xs = map Some ((l # leg) @ ls) \<and> list_all plain (l # leg) \<and> audit_linked L verify [] False ls"
      by (simp add: plain_def)
    then have "\<exists>ls. x # xs = map Some ((l # leg) @ ls) \<and> list_all plain (l # leg) \<and> audit_linked L verify [] False ls" ..
    then show ?thesis ..
  next
    case False
    with Cons.prems x obtain ls where "x # xs = map Some ls" "audit_linked L verify [] False ls"
      by (auto simp: Let_def walk_failed walk_linked sig_passes_def Cons_eq_map_conv split: if_splits option.splits)
    then have "x # xs = map Some ([] @ ls) \<and> list_all plain [] \<and> audit_linked L verify [] False ls" by simp
    then have "\<exists>ls. x # xs = map Some ([] @ ls) \<and> list_all plain [] \<and> audit_linked L verify [] False ls" ..
    then show ?thesis ..
  qed
qed simp

section \<open>Signed logs\<close>

text \<open>
  What the audit key signs: the hash of a line of this log, for the pairs \<open>S\<close> of a
  predecessor hash and an encoded record (also when the write of the line then failed); the hash of a
  line of the decision ledger, for the pairs \<open>D\<close>; anchors of this log; and anchors of the
  ledger, which are JSON objects.
\<close>

definition audit_key_signs :: "audit_lib \<Rightarrow> (string \<times> string) set \<Rightarrow> (string \<times> string) set \<Rightarrow> string \<Rightarrow> bool" where
  "audit_key_signs L S D m \<longleftrightarrow> (\<exists>(p, b) \<in> S \<union> D. m = link_hash (au_sha256 L) p b) \<or>
     (\<exists>a. m = signingInput a) \<or> (\<exists>j. m = ''{'' @ j)"

text \<open>A preimage of the log and another one of what was signed that have the same digest.\<close>

definition collides_with :: "(string \<Rightarrow> string) \<Rightarrow> string list \<Rightarrow> (string \<times> string) set \<Rightarrow> bool" where
  "collides_with sha bs T \<longleftrightarrow>
     (\<exists>x \<in> set (preimages sha [] bs). \<exists>(p, b) \<in> T. x \<noteq> preimage p b \<and> sha x = sha (preimage p b))"

lemma preimage_last_inject:
  assumes "preimage p b = preimage q c" and "CHR 0x00 \<notin> set b" and "CHR 0x00 \<notin> set c"
  shows "p = q \<and> b = c"
proof -
  have "rev b @ CHR 0x00 # rev p = rev c @ CHR 0x00 # rev q"
    using arg_cong [where f = rev, OF assms(1)] by (simp add: preimage_def)
  from sep_unique [OF this] assms(2,3) show ?thesis by simp
qed

lemma linked_hash: "audit_linked L verify prev seen ls \<Longrightarrow> l \<in> set ls \<Longrightarrow> CHR 0x00 \<notin> set (al_hash l) \<and>
    (al_sig l \<noteq> [] \<longrightarrow> sig_passes verify l)"
  by (induction ls arbitrary: prev seen) (auto simp: chainHash_def link_hash_no_nul)

lemma hex_brace: "hex_encode x \<noteq> CHR ''{'' # j"
proof
  assume "hex_encode x = CHR ''{'' # j"
  then have "CHR ''{'' \<in> set (hex_encode x)" by simp
  then show False using hex_encode_set by fastforce
qed

lemma linked_preimage:
  assumes "audit_linked L verify prev seen ls" and "l \<in> set ls"
  shows "preimage (al_prev l) (body L l) \<in> set (preimages (au_sha256 L) prev (map (body L) ls)) \<and>
    al_hash l = link_hash (au_sha256 L) (al_prev l) (body L l)"
  using assms by (induction ls arbitrary: prev seen) (auto simp: chainHash_def body_def)

text \<open>A signed line of an accepted log is one the key signed, or it exhibits a collision.\<close>

lemma signed_line:
  assumes unforgeable: "\<And>m b. au_verify L m b \<Longrightarrow> audit_key_signs L S D m"
    and json: "\<And>i r. CHR 0x00 \<notin> set (au_body L i r)" "\<And>p b. (p, b) \<in> S \<union> D \<Longrightarrow> CHR 0x00 \<notin> set b"
    and other: "\<And>p b i r. (p, b) \<in> D \<Longrightarrow> b \<noteq> au_body L i r"
    and linked: "audit_linked L (Some (au_verify L)) [] False ls" and l: "l \<in> set ls" "al_sig l \<noteq> []"
  shows "(al_prev l, body L l) \<in> S \<or> collides_with (au_sha256 L) (map (body L) ls) (S \<union> D)"
proof -
  let ?x = "preimage (al_prev l) (body L l)"
  note x = linked_preimage [OF linked l(1)]
  from linked_hash [OF linked l(1)] l(2) obtain b where "au_verify L (al_hash l) b"
    by (auto simp: sig_passes_def audit_sig_ok_def split: option.splits)
  from unforgeable [OF this] linked_hash [OF linked l(1)] x hex_brace
  obtain p c where pc: "(p, c) \<in> S \<union> D" "au_sha256 L ?x = au_sha256 L (preimage p c)"
    by (auto simp: audit_key_signs_def signingInput_def link_hash_def hex_encode_inj)
  show ?thesis
  proof (cases "?x = preimage p c")
    case True
    with preimage_last_inject [OF True] json pc(1) have "(al_prev l, body L l) = (p, c)" by (simp add: body_def)
    with pc(1) other show ?thesis by (auto simp: body_def)
  next
    case False
    with x pc show ?thesis unfolding collides_with_def by blast
  qed
qed

text \<open>
  C22. A signed audit log cannot be rewritten without the key. The key also signs the lines and
  anchors of the decision ledger; suppose that only what it signed verifies (\<open>audit_key_signs\<close>), that
  encoded records have no NUL byte, that no ledger entry is the encoding of an audit record, and that the
  digest is not empty. If a log verifies as intact and its last line carries a signature, then it
  consists of plain lines from before the chain and of chained lines, of which each signed one was
  signed by the server as the successor of the very predecessor it has in the log, and the
  records before the last line are those of every record sequence with that predecessor as its head; or
  preimages of the log and of what was signed, or of such a sequence, collide under SHA-256. Editing, inserting, reordering or
  deleting before a signed line is all excluded. Unsigned lines before the first signed one are
  covered by the last conjunct only, and a log without signatures is not covered at all.
\<close>

theorem signed_audit_log_is_history:
  assumes unforgeable: "\<And>m b. au_verify L m b \<Longrightarrow> audit_key_signs L S D m"
    and json: "\<And>i r. CHR 0x00 \<notin> set (au_body L i r)" "\<And>p b. (p, b) \<in> S \<union> D \<Longrightarrow> CHR 0x00 \<notin> set b"
    and other: "\<And>p b i r. (p, b) \<in> D \<Longrightarrow> b \<noteq> au_body L i r"
    and digest: "\<forall>x. au_sha256 L x \<noteq> []"
    and intact: "av_intact (fst (VerifyAuditLog L (AuditLines xs scan) (Some (au_verify L))))"
    and signed: "xs \<noteq> []" "last xs = Some z" "al_sig z \<noteq> []" "al_hash z \<noteq> []"
  shows "\<exists>leg ls. xs = map Some (leg @ ls @ [z]) \<and> list_all plain leg \<and>
    (\<forall>l \<in> set (ls @ [z]). al_sig l \<noteq> [] \<longrightarrow>
       (al_prev l, body L l) \<in> S \<or> collides_with (au_sha256 L) (map (body L) (ls @ [z])) (S \<union> D)) \<and>
    (\<forall>c. head_of (au_sha256 L) [] c = al_prev z \<longrightarrow>
       map (body L) ls = c \<or> collision (au_sha256 L) (map (body L) ls) c)"
proof -
  from intact have "av_intact (verify_walk L (Some (au_verify L)) [] False False av_start xs)"
    by (simp add: VerifyAuditLog_def Let_def)
  from walk_legacy [OF this] obtain leg ms where split: "xs = map Some (leg @ ms)" "list_all plain leg"
    and linked: "audit_linked L (Some (au_verify L)) [] False ms" by blast
  from signed split have "ms \<noteq> []" "last ms = z"
    by (auto simp: list_all_iff plain_def last_map last_append split: if_splits)
  then obtain ls where ms: "ms = ls @ [z]" by (metis append_butlast_last_id)
  have prev: "al_prev z = head_of (au_sha256 L) [] (map (body L) ls)"
    using linked unfolding ms audit_linked_append
    using au.accepted_head [of L "[]" ls] by (auto split: if_splits)
  have "map (body L) ls = c \<or> collision (au_sha256 L) (map (body L) ls) c"
    if "head_of (au_sha256 L) [] c = al_prev z" for c
    using head_inject [OF digest, of "map (body L) ls" c] that prev by simp
  moreover have "(al_prev l, body L l) \<in> S \<or> collides_with (au_sha256 L) (map (body L) (ls @ [z])) (S \<union> D)"
    if "l \<in> set (ls @ [z])" "al_sig l \<noteq> []" for l
    by (rule signed_line [OF unforgeable json other linked [unfolded ms] that])
  ultimately show ?thesis using split ms by blast
qed

section \<open>Unsigned logs\<close>

text \<open>A chain anyone can compute: the records of one's choice, linked and not signed.\<close>

fun unsigned_chain :: "audit_lib \<Rightarrow> string \<Rightarrow> (string \<times> run_record) list \<Rightarrow> audit_line list" where
  "unsigned_chain L prev [] = []"
| "unsigned_chain L prev ((i, r) # rs) =
     (let h = chainHash L prev i r
      in \<lparr>al_run_id = i, al_rec = r, al_prev = prev, al_hash = h, al_sig = []\<rparr> # unsigned_chain L h rs)"

lemma unsigned_chain_linked:
  "\<forall>x. au_sha256 L x \<noteq> [] \<Longrightarrow> \<forall>(i, r) \<in> set rs. i \<noteq> [] \<Longrightarrow> audit_linked L verify prev False (unsigned_chain L prev rs)"
  by (induction L prev rs rule: unsigned_chain.induct) (auto simp: Let_def chainHash_def link_hash_neq_Nil)

lemma length_unsigned_chain: "length (unsigned_chain L prev rs) = length rs"
  by (induction L prev rs rule: unsigned_chain.induct) (simp_all add: Let_def)

text \<open>
  C24. An audit log rewritten without the key verifies. For any records of an attacker's choice,
  the file of their unsigned chain is reported intact under every verification key, and
  anchored against every signed anchor that does not count more lines; the head in the anchor
  is never compared.
\<close>

theorem unsigned_rewrite_verifies:
  assumes "\<forall>x. au_sha256 L x \<noteq> []" and "\<forall>(i, r) \<in> set rs. i \<noteq> []"
    and "loadAuditAnchor L s stored = Some a" and "aa_chained a \<le> int (length rs)"
  shows "\<exists>v. VerifyAudit L s (AuditLines (map Some (unsigned_chain L [] rs)) False) stored = (v, False) \<and>
    av_intact v \<and> av_anchored v \<and> av_chained v = int (length rs)"
proof -
  let ?xs = "map Some (unsigned_chain L [] rs)"
  have "audit_linked L (auditVerify L s) [] False (unsigned_chain L [] rs)"
    by (rule unsigned_chain_linked [OF assms(1,2)])
  from walk_counts [OF this, of False av_start] have
    "av_chained (verify_walk L (auditVerify L s) [] False False av_start ?xs) = int (length rs)"
    "av_intact (verify_walk L (auditVerify L s) [] False False av_start ?xs)"
    by (simp_all add: av_start_def length_unsigned_chain)
  with assms(3,4) show ?thesis by (simp add: VerifyAudit_def VerifyAuditLog_def Let_def)
qed

section \<open>The log the server writes\<close>

text \<open>
  Operations of a server with a fixed configuration: recording a run, with a working signer
  (\<open>sign\<close>) and a disk that writes a whole line or nothing, and a restart.
\<close>

datatype audit_op = Put string run_record time bool bool | Reload

definition signed_io ::
    "audit_lib \<Rightarrow> (string \<Rightarrow> string) \<Rightarrow> audit_log \<Rightarrow> string \<Rightarrow> run_record \<Rightarrow> bool \<Rightarrow> bool \<Rightarrow> audit_io" where
  "signed_io L sign s i r opens saved =
     (let h = chainHash L (ad_hash s) i r
      in \<lparr>ai_write = (if opens then AuditWritten else AuditOpenFailed), ai_sig = Some (sign h), ai_marshal = True,
          ai_anchor_sig = Some (sign (signingInput \<lparr>aa_chained = ad_chained s + 1, aa_head = h, aa_sig = []\<rparr>)),
          ai_saved = saved\<rparr>)"

definition read_audit :: "audit_line log_file \<Rightarrow> audit_line option list option" where
  "read_audit f = (if lf_exists f then Some (map read_line (lf_lines f)) else None)"

definition started :: "audit_log \<Rightarrow> audit_log" where
  "started s = s\<lparr>ad_hash := [], ad_chained := 0, ad_anchored_at := 0, ad_runs := new_store (rs_max_kept (ad_runs s))\<rparr>"

fun audit_step :: "audit_lib \<Rightarrow> (string \<Rightarrow> string) \<Rightarrow> audit_log \<times> audit_world \<Rightarrow> audit_op \<Rightarrow> audit_log \<times> audit_world" where
  "audit_step L sign (s, w) (Put i r now opens saved) =
     putRun L s w i r now (signed_io L sign s i (stamp_run now r) opens saved)"
| "audit_step L sign (s, w) Reload = (loadAudit (started s) (read_audit (aw_file w)), w)"

definition audit_inv :: "audit_lib \<Rightarrow> audit_log \<times> audit_world \<Rightarrow> bool" where
  "audit_inv L y \<longleftrightarrow> (case y of (s, w) \<Rightarrow> auditPath s \<noteq> [] \<and> \<not> lf_torn (aw_file w) \<and>
     (\<exists>ls. lf_lines (aw_file w) = map Line ls \<and> (ls \<noteq> [] \<longrightarrow> lf_exists (aw_file w)) \<and>
        audit_linked L (auditVerify L s) [] False ls \<and> (\<forall>l \<in> set ls. (al_sig l \<noteq> []) = ad_signer s) \<and>
        ad_hash s = (if ls = [] then [] else al_hash (last ls)) \<and> ad_chained s = int (length ls) \<and>
        (\<forall>a. aw_anchor w = Some a \<longrightarrow> aa_chained a \<le> int (length ls))))"

definition signer_works :: "audit_lib \<Rightarrow> (string \<Rightarrow> string) \<Rightarrow> bool" where
  "signer_works L sign \<longleftrightarrow> (\<forall>m. sign m \<noteq> [] \<and> au_verify L m (sign m)) \<and> (\<forall>x. au_sha256 L x \<noteq> [])"

lemma audit_invI:
  assumes "ad_state_dir s' = ad_state_dir s" and "ad_signer s' = ad_signer s" and "auditPath s \<noteq> []"
    and "aw_file w = \<lparr>lf_exists = True, lf_lines = map Line ls, lf_torn = False\<rparr>" and "ls \<noteq> []"
    and "audit_linked L (auditVerify L s) [] False ls" and "\<forall>x \<in> set ls. (al_sig x \<noteq> []) = ad_signer s"
    and "ad_hash s' = al_hash (last ls)" and "ad_chained s' = int (length ls)"
    and "\<forall>a. aw_anchor w = Some a \<longrightarrow> aa_chained a \<le> int (length ls)"
  shows "audit_inv L (s', w)"
proof -
  have "auditPath s' = auditPath s" "auditVerify L s' = auditVerify L s"
    using assms(1,2) by (simp_all add: auditPath_def auditVerify_def)
  with assms show ?thesis unfolding audit_inv_def by auto
qed

lemma saveAuditAnchor_chained:
  "saveAuditAnchor s a old io = Some b \<Longrightarrow> old = Some b \<or> aa_chained b = aa_chained a"
  by (auto simp: saveAuditAnchor_def Let_def split: if_splits option.splits)

lemma hex_encode_neq_Nil: "x \<noteq> [] \<Longrightarrow> hex_encode x \<noteq> []"
  by (metis hex_encode_length length_0_conv mult_eq_0_iff zero_neq_numeral)

lemma write_inv:
  assumes inv: "audit_inv L (s, w)" and works: "signer_works L sign" and i: "i \<noteq> []"
  shows "audit_inv L (appendAudit L s w i r (signed_io L sign s i r opens saved))"
proof -
  from inv obtain ls where ls: "auditPath s \<noteq> []" "\<not> lf_torn (aw_file w)" "lf_lines (aw_file w) = map Line ls"
      "ls \<noteq> [] \<longrightarrow> lf_exists (aw_file w)"
    and linked: "audit_linked L (auditVerify L s) [] False ls" and signed: "\<forall>l \<in> set ls. (al_sig l \<noteq> []) = ad_signer s"
    and st: "ad_hash s = (if ls = [] then [] else al_hash (last ls))" "ad_chained s = int (length ls)"
      "\<forall>a. aw_anchor w = Some a \<longrightarrow> aa_chained a \<le> int (length ls)"
    unfolding audit_inv_def by auto
  define l where "l = \<lparr>al_run_id = i, al_rec = r, al_prev = ad_hash s, al_hash = chainHash L (ad_hash s) i r,
    al_sig = (if ad_signer s then hex_encode (sign (chainHash L (ad_hash s) i r)) else [])\<rparr>"
  have sig: "al_sig l = [] \<longleftrightarrow> \<not> ad_signer s" "sig_passes (auditVerify L s) l"
    using works hex_encode_neq_Nil
    by (auto simp: l_def signer_works_def sig_passes_def auditVerify_def audit_sig_ok_def)
  have h: "al_hash l \<noteq> []" using works link_hash_neq_Nil by (auto simp: l_def signer_works_def chainHash_def)
  have "\<not> (if ls = [] then False else al_sig (last ls) \<noteq> [])" if "\<not> ad_signer s"
    using signed that by auto
  with sig h i st(1) have one: "audit_linked L (auditVerify L s) (if ls = [] then [] else al_hash (last ls))
      (if ls = [] then False else al_sig (last ls) \<noteq> []) [l]"
    by (auto simp: l_def)
  have linked': "audit_linked L (auditVerify L s) [] False (ls @ [l])"
    unfolding audit_linked_append using linked one by blast
  have signed': "\<forall>x \<in> set (ls @ [l]). (al_sig x \<noteq> []) = ad_signer s" using signed sig by auto
  show ?thesis
  proof (cases opens)
    case False
    with ls(1) inv show ?thesis by (simp add: appendAudit_def writeAuditLine_def signed_io_def Let_def)
  next
    case True
    then have f: "glue (aw_file w) (Line l) False = \<lparr>lf_exists = True, lf_lines = map Line (ls @ [l]), lf_torn = False\<rparr>"
      using ls(2,3) by (simp add: glue_def)
    let ?io = "signed_io L sign s i r opens saved"
    let ?s1 = "s\<lparr>ad_hash := al_hash l, ad_chained := ad_chained s + 1\<rparr>"
      and ?a = "\<lparr>aa_chained = ad_chained s + 1, aa_head = al_hash l, aa_sig = []\<rparr>"
    have wr: "writeAuditLine L s (aw_file w) i r ?io =
        (if ad_secrets s \<and> ad_chained s + 1 - ad_anchored_at s \<ge> auditAnchorEvery
         then (?s1\<lparr>ad_anchored_at := ad_chained s + 1\<rparr>, glue (aw_file w) (Line l) False, Some ?a)
         else (?s1, glue (aw_file w) (Line l) False, None))"
      using True by (simp add: writeAuditLine_def signed_io_def Let_def l_def)
    have anchors: "aa_chained b \<le> int (length (ls @ [l]))"
      if "saveAuditAnchor s2 ?a (aw_anchor w) ?io = Some b \<or> aw_anchor w = Some b" for b s2
      using that saveAuditAnchor_chained [of s2 ?a "aw_anchor w" ?io b] st(2,3) by fastforce
    have "audit_inv L (?s1\<lparr>ad_anchored_at := ad_chained s + 1\<rparr>, w\<lparr>aw_file := glue (aw_file w) (Line l) False,
        aw_anchor := saveAuditAnchor s2 ?a (aw_anchor w) ?io\<rparr>)" for s2
      by (rule audit_invI [OF _ _ ls(1) _ _ linked' signed']) (use f st(2) anchors in auto)
    moreover have "audit_inv L (?s1, w\<lparr>aw_file := glue (aw_file w) (Line l) False\<rparr>)"
      by (rule audit_invI [OF _ _ ls(1) _ _ linked' signed']) (use f st(2) anchors in auto)
    ultimately show ?thesis using ls(1) by (simp add: appendAudit_def wr)
  qed
qed

lemma replay_lines:
  assumes "\<forall>l \<in> set ls. al_run_id l \<noteq> [] \<and> al_hash l \<noteq> []"
  shows "replay (rs, h, c, m) (map Some ls) =
    (foldl (\<lambda>rs l. addRunLocked (al_run_id l) (al_rec l) rs) rs ls, if ls = [] then h else al_hash (last ls),
     c + int (length ls), foldl (\<lambda>m l. max m (runSeq (al_run_id l))) m ls)"
  using assms by (induction ls arbitrary: rs h c m) auto

lemma linked_ids: "audit_linked L verify prev seen ls \<Longrightarrow> \<forall>l \<in> set ls. al_run_id l \<noteq> [] \<and> al_hash l \<noteq> []"
  by (induction ls arbitrary: prev seen) auto

lemma started_simps [simp]:
  "auditPath (started s) = auditPath s" "auditVerify L (started s) = auditVerify L s"
  "ad_signer (started s) = ad_signer s" "ad_secrets (started s) = ad_secrets s"
  by (simp_all add: started_def auditPath_def auditVerify_def)

lemma reload_inv:
  assumes "audit_inv L (s, w)"
  shows "audit_inv L (loadAudit (started s) (read_audit (aw_file w)), w)"
proof -
  from assms obtain ls where ls: "auditPath s \<noteq> []" "\<not> lf_torn (aw_file w)" "lf_lines (aw_file w) = map Line ls"
      "ls \<noteq> [] \<longrightarrow> lf_exists (aw_file w)"
    and linked: "audit_linked L (auditVerify L s) [] False ls" and signed: "\<forall>l \<in> set ls. (al_sig l \<noteq> []) = ad_signer s"
    and a: "\<forall>a. aw_anchor w = Some a \<longrightarrow> aa_chained a \<le> int (length ls)"
    unfolding audit_inv_def by auto
  let ?s = "loadAudit (started s) (read_audit (aw_file w))"
  have conf: "ad_state_dir ?s = ad_state_dir s" "ad_signer ?s = ad_signer s"
    by (simp_all add: loadAudit_def started_def split: option.splits prod.splits)
  have "ad_hash ?s = (if ls = [] then [] else al_hash (last ls)) \<and> ad_chained ?s = int (length ls)"
    using ls(1,4) replay_lines [OF linked_ids [OF linked]]
    by (simp add: loadAudit_def read_audit_def ls(3)) (simp add: started_def)
  moreover have "auditPath ?s = auditPath s \<and> auditVerify L ?s = auditVerify L s"
    using conf by (simp add: auditPath_def auditVerify_def)
  moreover note conf(2)
  ultimately show ?thesis using ls linked signed a unfolding audit_inv_def by auto
qed

fun named_op :: "audit_op \<Rightarrow> bool" where
  "named_op (Put i r now opens saved) = (i \<noteq> [])"
| "named_op Reload = True"

lemma audit_inv_runs: "audit_inv L (s\<lparr>ad_runs := x\<rparr>, w) = audit_inv L (s, w)"
  by (simp add: audit_inv_def auditPath_def auditVerify_def)

lemma put_inv:
  assumes "audit_inv L (s, w)" and "signer_works L sign" and "i \<noteq> []"
  shows "audit_inv L (putRun L s w i r now (signed_io L sign s i (stamp_run now r) opens saved))"
proof -
  let ?s = "s\<lparr>ad_runs := addRunLocked i (stamp_run now r) (ad_runs s)\<rparr>"
  have "signed_io L sign s = signed_io L sign ?s" by (simp add: signed_io_def fun_eq_iff)
  with write_inv [of L ?s w sign i] assms show ?thesis
    by (simp add: putRun_def Let_def audit_inv_runs)
qed

interpretation alog: stepper "audit_step L sign" named_op "\<lambda>y. signer_works L sign \<and> audit_inv L y"
  for L sign
proof
  fix y x
  assume "signer_works L sign \<and> audit_inv L y" and "named_op x"
  then show "signer_works L sign \<and> audit_inv L (audit_step L sign y x)"
    using put_inv reload_inv by (cases y; cases x) simp_all
qed

definition new_audit :: "string \<Rightarrow> bool \<Rightarrow> bool \<Rightarrow> int \<Rightarrow> audit_log \<times> audit_world" where
  "new_audit dir signer secrets kept =
     (\<lparr>ad_state_dir = dir, ad_signer = signer, ad_secrets = secrets, ad_hash = [], ad_chained = 0,
       ad_anchored_at = 0, ad_runs = new_store kept\<rparr>,
      \<lparr>aw_file = \<lparr>lf_exists = False, lf_lines = [], lf_torn = False\<rparr>, aw_anchor = None\<rparr>)"

lemma new_audit_inv: "dir \<noteq> [] \<Longrightarrow> audit_inv L (new_audit dir signer secrets kept)"
  by (simp add: audit_inv_def new_audit_def auditPath_def path_clean_def Let_def)


section \<open>Restarting\<close>

text \<open>A server whose every line is written: the run store is the replay of the file, but for its counter.\<close>

fun recorded_op :: "audit_op \<Rightarrow> bool" where
  "recorded_op (Put i r now opens saved) = (i \<noteq> [] \<and> opens)"
| "recorded_op Reload = True"

fun op_ids :: "audit_op \<Rightarrow> string list" where
  "op_ids (Put i r now opens saved) = [i]"
| "op_ids Reload = []"

abbreviation add_line :: "run_store \<Rightarrow> audit_line \<Rightarrow> run_store" where
  "add_line rs l \<equiv> addRunLocked (al_run_id l) (al_rec l) rs"

lemma replay_wf: "store_wf s \<Longrightarrow> store_wf (foldl add_line s ls)"
  by (induction ls arbitrary: s) (simp_all add: store_wf_add)

lemma replay_max_kept: "store_wf s \<Longrightarrow> rs_max_kept (foldl add_line s ls) = rs_max_kept s"
  by (induction ls arbitrary: s) (simp_all add: store_wf_add addRunLocked_window(3))

definition replay_inv :: "int \<Rightarrow> string list \<Rightarrow> audit_log \<times> audit_world \<Rightarrow> bool" where
  "replay_inv kept ids y \<longleftrightarrow> (case y of (s, w) \<Rightarrow>
     (\<exists>ls q. lf_lines (aw_file w) = map Line ls \<and> map al_run_id ls = ids \<and>
        ad_runs s = (foldl add_line (new_store kept) ls)\<lparr>rs_seq := q\<rparr>))"

lemma writeAuditLine_shape:
  assumes "ai_write io = AuditWritten" and "ai_marshal io"
  obtains s' l a where "writeAuditLine L s f i r io = (s', glue f (Line l) False, a)"
    and "al_run_id l = i" and "al_rec l = r" and "ad_runs s' = ad_runs s"
proof -
  let ?l = "\<lparr>al_run_id = i, al_rec = r, al_prev = ad_hash s, al_hash = chainHash L (ad_hash s) i r,
    al_sig = (if ad_signer s then case ai_sig io of None \<Rightarrow> [] | Some sig \<Rightarrow> hex_encode sig else [])\<rparr>"
  have "fst (snd (writeAuditLine L s f i r io)) = glue f (Line ?l) False"
    "ad_runs (fst (writeAuditLine L s f i r io)) = ad_runs s"
    using assms by (simp_all add: writeAuditLine_def Let_def)
  then show thesis using that [of _ ?l] by (cases "writeAuditLine L s f i r io") auto
qed

lemma put_replay:
  assumes "audit_inv L (s, w)" and "replay_inv kept ids (s, w)" and "i \<noteq> []"
  shows "replay_inv kept (ids @ [i]) (putRun L s w i r now (signed_io L sign s i (stamp_run now r) True saved))"
proof -
  let ?r = "stamp_run now r" and ?s = "s\<lparr>ad_runs := addRunLocked i (stamp_run now r) (ad_runs s)\<rparr>"
  from assms(2) obtain ls q where ls: "lf_lines (aw_file w) = map Line ls" "map al_run_id ls = ids"
    "ad_runs s = (foldl add_line (new_store kept) ls)\<lparr>rs_seq := q\<rparr>"
    unfolding replay_inv_def by auto
  have torn: "\<not> lf_torn (aw_file w)" and path: "auditPath ?s \<noteq> []"
    using assms(1) by (auto simp: audit_inv_def auditPath_def)
  have runs: "addRunLocked i ?r (ad_runs s) = (addRunLocked i ?r (foldl add_line (new_store kept) ls))\<lparr>rs_seq := q\<rparr>"
    unfolding ls(3) by (rule addRunLocked_seq [OF replay_wf [OF new_store_wf]])
  obtain s' l a where w: "writeAuditLine L ?s (aw_file w) i ?r (signed_io L sign s i ?r True saved) =
      (s', glue (aw_file w) (Line l) False, a)" and l: "al_run_id l = i" "al_rec l = ?r" "ad_runs s' = ad_runs ?s"
    by (rule writeAuditLine_shape [of "signed_io L sign s i ?r True saved" L ?s "aw_file w" i ?r])
      (auto simp: signed_io_def Let_def)
  have "replay_inv kept (ids @ [i]) (s', w\<lparr>aw_file := glue (aw_file w) (Line l) False, aw_anchor := x\<rparr>)" for x
    unfolding replay_inv_def using torn ls(1,2) l runs
    by (auto simp: glue_def intro!: exI [of _ "ls @ [l]"] exI [of _ q])
  then show ?thesis unfolding putRun_def appendAudit_def Let_def using path w
    by (cases a) (auto, metis audit_world.surjective audit_world.update_convs(2))
qed

lemma foldl_max: "foldl (\<lambda>m l. max m (f l)) m ls = Max (insert m (f ` set ls))" for m :: int
proof (induction ls arbitrary: m)
  case (Cons l ls)
  then show ?case by (cases "ls = []") (simp_all add: max.assoc)
qed simp

definition highest :: "string list \<Rightarrow> int" where
  "highest ids = Max (insert 0 (runSeq ` set ids))"

lemma highest_bounds: "0 \<le> highest ids" "i \<in> set ids \<Longrightarrow> runSeq i \<le> highest ids"
  by (auto simp: highest_def)

lemma reload_replay:
  assumes inv: "audit_inv L (s, w)" and rep: "replay_inv kept ids (s, w)"
  defines "s' \<equiv> loadAudit (started s) (read_audit (aw_file w))"
  shows "replay_inv kept ids (s', w)" and "ad_runs s' = (ad_runs s)\<lparr>rs_seq := highest ids\<rparr>"
proof -
  from rep obtain ls q where ls: "lf_lines (aw_file w) = map Line ls" "map al_run_id ls = ids"
    "ad_runs s = (foldl add_line (new_store kept) ls)\<lparr>rs_seq := q\<rparr>"
    unfolding replay_inv_def by auto
  from inv ls(1) have path: "auditPath s \<noteq> []" and ex: "ls \<noteq> [] \<longrightarrow> lf_exists (aw_file w)"
    and linked: "audit_linked L (auditVerify L s) [] False ls"
    unfolding audit_inv_def by (auto simp: inj_map_eq_map inj_def)
  have kept: "rs_max_kept (ad_runs s) = kept"
    using replay_max_kept [OF new_store_wf, of kept ls] ls(3) by (simp add: new_store_def)
  let ?q = "foldl (\<lambda>m l. max m (runSeq (al_run_id l))) 0 ls"
  have "ad_runs s' = (foldl add_line (new_store kept) ls)\<lparr>rs_seq := ?q\<rparr>"
  proof (cases "lf_exists (aw_file w)")
    case True
    with path replay_lines [OF linked_ids [OF linked]] kept show ?thesis
      by (simp add: s'_def loadAudit_def read_audit_def ls(1)) (simp add: started_def)
  next
    case False
    with ex have "ls = []" by simp
    with False path kept show ?thesis
      by (simp add: s'_def loadAudit_def read_audit_def) (simp add: started_def new_store_def)
  qed
  moreover have "?q = highest ids"
    unfolding foldl_max highest_def ls(2) [symmetric] by (simp add: image_image)
  ultimately show "replay_inv kept ids (s', w)" "ad_runs s' = (ad_runs s)\<lparr>rs_seq := highest ids\<rparr>"
    using ls unfolding replay_inv_def by auto
qed

lemma run_replay:
  assumes "signer_works L sign" and "\<forall>x \<in> set ops. recorded_op x" and "audit_inv L y" and "replay_inv kept ids y"
  shows "audit_inv L (foldl (audit_step L sign) y ops) \<and>
    replay_inv kept (ids @ concat (map op_ids ops)) (foldl (audit_step L sign) y ops)"
  using assms(2-)
proof (induction ops arbitrary: y ids)
  case (Cons x ops)
  obtain s w where y: "y = (s, w)" by (cases y)
  have "audit_inv L (audit_step L sign y x) \<and> replay_inv kept (ids @ op_ids x) (audit_step L sign y x)"
  proof (cases x)
    case (Put i r now opens saved)
    with Cons.prems y assms(1) show ?thesis using put_inv put_replay by auto
  next
    case Reload
    with Cons.prems y show ?thesis using reload_inv reload_replay(1) by auto
  qed
  with Cons.IH [of "audit_step L sign y x" "ids @ op_ids x"] Cons.prems(1) show ?case by simp
qed simp

lemma foldl_digits_ge: "n \<le> foldl (\<lambda>n c. n * 10 + (char_code c - 48)) n d"
proof (induction d arbitrary: n)
  case (Cons c d)
  from Cons [of "n * 10 + (char_code c - 48)"] show ?case by simp
qed simp

lemma parse_uint_digits:
  "list_all is_digit d \<Longrightarrow> int (foldl (\<lambda>n c. n * 10 + (char_code c - 48)) n d) < 2 ^ 64 \<Longrightarrow>
   parse_uint (int n) d = Some (int (foldl (\<lambda>n c. n * 10 + (char_code c - 48)) n d))"
proof (induction d arbitrary: n)
  case (Cons c d)
  from foldl_digits_ge [of "n * 10 + (char_code c - 48)" d] Cons.prems(2)
  have "int (n * 10 + (char_code c - 48)) < 2 ^ 64" by (simp del: of_nat_add of_nat_mult)
  with Cons.prems Cons.IH [of "n * 10 + (char_code c - 48)"] show ?case by simp
qed simp

lemma runSeq_run: "0 \<le> n \<Longrightarrow> n < 2 ^ 63 \<Longrightarrow> runSeq (''run_'' @ fmt_int n) = n"
proof -
  assume n: "0 \<le> n" "n < 2 ^ 63"
  obtain c r where cr: "itoa (nat n) = c # r" using itoa_digits [of "nat n"] by (cases "itoa (nat n)") auto
  with itoa_digits [of "nat n"] have "is_digit c" by simp
  then have "c \<noteq> CHR ''-''" "c \<noteq> CHR ''+''" by (auto simp: is_digit_def less_eq_char_def)
  moreover have "parse_uint 0 (itoa (nat n)) = Some n"
    using parse_uint_digits [of "itoa (nat n)" 0] dec_value_itoa [of "nat n"] itoa_digits [of "nat n"] n
    by (simp add: dec_value_def)
  ultimately show ?thesis using n cr by (simp add: runSeq_def trim_prefix_def atoi_value_def fmt_int_def)
qed

text \<open>The run ids that a store hands out next.\<close>

fun next_ids :: "nat \<Rightarrow> run_store \<Rightarrow> string list" where
  "next_ids 0 rs = []"
| "next_ids (Suc n) rs = (case nextRunID rs of (rs', i) \<Rightarrow> i # next_ids n rs')"

lemma next_ids_fresh:
  "0 \<le> rs_seq rs \<Longrightarrow> rs_seq rs + int n < 2 ^ 63 \<Longrightarrow>
   distinct (next_ids n rs) \<and> (\<forall>i \<in> set (next_ids n rs). rs_seq rs < runSeq i)"
proof (induction n arbitrary: rs)
  case (Suc n)
  let ?q = "rs_seq rs + 1"
  have next_id: "nextRunID rs = (rs\<lparr>rs_seq := ?q\<rparr>, ''run_'' @ fmt_int ?q)"
    using Suc.prems by (simp add: nextRunID_def Let_def wrap64_id in_int64_def)
  have "runSeq (''run_'' @ fmt_int ?q) = ?q" using Suc.prems by (intro runSeq_run) simp_all
  with Suc.IH [of "rs\<lparr>rs_seq := ?q\<rparr>"] Suc.prems next_id show ?case by fastforce
qed simp


section \<open>Witnesses\<close>

definition audit_example_lib :: audit_lib where
  "audit_example_lib = \<lparr>au_sha256 = (\<lambda>x. ''h'' @ take 2 x), au_body = (\<lambda>i r. i), au_verify = (\<lambda>m b. b = ''s'')\<rparr>"

definition audit_example_ops :: "audit_op list" where
  "audit_example_ops = [Put ''run_1'' example_run 3 True True, Reload, Put ''run_2'' example_run 4 True True]"

lemma example_signer: "signer_works audit_example_lib (\<lambda>m. ''s'')"
  by (simp add: signer_works_def audit_example_lib_def)

lemma example_ops_ok: "\<forall>x \<in> set audit_example_ops. named_op x" "\<forall>x \<in> set audit_example_ops. recorded_op x"
  by (simp_all add: audit_example_ops_def)



theorem unsigned_rewrite_verifies_witness:
  "\<exists>v. VerifyAudit audit_example_lib (fst (new_audit ''/s'' True True 5))
      (AuditLines (map Some (unsigned_chain audit_example_lib [] [(''forged'', example_run)])) False)
      (Some \<lparr>aa_chained = 1, aa_head = ''genuine'', aa_sig = hex_encode ''s''\<rparr>) = (v, False) \<and> av_intact v \<and> av_anchored v"
proof -
  let ?a = "\<lparr>aa_chained = 1, aa_head = ''genuine'', aa_sig = hex_encode ''s''\<rparr>"
  have "loadAuditAnchor audit_example_lib (fst (new_audit ''/s'' True True 5)) (Some ?a) = Some ?a"
    by (simp add: loadAuditAnchor_def new_audit_def auditVerify_def audit_sig_ok_def audit_example_lib_def)
  moreover have "\<forall>x. au_sha256 audit_example_lib x \<noteq> []" by (simp add: audit_example_lib_def)
  ultimately show ?thesis
    using unsigned_rewrite_verifies [of audit_example_lib "[(''forged'', example_run)]" "fst (new_audit ''/s'' True True 5)" "Some ?a" ?a]
    by auto
qed

text \<open>
  A key that signed one line of the audit log, one of the decision ledger and an anchor of each; a
  hash that keeps its input.
\<close>

definition one_line_lib :: audit_lib where
  "one_line_lib = \<lparr>au_sha256 = (\<lambda>x. CHR ''h'' # x), au_body = (\<lambda>i r. CHR ''r'' # filter (\<lambda>c. c \<noteq> CHR 0x00) i),
     au_verify = (\<lambda>m b. m \<in> set [link_hash (\<lambda>x. CHR ''h'' # x) [] ''rrun_1'', link_hash (\<lambda>x. CHR ''h'' # x) [] ''d1'',
       signingInput \<lparr>aa_chained = 1, aa_head = ''head'', aa_sig = []\<rparr>, ''{1''])\<rparr>"

definition one_line :: audit_line where
  "one_line = \<lparr>al_run_id = ''run_1'', al_rec = example_run, al_prev = [],
     al_hash = link_hash (\<lambda>x. CHR ''h'' # x) [] ''rrun_1'', al_sig = ''ab''\<rparr>"

theorem signed_audit_log_is_history_witness:
  "(al_prev one_line, body one_line_lib one_line) \<in> {([], ''rrun_1'')}"
proof -
  let ?S = "{([], ''rrun_1'')}" and ?D = "{([], ''d1'')}"
  have "audit_key_signs one_line_lib ?S ?D m" if "au_verify one_line_lib m b" for m b
  proof -
    from that consider "m = link_hash (au_sha256 one_line_lib) [] ''rrun_1''" | "m = link_hash (au_sha256 one_line_lib) [] ''d1''"
      | "m = signingInput \<lparr>aa_chained = 1, aa_head = ''head'', aa_sig = []\<rparr>" | "m = ''{1''"
      by (auto simp: one_line_lib_def)
    then show ?thesis unfolding audit_key_signs_def by cases auto
  qed
  moreover have "CHR 0x00 \<notin> set (au_body one_line_lib i r)" "''d1'' \<noteq> au_body one_line_lib i r" for i r
    by (simp_all add: one_line_lib_def)
  moreover have "\<forall>x. au_sha256 one_line_lib x \<noteq> []" by (simp add: one_line_lib_def)
  moreover have "av_intact (fst (VerifyAuditLog one_line_lib (AuditLines [Some one_line] False) (Some (au_verify one_line_lib))))"
    "al_sig one_line \<noteq> []" "al_hash one_line \<noteq> []"
    by code_simp+
  moreover have "CHR 0x00 \<notin> set b" if "(p, b) \<in> ?S \<union> ?D" for p b using that by auto
  moreover have "\<not> collides_with (au_sha256 one_line_lib) bs T" for bs T
    by (auto simp: collides_with_def one_line_lib_def)
  ultimately show ?thesis
    using signed_audit_log_is_history [of one_line_lib ?S ?D "[Some one_line]" False one_line] by auto
qed

end
