(* ===== verification/Sql_Engine.thy ===== *)
theory Sql_Engine
  imports Go_Strings
begin

text \<open>
  The SQL engine (\<open>src/engines/sql/main.go\<close>): a SELECT over the rows on standard input. The
  statement arrives parsed: the types below mirror the nodes of the parser package that the
  engine tells apart, everything else is one \<open>Other\<close> node. Floating-point numbers are a type
  parameter \<open>'f\<close> with the operations of \<open>go_float\<close>, and the library's stable sort and JSON
  encoding are fields of \<open>sql_lib\<close>. Printing values (\<open>fmt.Sprint\<close>) and everything the engine
  does itself is computed. A row is a Go map: an association list, absent columns are null.
\<close>

section \<open>Statements\<close>

datatype val_type = IntVal | FloatVal | OtherVal

datatype expr =
    ColName string
  | FuncExpr string "select_expr list" bool string
  | SQLVal val_type string
  | NullVal
  | BoolVal bool
  | AndExpr expr expr
  | OrExpr expr expr
  | ParenExpr expr
  | NotExpr expr
  | ComparisonExpr string expr expr
  | OtherExpr
and select_expr =
    StarExpr
  | AliasedExpr expr string
  | OtherSelect

record sql_limit =
  li_offset :: "expr option"
  li_rowcount :: "expr option"

text \<open>The FROM clause of a parsed statement, joins and subqueries included; the engine never reads it.\<close>

datatype table_expr =
    AliasedTable string string
  | AliasedSubquery string string
  | ParenTable "table_expr list"
  | JoinTable table_expr string table_expr "expr option"

record select =
  sel_exprs :: "select_expr list"
  sel_distinct :: bool
  sel_where :: "expr option"
  sel_group_by :: "expr list"
  sel_having :: "expr option"
  sel_order_by :: "(expr \<times> bool) list"
  sel_limit :: "sql_limit option"
  sel_from :: "table_expr list"

section \<open>Values\<close>

datatype 'f val =
    VNull
  | VBool bool
  | VNum 'f
  | VStr string
  | VArr "'f val list"
  | VObj "(string \<times> 'f val) list"

type_synonym 'f row = "(string \<times> 'f val) list"

record 'f sql_lib =
  fl_lt :: "'f \<Rightarrow> 'f \<Rightarrow> bool"
  fl_add :: "'f \<Rightarrow> 'f \<Rightarrow> 'f"
  fl_div :: "'f \<Rightarrow> 'f \<Rightarrow> 'f"
  fl_of_nat :: "nat \<Rightarrow> 'f"
  fl_parse :: "string \<Rightarrow> 'f option"
  fl_show :: "'f \<Rightarrow> string"
  marshal_val :: "'f val \<Rightarrow> string"
  marshal_row :: "'f row \<Rightarrow> string"
  slice_stable :: "('f row \<Rightarrow> 'f row \<Rightarrow> bool) \<Rightarrow> 'f row list \<Rightarrow> 'f row list"

datatype sql_error =
    HavingNeedsGroup
  | OffsetNegative
  | LimitNotInteger
  | AtoiFailed string
  | SelectShape
  | UnsupportedSelect
  | DistinctWithAggregates
  | GroupByShape
  | StarWithAggregates
  | GroupSelectShape
  | AggregateShape string
  | DistinctStar string
  | UnsupportedAggregate string
  | UnsupportedBoolean
  | UnsupportedOperator string
  | ParseFloatFailed string
  | UnsupportedValue
  | OrderByShape

definition get :: "'f row \<Rightarrow> string \<Rightarrow> 'f val" where
  "get r c = (case map_of r c of None \<Rightarrow> VNull | Some v \<Rightarrow> v)"

text \<open>\<open>fmt.Sprint\<close> of a decoded JSON value; maps print their keys in order.\<close>

function (sequential) sprint :: "('f \<Rightarrow> string) \<Rightarrow> 'f val \<Rightarrow> string" where
  "sprint show_f VNull = ''<nil>''"
| "sprint show_f (VBool b) = (if b then ''true'' else ''false'')"
| "sprint show_f (VNum x) = show_f x"
| "sprint show_f (VStr s) = s"
| "sprint show_f (VArr vs) = ''['' @ join_with '' '' (map (sprint show_f) vs) @ '']''"
| "sprint show_f (VObj ms) =
     ''map['' @ join_with '' '' (map (\<lambda>(k, v). k @ '':'' @ sprint show_f v) (sort_key fst ms)) @ '']''"
  by pat_completeness auto
termination
proof (relation "measure (\<lambda>(_, v). size v)")
  show "wf (measure (\<lambda>(_ :: 'f \<Rightarrow> string, v :: 'f val). size v))" by simp
next
  fix show_f :: "'f \<Rightarrow> string" and vs and z :: "'f val"
  assume "z \<in> set vs"
  then show "((show_f, z), (show_f, VArr vs)) \<in> measure (\<lambda>(_, v). size v)"
    by (auto dest: size_list_estimation' [of z vs _ size, OF _ order_refl])
next
  fix show_f :: "'f \<Rightarrow> string" and ms x and k :: string and z :: "'f val"
  assume "x \<in> set (sort_key fst ms)" and "(k, z) = x"
  then have "(k, z) \<in> set ms" by simp
  then show "((show_f, z), (show_f, VObj ms)) \<in> measure (\<lambda>(_, v). size v)"
    by (induction ms) (auto simp: less_Suc_eq_le)
qed

definition toFloat :: "'f sql_lib \<Rightarrow> 'f val \<Rightarrow> 'f option" where
  "toFloat L v =
     (case v of
        VNum x \<Rightarrow> Some x
      | VBool b \<Rightarrow> Some (fl_of_nat L (if b then 1 else 0))
      | VStr s \<Rightarrow> fl_parse L s
      | _ \<Rightarrow> None)"

definition str_compare :: "string \<Rightarrow> string \<Rightarrow> int" where
  "str_compare a b = (if a < b then - 1 else if a = b then 0 else 1)"

definition compareVals :: "'f sql_lib \<Rightarrow> 'f val \<Rightarrow> 'f val \<Rightarrow> int" where
  "compareVals L a b =
     (case (toFloat L a, toFloat L b) of
        (Some x, Some y) \<Rightarrow> if fl_lt L x y then - 1 else if fl_lt L y x then 1 else 0
      | _ \<Rightarrow> str_compare (sprint (fl_show L) a) (sprint (fl_show L) b))"

section \<open>Three-valued logic\<close>

datatype tri = TriFalse | TriTrue | TriUnknown

fun tri_not :: "tri \<Rightarrow> tri" where
  "tri_not TriTrue = TriFalse"
| "tri_not TriFalse = TriTrue"
| "tri_not TriUnknown = TriUnknown"

definition andTri :: "tri \<Rightarrow> tri \<Rightarrow> tri" where
  "andTri a b =
     (if a = TriFalse \<or> b = TriFalse then TriFalse
      else if a = TriUnknown \<or> b = TriUnknown then TriUnknown else TriTrue)"

definition orTri :: "tri \<Rightarrow> tri \<Rightarrow> tri" where
  "orTri a b =
     (if a = TriTrue \<or> b = TriTrue then TriTrue
      else if a = TriUnknown \<or> b = TriUnknown then TriUnknown else TriFalse)"

type_synonym 'f resolver = "expr \<Rightarrow> (sql_error, 'f val) result"

definition literalVal :: "'f sql_lib \<Rightarrow> 'f resolver" where
  "literalVal L e =
     (case e of
        SQLVal t s \<Rightarrow>
          if t = IntVal \<or> t = FloatVal
          then (case fl_parse L s of None \<Rightarrow> Inl (ParseFloatFailed s) | Some x \<Rightarrow> Inr (VNum x))
          else Inr (VStr s)
      | NullVal \<Rightarrow> Inr VNull
      | BoolVal b \<Rightarrow> Inr (VBool b)
      | _ \<Rightarrow> Inl UnsupportedValue)"

definition rowResolver :: "'f sql_lib \<Rightarrow> 'f row \<Rightarrow> 'f resolver" where
  "rowResolver L r e = (case e of ColName c \<Rightarrow> Inr (get r c) | _ \<Rightarrow> literalVal L e)"

definition evalComparison ::
    "'f sql_lib \<Rightarrow> string \<Rightarrow> expr \<Rightarrow> expr \<Rightarrow> 'f resolver \<Rightarrow> (sql_error, tri) result" where
  "evalComparison L oper left right val =
     (case val left of Inl e \<Rightarrow> Inl e
      | Inr l \<Rightarrow>
     (case val right of Inl e \<Rightarrow> Inl e
      | Inr rt \<Rightarrow>
          if l = VNull \<or> rt = VNull then Inr TriUnknown
          else let c = compareVals L l rt; yes = (\<lambda>b. Inr (if b then TriTrue else TriFalse))
          in if oper = ''='' then yes (c = 0)
          else if oper = ''!='' then yes (c \<noteq> 0)
          else if oper = ''<'' then yes (c < 0)
          else if oper = ''>'' then yes (c > 0)
          else if oper = ''<='' then yes (c \<le> 0)
          else if oper = ''>='' then yes (c \<ge> 0)
          else Inl (UnsupportedOperator oper)))"

fun evalBoolWith :: "'f sql_lib \<Rightarrow> expr \<Rightarrow> 'f resolver \<Rightarrow> (sql_error, tri) result" where
  "evalBoolWith L (AndExpr l r) val =
     (case evalBoolWith L l val of Inl e \<Rightarrow> Inl e
      | Inr a \<Rightarrow> if a = TriFalse then Inr TriFalse
          else (case evalBoolWith L r val of Inl e \<Rightarrow> Inl e | Inr b \<Rightarrow> Inr (andTri a b)))"
| "evalBoolWith L (OrExpr l r) val =
     (case evalBoolWith L l val of Inl e \<Rightarrow> Inl e
      | Inr a \<Rightarrow> if a = TriTrue then Inr TriTrue
          else (case evalBoolWith L r val of Inl e \<Rightarrow> Inl e | Inr b \<Rightarrow> Inr (orTri a b)))"
| "evalBoolWith L (ParenExpr e) val = evalBoolWith L e val"
| "evalBoolWith L (NotExpr e) val =
     (case evalBoolWith L e val of Inl err \<Rightarrow> Inl err | Inr a \<Rightarrow> Inr (tri_not a))"
| "evalBoolWith L (ComparisonExpr oper l r) val = evalComparison L oper l r val"
| "evalBoolWith L _ val = Inl UnsupportedBoolean"

section \<open>Aggregates\<close>

text \<open>The values an aggregate folds over: the non-null ones, once each under DISTINCT.\<close>

fun agg_values :: "'f sql_lib \<Rightarrow> bool \<Rightarrow> string \<Rightarrow> string list \<Rightarrow> 'f row list \<Rightarrow> 'f val list" where
  "agg_values L dist col seen [] = []"
| "agg_values L dist col seen (r # rs) =
     (let v = get r col
      in if v = VNull then agg_values L dist col seen rs
         else if dist
         then (if marshal_val L v \<in> set seen then agg_values L dist col seen rs
               else v # agg_values L dist col (marshal_val L v # seen) rs)
         else v # agg_values L dist col seen rs)"

definition best_step :: "'f sql_lib \<Rightarrow> string \<Rightarrow> 'f val \<Rightarrow> 'f val \<Rightarrow> 'f val" where
  "best_step L fn best v =
     (if best = VNull then v
      else let c = compareVals L best v
           in if (fn = ''min'' \<and> c > 0) \<or> (fn = ''max'' \<and> c < 0) then v else best)"

definition sum_step :: "'f sql_lib \<Rightarrow> 'f \<times> nat \<Rightarrow> 'f val \<Rightarrow> 'f \<times> nat" where
  "sum_step L acc v =
     (case toFloat L v of None \<Rightarrow> acc | Some f \<Rightarrow> (fl_add L (fst acc) f, Suc (snd acc)))"

definition agg_column :: "string \<Rightarrow> select_expr list \<Rightarrow> (sql_error, bool \<times> string) result" where
  "agg_column fn exprs =
     (case exprs of
        [StarExpr] \<Rightarrow> Inr (True, [])
      | [AliasedExpr (ColName c) _] \<Rightarrow> Inr (False, c)
      | [AliasedExpr _ _] \<Rightarrow> Inl (AggregateShape fn)
      | _ \<Rightarrow> Inr (False, []))"

definition computeAgg ::
    "'f sql_lib \<Rightarrow> string \<Rightarrow> select_expr list \<Rightarrow> bool \<Rightarrow> 'f row list \<Rightarrow> (sql_error, 'f val) result" where
  "computeAgg L fn exprs dist rows =
     (case agg_column fn exprs of Inl e \<Rightarrow> Inl e
      | Inr (star, col) \<Rightarrow>
          if star \<and> dist then Inl (DistinctStar fn)
          else let values = agg_values L dist col [] rows
          in if fn = ''count''
             then Inr (VNum (fl_of_nat L (if star then length rows else length values)))
             else if fn = ''sum'' \<or> fn = ''avg''
             then (case foldl (sum_step L) (fl_of_nat L 0, 0) values of
                     (s, n) \<Rightarrow>
                       if fn = ''avg''
                       then Inr (if n = 0 then VNull else VNum (fl_div L s (fl_of_nat L n)))
                       else Inr (VNum s))
             else if fn = ''min'' \<or> fn = ''max'' then Inr (foldl (best_step L fn) VNull values)
             else Inl (UnsupportedAggregate fn))"

definition havingResolver :: "'f sql_lib \<Rightarrow> 'f row \<Rightarrow> 'f row list \<Rightarrow> 'f resolver" where
  "havingResolver L cols rows e =
     (case e of
        FuncExpr fn exprs dist _ \<Rightarrow> computeAgg L fn exprs dist rows
      | ColName c \<Rightarrow> Inr (get cols c)
      | _ \<Rightarrow> literalVal L e)"

definition evalAggOrCol ::
    "'f sql_lib \<Rightarrow> expr \<Rightarrow> string \<Rightarrow> 'f row \<Rightarrow> 'f row list \<Rightarrow> (sql_error, string \<times> 'f val) result" where
  "evalAggOrCol L e as cols rows =
     (case e of
        FuncExpr fn exprs dist printed \<Rightarrow>
          (case computeAgg L fn exprs dist rows of Inl err \<Rightarrow> Inl err
           | Inr v \<Rightarrow> Inr (if as = [] then printed else as, v))
      | ColName c \<Rightarrow> Inr (if as = [] then c else as, get cols c)
      | _ \<Rightarrow> Inl GroupSelectShape)"

section \<open>Grouping\<close>

fun group_columns :: "expr list \<Rightarrow> (sql_error, string list) result" where
  "group_columns [] = Inr []"
| "group_columns (ColName c # gs) =
     (case group_columns gs of Inl e \<Rightarrow> Inl e | Inr cs \<Rightarrow> Inr (c # cs))"
| "group_columns (_ # gs) = Inl GroupByShape"

definition group_key :: "'f sql_lib \<Rightarrow> string list \<Rightarrow> 'f row \<Rightarrow> string" where
  "group_key L cols r = concat (map (\<lambda>c. sprint (fl_show L) (get r c) @ [CHR 0x00]) cols)"

definition group_cols :: "string list \<Rightarrow> 'f row \<Rightarrow> 'f row" where
  "group_cols cols r = foldl (\<lambda>o' c. AList.update c (get r c) o') [] cols"

text \<open>The groups in the order of their first row: key, columns of that row, rows.\<close>

fun add_to_group ::
    "string \<Rightarrow> 'f row \<Rightarrow> 'f row \<Rightarrow> (string \<times> 'f row \<times> 'f row list) list \<Rightarrow> (string \<times> 'f row \<times> 'f row list) list" where
  "add_to_group k gc r [] = [(k, gc, [r])]"
| "add_to_group k gc r ((k', gc', rs) # gs) =
     (if k' = k then (k', gc', rs @ [r]) # gs else (k', gc', rs) # add_to_group k gc r gs)"

definition make_groups :: "'f sql_lib \<Rightarrow> string list \<Rightarrow> 'f row list \<Rightarrow> (string \<times> 'f row \<times> 'f row list) list" where
  "make_groups L cols rows =
     (if cols = [] then [([], [], rows)]
      else foldl (\<lambda>gs r. add_to_group (group_key L cols r) (group_cols cols r) r gs) [] rows)"

fun group_row ::
    "'f sql_lib \<Rightarrow> select_expr list \<Rightarrow> 'f row \<Rightarrow> 'f row list \<Rightarrow> 'f row \<Rightarrow> (sql_error, 'f row) result" where
  "group_row L [] cols rows out = Inr out"
| "group_row L (AliasedExpr e as # ses) cols rows out =
     (case evalAggOrCol L e as cols rows of Inl err \<Rightarrow> Inl err
      | Inr (name, v) \<Rightarrow> group_row L ses cols rows (AList.update name v out))"
| "group_row L (_ # ses) cols rows out = Inl StarWithAggregates"

fun group_rows ::
    "'f sql_lib \<Rightarrow> select_expr list \<Rightarrow> expr option \<Rightarrow> (string \<times> 'f row \<times> 'f row list) list \<Rightarrow>
     (sql_error, 'f row list) result" where
  "group_rows L ses having [] = Inr []"
| "group_rows L ses having ((k, cols, rows) # gs) =
     (case group_row L ses cols rows [] of Inl e \<Rightarrow> Inl e
      | Inr out \<Rightarrow>
     (case (case having of None \<Rightarrow> Inr TriTrue | Some h \<Rightarrow> evalBoolWith L h (havingResolver L cols rows)) of
        Inl e \<Rightarrow> Inl e
      | Inr t \<Rightarrow>
     (case group_rows L ses having gs of Inl e \<Rightarrow> Inl e
      | Inr outs \<Rightarrow> Inr (if t = TriTrue then out # outs else outs))))"

definition aggregate :: "'f sql_lib \<Rightarrow> select \<Rightarrow> 'f row list \<Rightarrow> (sql_error, 'f row list) result" where
  "aggregate L sel rows =
     (if sel_distinct sel then Inl DistinctWithAggregates
      else case group_columns (sel_group_by sel) of Inl e \<Rightarrow> Inl e
      | Inr cols \<Rightarrow> group_rows L (sel_exprs sel) (sel_having sel) (make_groups L cols rows))"

section \<open>Selecting\<close>

fun where_rows :: "'f sql_lib \<Rightarrow> expr \<Rightarrow> 'f row list \<Rightarrow> (sql_error, 'f row list) result" where
  "where_rows L e [] = Inr []"
| "where_rows L e (r # rs) =
     (case evalBoolWith L e (rowResolver L r) of Inl err \<Rightarrow> Inl err
      | Inr t \<Rightarrow> (case where_rows L e rs of Inl err \<Rightarrow> Inl err
          | Inr kept \<Rightarrow> Inr (if t = TriTrue then r # kept else kept)))"

fun project_row :: "select_expr list \<Rightarrow> 'f row \<Rightarrow> 'f row \<Rightarrow> (sql_error, 'f row) result" where
  "project_row [] r out = Inr out"
| "project_row (StarExpr # ses) r out = project_row ses r (foldl (\<lambda>o' (k, v). AList.update k v o') out r)"
| "project_row (AliasedExpr (ColName c) as # ses) r out =
     project_row ses r (AList.update (if as = [] then c else as) (get r c) out)"
| "project_row (AliasedExpr _ as # ses) r out = Inl SelectShape"
| "project_row (OtherSelect # ses) r out = Inl UnsupportedSelect"

definition project :: "select_expr list \<Rightarrow> 'f row list \<Rightarrow> (sql_error, 'f row list) result" where
  "project ses rows = map_res (\<lambda>r. project_row ses r []) rows"

fun distinct_from :: "'f sql_lib \<Rightarrow> string list \<Rightarrow> 'f row list \<Rightarrow> 'f row list" where
  "distinct_from L seen [] = []"
| "distinct_from L seen (r # rs) =
     (if marshal_row L r \<in> set seen then distinct_from L seen rs
      else r # distinct_from L (marshal_row L r # seen) rs)"

definition distinctRows :: "'f sql_lib \<Rightarrow> 'f row list \<Rightarrow> 'f row list" where
  "distinctRows L rows = distinct_from L [] rows"

fun order_keys :: "(expr \<times> bool) list \<Rightarrow> (sql_error, (string \<times> bool) list) result" where
  "order_keys [] = Inr []"
| "order_keys ((ColName c, desc) # os) =
     (case order_keys os of Inl e \<Rightarrow> Inl e | Inr ks \<Rightarrow> Inr ((c, desc) # ks))"
| "order_keys (_ # os) = Inl OrderByShape"

fun less_row :: "'f sql_lib \<Rightarrow> (string \<times> bool) list \<Rightarrow> 'f row \<Rightarrow> 'f row \<Rightarrow> bool" where
  "less_row L [] a b = False"
| "less_row L ((c, desc) # ks) a b =
     (let d = compareVals L (get a c) (get b c)
      in if d = 0 then less_row L ks a b else if desc then d > 0 else d < 0)"

definition orderBy :: "'f sql_lib \<Rightarrow> 'f row list \<Rightarrow> (expr \<times> bool) list \<Rightarrow> (sql_error, 'f row list) result" where
  "orderBy L rows ob =
     (case order_keys ob of Inl e \<Rightarrow> Inl e | Inr ks \<Rightarrow> Inr (slice_stable L (less_row L ks) rows))"

definition intVal :: "expr \<Rightarrow> (sql_error, int) result" where
  "intVal e =
     (case e of
        SQLVal t s \<Rightarrow>
          if t \<noteq> IntVal then Inl LimitNotInteger
          else (case atoi s of None \<Rightarrow> Inl (AtoiFailed s) | Some n \<Rightarrow> Inr n)
      | _ \<Rightarrow> Inl LimitNotInteger)"

definition apply_rowcount :: "expr option \<Rightarrow> 'a list \<Rightarrow> (sql_error, 'a list) result" where
  "apply_rowcount rc out =
     (case rc of None \<Rightarrow> Inr out
      | Some e \<Rightarrow> (case intVal e of Inl err \<Rightarrow> Inl err
          | Inr n \<Rightarrow> Inr (if n \<ge> 0 \<and> n < int (length out) then take (nat n) out else out)))"

definition applyLimit :: "sql_limit option \<Rightarrow> 'a list \<Rightarrow> (sql_error, 'a list) result" where
  "applyLimit limit out =
     (case limit of None \<Rightarrow> Inr out
      | Some l \<Rightarrow>
          (case li_offset l of None \<Rightarrow> apply_rowcount (li_rowcount l) out
           | Some e \<Rightarrow>
               (case intVal e of Inl err \<Rightarrow> Inl err
                | Inr off \<Rightarrow>
                    if off < 0 then Inl OffsetNegative
                    else if off \<ge> int (length out) then Inr []
                    else apply_rowcount (li_rowcount l) (drop (nat off) out))))"

definition selectHasAggregate :: "select_expr list \<Rightarrow> bool" where
  "selectHasAggregate ses \<longleftrightarrow>
     list_ex (\<lambda>se. case se of AliasedExpr (FuncExpr _ _ _ _) _ \<Rightarrow> True | _ \<Rightarrow> False) ses"

definition select_rows :: "'f sql_lib \<Rightarrow> select \<Rightarrow> 'f row list \<Rightarrow> (sql_error, 'f row list) result" where
  "select_rows L sel rows =
     (if selectHasAggregate (sel_exprs sel) \<or> sel_group_by sel \<noteq> [] then aggregate L sel rows
      else if sel_having sel \<noteq> None then Inl HavingNeedsGroup
      else case project (sel_exprs sel) rows of Inl e \<Rightarrow> Inl e
      | Inr out \<Rightarrow> Inr (if sel_distinct sel then distinctRows L out else out))"

definition execSelect :: "'f sql_lib \<Rightarrow> select \<Rightarrow> 'f row list \<Rightarrow> (sql_error, 'f row list) result" where
  "execSelect L sel rows =
     (case (case sel_where sel of None \<Rightarrow> Inr rows | Some e \<Rightarrow> where_rows L e rows) of Inl e \<Rightarrow> Inl e
      | Inr kept \<Rightarrow>
     (case select_rows L sel kept of Inl e \<Rightarrow> Inl e
      | Inr out \<Rightarrow>
     (case (if sel_order_by sel = [] then Inr out else orderBy L out (sel_order_by sel)) of Inl e \<Rightarrow> Inl e
      | Inr ordered \<Rightarrow> applyLimit (sel_limit sel) ordered)))"

section \<open>The command\<close>

text \<open>
  What the process does with its input: the exit code, what it reports there, and whether it has
  read standard input by then. Parsing and decoding are arguments.
\<close>

datatype sql_report =
    MissingQuery
  | ParseError
  | NotSelect
  | ReadFailed
  | BadInput
  | QueryError sql_error
  | EncodeFailed

datatype 'f sql_exit = Died nat sql_report bool | Finished "'f row list"

datatype parsed = ParseFailed | OtherStatement | ParsedSelect select

definition loadRows ::
    "(string \<Rightarrow> 'f row list option) \<Rightarrow> (string \<Rightarrow> 'f row option) \<Rightarrow> string \<Rightarrow> 'f row list option" where
  "loadRows decode_array decode_object raw =
     (case trim_space raw of [] \<Rightarrow> Some []
      | c # _ \<Rightarrow>
          if c = CHR ''['' then decode_array (trim_space raw)
          else if c = CHR ''{'' then map_option (\<lambda>r. [r]) (decode_object (trim_space raw))
          else None)"

definition sql_main ::
    "'f sql_lib \<Rightarrow> (string \<Rightarrow> parsed) \<Rightarrow> (string \<Rightarrow> 'f row list option) \<Rightarrow> (string \<Rightarrow> 'f row option) \<Rightarrow>
     string list \<Rightarrow> string option \<Rightarrow> bool \<Rightarrow> 'f sql_exit" where
  "sql_main L parse decode_array decode_object argv stdin encodes =
     (case argv of
        _ # query # _ \<Rightarrow>
          (case parse query of
             ParseFailed \<Rightarrow> Died 2 ParseError False
           | OtherStatement \<Rightarrow> Died 2 NotSelect False
           | ParsedSelect sel \<Rightarrow>
               (case stdin of None \<Rightarrow> Died 1 ReadFailed True
                | Some raw \<Rightarrow>
               (case loadRows decode_array decode_object raw of None \<Rightarrow> Died 1 BadInput True
                | Some rows \<Rightarrow>
               (case execSelect L sel rows of Inl e \<Rightarrow> Died 2 (QueryError e) True
                | Inr result \<Rightarrow> if encodes then Finished result else Died 1 EncodeFailed True))))
      | _ \<Rightarrow> Died 2 MissingQuery False)"

end
