(* ===== verification/Sql_Order.thy ===== *)
theory Sql_Order
  imports Sql_Semantics
begin

text \<open>
  GROUP BY, ORDER BY and LIMIT. Grouping is equal to partitioning the rows by key; sorting is
  stated against the documented contract of \<open>sort.SliceStable\<close>, the locale \<open>stable_sorter\<close>,
  which the library's insertion sort meets and which determines the result.
\<close>

section \<open>Grouping\<close>

text \<open>The reference: the keys in order of first appearance, each with the rows that have it.\<close>

definition first_seen :: "'a list \<Rightarrow> 'a list" where
  "first_seen ks = rev (remdups (rev ks))"

definition groups_by :: "('r \<Rightarrow> 'k) \<Rightarrow> ('r \<Rightarrow> 'c) \<Rightarrow> 'r list \<Rightarrow> ('k \<times> 'c \<times> 'r list) list" where
  "groups_by key cols rows =
     map (\<lambda>k. let rs = filter (\<lambda>r. key r = k) rows in (k, cols (hd rs), rs)) (first_seen (map key rows))"

lemma first_seen_snoc:
  "first_seen (ks @ [k]) = (if k \<in> set ks then first_seen ks else first_seen ks @ [k])"
  by (simp add: first_seen_def)

lemma set_first_seen [simp]: "set (first_seen ks) = set ks"
  by (simp add: first_seen_def)

lemma distinct_first_seen [simp]: "distinct (first_seen ks)"
  by (simp add: first_seen_def)

lemma add_new_group: "k \<notin> fst ` set gs \<Longrightarrow> add_to_group k gc r gs = gs @ [(k, gc, [r])]"
  by (induction k gc r gs rule: add_to_group.induct) auto

lemma add_old_group:
  "distinct (map fst gs) \<Longrightarrow> k \<in> fst ` set gs \<Longrightarrow>
   add_to_group k gc r gs = map (\<lambda>(j, c, rs). if j = k then (j, c, rs @ [r]) else (j, c, rs)) gs"
proof (induction k gc r gs rule: add_to_group.induct)
  case (2 k gc r k' gc' rs gs)
  show ?case
  proof (cases "k' = k")
    case True
    with 2(2) have "map (\<lambda>(j, c, rs). if j = k then (j, c, rs @ [r]) else (j, c, rs)) gs = gs"
      by (intro map_idI) force
    with True show ?thesis by simp
  next
    case False
    with 2 show ?thesis by auto
  qed
qed simp

lemma map_fst_groups_by [simp]: "map fst (groups_by key cols rows) = first_seen (map key rows)"
  by (simp add: groups_by_def Let_def comp_def)

lemma fst_groups_by [simp]: "fst ` set (groups_by key cols rows) = key ` set rows"
  using map_fst_groups_by [of key cols rows] by (metis list.set_map set_first_seen)

lemma groups_by_snoc:
  "groups_by key cols (rows @ [r]) = add_to_group (key r) (cols r) r (groups_by key cols rows)"
proof (cases "key r \<in> key ` set rows")
  case True
  have hd: "hd (filter P (rows @ [r])) = hd (filter P rows)" if "\<exists>r \<in> set rows. P r" for P
    using that by (auto simp: hd_append filter_empty_conv)
  have "add_to_group (key r) (cols r) r (groups_by key cols rows) =
      map (\<lambda>(j, c, rs). if j = key r then (j, c, rs @ [r]) else (j, c, rs)) (groups_by key cols rows)"
    using True by (intro add_old_group) simp_all
  also have "\<dots> = groups_by key cols (rows @ [r])"
    using True unfolding groups_by_def map_append list.map first_seen_snoc
    by (auto simp: Let_def hd_append filter_empty_conv)
  finally show ?thesis ..
next
  case False
  then have "filter (\<lambda>x. key x = key r) rows = []" by (auto simp: filter_empty_conv image_iff)
  with False show ?thesis
    by (auto simp: add_new_group) (auto simp: groups_by_def first_seen_snoc Let_def)
qed

lemma make_groups_eq:
  "cols \<noteq> [] \<Longrightarrow> make_groups L cols rows = groups_by (group_key L cols) (group_cols cols) rows"
proof (induction rows rule: rev_induct)
  case Nil
  then show ?case by (simp add: make_groups_def groups_by_def first_seen_def)
next
  case (snoc r rows)
  then show ?case by (simp add: make_groups_def groups_by_snoc)
qed

lemma partition_length:
  "distinct ks \<Longrightarrow> key ` set rows \<subseteq> set ks \<Longrightarrow>
   sum_list (map (\<lambda>k. length (filter (\<lambda>r. key r = k) rows)) ks) = length rows"
proof (induction rows)
  case (Cons r rows)
  have "(\<Sum>k\<leftarrow>ks. length (filter (\<lambda>x. key x = k) (r # rows))) =
      (\<Sum>k\<leftarrow>ks. (if k = key r then 1 else 0) + length (filter (\<lambda>x. key x = k) rows))"
    by (intro arg_cong [of _ _ sum_list] map_cong) auto
  also have "\<dots> = (\<Sum>k\<leftarrow>ks. if k = key r then 1 else 0) + length rows"
    using Cons by (simp add: sum_list_addf)
  also have "(\<Sum>k\<leftarrow>ks. if k = key r then 1 else 0) = (1 :: nat)"
    using Cons.prems by (simp add: sum_list_distinct_conv_sum_set)
  finally show ?case by simp
qed simp

lemma group_rows_Inr:
  "group_rows L ses having gs = Inr out \<Longrightarrow>
   list_all2 (\<lambda>(k, cols, rows) o'. group_row L ses cols rows [] = Inr o')
     (filter (\<lambda>(k, cols, rows). case having of None \<Rightarrow> True
         | Some h \<Rightarrow> evalBoolWith L h (havingResolver L cols rows) = Inr TriTrue) gs) out"
proof (induction L ses having gs arbitrary: out rule: group_rows.induct)
  case (2 L ses having k cols rows gs)
  then show ?case
    by (auto split: sum.splits option.splits if_splits)
qed simp

text \<open>
  C33. GROUP BY partitions the rows. The groups built in one pass over the rows are exactly: the
  printed keys in the order they first appear, each with the rows that have that key, in input
  order, and the columns of the first of them; the groups together have as many rows as the
  input; and an aggregate query returns one row for each group whose HAVING condition is true,
  computed from that group's rows alone, in the order of the groups.
\<close>

theorem group_by_partitions:
  "(cols \<noteq> [] \<longrightarrow> make_groups L cols rows = groups_by (group_key L cols) (group_cols cols) rows) \<and>
   sum_list (map (\<lambda>(k, c, rs). length rs) (make_groups L cols rows)) = length rows \<and>
   (aggregate L sel rows = Inr out \<longrightarrow>
      (\<exists>gcols. group_columns (sel_group_by sel) = Inr gcols \<and>
        list_all2 (\<lambda>(k, c, rs) o'. group_row L (sel_exprs sel) c rs [] = Inr o')
          (filter (\<lambda>(k, c, rs). case sel_having sel of None \<Rightarrow> True
              | Some h \<Rightarrow> evalBoolWith L h (havingResolver L c rs) = Inr TriTrue) (make_groups L gcols rows)) out))"
proof -
  have sum: "sum_list (map (\<lambda>(k, c, rs). length rs) (groups_by key gc rows)) = length rows" for key :: "'a row \<Rightarrow> string" and gc :: "'a row \<Rightarrow> 'a row"
    by (simp add: groups_by_def Let_def comp_def partition_length)
  then have "sum_list (map (\<lambda>(k, c, rs). length rs) (make_groups L cols rows)) = length rows"
    by (cases "cols = []") (simp add: make_groups_def, simp add: make_groups_eq)
  moreover have "\<exists>gcols. group_columns (sel_group_by sel) = Inr gcols \<and>
        list_all2 (\<lambda>(k, c, rs) o'. group_row L (sel_exprs sel) c rs [] = Inr o')
          (filter (\<lambda>(k, c, rs). case sel_having sel of None \<Rightarrow> True
              | Some h \<Rightarrow> evalBoolWith L h (havingResolver L c rs) = Inr TriTrue) (make_groups L gcols rows)) out"
    if "aggregate L sel rows = Inr out"
    using that by (auto simp: aggregate_def dest!: group_rows_Inr split: if_splits sum.splits)
  ultimately show ?thesis using make_groups_eq by blast
qed

definition count_by_c :: select where
  "count_by_c = \<lparr>sel_exprs = [AliasedExpr (FuncExpr ''count'' [StarExpr] False ''count(*)'') ''n''],
     sel_distinct = False, sel_where = None, sel_group_by = [ColName ''c''], sel_having = None,
     sel_order_by = [], sel_limit = None, sel_from = [AliasedTable ''data'' []]\<rparr>"

text \<open>
  The printed key does not tell NULL from the text that NULL prints as: grouping two rows by a column
  that is NULL in one and that text in the other counts them as one group, although comparing
  the first with that text in a condition is unknown, not true.
\<close>

theorem group_key_conflates:
  "execSelect L count_by_c [[(''c'', VNull)], [(''c'', VStr ''<nil>'')]] = Inr [[(''n'', VNum (fl_of_nat L 2))]] \<and>
   evalBoolWith L (ComparisonExpr ''='' (ColName ''c'') (SQLVal OtherVal ''<nil>'')) (rowResolver L [(''c'', VNull)]) =
     Inr TriUnknown"
proof -
  have key: "group_key L [''c''] [(''c'', v)] = sprint (fl_show L) v @ [CHR 0x00]" for v
    by (simp add: group_key_def get_def)
  have two: "fl_of_nat L (Suc (Suc 0)) = fl_of_nat L 2" by (simp add: numeral_2_eq_2)
  show ?thesis
    by (simp add: count_by_c_def key two execSelect_def select_rows_def selectHasAggregate_def aggregate_def make_groups_def
        evalAggOrCol_def computeAgg_def agg_column_def applyLimit_def rowResolver_def literalVal_def evalComparison_def get_def)
qed

section \<open>Ordering\<close>

definition weak_order :: "('a \<Rightarrow> 'a \<Rightarrow> bool) \<Rightarrow> 'a set \<Rightarrow> bool" where
  "weak_order lt A \<longleftrightarrow> (\<forall>a\<in>A. \<forall>b\<in>A. lt a b \<longrightarrow> \<not> lt b a) \<and>
     (\<forall>a\<in>A. \<forall>b\<in>A. \<forall>c\<in>A. \<not> lt b a \<and> \<not> lt c b \<longrightarrow> \<not> lt c a)"

lemma weak_order_asym: "weak_order lt A \<Longrightarrow> a \<in> A \<Longrightarrow> b \<in> A \<Longrightarrow> lt a b \<Longrightarrow> \<not> lt b a"
  unfolding weak_order_def by (drule conjunct1) (drule (1) bspec, drule (1) bspec, erule (1) mp)

lemma weak_order_trans:
  "weak_order lt A \<Longrightarrow> a \<in> A \<Longrightarrow> b \<in> A \<Longrightarrow> c \<in> A \<Longrightarrow> \<not> lt b a \<Longrightarrow> \<not> lt c b \<Longrightarrow> \<not> lt c a"
  unfolding weak_order_def
  by (drule conjunct2) (drule (1) bspec, drule (1) bspec, drule (1) bspec, drule mp, rule conjI)

abbreviation tied :: "('a \<Rightarrow> 'a \<Rightarrow> bool) \<Rightarrow> 'a \<Rightarrow> 'a \<Rightarrow> bool" where
  "tied lt a b \<equiv> \<not> lt a b \<and> \<not> lt b a"

locale stable_sorter =
  fixes srt :: "('a \<Rightarrow> 'a \<Rightarrow> bool) \<Rightarrow> 'a list \<Rightarrow> 'a list"
  assumes srt_perm: "mset (srt lt xs) = mset xs"
    and srt_sorted: "weak_order lt (set xs) \<Longrightarrow> sorted_wrt (\<lambda>a b. \<not> lt b a) (srt lt xs)"
    and srt_stable: "weak_order lt (set xs) \<Longrightarrow> x \<in> set xs \<Longrightarrow>
      filter (tied lt x) (srt lt xs) = filter (tied lt x) xs"

text \<open>A stable sort has only one result.\<close>

lemma stable_unique:
  assumes "mset xs = mset ys" "sorted_wrt (\<lambda>a b. \<not> lt b a) xs" "sorted_wrt (\<lambda>a b. \<not> lt b a) ys"
    and "\<And>x. x \<in> set xs \<Longrightarrow> filter (tied lt x) xs = filter (tied lt x) ys"
    and "\<And>x. x \<in> set xs \<Longrightarrow> \<not> lt x x"
  shows "xs = ys"
  using assms
proof (induction xs arbitrary: ys)
  case (Cons x xs)
  then obtain y ys' where ys: "ys = y # ys'" by (cases ys) simp_all
  have "y \<in> set (x # xs)" "x \<in> set ys" using Cons.prems(1) ys by (metis list.set_intros(1) set_mset_mset)+
  with Cons.prems(2,3,5) ys have "tied lt x y" by auto
  with Cons.prems(4) [of x] Cons.prems(5) [of x] ys have xy: "x = y" by simp
  have "filter (tied lt z) xs = filter (tied lt z) ys'" if "z \<in> set xs" for z
    using Cons.prems(4) [of z] that ys xy by (auto split: if_splits)
  with Cons.prems ys xy have "xs = ys'" by (intro Cons.IH) simp_all
  with ys xy show ?case by simp
qed simp

context stable_sorter
begin

lemma srt_unique:
  assumes "stable_sorter srt'" "weak_order lt (set xs)"
  shows "srt lt xs = srt' lt xs"
proof -
  have set: "set (srt lt xs) = set xs" by (rule mset_eq_setD [OF srt_perm])
  show ?thesis
  proof (rule stable_unique [where lt = lt])
    show "mset (srt lt xs) = mset (srt' lt xs)" by (simp add: srt_perm stable_sorter.srt_perm [OF assms(1)])
    show "sorted_wrt (\<lambda>a b. \<not> lt b a) (srt lt xs)" "sorted_wrt (\<lambda>a b. \<not> lt b a) (srt' lt xs)"
      using srt_sorted stable_sorter.srt_sorted [OF assms(1)] assms(2) by blast+
    show "filter (tied lt x) (srt lt xs) = filter (tied lt x) (srt' lt xs)" if "x \<in> set (srt lt xs)" for x
      using srt_stable [OF assms(2)] stable_sorter.srt_stable [OF assms(1,2)] that unfolding set by simp
    show "\<not> lt x x" if "x \<in> set (srt lt xs)" for x
      using that weak_order_asym [OF assms(2), of x x] unfolding set by blast
  qed
qed

end

text \<open>
  The library's insertion sort: each element moves left past those it is less than. The sorted
  prefix is kept reversed. \<open>sort.SliceStable\<close> is this loop for up to twenty elements.
\<close>

fun move_left :: "('a \<Rightarrow> 'a \<Rightarrow> bool) \<Rightarrow> 'a \<Rightarrow> 'a list \<Rightarrow> 'a list" where
  "move_left lt x [] = [x]"
| "move_left lt x (y # ys) = (if lt x y then y # move_left lt x ys else x # y # ys)"

definition insertion_sort :: "('a \<Rightarrow> 'a \<Rightarrow> bool) \<Rightarrow> 'a list \<Rightarrow> 'a list" where
  "insertion_sort lt xs = rev (foldl (\<lambda>acc x. move_left lt x acc) [] xs)"

lemma mset_move_left: "mset (move_left lt x ys) = add_mset x (mset ys)"
  by (induction ys) auto

lemma set_move_left: "set (move_left lt x ys) = insert x (set ys)"
  by (induction ys) auto

lemma move_left_sorted:
  "weak_order lt A \<Longrightarrow> insert x (set ys) \<subseteq> A \<Longrightarrow> sorted_wrt (\<lambda>a b. \<not> lt a b) ys \<Longrightarrow>
   sorted_wrt (\<lambda>a b. \<not> lt a b) (move_left lt x ys)"
proof (induction ys)
  case (Cons y ys)
  have asym: "\<not> lt y x" if "lt x y"
    using weak_order_asym [OF Cons.prems(1) _ _ that] Cons.prems(2) by simp
  have trans: "\<not> lt x z" if "\<not> lt x y" "z \<in> set ys" for z
    using weak_order_trans [OF Cons.prems(1), of z y x] Cons.prems(2,3) that by auto
  from Cons asym trans show ?case by (auto simp: set_move_left)
qed simp

lemma move_left_tied:
  "weak_order lt A \<Longrightarrow> insert z (insert x (set ys)) \<subseteq> A \<Longrightarrow> sorted_wrt (\<lambda>a b. \<not> lt a b) ys \<Longrightarrow>
   filter (tied lt z) (move_left lt x ys) = (if tied lt z x then x # filter (tied lt z) ys else filter (tied lt z) ys)"
proof (induction ys)
  case (Cons y ys)
  have "\<not> (tied lt z x \<and> tied lt z y)" if "lt x y"
    using weak_order_trans [OF Cons.prems(1), of y z x] Cons.prems(2) that by auto
  with Cons show ?case by (auto simp: set_move_left)
qed simp

lemma insertion_sort_acc:
  assumes "weak_order lt A" "set xs \<union> set acc \<subseteq> A" "sorted_wrt (\<lambda>a b. \<not> lt a b) acc"
  shows "sorted_wrt (\<lambda>a b. \<not> lt a b) (foldl (\<lambda>acc x. move_left lt x acc) acc xs) \<and>
    (\<forall>z\<in>A. filter (tied lt z) (foldl (\<lambda>acc x. move_left lt x acc) acc xs) =
      rev (filter (tied lt z) xs) @ filter (tied lt z) acc)"
  using assms
proof (induction xs arbitrary: acc)
  case (Cons x xs)
  have "sorted_wrt (\<lambda>a b. \<not> lt a b) (move_left lt x acc)"
    using Cons.prems by (intro move_left_sorted [where A = A]) auto
  then have IH: "sorted_wrt (\<lambda>a b. \<not> lt a b) (foldl (\<lambda>acc x. move_left lt x acc) (move_left lt x acc) xs) \<and>
    (\<forall>z\<in>A. filter (tied lt z) (foldl (\<lambda>acc x. move_left lt x acc) (move_left lt x acc) xs) =
      rev (filter (tied lt z) xs) @ filter (tied lt z) (move_left lt x acc))"
    using Cons.prems by (intro Cons.IH) (auto simp: set_move_left)
  have "filter (tied lt z) (move_left lt x acc) =
      (if tied lt z x then x # filter (tied lt z) acc else filter (tied lt z) acc)" if "z \<in> A" for z
    using Cons.prems that by (intro move_left_tied [where A = A]) auto
  with IH show ?case by simp
qed simp

interpretation ins: stable_sorter insertion_sort
proof
  fix lt :: "'a \<Rightarrow> 'a \<Rightarrow> bool" and xs :: "'a list"
  have "mset (foldl (\<lambda>acc x. move_left lt x acc) acc xs) = mset xs + mset acc" for acc
    by (induction xs arbitrary: acc) (simp_all add: mset_move_left)
  then show "mset (insertion_sort lt xs) = mset xs" by (simp add: insertion_sort_def)
  assume "weak_order lt (set xs)"
  then have acc: "sorted_wrt (\<lambda>a b. \<not> lt a b) (foldl (\<lambda>acc x. move_left lt x acc) [] xs)"
    "\<forall>z\<in>set xs. filter (tied lt z) (foldl (\<lambda>acc x. move_left lt x acc) [] xs) = rev (filter (tied lt z) xs)"
    using insertion_sort_acc [of lt "set xs" xs "[]"] by simp_all
  show "sorted_wrt (\<lambda>a b. \<not> lt b a) (insertion_sort lt xs)"
    using acc(1) by (simp add: insertion_sort_def sorted_wrt_rev)
  show "filter (tied lt x) (insertion_sort lt xs) = filter (tied lt x) xs" if "x \<in> set xs" for x
    using acc(2) that by (simp add: insertion_sort_def rev_filter [symmetric])
qed

text \<open>Comparison functions that order a set, and their lexicographic combination.\<close>

definition consistent :: "('a \<Rightarrow> 'a \<Rightarrow> int) \<Rightarrow> 'a set \<Rightarrow> bool" where
  "consistent f A \<longleftrightarrow> (\<forall>a\<in>A. \<forall>b\<in>A. f a b < 0 \<longleftrightarrow> 0 < f b a) \<and>
     (\<forall>a\<in>A. \<forall>b\<in>A. \<forall>c\<in>A. f a b \<le> 0 \<longrightarrow> f b c \<le> 0 \<longrightarrow> f a c \<le> 0)"

lemma consistentI:
  assumes "\<And>a b. a \<in> A \<Longrightarrow> b \<in> A \<Longrightarrow> f a b < 0 \<longleftrightarrow> 0 < f b a"
    and "\<And>a b c. a \<in> A \<Longrightarrow> b \<in> A \<Longrightarrow> c \<in> A \<Longrightarrow> f a b \<le> 0 \<Longrightarrow> f b c \<le> 0 \<Longrightarrow> f a c \<le> 0"
  shows "consistent f A"
  using assms unfolding consistent_def by blast

lemma consistent_flip: "consistent f A \<Longrightarrow> a \<in> A \<Longrightarrow> b \<in> A \<Longrightarrow> f a b < 0 \<longleftrightarrow> 0 < f b a"
  unfolding consistent_def by blast

lemma consistent_trans:
  "consistent f A \<Longrightarrow> a \<in> A \<Longrightarrow> b \<in> A \<Longrightarrow> c \<in> A \<Longrightarrow> f a b \<le> 0 \<Longrightarrow> f b c \<le> 0 \<Longrightarrow> f a c \<le> 0"
  unfolding consistent_def by blast

lemma consistent_neg:
  assumes "consistent f A"
  shows "consistent (\<lambda>a b. - f a b) A"
proof (rule consistentI)
  fix a b assume "a \<in> A" "b \<in> A"
  with consistent_flip [OF assms, of b a] show "- f a b < 0 \<longleftrightarrow> 0 < - f b a" by simp
next
  fix a b c assume abc: "a \<in> A" "b \<in> A" "c \<in> A" "- f a b \<le> 0" "- f b c \<le> 0"
  then have "f b a \<le> 0" "f c b \<le> 0"
    using consistent_flip [OF assms, of a b] consistent_flip [OF assms, of b c] by auto
  with abc consistent_trans [OF assms, of c b a] consistent_flip [OF assms, of a c] show "- f a c \<le> 0" by auto
qed

lemma consistent_lex:
  assumes f: "consistent f A" and g: "consistent g A"
  shows "consistent (\<lambda>a b. if f a b = 0 then g a b else f a b) A"
proof (rule consistentI)
  fix a b assume "a \<in> A" "b \<in> A"
  with consistent_flip [OF f, of a b] consistent_flip [OF f, of b a] consistent_flip [OF g, of a b]
  show "(if f a b = 0 then g a b else f a b) < 0 \<longleftrightarrow> 0 < (if f b a = 0 then g b a else f b a)"
    by (cases "f a b" "0 :: int" rule: linorder_cases) auto
next
  fix a b c assume abc: "a \<in> A" "b \<in> A" "c \<in> A"
    and le: "(if f a b = 0 then g a b else f a b) \<le> 0" "(if f b c = 0 then g b c else f b c) \<le> 0"
  then have f_le: "f a b \<le> 0" "f b c \<le> 0" "f a c \<le> 0"
    using consistent_trans [OF f, of a b c] by (auto split: if_splits)
  show "(if f a c = 0 then g a c else f a c) \<le> 0"
  proof (cases "f a c = 0")
    case True
    then have "f c a \<le> 0" using consistent_flip [OF f, of a c] abc by auto
    then have "f b a \<le> 0" "f c b \<le> 0"
      using consistent_trans [OF f, of b c a] consistent_trans [OF f, of c a b] abc f_le by auto
    then have "f a b = 0" "f b c = 0"
      using consistent_flip [OF f, of a b] consistent_flip [OF f, of b c] abc f_le by auto
    with le True consistent_trans [OF g, of a b c] abc show ?thesis by simp
  qed (use f_le in simp)
qed

lemma consistent_on: "consistent f (h ` A) \<Longrightarrow> consistent (\<lambda>a b. f (h a) (h b)) A"
  unfolding consistent_def by blast

lemma weak_order_consistent:
  assumes "consistent f A"
  shows "weak_order (\<lambda>a b. f a b < 0) A"
  unfolding weak_order_def
proof (intro conjI ballI impI)
  fix a b assume "a \<in> A" "b \<in> A" "f a b < 0"
  with consistent_flip [OF assms, of a b] show "\<not> f b a < 0" by auto
next
  fix a b c assume abc: "a \<in> A" "b \<in> A" "c \<in> A" "\<not> f b a < 0 \<and> \<not> f c b < 0"
  then have "f a b \<le> 0" "f b c \<le> 0"
    using consistent_flip [OF assms, of b a] consistent_flip [OF assms, of c b] by auto
  with abc consistent_trans [OF assms, of a b c] consistent_flip [OF assms, of c a] show "\<not> f c a < 0" by auto
qed

fun compare_rows :: "'f sql_lib \<Rightarrow> (string \<times> bool) list \<Rightarrow> 'f row \<Rightarrow> 'f row \<Rightarrow> int" where
  "compare_rows L [] a b = 0"
| "compare_rows L ((c, desc) # ks) a b =
     (let d = (if desc then - compareVals L (get a c) (get b c) else compareVals L (get a c) (get b c))
      in if d = 0 then compare_rows L ks a b else d)"

lemma less_row_compare: "less_row L ks a b \<longleftrightarrow> compare_rows L ks a b < 0"
  by (induction L ks a b rule: less_row.induct) (auto simp: Let_def)

lemma compare_rows_consistent:
  "(\<And>c d. (c, d) \<in> set ks \<Longrightarrow> consistent (compareVals L) ((\<lambda>r. get r c) ` A)) \<Longrightarrow> consistent (compare_rows L ks) A"
proof (induction ks)
  case Nil
  show ?case by (rule consistentI) simp_all
next
  case (Cons k ks)
  obtain c desc where k: "k = (c, desc)" by (cases k)
  have on: "consistent (\<lambda>a b. compareVals L (get a c) (get b c)) A"
    using Cons.prems [of c desc] k by (intro consistent_on [where h = "\<lambda>r. get r c"]) simp
  then have "consistent (\<lambda>a b. if desc then - compareVals L (get a c) (get b c) else compareVals L (get a c) (get b c)) A"
    using consistent_neg [OF on] by (cases desc) simp_all
  moreover have "consistent (compare_rows L ks) A" by (rule Cons.IH, rule Cons.prems, rule list.set_intros(2))
  ultimately show ?case using consistent_lex by (simp add: k Let_def fun_eq_iff)
qed

text \<open>Columns whose values the comparison orders: numbers, and texts that are not numbers.\<close>

definition number_column :: "'f sql_lib \<Rightarrow> 'f val set \<Rightarrow> bool" where
  "number_column L V \<longleftrightarrow> (\<exists>X. V \<subseteq> VNum ` X \<and> weak_order (fl_lt L) X)"

definition text_column :: "'f sql_lib \<Rightarrow> 'f val set \<Rightarrow> bool" where
  "text_column L V \<longleftrightarrow> V \<subseteq> VStr ` {s. fl_parse L s = None}"

lemma number_column_consistent:
  assumes "number_column L V"
  shows "consistent (compareVals L) V"
proof -
  from assms obtain X where X: "V \<subseteq> VNum ` X" and w: "weak_order (fl_lt L) X"
    by (auto simp: number_column_def)
  have num: "\<exists>x\<in>X. v = VNum x" if "v \<in> V" for v using X that by blast
  show ?thesis
  proof (rule consistentI)
    fix a b assume "a \<in> V" "b \<in> V"
    then obtain x y where xy: "a = VNum x" "b = VNum y" "x \<in> X" "y \<in> X" using num by blast
    then show "compareVals L a b < 0 \<longleftrightarrow> 0 < compareVals L b a"
      using weak_order_asym [OF w, of x y] by (auto simp: compareVals_def toFloat_def)
  next
    fix a b c assume le: "a \<in> V" "b \<in> V" "c \<in> V" "compareVals L a b \<le> 0" "compareVals L b c \<le> 0"
    then obtain x y z where xyz: "a = VNum x" "b = VNum y" "c = VNum z" "x \<in> X" "y \<in> X" "z \<in> X" using num by metis
    with le have "\<not> fl_lt L y x" "\<not> fl_lt L z y"
      using weak_order_asym [OF w, of x y] weak_order_asym [OF w, of y z]
      by (auto simp: compareVals_def toFloat_def split: if_splits)
    then have "\<not> fl_lt L z x" using weak_order_trans [OF w, of x y z] xyz by blast
    with xyz show "compareVals L a c \<le> 0" by (simp add: compareVals_def toFloat_def)
  qed
qed

lemma text_column_consistent:
  assumes "text_column L V"
  shows "consistent (compareVals L) V"
proof -
  have strs: "\<exists>s. v = VStr s \<and> fl_parse L s = None" if "v \<in> V" for v
    using assms that by (auto simp: text_column_def)
  have cmp: "compareVals L (VStr s) (VStr t) = str_compare s t" if "fl_parse L s = None" for s t
    using that by (simp add: compareVals_def toFloat_def)
  show ?thesis
  proof (rule consistentI)
    fix a b assume "a \<in> V" "b \<in> V"
    then obtain s t where "a = VStr s" "b = VStr t" "fl_parse L s = None" "fl_parse L t = None" using strs by metis
    then show "compareVals L a b < 0 \<longleftrightarrow> 0 < compareVals L b a" by (auto simp: cmp str_compare_def)
  next
    fix a b c assume le: "a \<in> V" "b \<in> V" "c \<in> V" "compareVals L a b \<le> 0" "compareVals L b c \<le> 0"
    then obtain s t u where stu: "a = VStr s" "b = VStr t" "c = VStr u" "fl_parse L s = None" "fl_parse L t = None"
      using strs by metis
    with le have "s \<le> t" "t \<le> u" by (auto simp: cmp str_compare_def split: if_splits)
    then have "s \<le> u" by (rule order_trans)
    with stu show "compareVals L a c \<le> 0" by (auto simp: cmp str_compare_def)
  qed
qed

text \<open>
  ORDER BY sorts. Where every column to order by holds numbers only or non-numeric texts only,
  the result is a permutation of the rows, sorted lexicographically by the columns with each in
  its own direction, rows that tie keep their order, and the result is the one of the library's
  insertion sort whatever the size. The hypothesis on the library is the documented contract of
  \<open>sort.SliceStable\<close>.
\<close>

theorem order_by_sorts:
  assumes "stable_sorter (slice_stable L)"
    and ks: "order_keys ob = Inr ks"
    and cols: "\<And>c d. (c, d) \<in> set ks \<Longrightarrow>
      number_column L ((\<lambda>r. get r c) ` set rows) \<or> text_column L ((\<lambda>r. get r c) ` set rows)"
  shows "\<exists>out. orderBy L rows ob = Inr out \<and> mset out = mset rows \<and>
    sorted_wrt (\<lambda>a b. compare_rows L ks a b \<le> 0) out \<and>
    (\<forall>r \<in> set rows. filter (\<lambda>x. compare_rows L ks r x = 0) out = filter (\<lambda>x. compare_rows L ks r x = 0) rows) \<and>
    out = insertion_sort (less_row L ks) rows"
proof -
  have con: "consistent (compare_rows L ks) (set rows)"
    using cols number_column_consistent text_column_consistent by (intro compare_rows_consistent) blast
  have lt: "less_row L ks = (\<lambda>a b. compare_rows L ks a b < 0)" by (simp add: fun_eq_iff less_row_compare)
  have w: "weak_order (less_row L ks) (set rows)" unfolding lt by (rule weak_order_consistent [OF con])
  have le: "compare_rows L ks a b \<le> 0 \<longleftrightarrow> \<not> less_row L ks b a"
    and tie: "compare_rows L ks a b = 0 \<longleftrightarrow> tied (less_row L ks) a b" if "a \<in> set rows" "b \<in> set rows" for a b
    using consistent_flip [OF con, of a b] consistent_flip [OF con, of b a] that by (auto simp: lt)
  let ?out = "insertion_sort (less_row L ks) rows"
  have perm: "mset ?out = mset rows" by (rule ins.srt_perm)
  then have set: "set ?out = set rows" by (rule mset_eq_setD)
  have "sorted_wrt (\<lambda>a b. compare_rows L ks a b \<le> 0) ?out"
    using ins.srt_sorted [OF w] by (rule sorted_wrt_mono_rel [rotated]) (simp add: le set)
  moreover have "filter (\<lambda>x. compare_rows L ks r x = 0) ?out = filter (\<lambda>x. compare_rows L ks r x = 0) rows"
    if "r \<in> set rows" for r
  proof -
    have "filter (\<lambda>x. compare_rows L ks r x = 0) xs = filter (tied (less_row L ks) r) xs" if "set xs = set rows" for xs
      using tie \<open>r \<in> set rows\<close> that by (intro filter_cong) simp_all
    with ins.srt_stable [OF w that] set show ?thesis by simp
  qed
  moreover have "orderBy L rows ob = Inr ?out"
    using stable_sorter.srt_unique [OF assms(1) ins.stable_sorter_axioms w] ks by (simp add: orderBy_def)
  ultimately show ?thesis using perm by blast
qed

end
