(* ===== verification/Sql_Errors.thy ===== *)
theory Sql_Errors
  imports Sql_Order
begin

text \<open>
  LIMIT and OFFSET, and what a failing query reports. The host returns the report of an exit with
  code 2 to the caller, so it must not carry data: every text in it comes from the query.
\<close>

section \<open>The window\<close>

text \<open>
  LIMIT and OFFSET cut exactly the window asked for: the rows from the offset on, at most as
  many as the row count; a negative offset is an error, and so is a bound that is not an integer
  literal. A negative row count is not an error: it is ignored and all rows from the offset on
  are returned.
\<close>

theorem limit_window:
  "applyLimit (Some \<lparr>li_offset = off, li_rowcount = cnt\<rparr>) out =
     (case map_option intVal off of
        Some (Inl e) \<Rightarrow> Inl e
      | o' \<Rightarrow>
          let k = (case o' of Some (Inr k) \<Rightarrow> k | _ \<Rightarrow> 0)
          in if k < 0 then Inl OffsetNegative
             else if o' \<noteq> None \<and> int (length out) \<le> k then Inr []
             else (case map_option intVal cnt of
                 Some (Inl e) \<Rightarrow> Inl e
               | Some (Inr n) \<Rightarrow> Inr (if n < 0 then drop (nat k) out else take (nat n) (drop (nat k) out))
               | None \<Rightarrow> Inr (drop (nat k) out)))"
  by (cases off; cases cnt)
    (auto simp: applyLimit_def apply_rowcount_def Let_def split: sum.splits)

section \<open>Reports\<close>

text \<open>The texts of a query, and the texts an error carries.\<close>

fun expr_texts :: "expr \<Rightarrow> string list" and sexpr_texts :: "select_expr \<Rightarrow> string list" where
  "expr_texts (ColName c) = [c]"
| "expr_texts (FuncExpr fn es d p) = fn # p # concat (map sexpr_texts es)"
| "expr_texts (SQLVal t s) = [s]"
| "expr_texts (AndExpr l r) = expr_texts l @ expr_texts r"
| "expr_texts (OrExpr l r) = expr_texts l @ expr_texts r"
| "expr_texts (ParenExpr e) = expr_texts e"
| "expr_texts (NotExpr e) = expr_texts e"
| "expr_texts (ComparisonExpr oper l r) = oper # expr_texts l @ expr_texts r"
| "expr_texts _ = []"
| "sexpr_texts (AliasedExpr e as) = as # expr_texts e"
| "sexpr_texts _ = []"

definition select_texts :: "select \<Rightarrow> string list" where
  "select_texts sel =
     concat (map sexpr_texts (sel_exprs sel)) @ concat (map expr_texts (sel_group_by sel)) @
     concat (map (expr_texts \<circ> fst) (sel_order_by sel)) @
     (case sel_where sel of None \<Rightarrow> [] | Some e \<Rightarrow> expr_texts e) @
     (case sel_having sel of None \<Rightarrow> [] | Some e \<Rightarrow> expr_texts e) @
     (case sel_limit sel of None \<Rightarrow> []
      | Some l \<Rightarrow> (case li_offset l of None \<Rightarrow> [] | Some e \<Rightarrow> expr_texts e) @
          (case li_rowcount l of None \<Rightarrow> [] | Some e \<Rightarrow> expr_texts e))"

fun error_texts :: "sql_error \<Rightarrow> string list" where
  "error_texts (AtoiFailed s) = [s]"
| "error_texts (AggregateShape fn) = [fn]"
| "error_texts (DistinctStar fn) = [fn]"
| "error_texts (UnsupportedAggregate fn) = [fn]"
| "error_texts (UnsupportedOperator oper) = [oper]"
| "error_texts (ParseFloatFailed s) = [s]"
| "error_texts _ = []"

definition blames :: "string list \<Rightarrow> (sql_error, 'a) result \<Rightarrow> bool" where
  "blames texts res \<longleftrightarrow> (\<forall>e. res = Inl e \<longrightarrow> set (error_texts e) \<subseteq> set texts)"

lemma blamesI: "(\<And>e. res = Inl e \<Longrightarrow> set (error_texts e) \<subseteq> set texts) \<Longrightarrow> blames texts res"
  by (simp add: blames_def)

lemma blames_mono: "blames ts res \<Longrightarrow> set ts \<subseteq> set us \<Longrightarrow> blames us res"
  unfolding blames_def by blast

lemma blames_Inr [simp]: "blames ts (Inr x)" by (simp add: blames_def)

lemma blames_Inl [simp]: "blames ts (Inl e) \<longleftrightarrow> set (error_texts e) \<subseteq> set ts" by (simp add: blames_def)

lemma blames_bind:
  "blames ts res \<Longrightarrow> (\<And>x. res = Inr x \<Longrightarrow> blames ts (f x)) \<Longrightarrow> blames ts (case res of Inl e \<Rightarrow> Inl e | Inr x \<Rightarrow> f x)"
  by (cases res) simp_all

lemma blames_literal: "blames (expr_texts e) (literalVal L e)"
  by (cases e) (auto simp: literalVal_def split: option.splits)

lemma blames_row: "blames (expr_texts e) (rowResolver L r e)"
  using blames_literal [of e L] by (cases e) (simp_all add: rowResolver_def)

lemma blames_agg: "blames (fn # ts) (computeAgg L fn es d rows)"
proof -
  have "blames (fn # ts) (agg_column fn es)"
    by (auto simp: agg_column_def split: list.splits select_expr.splits expr.splits)
  then show ?thesis unfolding computeAgg_def
    by (rule blames_bind) (simp add: case_prod_beta Let_def)
qed

lemma blames_having: "blames (expr_texts e) (havingResolver L cols rows e)"
  using blames_literal [of e L] by (cases e) (simp_all add: havingResolver_def blames_agg)

lemma blames_comparison:
  assumes "\<And>e. blames (expr_texts e) (val e)"
  shows "blames (expr_texts (ComparisonExpr oper l r)) (evalComparison L oper l r val)"
  unfolding evalComparison_def
  by (intro blames_bind blames_mono [OF assms]) (auto simp: Let_def)

lemma blames_connective:
  assumes "blames ts l" "blames us r"
  shows "blames (ts @ us) (case l of Inl e \<Rightarrow> Inl e
     | Inr a \<Rightarrow> if a = t then Inr t else (case r of Inl e \<Rightarrow> Inl e | Inr b \<Rightarrow> Inr (f a b)))"
  using assms by (auto simp: blames_def split: sum.splits)

lemma blames_eval:
  assumes "\<And>e. blames (expr_texts e) (val e)"
  shows "blames (expr_texts e) (evalBoolWith L e val)"
  using assms
proof (induction L e val rule: evalBoolWith.induct)
  case (1 L l r val)
  have l: "blames (expr_texts l) (evalBoolWith L l val)" by (rule 1(1) [OF 1(3)])
  show ?case
  proof (cases "\<exists>a. evalBoolWith L l val = Inr a \<and> a \<noteq> TriFalse")
    case True
    then have "blames (expr_texts r) (evalBoolWith L r val)" using 1(2) [OF _ _ 1(3)] by blast
    with l show ?thesis unfolding evalBoolWith.simps expr_texts.simps by (rule blames_connective)
  next
    case False
    with l show ?thesis by (auto simp: blames_def split: sum.splits)
  qed
next
  case (2 L l r val)
  have l: "blames (expr_texts l) (evalBoolWith L l val)" by (rule 2(1) [OF 2(3)])
  show ?case
  proof (cases "\<exists>a. evalBoolWith L l val = Inr a \<and> a \<noteq> TriTrue")
    case True
    then have "blames (expr_texts r) (evalBoolWith L r val)" using 2(2) [OF _ _ 2(3)] by blast
    with l show ?thesis unfolding evalBoolWith.simps expr_texts.simps by (rule blames_connective)
  next
    case False
    with l show ?thesis by (auto simp: blames_def split: sum.splits)
  qed
next
  case (4 L e val)
  from 4(1) [OF 4(2)] show ?case by (auto simp: blames_def split: sum.splits)
next
  case (5 L oper l r val)
  from blames_comparison [OF 5] show ?case by simp
qed simp_all

lemma blames_where: "blames (expr_texts e) (where_rows L e rs)"
proof (induction rs)
  case (Cons r rs)
  have "blames (expr_texts e) (evalBoolWith L e (rowResolver L r))" by (rule blames_eval) (rule blames_row)
  with Cons show ?case by (auto split: sum.splits)
qed simp

lemma blames_project: "blames ts (project ses rows)"
proof -
  have "project_row ses r out = Inl e \<Longrightarrow> error_texts e = []" for r :: "'a row" and out e
    by (induction ses r out rule: project_row.induct) auto
  then have "blames ts (map_res (\<lambda>r. project_row ses r []) rows)"
    by (induction rows) (auto simp: blames_def split: sum.splits)
  then show ?thesis by (simp add: project_def)
qed

lemma blames_group_row: "blames (concat (map sexpr_texts ses)) (group_row L ses cols rows out)"
proof (induction L ses cols rows out rule: group_row.induct)
  case (2 L e as ses cols rows out)
  have "blames (expr_texts e) (evalAggOrCol L e as cols rows)"
    by (cases e) (auto simp: evalAggOrCol_def blames_agg intro!: blames_bind)
  with 2 show ?case by (fastforce simp: blames_def split: sum.splits)
qed simp_all

lemma blames_group_rows:
  "blames (concat (map sexpr_texts ses) @ (case having of None \<Rightarrow> [] | Some e \<Rightarrow> expr_texts e)) (group_rows L ses having gs)"
proof (induction L ses having gs rule: group_rows.induct)
  case (2 L ses having k cols rows gs)
  let ?h = "case having of None \<Rightarrow> Inr TriTrue | Some h \<Rightarrow> evalBoolWith L h (havingResolver L cols rows)"
  have "blames (case having of None \<Rightarrow> [] | Some e \<Rightarrow> expr_texts e) ?h"
    using blames_eval [OF blames_having] by (cases having) simp_all
  then show ?case unfolding group_rows.simps
    by (intro blames_bind) (auto intro: blames_mono [OF blames_group_row] blames_mono 2)
qed simp

lemma blames_order: "blames ts (orderBy L rows ob)"
proof -
  have "order_keys ob = Inl e \<Longrightarrow> error_texts e = []" for e
    by (induction ob arbitrary: e rule: order_keys.induct) (auto split: sum.splits)
  then show ?thesis by (auto simp: orderBy_def split: sum.splits)
qed

lemma blames_limit:
  "blames (case lim of None \<Rightarrow> [] | Some l \<Rightarrow> (case li_offset l of None \<Rightarrow> [] | Some e \<Rightarrow> expr_texts e) @
          (case li_rowcount l of None \<Rightarrow> [] | Some e \<Rightarrow> expr_texts e)) (applyLimit lim out)"
proof -
  have int: "blames (expr_texts e) (intVal e)" for e
    by (cases e) (auto simp: intVal_def split: option.splits)
  have "blames (case rc of None \<Rightarrow> [] | Some e \<Rightarrow> expr_texts e) (apply_rowcount rc xs)" for rc and xs :: "'a list"
    using int by (auto simp: apply_rowcount_def split: option.splits intro!: blames_bind)
  from this [of "li_rowcount (the lim)"] int [of "the (li_offset (the lim))"] show ?thesis
    by (cases lim; cases "li_offset (the lim)")
      (auto simp: applyLimit_def blames_def split: sum.splits if_splits)
qed

lemma blames_aggregate: "blames (select_texts sel) (aggregate L sel rows)"
proof -
  have cols: "group_columns gs = Inl e \<Longrightarrow> error_texts e = []" for gs e
    by (induction gs arbitrary: e rule: group_columns.induct) (auto split: sum.splits)
  have "blames (select_texts sel) (group_rows L (sel_exprs sel) (sel_having sel) gs)" for gs
    by (rule blames_mono [OF blames_group_rows]) (auto simp: select_texts_def split: option.splits)
  with cols show ?thesis by (auto simp: aggregate_def split: sum.splits)
qed

lemma blames_exec: "blames (select_texts sel) (execSelect L sel rows)"
proof -
  have "blames (select_texts sel) (case sel_where sel of None \<Rightarrow> Inr rows | Some e \<Rightarrow> where_rows L e rows)"
    by (cases "sel_where sel") (auto simp: select_texts_def intro!: blames_mono [OF blames_where])
  moreover have "blames (select_texts sel) (select_rows L sel kept)" for kept
    unfolding select_rows_def using blames_aggregate blames_project
    by (auto intro!: blames_bind)
  moreover have "blames (select_texts sel) (applyLimit (sel_limit sel) out)" for out :: "'a row list"
    by (rule blames_mono [OF blames_limit]) (auto simp: select_texts_def split: option.splits)
  ultimately show ?thesis
    unfolding execSelect_def by (intro blames_bind) (simp_all add: blames_order)
qed

text \<open>
  What the process reports when it exits with code 2, which the host shows to the caller,
  carries no data: either it has not read its input, or the query was a SELECT whose evaluation
  failed, and then every text in the report is a text of the query. A failure that may quote the
  input (reading, decoding or encoding it) exits with code 1.
\<close>

theorem exit_2_reports_query_only:
  assumes "sql_main L parse decode_array decode_object argv stdin encodes = Died code report read"
  shows "(code = 2 \<longrightarrow> read \<longrightarrow> (\<exists>name q rest sel e. argv = name # q # rest \<and> parse q = ParsedSelect sel \<and>
        report = QueryError e \<and> set (error_texts e) \<subseteq> set (select_texts sel))) \<and>
    (report \<in> {ReadFailed, BadInput, EncodeFailed} \<longrightarrow> code = 1)"
proof -
  from assms consider "code = 2" "\<not> read" "report \<notin> {ReadFailed, BadInput, EncodeFailed}"
    | "code = 1"
    | name q rest sel rows e where "argv = name # q # rest" "parse q = ParsedSelect sel"
        "execSelect L sel rows = Inl e" "report = QueryError e"
    by (auto simp: sql_main_def split: list.splits parsed.splits option.splits sum.splits if_splits)
  then show ?thesis
  proof cases
    case 3
    with blames_exec [of sel L rows] have "set (error_texts e) \<subseteq> set (select_texts sel)" by (simp add: blames_def)
    with 3 show ?thesis by simp
  qed simp_all
qed

definition having_query :: select where
  "having_query = \<lparr>sel_exprs = [StarExpr], sel_distinct = False, sel_where = None, sel_group_by = [],
     sel_having = Some (BoolVal True), sel_order_by = [], sel_limit = None, sel_from = [AliasedTable ''data'' []]\<rparr>"

section \<open>Examples\<close>

text \<open>A library with whole numbers for floats and the insertion sort for \<open>sort.SliceStable\<close>.\<close>

definition int_lib :: "int sql_lib" where
  "int_lib = \<lparr>fl_lt = (<), fl_add = (+), fl_div = (div), fl_of_nat = int, fl_parse = atoi, fl_show = fmt_int,
     marshal_val = sprint fmt_int, marshal_row = (\<lambda>r. sprint fmt_int (VObj r)), slice_stable = insertion_sort\<rparr>"

definition ab_row :: "int row" where
  "ab_row = [(''a'', VNum 1), (''b'', VNull)]"

definition ab_cond :: expr where
  "ab_cond = AndExpr (ComparisonExpr ''='' (ColName ''a'') (SQLVal IntVal ''1''))
     (ComparisonExpr ''<'' (ColName ''b'') (SQLVal IntVal ''5''))"

theorem where_is_three_valued_witness:
  "kleene int_lib (rowResolver int_lib ab_row) ab_cond = Some 1 \<and>
   evalBoolWith int_lib ab_cond (rowResolver int_lib ab_row) = Inr TriUnknown"
proof -
  have k: "kleene int_lib (rowResolver int_lib ab_row) ab_cond = Some 1" by code_simp
  with where_is_three_valued [of int_lib "rowResolver int_lib ab_row" ab_cond] obtain t
    where "evalBoolWith int_lib ab_cond (rowResolver int_lib ab_row) = Inr t" "rank t = 1" by blast
  with k show ?thesis by (cases t) simp_all
qed

definition num_rows :: "int row list" where
  "num_rows = [[(''a'', VNum 3), (''b'', VStr ''x'')], [(''a'', VNum 1), (''b'', VStr ''y'')], [(''a'', VNum 2), (''b'', VNull)]]"

definition big_a :: select where
  "big_a = \<lparr>sel_exprs = [AliasedExpr (ColName ''b'') ''c'', AliasedExpr (ColName ''a'') []], sel_distinct = False,
     sel_where = Some (ComparisonExpr ''>'' (ColName ''a'') (SQLVal IntVal ''1'')), sel_group_by = [],
     sel_having = None, sel_order_by = [(ColName ''a'', False)], sel_limit = None, sel_from = [AliasedTable ''data'' []]\<rparr>"

lemma int_lib_sorter: "stable_sorter (slice_stable int_lib)"
  by (simp add: int_lib_def ins.stable_sorter_axioms)


definition count_b :: select where
  "count_b = count_by_c\<lparr>sel_group_by := [ColName ''b'']\<rparr>"

theorem group_by_partitions_witness:
  "make_groups int_lib [''b''] num_rows = groups_by (group_key int_lib [''b'']) (group_cols [''b'']) num_rows \<and>
   aggregate int_lib count_b num_rows = Inr (replicate 3 [(''n'', VNum 1)]) \<and>
   length (make_groups int_lib [''b''] num_rows) = 3"
proof -
  have agg: "aggregate int_lib count_b num_rows = Inr (replicate 3 [(''n'', VNum 1)])" by code_simp
  have cols: "group_columns (sel_group_by count_b) = Inr [''b'']" "sel_having count_b = None"
    by (simp_all add: count_b_def count_by_c_def)
  from group_by_partitions [of "[''b'']" int_lib num_rows count_b "replicate 3 [(''n'', VNum 1)]"] agg cols
  have "make_groups int_lib [''b''] num_rows = groups_by (group_key int_lib [''b'']) (group_cols [''b'']) num_rows"
    "list_all2 (\<lambda>(k, c, rs) o'. group_row int_lib (sel_exprs count_b) c rs [] = Inr o')
       (filter (\<lambda>(k, c, rs). True) (make_groups int_lib [''b''] num_rows)) (replicate 3 [(''n'', VNum 1)])"
    by auto
  with agg show ?thesis using list_all2_lengthD by fastforce
qed

theorem order_by_sorts_witness:
  "\<exists>out. orderBy int_lib num_rows [(ColName ''a'', True)] = Inr out \<and> mset out = mset num_rows \<and>
     out = insertion_sort (less_row int_lib [(''a'', True)]) num_rows"
proof -
  have ks: "order_keys [(ColName ''a'', True)] = Inr [(''a'', True)]" by simp
  have "weak_order (fl_lt int_lib) UNIV" by (auto simp: weak_order_def int_lib_def)
  moreover have "(\<lambda>r. get r ''a'') ` set num_rows \<subseteq> VNum ` UNIV" by (auto simp: num_rows_def get_def)
  ultimately have col: "number_column int_lib ((\<lambda>r. get r ''a'') ` set num_rows)"
    unfolding number_column_def by blast
  from order_by_sorts [OF int_lib_sorter ks, of num_rows] col show ?thesis by auto
qed

theorem exit_2_reports_query_only_witness:
  "sql_main int_lib (\<lambda>_. ParsedSelect having_query) (\<lambda>_. Some num_rows) (\<lambda>_. None)
     [''sql'', ''select * from data having true''] (Some ''[]'') True = Died 2 (QueryError HavingNeedsGroup) True \<and>
   set (error_texts HavingNeedsGroup) \<subseteq> set (select_texts having_query)"
proof -
  have died: "sql_main int_lib (\<lambda>_. ParsedSelect having_query) (\<lambda>_. Some num_rows) (\<lambda>_. None)
     [''sql'', ''select * from data having true''] (Some ''[]'') True = Died 2 (QueryError HavingNeedsGroup) True"
    by code_simp
  with exit_2_reports_query_only [OF died] show ?thesis by auto
qed

end
