(* ===== verification/Operator_Tokens.thy ===== *)
theory Operator_Tokens
  imports Audit_Log
begin

text \<open>
  Operator credentials (\<open>src/internal/optoken/optoken.go\<close>) and the operator surface they open
  (\<open>src/internal/mcp/admin.go\<close>: \<open>OperatorAuth\<close>, \<open>operatorGuard\<close>, the route table and
  \<open>adminMaterializeRef\<close>). The token file is modelled by what reading it gives; SHA-256 is an
  argument, and each operation takes the outcomes of its I/O.
\<close>

section \<open>Tokens\<close>

definition RoleAdmin :: string where "RoleAdmin = ''admin''"
definition RoleAuditor :: string where "RoleAuditor = ''auditor''"
definition LegacyName :: string where "LegacyName = ''legacy-operator-token''"

datatype op_error =
    UnknownRole string
  | InvalidName string
  | ReservedName string
  | NameTaken string
  | NoSuchToken string
  | TokenExpired string time
  | TokensUnreadable
  | TokensGarbled
  | NoRandomness
  | WriteFailed

definition ParseRole :: "string \<Rightarrow> (op_error, string) result" where
  "ParseRole s = (if s = RoleAdmin \<or> s = RoleAuditor then Inr s else Inl (UnknownRole s))"

record op_token =
  ot_name :: string
  ot_role :: string
  ot_sha256 :: string
  ot_created :: time
  ot_expires :: "time option"

definition Expired :: "op_token \<Rightarrow> time \<Rightarrow> bool" where
  "Expired t now \<longleftrightarrow> (case ot_expires t of None \<Rightarrow> False | Some e \<Rightarrow> now > e)"

definition alnum :: "char \<Rightarrow> bool" where
  "alnum c \<longleftrightarrow> (CHR ''a'' \<le> c \<and> c \<le> CHR ''z'') \<or> (CHR ''A'' \<le> c \<and> c \<le> CHR ''Z'') \<or> (CHR ''0'' \<le> c \<and> c \<le> CHR ''9'')"

definition nameRE :: "string \<Rightarrow> bool" where
  "nameRE s \<longleftrightarrow>
     (case s of [] \<Rightarrow> False
      | c # cs \<Rightarrow> alnum c \<and> length cs \<le> 63 \<and> list_all (\<lambda>d. alnum d \<or> d \<in> set ''._-'') cs)"

definition ValidateName :: "string \<Rightarrow> op_error option" where
  "ValidateName name =
     (if \<not> nameRE name then Some (InvalidName name)
      else if name = LegacyName then Some (ReservedName name) else None)"

section \<open>The store\<close>

datatype token_file = NoFile | Unreadable | Garbled | Tokens "op_token list"

text \<open>
  What happens to one operation: whether the file can be read, the random bytes drawn, the clock,
  whether the write lands.
\<close>

record op_io =
  oi_readable :: bool
  oi_random :: "string option"
  oi_now :: time
  oi_written :: bool

text \<open>\<open>os.ReadFile\<close> may fail whatever the file holds.\<close>

definition file_seen :: "bool \<Rightarrow> token_file \<Rightarrow> token_file" where
  "file_seen readable d = (if readable then d else Unreadable)"

definition tok_read :: "token_file \<Rightarrow> (op_error, op_token list) result" where
  "tok_read d =
     (case d of NoFile \<Rightarrow> Inr [] | Unreadable \<Rightarrow> Inl TokensUnreadable | Garbled \<Rightarrow> Inl TokensGarbled
      | Tokens ts \<Rightarrow> Inr ts)"

text \<open>The write is atomic: a temporary file, renamed over the store.\<close>

definition tok_write :: "op_io \<Rightarrow> op_token list \<Rightarrow> token_file \<Rightarrow> token_file \<times> op_error option" where
  "tok_write io ts d = (if oi_written io then (Tokens ts, None) else (d, Some WriteFailed))"

text \<open>Base64 with the URL alphabet and no padding.\<close>

definition b64_char :: "nat \<Rightarrow> char" where
  "b64_char n = ''ABCDEFGHIJKLMNOPQRSTUVWXYZabcdefghijklmnopqrstuvwxyz0123456789-_'' ! (n mod 64)"

fun b64_url :: "string \<Rightarrow> string" where
  "b64_url (a # b # c # cs) =
     (let n = char_code a * 65536 + char_code b * 256 + char_code c
      in b64_char (n div 262144) # b64_char (n div 4096) # b64_char (n div 64) # b64_char n # b64_url cs)"
| "b64_url [a, b] =
     (let n = char_code a * 1024 + char_code b * 4 in [b64_char (n div 4096), b64_char (n div 64), b64_char n])"
| "b64_url [a] = (let n = char_code a * 16 in [b64_char (n div 64), b64_char n])"
| "b64_url [] = []"

definition mintSecret :: "op_io \<Rightarrow> (op_error, string) result" where
  "mintSecret io = (case oi_random io of None \<Rightarrow> Inl NoRandomness | Some b \<Rightarrow> Inr (b64_url b))"

definition hashSecret :: "(string \<Rightarrow> string) \<Rightarrow> string \<Rightarrow> string" where
  "hashSecret sha secret = hex_encode (sha secret)"

definition truncate_second :: "time \<Rightarrow> time" where
  "truncate_second t = t - t mod second"

definition tok_List :: "token_file \<Rightarrow> (op_error, op_token list) result" where
  "tok_List d = tok_read d"

definition tok_Create ::
    "(string \<Rightarrow> string) \<Rightarrow> string \<Rightarrow> string \<Rightarrow> time option \<Rightarrow> op_io \<Rightarrow> token_file \<Rightarrow> token_file \<times> (op_error, string) result" where
  "tok_Create sha name role expires io d =
     (case ValidateName name of Some e \<Rightarrow> (d, Inl e)
      | None \<Rightarrow>
     (case ParseRole role of Inl e \<Rightarrow> (d, Inl e)
      | Inr _ \<Rightarrow>
     (case tok_read (file_seen (oi_readable io) d) of Inl e \<Rightarrow> (d, Inl e)
      | Inr ts \<Rightarrow>
          if list_ex (\<lambda>t. ot_name t = name) ts then (d, Inl (NameTaken name))
          else (case mintSecret io of Inl e \<Rightarrow> (d, Inl e)
          | Inr secret \<Rightarrow>
              (case tok_write io (ts @ [\<lparr>ot_name = name, ot_role = role, ot_sha256 = hashSecret sha secret,
                   ot_created = truncate_second (oi_now io), ot_expires = expires\<rparr>]) d of
                 (d', Some e) \<Rightarrow> (d', Inl e)
               | (d', None) \<Rightarrow> (d', Inr secret))))))"

text \<open>The first token of the name, replaced; the loop over the tokens.\<close>

fun rotate_in ::
    "(string \<Rightarrow> string) \<Rightarrow> string \<Rightarrow> time option \<Rightarrow> op_io \<Rightarrow> op_token list \<Rightarrow> (op_error, op_token list \<times> string) result" where
  "rotate_in sha name expires io [] = Inl (NoSuchToken name)"
| "rotate_in sha name expires io (t # ts) =
     (if ot_name t \<noteq> name
      then (case rotate_in sha name expires io ts of Inl e \<Rightarrow> Inl e | Inr (ts', secret) \<Rightarrow> Inr (t # ts', secret))
      else if expires = None \<and> Expired t (oi_now io) then Inl (TokenExpired name (the (ot_expires t)))
      else (case mintSecret io of Inl e \<Rightarrow> Inl e
        | Inr secret \<Rightarrow>
            Inr (t\<lparr>ot_sha256 := hashSecret sha secret, ot_created := truncate_second (oi_now io),
                ot_expires := (if expires \<noteq> None then expires else ot_expires t)\<rparr> # ts, secret)))"

definition tok_Rotate ::
    "(string \<Rightarrow> string) \<Rightarrow> string \<Rightarrow> time option \<Rightarrow> op_io \<Rightarrow> token_file \<Rightarrow> token_file \<times> (op_error, string) result" where
  "tok_Rotate sha name expires io d =
     (case tok_read (file_seen (oi_readable io) d) of Inl e \<Rightarrow> (d, Inl e)
      | Inr ts \<Rightarrow>
     (case rotate_in sha name expires io ts of Inl e \<Rightarrow> (d, Inl e)
      | Inr (ts', secret) \<Rightarrow>
          (case tok_write io ts' d of (d', Some e) \<Rightarrow> (d', Inl e) | (d', None) \<Rightarrow> (d', Inr secret))))"

definition tok_Revoke :: "string \<Rightarrow> op_io \<Rightarrow> token_file \<Rightarrow> token_file \<times> op_error option" where
  "tok_Revoke name io d =
     (case tok_read (file_seen (oi_readable io) d) of Inl e \<Rightarrow> (d, Some e)
      | Inr ts \<Rightarrow>
          if \<not> list_ex (\<lambda>t. ot_name t = name) ts then (d, Some (NoSuchToken name))
          else tok_write io (filter (\<lambda>t. ot_name t \<noteq> name) ts) d)"

text \<open>The file is what reading it gives at that moment.\<close>

definition Authenticate :: "(string \<Rightarrow> string) \<Rightarrow> token_file \<Rightarrow> string \<Rightarrow> time \<Rightarrow> op_token option" where
  "Authenticate sha d presented now =
     (if presented = [] then None
      else case tok_read d of Inl _ \<Rightarrow> None
      | Inr ts \<Rightarrow>
          (case find (\<lambda>t. ot_sha256 t = hashSecret sha presented) ts of None \<Rightarrow> None
           | Some t \<Rightarrow> if Expired t now then None else Some t))"

section \<open>The operator surface\<close>

record operator_auth =
  oa_legacy :: string
  oa_tokens :: "token_file option"

definition authenticate :: "(string \<Rightarrow> string) \<Rightarrow> operator_auth \<Rightarrow> string \<Rightarrow> time \<Rightarrow> (string \<times> string) option" where
  "authenticate sha a header now =
     (let got = trim_prefix header ''Bearer ''
      in if got = [] then None
         else if oa_legacy a \<noteq> [] \<and> got = oa_legacy a then Some (LegacyName, RoleAdmin)
         else case oa_tokens a of None \<Rightarrow> None
         | Some d \<Rightarrow> map_option (\<lambda>t. (ot_name t, ot_role t)) (Authenticate sha d got now))"

datatype guard_result = Unauthorized | Forbidden string | Handle string

definition operatorGuard :: "(string \<Rightarrow> string) \<Rightarrow> operator_auth \<Rightarrow> bool \<Rightarrow> string \<Rightarrow> time \<Rightarrow> guard_result" where
  "operatorGuard sha a requireAdmin header now =
     (case authenticate sha a header now of None \<Rightarrow> Unauthorized
      | Some (name, role) \<Rightarrow> if requireAdmin \<and> role \<noteq> RoleAdmin then Forbidden name else Handle name)"

text \<open>The name the guard left in the request context, for attribution.\<close>

definition operatorActor :: "string option \<Rightarrow> string" where
  "operatorActor ctx = (case ctx of Some v \<Rightarrow> if v \<noteq> [] then v else ''operator'' | None \<Rightarrow> ''operator'')"

text \<open>\<open>AdminHandler\<close>: the routes, each with its guard; one is open.\<close>

datatype route_guard = AdminOnly | ReadOnly | Open

definition AdminHandler :: "(string \<times> string \<times> route_guard) list" where
  "AdminHandler =
     [(''GET'', ''/admin/runs'', ReadOnly),
      (''GET'', ''/admin/audit/verify'', ReadOnly),
      (''GET'', ''/admin/decisions/verify'', ReadOnly),
      (''GET'', ''/admin/refs/{ref}'', AdminOnly),
      (''GET'', ''/admin/metrics'', ReadOnly),
      (''GET'', ''/admin/metrics/prometheus'', ReadOnly),
      (''GET'', ''/admin/tools/rank'', AdminOnly),
      (''GET'', ''/admin/infra'', AdminOnly),
      (''GET'', ''/admin/upstreams'', AdminOnly),
      (''GET'', ''/admin/egress-policy'', AdminOnly),
      (''GET'', ''/admin/mediation'', AdminOnly),
      (''GET'', ''/admin/mediation/denials'', AdminOnly),
      (''POST'', ''/admin/upstreams'', AdminOnly),
      (''GET'', ''/admin/oauth/callback'', Open),
      (''POST'', ''/admin/upstreams/{name}/enable'', AdminOnly),
      (''POST'', ''/admin/upstreams/{name}/disable'', AdminOnly),
      (''POST'', ''/admin/upstreams/{name}/revoke'', AdminOnly),
      (''POST'', ''/admin/upstreams/{name}/refresh'', AdminOnly),
      (''POST'', ''/admin/upstreams/{name}/reauth'', AdminOnly),
      (''POST'', ''/admin/upstreams/{name}/label'', AdminOnly),
      (''POST'', ''/admin/upstreams/{name}/read-only'', AdminOnly),
      (''POST'', ''/admin/upstreams/{name}/audit-capture'', AdminOnly),
      (''POST'', ''/admin/upstreams/{name}/grants'', AdminOnly),
      (''POST'', ''/admin/upstreams/{name}/minimize'', AdminOnly),
      (''POST'', ''/admin/upstreams/{name}/owner'', AdminOnly),
      (''POST'', ''/admin/upstreams/{name}/delegation'', AdminOnly),
      (''GET'', ''/admin/oauth-scopes'', AdminOnly),
      (''GET'', ''/admin/provider-params'', AdminOnly),
      (''GET'', ''/admin/registry'', AdminOnly),
      (''POST'', ''/admin/registry/import'', AdminOnly),
      (''GET'', ''/admin/connection-templates'', AdminOnly),
      (''POST'', ''/admin/connection-templates'', AdminOnly),
      (''DELETE'', ''/admin/connection-templates/{id}'', AdminOnly),
      (''GET'', ''/admin/sso-audience'', AdminOnly),
      (''POST'', ''/admin/sso-audience'', AdminOnly),
      (''DELETE'', ''/admin/sso-audience/{id}'', AdminOnly),
      (''DELETE'', ''/admin/upstreams/{name}'', AdminOnly)]"

text \<open>What a request to a route does: refused, or its handler runs for the named operator.\<close>

definition admin_request :: "(string \<Rightarrow> string) \<Rightarrow> operator_auth \<Rightarrow> route_guard \<Rightarrow> string \<Rightarrow> time \<Rightarrow> guard_result" where
  "admin_request sha a g header now =
     (case g of AdminOnly \<Rightarrow> operatorGuard sha a True header now
      | ReadOnly \<Rightarrow> operatorGuard sha a False header now
      | Open \<Rightarrow> Handle (operatorActor None))"

section \<open>Materializing a reference\<close>

datatype materialize_response =
    RefsDisabled
  | ReasonMissing
  | ReasonTooLong nat
  | UnknownReference
  | Delivered string string

definition maxMaterializeReason :: nat where "maxMaterializeReason = 512"

definition trim_angles :: "string \<Rightarrow> string" where
  "trim_angles s = rev (dropWhile (\<lambda>c. c \<in> set ''<>'') (rev (dropWhile (\<lambda>c. c \<in> set ''<>'') s)))"

definition no_run :: run_record where
  "no_run = \<lparr>rr_kind = [], rr_task_id = [], rr_source_id = [], rr_substrate = [], rr_engine = [], rr_latency_ms = 0,
     rr_input_bytes = 0, rr_output_bytes = 0, rr_raw_bytes = 0, rr_parked_bytes = 0, rr_minimized_bytes = 0,
     rr_context_measured = False, rr_full_schema = 0, rr_schema_digest = 0, rr_summarized = 0, rr_omitted = 0,
     rr_exact_schema = False, rr_fused = False, rr_transform_input = 0, rr_transform_output = 0,
     rr_transform_latency = 0, rr_reffed = False, rr_ref = [], rr_bytes = 0, rr_protected = 0, rr_timestamp = 0,
     rr_other = []\<rparr>"

text \<open>The run recorded; the user and the reason are among the fields that are stored only.\<close>

definition materialize_run :: "(string \<Rightarrow> string \<Rightarrow> string) \<Rightarrow> string \<Rightarrow> string \<Rightarrow> string \<Rightarrow> string \<Rightarrow> run_record" where
  "materialize_run user_reason ref actor reason payload =
     no_run\<lparr>rr_kind := ''materialize'', rr_source_id := ref, rr_other := user_reason actor reason,
       rr_output_bytes := int (length payload), rr_bytes := int (length payload)\<rparr>"

text \<open>The store's answer is an argument: none when there is no store, else the payload if any.\<close>

definition adminMaterializeRef ::
    "audit_lib \<Rightarrow> (string \<Rightarrow> string \<Rightarrow> string) \<Rightarrow> (string \<Rightarrow> (string \<times> string) option) option \<Rightarrow> string \<Rightarrow>
     string \<Rightarrow> string \<Rightarrow> time \<Rightarrow> audit_io \<Rightarrow> audit_log \<times> audit_world \<Rightarrow> (audit_log \<times> audit_world) \<times> materialize_response" where
  "adminMaterializeRef L user_reason store actor raw_reason ref now io sw =
     (case store of None \<Rightarrow> (sw, RefsDisabled)
      | Some get_ref \<Rightarrow>
          let reason = trim_space raw_reason
          in if reason = [] then (sw, ReasonMissing)
          else if length reason > maxMaterializeReason then (sw, ReasonTooLong (length reason))
          else (case get_ref ref of None \<Rightarrow> (sw, UnknownReference)
          | Some (payload, _) \<Rightarrow>
              (case nextRunID (ad_runs (fst sw)) of
                 (rs, run_id) \<Rightarrow>
                   (putRun L ((fst sw)\<lparr>ad_runs := rs\<rparr>) (snd sw) run_id
                      (materialize_run user_reason ref actor reason payload) now io,
                    Delivered (trim_angles ref @ ''.txt'') payload))))"

end
