(* ===== verification/Operator_Safety.thy ===== *)
theory Operator_Safety
  imports Operator_Tokens Run_Window
begin

text \<open>
  The token file implements a list of named secrets that is held in the clear: an operator is
  whoever presents the current secret of a live name. The surface behind it: which routes each
  role reaches, and that every delivery of a reference is on record.
\<close>

section \<open>The store as a list of secrets\<close>

record op_entry =
  oe_name :: string
  oe_role :: string
  oe_secret :: string
  oe_created :: time
  oe_expires :: "time option"

definition conceal :: "(string \<Rightarrow> string) \<Rightarrow> op_entry \<Rightarrow> op_token" where
  "conceal sha e = \<lparr>ot_name = oe_name e, ot_role = oe_role e, ot_sha256 = hashSecret sha (oe_secret e),
     ot_created = oe_created e, ot_expires = oe_expires e\<rparr>"

definition entry_expired :: "op_entry \<Rightarrow> time \<Rightarrow> bool" where
  "entry_expired e now \<longleftrightarrow> (case oe_expires e of None \<Rightarrow> False | Some x \<Rightarrow> x < now)"

datatype tok_op =
    OpCreate string string "time option" op_io
  | OpRotate string "time option" op_io
  | OpRevoke string op_io

fun tok_step :: "(string \<Rightarrow> string) \<Rightarrow> token_file \<Rightarrow> tok_op \<Rightarrow> token_file" where
  "tok_step sha d (OpCreate name role expires io) = fst (tok_Create sha name role expires io d)"
| "tok_step sha d (OpRotate name expires io) = fst (tok_Rotate sha name expires io d)"
| "tok_step sha d (OpRevoke name io) = fst (tok_Revoke name io d)"

definition renew :: "time option \<Rightarrow> op_io \<Rightarrow> op_entry \<Rightarrow> op_entry" where
  "renew expires io e = e\<lparr>oe_secret := b64_url (the (oi_random io)), oe_created := truncate_second (oi_now io),
     oe_expires := (if expires = None then oe_expires e else expires)\<rparr>"

fun spec_step :: "op_entry list \<Rightarrow> tok_op \<Rightarrow> op_entry list" where
  "spec_step es (OpCreate name role expires io) =
     (if nameRE name \<and> name \<noteq> LegacyName \<and> role \<in> {RoleAdmin, RoleAuditor} \<and> name \<notin> oe_name ` set es \<and>
         oi_readable io \<and> oi_random io \<noteq> None \<and> oi_written io
      then es @ [\<lparr>oe_name = name, oe_role = role, oe_secret = b64_url (the (oi_random io)),
        oe_created = truncate_second (oi_now io), oe_expires = expires\<rparr>]
      else es)"
| "spec_step es (OpRotate name expires io) =
     (if oi_readable io \<and> oi_random io \<noteq> None \<and> oi_written io \<and>
         (\<forall>e \<in> set es. oe_name e = name \<longrightarrow> expires \<noteq> None \<or> \<not> entry_expired e (oi_now io))
      then map (\<lambda>e. if oe_name e = name then renew expires io e else e) es else es)"
| "spec_step es (OpRevoke name io) = (if oi_readable io \<and> oi_written io then filter (\<lambda>e. oe_name e \<noteq> name) es else es)"

definition store_abs :: "(string \<Rightarrow> string) \<Rightarrow> token_file \<Rightarrow> op_entry list \<Rightarrow> bool" where
  "store_abs sha d es \<longleftrightarrow> tok_read d = Inr (map (conceal sha) es) \<and> distinct (map oe_name es) \<and>
     (\<forall>e \<in> set es. nameRE (oe_name e) \<and> oe_name e \<noteq> LegacyName \<and> oe_role e \<in> {RoleAdmin, RoleAuditor})"

lemma conceal_sel [simp]:
  "ot_name (conceal sha e) = oe_name e" "ot_role (conceal sha e) = oe_role e"
  "ot_sha256 (conceal sha e) = hashSecret sha (oe_secret e)" "ot_expires (conceal sha e) = oe_expires e"
  "Expired (conceal sha e) now = entry_expired e now"
  by (simp_all add: conceal_def Expired_def entry_expired_def split: option.splits)

lemma renew_sel [simp]: "oe_name (renew expires io e) = oe_name e" "oe_role (renew expires io e) = oe_role e"
  by (simp_all add: renew_def)

lemma conceal_renew:
  assumes "oi_random io = Some b"
  shows "(conceal sha e)\<lparr>ot_sha256 := hashSecret sha (b64_url b), ot_created := truncate_second (oi_now io),
      ot_expires := oe_expires e\<rparr> = conceal sha (renew None io e)"
    and "(conceal sha e)\<lparr>ot_sha256 := hashSecret sha (b64_url b), ot_created := truncate_second (oi_now io),
      ot_expires := Some x\<rparr> = conceal sha (renew (Some x) io e)"
  using assms by (simp_all add: conceal_def renew_def)

lemma tok_read_Tokens [simp]: "tok_read (Tokens ts) = Inr ts"
  by (simp add: tok_read_def)

lemma file_seen_simps [simp]: "file_seen True d = d" "tok_read (file_seen False d) = Inl TokensUnreadable"
  by (simp_all add: file_seen_def tok_read_def)

lemma create_refines:
  assumes "store_abs sha d es"
  shows "store_abs sha (fst (tok_Create sha name role expires io d)) (spec_step es (OpCreate name role expires io))"
proof -
  have taken: "list_ex (\<lambda>t. ot_name t = name) (map (conceal sha) es) \<longleftrightarrow> name \<in> oe_name ` set es"
    by (auto simp: list_ex_iff)
  show ?thesis
    using assms
    by (cases "oi_readable io") (auto simp: store_abs_def tok_Create_def ValidateName_def ParseRole_def taken mintSecret_def tok_write_def
        conceal_def split: option.splits)
qed

lemma rotate_in_spec:
  assumes "distinct (map oe_name es)"
  shows "rotate_in sha name expires io (map (conceal sha) es) =
    (if name \<notin> oe_name ` set es then Inl (NoSuchToken name)
     else let e = the (find (\<lambda>e. oe_name e = name) es) in
       if expires = None \<and> entry_expired e (oi_now io) then Inl (TokenExpired name (the (oe_expires e)))
       else (case oi_random io of None \<Rightarrow> Inl NoRandomness
         | Some b \<Rightarrow> Inr (map (conceal sha) (map (\<lambda>e. if oe_name e = name then renew expires io e else e) es), b64_url b)))"
  using assms
proof (induction es)
  case (Cons e es)
  have other: "map (\<lambda>e. if oe_name e = name then renew expires io e else e) es = es" if "oe_name e = name"
  proof (rule map_idI)
    fix x assume "x \<in> set es"
    with Cons.prems that have "oe_name x \<noteq> name" by (auto simp: image_iff)
    then show "(if oe_name x = name then renew expires io x else x) = x" by simp
  qed
  show ?case
  proof (cases "oe_name e = name")
    case True
    with other show ?thesis
      by (auto simp: Let_def mintSecret_def conceal_renew split: option.splits)
  next
    case False
    with Cons show ?thesis by (auto simp: Let_def split: option.splits)
  qed
qed simp

lemma find_unique:
  "distinct (map f xs) \<Longrightarrow> x \<in> set xs \<Longrightarrow> find (\<lambda>y. f y = f x) xs = Some x"
  by (induction xs) (auto simp: image_iff)

lemma rotate_refines:
  assumes abs: "store_abs sha d es"
  shows "store_abs sha (fst (tok_Rotate sha name expires io d)) (spec_step es (OpRotate name expires io))"
proof (cases "oi_readable io \<and> name \<in> oe_name ` set es")
  case False
  then have "map (\<lambda>e. if oe_name e = name then renew expires io e else e) es = es" if "oi_readable io"
    using that by (intro map_idI) auto
  with False abs show ?thesis
    by (cases "oi_readable io") (auto simp: store_abs_def tok_Rotate_def rotate_in_spec)
next
  case True
  then obtain e where e: "e \<in> set es" "oe_name e = name" by blast
  let ?es' = "map (\<lambda>e. if oe_name e = name then renew expires io e else e) es"
  from abs have dist: "distinct (map oe_name es)" by (simp add: store_abs_def)
  with e have found: "find (\<lambda>e. oe_name e = name) es = Some e" using find_unique [of oe_name es e] by simp
  have uniq: "(\<forall>e \<in> set es. oe_name e = name \<longrightarrow> P e) \<longleftrightarrow> P e" for P
    using dist e by (auto simp: distinct_map inj_on_def)
  have names: "map oe_name ?es' = map oe_name es" by simp
  have new: "store_abs sha (Tokens (map (conceal sha) ?es')) ?es'"
    using abs names unfolding store_abs_def by (auto simp del: map_map)
  have rot: "tok_Rotate sha name expires io d =
      (if expires = None \<and> entry_expired e (oi_now io) then (d, Inl (TokenExpired name (the (oe_expires e))))
       else (case oi_random io of None \<Rightarrow> (d, Inl NoRandomness)
         | Some b \<Rightarrow> if oi_written io then (Tokens (map (conceal sha) ?es'), Inr (b64_url b)) else (d, Inl WriteFailed)))"
    using abs True found unfolding store_abs_def
    by (simp add: tok_Rotate_def rotate_in_spec tok_write_def del: map_map split: option.split)
  show ?thesis unfolding spec_step.simps uniq rot using abs new True by (auto simp del: map_map split: option.split)
qed

lemma revoke_refines:
  assumes "store_abs sha d es"
  shows "store_abs sha (fst (tok_Revoke name io d)) (spec_step es (OpRevoke name io))"
proof (cases "name \<in> oe_name ` set es")
  case True
  then have "list_ex (\<lambda>t. ot_name t = name) (map (conceal sha) es)" by (auto simp: list_ex_iff)
  with assms show ?thesis
    by (cases "oi_readable io")
      (auto simp: store_abs_def tok_Revoke_def tok_write_def filter_map comp_def distinct_map_filter)
next
  case False
  then have "filter (\<lambda>e. oe_name e \<noteq> name) es = es" "\<not> list_ex (\<lambda>t. ot_name t = name) (map (conceal sha) es)"
    by (auto simp: list_ex_iff intro!: filter_True)
  with assms show ?thesis by (cases "oi_readable io") (simp_all add: store_abs_def tok_Revoke_def)
qed

interpretation tokens: stepper "\<lambda>(d, es) x. (tok_step sha d x, spec_step es x)" "\<lambda>_. True" "\<lambda>(d, es). store_abs sha d es"
proof
  fix s x assume "case s of (d, es) \<Rightarrow> store_abs sha d es"
  then show "case (case s of (d, es) \<Rightarrow> \<lambda>x. (tok_step sha d x, spec_step es x)) x of (d, es) \<Rightarrow> store_abs sha d es"
    using create_refines rotate_refines revoke_refines by (cases s; cases x) simp_all
qed

definition tok_run :: "(string \<Rightarrow> string) \<Rightarrow> tok_op list \<Rightarrow> token_file" where
  "tok_run sha ops = foldl (tok_step sha) NoFile ops"

definition live_entries :: "tok_op list \<Rightarrow> op_entry list" where
  "live_entries ops = foldl spec_step [] ops"

lemma run_refines: "store_abs sha (tok_run sha ops) (live_entries ops)"
proof -
  have pair: "foldl (\<lambda>(d, es) x. (tok_step sha d x, spec_step es x)) (d, es) ops =
      (foldl (tok_step sha) d ops, foldl spec_step es ops)" for d es
    by (induction ops arbitrary: d es) simp_all
  have "store_abs sha NoFile []" by (simp add: store_abs_def tok_read_def)
  with tokens.run_invar [of sha "(NoFile, [])" ops] show ?thesis
    by (simp add: pair tok_run_def live_entries_def)
qed

section \<open>Who is an operator\<close>

lemma hashSecret_eq: "hashSecret sha p = hashSecret sha q \<longleftrightarrow> sha p = sha q"
  unfolding hashSecret_def by (metis hex_decode_encode option.inject)

lemma find_map_Some: "find P (map f xs) = Some y \<Longrightarrow> \<exists>x \<in> set xs. y = f x \<and> P y"
  by (induction xs) (auto split: if_splits)

lemma authenticate_entry:
  assumes "store_abs sha d es" "Authenticate sha d p now = Some t"
  shows "\<exists>e \<in> set es. t = conceal sha e \<and> sha (oe_secret e) = sha p \<and> \<not> entry_expired e now \<and> p \<noteq> []"
proof -
  from assms obtain t' where t': "find (\<lambda>t. ot_sha256 t = hashSecret sha p) (map (conceal sha) es) = Some t'"
    "t' = t" "\<not> Expired t now" "p \<noteq> []"
    by (auto simp: Authenticate_def store_abs_def split: if_splits option.splits)
  then obtain e where "e \<in> set es" "t = conceal sha e" "hashSecret sha (oe_secret e) = hashSecret sha p"
    using find_map_Some [OF t'(1)] by auto
  with t' show ?thesis by (auto simp: hashSecret_eq)
qed

text \<open>
  C28. An operator is whoever holds a current secret. After any sequence of creations, rotations
  and revocations on the token file, each with any failure to read it, to draw random bytes or to
  write it: the legacy token, when one is configured, authenticates as the break-glass credential with the
  admin role, whatever the file; while the file cannot be read nothing else authenticates; a request
  is authenticated as the break-glass credential only with the legacy token itself, and as a named
  operator only if that name is live, has not expired, has that role, and the bearer value is the
  secret last minted for it (or collides with it under SHA-256); the reserved name is never a named
  operator. Conversely, when the file can be read, the current secret of a live, unexpired name
  authenticates as it if it is not the legacy token and no other live secret has its hash.
\<close>

theorem operator_identity:
  assumes a: "a = \<lparr>oa_legacy = legacy, oa_tokens = Some (file_seen readable (tok_run sha ops))\<rparr>"
    and p: "p = trim_prefix header ''Bearer ''"
  shows "(legacy \<noteq> [] \<longrightarrow> authenticate sha a (''Bearer '' @ legacy) now = Some (LegacyName, RoleAdmin)) \<and>
    (\<not> readable \<and> p \<noteq> legacy \<longrightarrow> authenticate sha a header now = None) \<and>
    (authenticate sha a header now = Some (name, role) \<longrightarrow>
      p \<noteq> [] \<and> (name = LegacyName \<longrightarrow> p = legacy \<and> role = RoleAdmin) \<and>
      (name \<noteq> LegacyName \<longrightarrow> (\<exists>e \<in> set (live_entries ops). oe_name e = name \<and> oe_role e = role \<and>
         role \<in> {RoleAdmin, RoleAuditor} \<and> \<not> entry_expired e now \<and>
         (oe_secret e = p \<or> oe_secret e \<noteq> p \<and> sha (oe_secret e) = sha p)))) \<and>
    (readable \<and> e \<in> set (live_entries ops) \<and> oe_secret e \<noteq> [] \<and> \<not> entry_expired e now \<and> oe_secret e \<noteq> legacy \<and>
       (\<forall>e' \<in> set (live_entries ops). sha (oe_secret e') = sha (oe_secret e) \<longrightarrow> e' = e) \<longrightarrow>
     authenticate sha a (''Bearer '' @ oe_secret e) now = Some (oe_name e, oe_role e))"
proof (intro conjI impI)
  note abs = run_refines [of sha ops]
  let ?es = "live_entries ops"
  have bearer: "trim_prefix (''Bearer '' @ x) ''Bearer '' = x" for x by (simp add: trim_prefix_def)
  have unseen: "Authenticate sha (file_seen False d) q now = None" for d q
    by (simp add: Authenticate_def file_seen_def tok_read_def)
  show "authenticate sha a (''Bearer '' @ legacy) now = Some (LegacyName, RoleAdmin)" if "legacy \<noteq> []"
    using that by (simp add: a authenticate_def bearer Let_def del: append.simps)
  show "authenticate sha a header now = None" if "\<not> readable \<and> p \<noteq> legacy"
    using that by (simp add: a p authenticate_def Let_def unseen)
  have named: "\<exists>e \<in> set ?es. oe_name e = ot_name t \<and> oe_role e = ot_role t \<and> ot_role t \<in> {RoleAdmin, RoleAuditor} \<and>
      \<not> entry_expired e now \<and> sha (oe_secret e) = sha q \<and> ot_name t \<noteq> LegacyName"
    if "Authenticate sha (file_seen readable (tok_run sha ops)) q now = Some t" for q t
  proof -
    have "readable" using that unseen by (cases readable) auto
    with authenticate_entry [OF abs, of q now t] that abs show ?thesis unfolding store_abs_def by auto
  qed
  {
    assume ok: "authenticate sha a header now = Some (name, role)"
    then show "p \<noteq> []" "name = LegacyName \<Longrightarrow> p = legacy" "name = LegacyName \<Longrightarrow> role = RoleAdmin"
      using named unfolding a p authenticate_def Let_def by (auto split: if_splits)
    show "\<exists>e \<in> set ?es. oe_name e = name \<and> oe_role e = role \<and> role \<in> {RoleAdmin, RoleAuditor} \<and>
        \<not> entry_expired e now \<and> (oe_secret e = p \<or> oe_secret e \<noteq> p \<and> sha (oe_secret e) = sha p)"
      if "name \<noteq> LegacyName"
      using ok named that unfolding a p authenticate_def Let_def by (auto split: if_splits)
  }
  assume "readable \<and> e \<in> set ?es \<and> oe_secret e \<noteq> [] \<and> \<not> entry_expired e now \<and> oe_secret e \<noteq> legacy \<and>
    (\<forall>e' \<in> set ?es. sha (oe_secret e') = sha (oe_secret e) \<longrightarrow> e' = e)"
  then have readable and e: "e \<in> set ?es" "oe_secret e \<noteq> []" "\<not> entry_expired e now" "oe_secret e \<noteq> legacy"
    and uniq: "\<forall>e' \<in> set ?es. sha (oe_secret e') = sha (oe_secret e) \<longrightarrow> e' = e" by blast+
  obtain t where t: "find (\<lambda>t. ot_sha256 t = hashSecret sha (oe_secret e)) (map (conceal sha) ?es) = Some t"
    using e(1) by (cases "find (\<lambda>t. ot_sha256 t = hashSecret sha (oe_secret e)) (map (conceal sha) ?es)")
      (auto simp: find_None_iff)
  then obtain e' where "e' \<in> set ?es" "t = conceal sha e'" "sha (oe_secret e') = sha (oe_secret e)"
    using find_map_Some [OF t] by (auto simp: hashSecret_eq)
  with uniq have "t = conceal sha e" by blast
  with t e(2,3) abs have "Authenticate sha (tok_run sha ops) (oe_secret e) now = Some (conceal sha e)"
    by (simp add: Authenticate_def store_abs_def)
  with e(2,4) \<open>readable\<close> show "authenticate sha a (''Bearer '' @ oe_secret e) now = Some (oe_name e, oe_role e)"
    by (simp add: a authenticate_def Let_def bearer del: append.simps)
qed

section \<open>The surface\<close>

text \<open>
  Roles bound what an operator can do. Every route of the admin surface but the OAuth callback
  is guarded; every route with a method other than GET, and the one that materializes references,
  runs its handler only for an authenticated operator with the admin role; an auditor's handler
  runs on the five observability routes only; and with no credential configured no guarded
  handler runs.
\<close>

theorem admin_surface:
  assumes route: "(meth, path, g) \<in> set AdminHandler" and run: "admin_request sha a g header now = Handle name"
  shows "path = ''/admin/oauth/callback'' \<or>
    ((\<exists>role. authenticate sha a header now = Some (name, role) \<and>
       (meth \<noteq> ''GET'' \<or> path = ''/admin/refs/{ref}'' \<longrightarrow> role = RoleAdmin) \<and>
       (role \<noteq> RoleAdmin \<longrightarrow> path \<in> {''/admin/runs'', ''/admin/audit/verify'', ''/admin/decisions/verify'',
          ''/admin/metrics'', ''/admin/metrics/prometheus''})) \<and>
     \<not> (oa_legacy a = [] \<and> oa_tokens a = None))"
proof -
  have shape: "list_all (\<lambda>(m, p, g).
      (g = Open \<longrightarrow> p = ''/admin/oauth/callback'') \<and>
      (g = ReadOnly \<longrightarrow> m = ''GET'' \<and> p \<in> {''/admin/runs'', ''/admin/audit/verify'', ''/admin/decisions/verify'',
          ''/admin/metrics'', ''/admin/metrics/prometheus''})) AdminHandler"
    by (simp add: AdminHandler_def)
  then have "(g = Open \<longrightarrow> path = ''/admin/oauth/callback'') \<and>
      (g = ReadOnly \<longrightarrow> meth = ''GET'' \<and> path \<in> {''/admin/runs'', ''/admin/audit/verify'', ''/admin/decisions/verify'',
          ''/admin/metrics'', ''/admin/metrics/prometheus''})"
    using route unfolding list_all_iff by fastforce
  moreover from run have "\<exists>role. authenticate sha a header now = Some (name, role) \<and> (g = AdminOnly \<longrightarrow> role = RoleAdmin)"
    if "g \<noteq> Open" using that
    by (cases g) (auto simp: admin_request_def operatorGuard_def split: option.splits if_splits)
  moreover have "\<not> (oa_legacy a = [] \<and> oa_tokens a = None)" if "authenticate sha a header now = Some (name, role)" for role
    using that by (auto simp: authenticate_def Let_def split: if_splits option.splits)
  ultimately show ?thesis by (cases g) auto
qed

lemma append_keeps_runs: "ad_runs (fst (appendAudit L s w run_id r io)) = ad_runs s"
  by (auto simp: appendAudit_def writeAuditLine_def Let_def split: prod.splits option.splits audit_write.splits if_splits)

text \<open>
  Every delivery of a reference is on record. When the payload behind a reference is handed to
  an operator, there was a reason of at most 512 bytes, the run store afterwards holds, under
  the next run id, a record of that reference, actor and reason with the size delivered, and that
  record is what is appended to the audit log; in every other case neither the store nor the log
  changes.
\<close>

theorem materialize_recorded:
  assumes wf: "store_wf (ad_runs s)" and cap: "0 < rs_max_kept (ad_runs s)"
    and run: "adminMaterializeRef L user_reason store actor raw_reason ref now io (s, w) = ((s', w'), resp)"
  shows "(case resp of
      Delivered name payload \<Rightarrow>
        (\<exists>get_ref owner. store = Some get_ref \<and> get_ref ref = Some (payload, owner)) \<and>
        trim_space raw_reason \<noteq> [] \<and> length (trim_space raw_reason) \<le> maxMaterializeReason \<and>
        (let run_id = snd (nextRunID (ad_runs s));
             rec = stamp_run now (materialize_run user_reason ref actor (trim_space raw_reason) payload)
         in getRun (ad_runs s') run_id = Some rec \<and> rr_source_id rec = ref \<and>
           rr_other rec = user_reason actor (trim_space raw_reason) \<and> rr_output_bytes rec = int (length payload) \<and>
           (s', w') = appendAudit L (s\<lparr>ad_runs := ad_runs s'\<rparr>) w run_id rec io)
    | _ \<Rightarrow> (s', w') = (s, w))"
proof (cases resp)
  case (Delivered name payload)
  from run obtain get_ref owner rs run_id where steps: "store = Some get_ref" "get_ref ref = Some (payload, owner)"
    "trim_space raw_reason \<noteq> []" "length (trim_space raw_reason) \<le> maxMaterializeReason"
    "nextRunID (ad_runs s) = (rs, run_id)"
    "(s', w') = putRun L (s\<lparr>ad_runs := rs\<rparr>) w run_id (materialize_run user_reason ref actor (trim_space raw_reason) payload) now io"
    by (auto simp: adminMaterializeRef_def Delivered Let_def split: option.splits if_splits prod.splits)
  let ?rec = "stamp_run now (materialize_run user_reason ref actor (trim_space raw_reason) payload)"
  have rs: "store_wf rs" "0 < rs_max_kept rs" using steps(5) wf cap by (auto simp: nextRunID_def Let_def)
  have app: "(s', w') = appendAudit L (s\<lparr>ad_runs := addRunLocked run_id ?rec rs\<rparr>) w run_id ?rec io"
    using steps(6) by (simp add: putRun_def Let_def)
  then have runs: "ad_runs s' = addRunLocked run_id ?rec rs"
    using append_keeps_runs [of L "s\<lparr>ad_runs := addRunLocked run_id ?rec rs\<rparr>" w run_id ?rec io]
    by (simp flip: app)
  have "getRun (addRunLocked run_id ?rec rs) run_id = Some ?rec"
    by (rule getRun_added [OF rs])
  with steps runs app show ?thesis
    by (simp add: Delivered Let_def stamp_run_def materialize_run_def)
qed (use run in \<open>auto simp: adminMaterializeRef_def Let_def split: option.splits if_splits prod.splits\<close>)

section \<open>Examples\<close>

definition good_io :: "string \<Rightarrow> op_io" where
  "good_io rnd = \<lparr>oi_readable = True, oi_random = Some rnd, oi_now = 7 * second, oi_written = True\<rparr>"

definition op_history :: "tok_op list" where
  "op_history = [OpCreate ''ci'' RoleAuditor None (good_io ''abc''), OpCreate ''ops'' RoleAdmin (Some (9 * second)) (good_io ''xyz''),
     OpRotate ''ci'' None (good_io ''def''), OpRevoke ''ops'' (good_io [])]"

definition ci_entry :: op_entry where
  "ci_entry = \<lparr>oe_name = ''ci'', oe_role = RoleAuditor, oe_secret = ''ZGVm'', oe_created = 7 * second, oe_expires = None\<rparr>"

lemma op_history_live: "live_entries op_history = [ci_entry]"
  by (simp add: live_entries_def op_history_def good_io_def ci_entry_def nameRE_def alnum_def less_eq_char_def
      LegacyName_def RoleAdmin_def RoleAuditor_def b64_char_def truncate_second_def renew_def entry_expired_def)

lemma op_history_auth:
  "Authenticate id (tok_run id op_history) p 0 = (if p = ''ZGVm'' then Some (conceal id ci_entry) else None)"
proof -
  have "tok_read (tok_run id op_history) = Inr [conceal id ci_entry]"
    using run_refines [of id op_history] by (simp add: store_abs_def op_history_live)
  moreover have "\<not> entry_expired ci_entry 0" "oe_secret ci_entry = ''ZGVm''" by (simp_all add: ci_entry_def entry_expired_def)
  ultimately show ?thesis by (auto simp: Authenticate_def hashSecret_eq)
qed

theorem operator_identity_witness:
  "authenticate id \<lparr>oa_legacy = ''root'', oa_tokens = Some (file_seen True (tok_run id op_history))\<rparr> ''Bearer ZGVm'' 0 = Some (''ci'', RoleAuditor) \<and>
   authenticate id \<lparr>oa_legacy = ''root'', oa_tokens = Some (file_seen True (tok_run id op_history))\<rparr> ''Bearer YWJj'' 0 = None \<and>
   authenticate id \<lparr>oa_legacy = ''root'', oa_tokens = Some (file_seen False (tok_run id op_history))\<rparr> ''Bearer ZGVm'' 0 = None \<and>
   authenticate id \<lparr>oa_legacy = ''root'', oa_tokens = Some (file_seen False (tok_run id op_history))\<rparr> ''Bearer root'' 0 = Some (LegacyName, RoleAdmin)"
proof -
  have e: "ci_entry \<in> set (live_entries op_history)" "oe_secret ci_entry = ''ZGVm''" "\<not> entry_expired ci_entry 0"
    "oe_name ci_entry = ''ci''" "oe_role ci_entry = RoleAuditor"
    by (simp_all add: op_history_live ci_entry_def entry_expired_def)
  have live: "\<forall>e' \<in> set (live_entries op_history). id (oe_secret e') = id (oe_secret ci_entry) \<longrightarrow> e' = ci_entry"
    by (simp add: op_history_live)
  have p: "''ZGVm'' = trim_prefix ''Bearer ZGVm'' ''Bearer ''" by (simp add: trim_prefix_def)
  note use = operator_identity [where legacy = "''root''" and ops = op_history and now = 0 and e = ci_entry and sha = id, OF refl p]
  have "authenticate id \<lparr>oa_legacy = ''root'', oa_tokens = Some (file_seen True (tok_run id op_history))\<rparr> ''Bearer YWJj'' 0 = None"
    by (simp add: authenticate_def trim_prefix_def op_history_auth)
  with use [of True] use [of False] e live show ?thesis by simp
qed

theorem admin_surface_witness:
  "(''GET'', ''/admin/runs'', ReadOnly) \<in> set AdminHandler \<and>
   admin_request id \<lparr>oa_legacy = [], oa_tokens = Some (tok_run id op_history)\<rparr> ReadOnly ''Bearer ZGVm'' 0 = Handle ''ci'' \<and>
   admin_request id \<lparr>oa_legacy = [], oa_tokens = Some (tok_run id op_history)\<rparr> AdminOnly ''Bearer ZGVm'' 0 = Forbidden ''ci'' \<and>
   (\<exists>role. authenticate id \<lparr>oa_legacy = [], oa_tokens = Some (tok_run id op_history)\<rparr> ''Bearer ZGVm'' 0 = Some (''ci'', role))"
proof -
  let ?a = "\<lparr>oa_legacy = [], oa_tokens = Some (tok_run id op_history)\<rparr>"
  have route: "(''GET'', ''/admin/runs'', ReadOnly) \<in> set AdminHandler" by (simp add: AdminHandler_def)
  have run: "admin_request id ?a ReadOnly ''Bearer ZGVm'' 0 = Handle ''ci''"
    and forb: "admin_request id ?a AdminOnly ''Bearer ZGVm'' 0 = Forbidden ''ci''"
    by (simp_all add: admin_request_def operatorGuard_def authenticate_def trim_prefix_def op_history_auth ci_entry_def
        RoleAdmin_def RoleAuditor_def)
  from admin_surface [OF route run] have "\<exists>role. authenticate id ?a ''Bearer ZGVm'' 0 = Some (''ci'', role)" by simp
  with route run forb show ?thesis by blast
qed

definition empty_log :: audit_log where
  "empty_log = \<lparr>ad_state_dir = [], ad_signer = False, ad_secrets = False, ad_hash = [], ad_chained = 0,
     ad_anchored_at = 0, ad_runs = new_store 10\<rparr>"

theorem materialize_recorded_witness:
  "\<exists>s'. (\<forall>L io w. adminMaterializeRef L (\<lambda>u r. u @ r) (Some (\<lambda>_. Some (''secret data'', []))) ''ops'' '' ticket 7 '' ''<ref_1>'' 5 io
      (empty_log, w) = ((s', w), Delivered ''ref_1.txt'' ''secret data'')) \<and>
    map_option rr_other (getRun (ad_runs s') ''run_1'') = Some ''opsticket 7''"
proof -
  let ?mat = "\<lambda>L io w. adminMaterializeRef L (\<lambda>u r. u @ r) (Some (\<lambda>_. Some (''secret data'', []))) ''ops'' '' ticket 7 '' ''<ref_1>'' 5 io (empty_log, w)"
  let ?rec = "stamp_run 5 (materialize_run (\<lambda>u r. u @ r) ''<ref_1>'' ''ops'' ''ticket 7'' ''secret data'')"
  define s' where "s' = empty_log\<lparr>ad_runs := addRunLocked ''run_1'' ?rec (fst (nextRunID (ad_runs empty_log)))\<rparr>"
  have trim: "trim_space '' ticket 7 '' = ''ticket 7''" by code_simp
  have id: "snd (nextRunID (ad_runs empty_log)) = ''run_1''" by code_simp
  have dlv: "?mat L io w = ((s', w), Delivered ''ref_1.txt'' ''secret data'')" for L io w
    using id by (simp add: adminMaterializeRef_def trim maxMaterializeReason_def trim_angles_def putRun_def appendAudit_def
        auditPath_def empty_log_def s'_def case_prod_beta Let_def)
  have "store_wf (ad_runs empty_log)" "0 < rs_max_kept (ad_runs empty_log)"
    by (simp_all add: empty_log_def new_store_wf) (simp add: new_store_def)
  from materialize_recorded [OF this dlv] have "map_option rr_other (getRun (ad_runs s') ''run_1'') = Some ''opsticket 7''"
    by (simp add: Let_def trim id)
  with dlv show ?thesis by blast
qed

end
