(* ===== verification/Inflight_Safety.thy ===== *)
theory Inflight_Safety
  imports Inflight
begin

text \<open>
  In every reachable state of the cache: it is bounded, at most one execution runs per key, no
  failure is cached, every answer a caller shares is the outcome of an execution of its own
  request (up to a hash collision), and every waiting caller can still be answered.
\<close>

section \<open>The invariant of the cache\<close>

abbreviation wkey :: "(string \<Rightarrow> string) \<Rightarrow> cell \<Rightarrow> string" where
  "wkey sha c \<equiv> inflightKey sha (ce_work c)"

definition cell_ok :: "cell \<Rightarrow> bool" where
  "cell_ok c \<longleftrightarrow> (ce_out c = None) = is_zero (ce_at c) \<and> (ce_closed c \<longrightarrow> ce_out c \<noteq> None)"

definition entry_ok :: "(string \<Rightarrow> string) \<Rightarrow> cell list \<Rightarrow> string \<times> nat \<Rightarrow> bool" where
  "entry_ok sha cs = (\<lambda>(k, i). i < length cs \<and> wkey sha (cs ! i) = k \<and> (\<forall>e. ce_out (cs ! i) \<noteq> Some (FnErr e)))"

definition running_known :: "(string \<Rightarrow> string) \<Rightarrow> (string \<times> nat) list \<Rightarrow> cell list \<Rightarrow> bool" where
  "running_known sha m cs \<longleftrightarrow>
     (\<forall>i < length cs. ce_out (cs ! i) = None \<longrightarrow> map_of m (wkey sha (cs ! i)) = Some i)"

definition cache_inv :: "(string \<Rightarrow> string) \<Rightarrow> cache \<Rightarrow> bool" where
  "cache_inv sha f \<longleftrightarrow>
     distinct (map fst (if_calls f)) \<and> (\<forall>x \<in> set (if_calls f). entry_ok sha (if_cells f) x) \<and>
     length (if_calls f) \<le> maxInflight \<and> running_known sha (if_calls f) (if_cells f) \<and>
     (\<forall>c \<in> set (if_cells f). cell_ok c)"

lemma entry_ok_append: "entry_ok sha cs x \<Longrightarrow> entry_ok sha (cs @ ds) x"
  by (auto simp: entry_ok_def nth_append)

lemma cache_invD:
  assumes "cache_inv sha f"
  shows "distinct (map fst (if_calls f))" "\<And>x. x \<in> set (if_calls f) \<Longrightarrow> entry_ok sha (if_cells f) x"
    "length (if_calls f) \<le> maxInflight" "running_known sha (if_calls f) (if_cells f)"
    "\<And>c. c \<in> set (if_cells f) \<Longrightarrow> cell_ok c"
  using assms by (simp_all add: cache_inv_def)

text \<open>Dropping entries of finished calls keeps the invariant.\<close>

lemma cache_inv_drop:
  assumes inv: "cache_inv sha f"
    and keep: "\<And>k i. (k, i) \<in> set (if_calls f) \<Longrightarrow> ce_out (if_cells f ! i) = None \<Longrightarrow> P (k, i)"
  shows "cache_inv sha (f\<lparr>if_calls := filter P (if_calls f)\<rparr>)"
proof -
  note d = cache_invD [OF inv]
  have "map_of (filter P (if_calls f)) (wkey sha (if_cells f ! i)) = Some i"
    if "i < length (if_cells f)" "ce_out (if_cells f ! i) = None" for i
  proof -
    have "map_of (if_calls f) (wkey sha (if_cells f ! i)) = Some i"
      using d(4) that by (simp add: running_known_def)
    moreover from this have "P (wkey sha (if_cells f ! i), i)" using keep that(2) map_of_SomeD by fastforce
    ultimately show ?thesis using d(1) by (simp add: distinct_fst_filter map_of_eq_Some_iff)
  qed
  moreover have "length (filter P (if_calls f)) \<le> maxInflight"
    using d(3) length_filter_le [of P "if_calls f"] by linarith
  ultimately show ?thesis using d
    unfolding cache_inv_def running_known_def by (simp add: distinct_fst_filter)
qed

lemma cache_inv_sweep: "cache_inv sha f \<Longrightarrow> cache_inv sha (sweepLocked now f)"
  unfolding sweepLocked_def
proof (rule cache_inv_drop)
  fix k i assume "cache_inv sha f" "(k, i) \<in> set (if_calls f)" "ce_out (if_cells f ! i) = None"
  then have "cell_ok (if_cells f ! i)" using cache_invD(2,5) by (fastforce simp: entry_ok_def)
  with \<open>ce_out _ = None\<close> show "case (k, i) of (k, i) \<Rightarrow> let c = if_cells f ! i
      in \<not> (\<not> is_zero (ce_at c) \<and> inflightTTL < time_sub now (ce_at c))"
    by (simp add: cell_ok_def)
qed

lemma sweep_parts [simp]: "if_cells (sweepLocked now f) = if_cells f"
  by (simp add: sweepLocked_def)

lemma sweep_absent: "map_of (if_calls f) k = None \<Longrightarrow> map_of (if_calls (sweepLocked now f)) k = None"
  by (simp add: sweepLocked_def map_of_filter_None)

lemma start_call_inv:
  assumes inv: "cache_inv sha f" and new: "map_of (if_calls f) (inflightKey sha w) = None"
    and start: "start_call (inflightKey sha w) w now f = (f', e)"
  shows "cache_inv sha f' \<and> (\<exists>more. if_cells f' = if_cells f @ more) \<and>
    (case e of Hit i \<Rightarrow> False | Inline \<Rightarrow> True | Wait i \<Rightarrow> i < length (if_cells f') \<and> wkey sha (if_cells f' ! i) = inflightKey sha w)"
proof -
  let ?f = "sweepLocked now f" and ?k = "inflightKey sha w"
  let ?c = "\<lparr>ce_work = w, ce_out = None, ce_at = 0, ce_closed = False\<rparr>"
  note d = cache_invD [OF cache_inv_sweep [OF inv, of now]]
  have absent: "map_of (if_calls ?f) ?k = None" by (rule sweep_absent [OF new])
  show ?thesis
  proof (cases "length (if_calls ?f) \<ge> maxInflight")
    case True
    with start cache_inv_sweep [OF inv, of now] show ?thesis by (auto simp: start_call_def Let_def)
  next
    case False
    with start have res: "e = Wait (length (if_cells f))"
      "f' = ?f\<lparr>if_calls := if_calls ?f @ [(?k, length (if_cells f))], if_cells := if_cells f @ [?c]\<rparr>"
      by (simp_all add: start_call_def Let_def update_new [OF absent])
    have known: "running_known sha (if_calls ?f @ [(?k, length (if_cells f))]) (if_cells f @ [?c])"
      unfolding running_known_def
    proof (intro allI impI)
      fix i assume i: "i < length (if_cells f @ [?c])" "ce_out ((if_cells f @ [?c]) ! i) = None"
      show "map_of (if_calls ?f @ [(?k, length (if_cells f))]) (wkey sha ((if_cells f @ [?c]) ! i)) = Some i"
      proof (cases "i = length (if_cells f)")
        case True
        with absent show ?thesis by (simp add: map_add_def)
      next
        case False
        with i d(4) show ?thesis by (simp add: running_known_def nth_append map_add_def)
      qed
    qed
    have entries: "entry_ok sha (if_cells f @ [?c]) x" if "x \<in> set (if_calls ?f @ [(?k, length (if_cells f))])" for x
    proof (cases "x = (?k, length (if_cells f))")
      case True
      then show ?thesis by (simp add: entry_ok_def)
    next
      case False
      with that have "x \<in> set (if_calls ?f)" by auto
      from d(2) [OF this] show ?thesis unfolding sweep_parts by (rule entry_ok_append)
    qed
    have "?k \<notin> fst ` set (if_calls ?f)" using absent by (simp add: map_of_eq_None_iff)
    then have "cache_inv sha f'"
      unfolding res(2) cache_inv_def using d(1,5) known entries False by (auto simp: cell_ok_def is_zero_def)
    with res show ?thesis by simp
  qed
qed

lemma do_enter_inv:
  assumes inv: "cache_inv sha f" and ent: "do_enter (inflightKey sha w) w now later f = (f', e)"
  shows "cache_inv sha f' \<and> (\<exists>more. if_cells f' = if_cells f @ more) \<and>
    (case e of
       Hit i \<Rightarrow> i < length (if_cells f') \<and> wkey sha (if_cells f' ! i) = inflightKey sha w \<and>
         (\<exists>r. ce_out (if_cells f' ! i) = Some (FnOk r)) \<and> time_sub now (ce_at (if_cells f' ! i)) < inflightTTL
     | Wait i \<Rightarrow> i < length (if_cells f') \<and> wkey sha (if_cells f' ! i) = inflightKey sha w
     | Inline \<Rightarrow> True)"
proof (cases "map_of (if_calls f) (inflightKey sha w)")
  case None
  with ent have "start_call (inflightKey sha w) w later f = (f', e)" by (simp add: do_enter_def)
  from start_call_inv [OF inv None this] show ?thesis by (cases e) auto
next
  case (Some i)
  then have ok: "entry_ok sha (if_cells f) (inflightKey sha w, i)" using cache_invD(2) [OF inv] map_of_SomeD by fastforce
  then have cell: "cell_ok (if_cells f ! i)" using cache_invD(5) [OF inv] by (simp add: entry_ok_def)
  show ?thesis
  proof (cases "\<not> is_zero (ce_at (if_cells f ! i)) \<and> \<not> time_sub now (ce_at (if_cells f ! i)) < inflightTTL")
    case True
    let ?f = "f\<lparr>if_calls := AList.delete (inflightKey sha w) (if_calls f)\<rparr>"
    have del: "AList.delete (inflightKey sha w) (if_calls f) = filter (\<lambda>x. fst x \<noteq> inflightKey sha w) (if_calls f)"
      by (auto simp: AList.delete_eq intro!: filter_cong)
    have "cache_inv sha ?f" unfolding del
    proof (rule cache_inv_drop [OF inv])
      fix k j assume kj: "(k, j) \<in> set (if_calls f)" "ce_out (if_cells f ! j) = None"
      then have "j \<noteq> i" using True cell by (auto simp: cell_ok_def)
      moreover have "map_of (if_calls f) k = Some j" using kj(1) cache_invD(1) [OF inv] by simp
      ultimately show "fst (k, j) \<noteq> inflightKey sha w" using Some by auto
    qed
    moreover have "map_of (if_calls ?f) (inflightKey sha w) = None" by (simp add: delete_conv')
    moreover have "start_call (inflightKey sha w) w later ?f = (f', e)" using ent Some True by (simp add: do_enter_def Let_def)
    ultimately show ?thesis using start_call_inv [of sha ?f w later f' e] by (cases e) auto
  next
    case False
    then have "f' = f \<and> (e = Wait i \<or> e = Hit i \<and> \<not> is_zero (ce_at (if_cells f ! i)) \<and> time_sub now (ce_at (if_cells f ! i)) < inflightTTL)"
      using ent Some by (auto simp: do_enter_def Let_def split: if_splits)
    moreover have "\<exists>r. ce_out (if_cells f ! i) = Some (FnOk r)" if "\<not> is_zero (ce_at (if_cells f ! i))"
      using that cell ok by (cases "ce_out (if_cells f ! i)") (auto simp: cell_ok_def entry_ok_def, metis fn_out.exhaust)
    ultimately show ?thesis using inv ok by (auto simp: entry_ok_def)
  qed
qed

lemma do_finish_inv:
  assumes inv: "cache_inv sha f" and i: "i < length (if_cells f)" "ce_out (if_cells f ! i) = None" and now: "\<not> is_zero now"
  shows "cache_inv sha (do_finish (wkey sha (if_cells f ! i)) i out now f)"
proof -
  note d = cache_invD [OF inv]
  let ?cs = "(if_cells f)[i := (if_cells f ! i)\<lparr>ce_out := Some out, ce_at := now\<rparr>]" and ?k = "wkey sha (if_cells f ! i)"
  have mine: "map_of (if_calls f) ?k = Some i" using d(4) i by (simp add: running_known_def)
  have open_cell: "\<not> ce_closed (if_cells f ! i)" using d(5) [of "if_cells f ! i"] i by (auto simp: cell_ok_def)
  have cells: "cell_ok c" if "c \<in> set ?cs" for c
    using that d(5) now i(1) by (auto simp: cell_ok_def dest!: set_update_subset_insert [THEN subsetD])
  have work: "wkey sha (?cs ! j) = wkey sha (if_cells f ! j)" for j
    using i(1) by (cases "j = i") simp_all
  have other: "ce_out (?cs ! j) = ce_out (if_cells f ! j)" if "j \<noteq> i" for j using that by simp
  have entry: "entry_ok sha ?cs x" if "x \<in> set (if_calls f)" "snd x \<noteq> i \<or> (\<forall>e. out \<noteq> FnErr e)" for x
    using d(2) [OF that(1)] that(2) i(1) work by (cases x; cases "snd x = i") (auto simp: entry_ok_def)
  have known: "running_known sha m ?cs" if "\<And>k. k \<noteq> ?k \<Longrightarrow> map_of m k = map_of (if_calls f) k" for m
    unfolding running_known_def
  proof (intro allI impI)
    fix j assume j: "j < length ?cs" "ce_out (?cs ! j) = None"
    then have "j \<noteq> i" using i(1) by auto
    then have known_j: "map_of (if_calls f) (wkey sha (if_cells f ! j)) = Some j"
      using d(4) j other by (simp add: running_known_def)
    with mine \<open>j \<noteq> i\<close> have "wkey sha (if_cells f ! j) \<noteq> ?k" by auto
    with that known_j work show "map_of m (wkey sha (?cs ! j)) = Some j" by simp
  qed
  show ?thesis
  proof (cases out)
    case (FnOk r)
    with d(1,3) entry known [of "if_calls f"] cells show ?thesis
      by (simp add: do_finish_def cache_inv_def)
  next
    case (FnErr e)
    have sub: "set (AList.delete ?k (if_calls f)) \<subseteq> set (if_calls f)" by (auto simp: AList.delete_eq)
    have "snd x \<noteq> i" if "x \<in> set (AList.delete ?k (if_calls f))" for x
      using that d(2) [of x] by (auto simp: AList.delete_eq entry_ok_def)
    then have "entry_ok sha ?cs x" if "x \<in> set (AList.delete ?k (if_calls f))" for x
      using that sub by (intro entry) auto
    then have "\<forall>x \<in> set (AList.delete ?k (if_calls f)). entry_ok sha ?cs x" ..
    moreover have "length (AList.delete ?k (if_calls f)) \<le> maxInflight"
      using d(3) length_filter_le [of _ "if_calls f"] unfolding AList.delete_eq by (rule order_trans [rotated])
    moreover have "running_known sha (AList.delete ?k (if_calls f)) ?cs" by (rule known) (simp add: delete_conv')
    ultimately show ?thesis using FnErr mine d(1) cells
      by (simp add: do_finish_def cache_inv_def distinct_delete)
  qed
qed

lemma do_close_inv:
  assumes inv: "cache_inv sha f" and i: "i < length (if_cells f)" "ce_out (if_cells f ! i) \<noteq> None"
  shows "cache_inv sha (do_close i f)"
proof -
  note d = cache_invD [OF inv]
  let ?cs = "(if_cells f)[i := (if_cells f ! i)\<lparr>ce_closed := True\<rparr>]"
  have same: "wkey sha (?cs ! j) = wkey sha (if_cells f ! j)" "ce_out (?cs ! j) = ce_out (if_cells f ! j)" for j
    using i(1) by (cases "j = i"; simp)+
  have "entry_ok sha ?cs x" if "x \<in> set (if_calls f)" for x
    using d(2) [OF that] same by (cases x) (simp add: entry_ok_def)
  moreover have "cell_ok c" if "c \<in> set ?cs" for c
    using that d(5) [of c] d(5) [of "if_cells f ! i"] i
    by (auto simp: cell_ok_def dest!: set_update_subset_insert [THEN subsetD])
  moreover have "running_known sha (if_calls f) ?cs" using d(4) same by (simp add: running_known_def)
  ultimately show ?thesis using d(1,3) by (simp add: do_close_def cache_inv_def)
qed

section \<open>Reachable states\<close>

definition flight_inv :: "(string \<Rightarrow> string) \<Rightarrow> flight \<Rightarrow> bool" where
  "flight_inv sha s \<longleftrightarrow> cache_inv sha (fl_cache s) \<and>
     (\<forall>(w, i) \<in> set (fl_waiting s). i < length (cells s) \<and> wkey sha (cells s ! i) = inflightKey sha w) \<and>
     (\<forall>(w, a) \<in> set (fl_answers s). \<forall>i out. a = Shared i out \<longrightarrow>
        i < length (cells s) \<and> ce_out (cells s ! i) = Some out \<and> wkey sha (cells s ! i) = inflightKey sha w)"

text \<open>What later steps keep of a cell: its request, and its outcome once it has one.\<close>

definition grows :: "cell list \<Rightarrow> cell list \<Rightarrow> bool" where
  "grows cs cs' \<longleftrightarrow> length cs \<le> length cs' \<and>
     (\<forall>i < length cs. ce_work (cs' ! i) = ce_work (cs ! i) \<and> (\<forall>out. ce_out (cs ! i) = Some out \<longrightarrow> ce_out (cs' ! i) = Some out))"

lemma grows_refl [simp]: "grows cs cs" by (simp add: grows_def)

lemma grows_append [simp]: "grows cs (cs @ ds)" by (simp add: grows_def nth_append)

lemma grows_finish:
  "i < length (if_cells f) \<Longrightarrow> ce_out (if_cells f ! i) = None \<Longrightarrow> grows (if_cells f) (if_cells (do_finish k i out now f))"
  by (auto simp: grows_def do_finish_def Let_def nth_list_update split: fn_out.splits)

lemma grows_close: "i < length (if_cells f) \<Longrightarrow> grows (if_cells f) (if_cells (do_close i f))"
  by (auto simp: grows_def do_close_def nth_list_update)

lemma flight_inv_grows:
  assumes "flight_inv sha s" and "cache_inv sha f" and "grows (cells s) (if_cells f)"
  shows "flight_inv sha (s\<lparr>fl_cache := f\<rparr>)"
  using assms unfolding flight_inv_def grows_def by fastforce

lemma flight_step_inv:
  assumes "flight_step sha s s'" and inv: "flight_inv sha s"
  shows "flight_inv sha s'"
  using assms(1)
proof cases
  case (hit w now later f i)
  have "cache_inv sha (fl_cache s)" using inv by (simp add: flight_inv_def)
  note ent = do_enter_inv [OF this hit(2)]
  then have "flight_inv sha (s\<lparr>fl_cache := f\<rparr>)" by (intro flight_inv_grows [OF inv]) auto
  with ent show ?thesis unfolding hit(1) flight_inv_def by auto
next
  case (wait w now later f i)
  have "cache_inv sha (fl_cache s)" using inv by (simp add: flight_inv_def)
  note ent = do_enter_inv [OF this wait(2)]
  then have "flight_inv sha (s\<lparr>fl_cache := f\<rparr>)" by (intro flight_inv_grows [OF inv]) auto
  with ent show ?thesis unfolding wait(1) flight_inv_def by auto
next
  case (inline w now later f)
  have "cache_inv sha (fl_cache s)" using inv by (simp add: flight_inv_def)
  note ent = do_enter_inv [OF this inline(2)]
  then have "flight_inv sha (s\<lparr>fl_cache := f\<rparr>)" by (intro flight_inv_grows [OF inv]) auto
  then show ?thesis unfolding inline(1) flight_inv_def by simp
next
  case (finish i now out)
  from inv have "cache_inv sha (fl_cache s)" by (simp add: flight_inv_def)
  from do_finish_inv [OF this finish(2-4)] grows_finish [OF finish(2,3)] show ?thesis
    unfolding finish(1) by (intro flight_inv_grows [OF inv]) auto
next
  case (close i)
  from inv have "cache_inv sha (fl_cache s)" by (simp add: flight_inv_def)
  from do_close_inv [OF this close(2,3)] grows_close [OF close(2)] show ?thesis
    unfolding close(1) by (intro flight_inv_grows [OF inv]) auto
next
  case (deliver w i)
  have "i < length (cells s)" "wkey sha (cells s ! i) = inflightKey sha w" "cell_ok (cells s ! i)"
    using inv deliver(2) cache_invD(5) by (auto simp: flight_inv_def)
  with deliver inv show ?thesis
    unfolding deliver(1) flight_inv_def by (auto simp: cell_ok_def dest: notin_set_remove1)
next
  case (give_up w i)
  with inv show ?thesis unfolding give_up(1) flight_inv_def by (auto dest: notin_set_remove1)
next
  case (inline_done w out canceled)
  with inv show ?thesis unfolding inline_done(1) flight_inv_def by auto
qed

lemma reachable_inv: "flight_reachable sha s \<Longrightarrow> flight_inv sha s"
proof (induction rule: flight_reachable.induct)
  case start
  show ?case by (simp add: flight_inv_def first_flight_def newInflight_def cache_inv_def running_known_def)
next
  case (step s s')
  then show ?case by (blast intro: flight_step_inv)
qed

text \<open>
  C30. A shared answer belongs to the caller's own request. Whenever a caller is answered from a
  shared execution, cached or waited for, that execution has finished with exactly this outcome
  and was started for the same caller, upstream, tool and arguments, or two different requests
  collide under SHA-256; caller, upstream and tool names hold no NUL byte.
\<close>

theorem inflight_isolation:
  assumes "flight_reachable sha s" and "(w, Shared i out) \<in> set (fl_answers s)"
    and "\<forall>v \<in> {w, ce_work (cells s ! i)}. CHR 0x00 \<notin> set (wk_caller v) \<union> set (wk_upstream v) \<union> set (wk_tool v)"
  shows "i < length (cells s) \<and> ce_out (cells s ! i) = Some out \<and>
    (ce_work (cells s ! i) = w \<or>
     inflight_preimage (ce_work (cells s ! i)) \<noteq> inflight_preimage w \<and>
     sha (inflight_preimage (ce_work (cells s ! i))) = sha (inflight_preimage w))"
proof -
  let ?v = "ce_work (cells s ! i)"
  have shared: "i < length (cells s)" "ce_out (cells s ! i) = Some out" "inflightKey sha ?v = inflightKey sha w"
    using reachable_inv [OF assms(1)] assms(2) by (fastforce simp: flight_inv_def)+
  have eq: "sha (inflight_preimage ?v) = sha (inflight_preimage w)"
    using shared(3) unfolding inflightKey_def by (metis hex_decode_encode option.inject)
  have "?v = w" if "inflight_preimage ?v = inflight_preimage w"
  proof -
    from that have "wk_caller ?v @ CHR 0x00 # (wk_upstream ?v @ CHR 0x00 # (wk_tool ?v @ CHR 0x00 # wk_args ?v)) =
        wk_caller w @ CHR 0x00 # (wk_upstream w @ CHR 0x00 # (wk_tool w @ CHR 0x00 # wk_args w))"
      by (simp add: inflight_preimage_def)
    with assms(3) have "wk_caller ?v = wk_caller w \<and> wk_upstream ?v = wk_upstream w \<and> wk_tool ?v = wk_tool w \<and> wk_args ?v = wk_args w"
      by (auto dest!: sep_unique)
    then show ?thesis by simp
  qed
  with shared eq show ?thesis by blast
qed

text \<open>
  The cache is bounded and runs each request once at a time. In every reachable state it has
  at most 256 entries; two executions that have not finished have different keys; and the result
  a caller takes from the cache is a success that is less than 90 seconds old, never a failure.
\<close>

theorem inflight_single_flight:
  assumes "flight_reachable sha s"
  shows "length (calls s) \<le> 256 \<and>
    (\<forall>i j. i < length (cells s) \<and> j < length (cells s) \<and> ce_out (cells s ! i) = None \<and> ce_out (cells s ! j) = None \<and>
       wkey sha (cells s ! i) = wkey sha (cells s ! j) \<longrightarrow> i = j) \<and>
    (\<forall>w now later f i. do_enter (inflightKey sha w) w now later (fl_cache s) = (f, Hit i) \<longrightarrow>
       (\<exists>r. ce_out (if_cells f ! i) = Some (FnOk r)) \<and> time_sub now (ce_at (if_cells f ! i)) < 90 * second)"
proof -
  have inv: "cache_inv sha (fl_cache s)" using reachable_inv [OF assms] by (simp add: flight_inv_def)
  note d = cache_invD [OF inv]
  have "i = j" if "i < length (cells s)" "j < length (cells s)" "ce_out (cells s ! i) = None" "ce_out (cells s ! j) = None"
    "wkey sha (cells s ! i) = wkey sha (cells s ! j)" for i j
    using d(4) that unfolding running_known_def by (metis option.inject)
  moreover have "(\<exists>r. ce_out (if_cells f ! i) = Some (FnOk r)) \<and> time_sub now (ce_at (if_cells f ! i)) < 90 * second"
    if "do_enter (inflightKey sha w) w now later (fl_cache s) = (f, Hit i)" for w now later f i
    using do_enter_inv [OF inv that] by (simp add: inflightTTL_def)
  ultimately show ?thesis using d(3) unfolding maxInflight_def by blast
qed

text \<open>
  C31. No caller is stranded. A caller that waits for an execution can always be answered: the
  execution is either finished or able to finish, whatever its outcome, and after finishing and
  closing its channel the caller is handed exactly that outcome; and it can give up at any time.
\<close>

theorem inflight_no_stranded_caller:
  assumes reach: "flight_reachable sha s" and wait: "(w, i) \<in> set (fl_waiting s)"
  shows "(\<forall>out. ce_out (cells s ! i) \<in> {None, Some out} \<longrightarrow>
      (\<exists>s'. (flight_step sha)\<^sup>*\<^sup>* s s' \<and> (w, Shared i out) \<in> set (fl_answers s'))) \<and>
    (\<exists>s'. flight_step sha s s' \<and> (w, GaveUp) \<in> set (fl_answers s'))"
proof -
  have inv: "flight_inv sha s" by (rule reachable_inv [OF reach])
  then have i: "i < length (cells s)" using wait by (auto simp: flight_inv_def)
  have handed: "\<exists>s'. flight_step sha t s' \<and> (w, Shared i out) \<in> set (fl_answers s')"
    if t: "(w, i) \<in> set (fl_waiting t)" "ce_closed (cells t ! i)" "ce_out (cells t ! i) = Some out" for t out
  proof -
    let ?t = "t\<lparr>fl_waiting := remove1 (w, i) (fl_waiting t), fl_answers := (w, Shared i (the (ce_out (cells t ! i)))) # fl_answers t\<rparr>"
    have "flight_step sha t ?t" by (rule flight_step.deliver [OF t(1,2)])
    moreover have "(w, Shared i out) \<in> set (fl_answers ?t)" using t(3) by simp
    ultimately show ?thesis by blast
  qed
  have closed: "\<exists>s'. (flight_step sha)\<^sup>*\<^sup>* t s' \<and> (w, Shared i out) \<in> set (fl_answers s')"
    if t: "(w, i) \<in> set (fl_waiting t)" "i < length (cells t)" "ce_out (cells t ! i) = Some out" for t out
  proof (cases "ce_closed (cells t ! i)")
    case True
    with handed [OF t(1) _ t(3)] show ?thesis by blast
  next
    case False
    let ?t = "t\<lparr>fl_cache := do_close i (fl_cache t)\<rparr>"
    have "flight_step sha t ?t" using t(2,3) False by (intro flight_step.close) simp_all
    moreover have "(w, i) \<in> set (fl_waiting ?t)" "ce_closed (cells ?t ! i)" "ce_out (cells ?t ! i) = Some out"
      using t by (simp_all add: do_close_def)
    note handed [OF this]
    ultimately show ?thesis by (meson converse_rtranclp_into_rtranclp r_into_rtranclp)
  qed
  have finished: "\<exists>s'. (flight_step sha)\<^sup>*\<^sup>* s s' \<and> (w, Shared i out) \<in> set (fl_answers s')"
    if "ce_out (cells s ! i) = None" for out
  proof -
    let ?t = "s\<lparr>fl_cache := do_finish (wkey sha (cells s ! i)) i out 1 (fl_cache s)\<rparr>"
    have step: "flight_step sha s ?t" using i that by (intro flight_step.finish) (simp_all add: is_zero_def)
    have "length (cells ?t) = length (cells s)" "ce_out (cells ?t ! i) = Some out"
      using i by (auto simp: do_finish_def Let_def split: fn_out.splits)
    with closed [of ?t out] wait i obtain s' where "(flight_step sha)\<^sup>*\<^sup>* ?t s'" "(w, Shared i out) \<in> set (fl_answers s')" by auto
    with step show ?thesis by (meson converse_rtranclp_into_rtranclp)
  qed
  have "flight_step sha s (s\<lparr>fl_waiting := remove1 (w, i) (fl_waiting s), fl_answers := (w, GaveUp) # fl_answers s\<rparr>)"
    by (rule flight_step.give_up [OF wait])
  then have "\<exists>s'. flight_step sha s s' \<and> (w, GaveUp) \<in> set (fl_answers s')" by (intro exI conjI, assumption) simp
  with closed [OF wait i] finished show ?thesis by blast
qed

section \<open>An example run\<close>

definition read_work :: work where
  "read_work = \<lparr>wk_caller = ''as#alice'', wk_upstream = ''crm'', wk_tool = ''get'', wk_args = ''{}''\<rparr>"

definition waiting_flight :: flight where
  "waiting_flight = \<lparr>fl_cache = \<lparr>if_calls = [(inflightKey id read_work, 0)],
     if_cells = [\<lparr>ce_work = read_work, ce_out = None, ce_at = 0, ce_closed = False\<rparr>]\<rparr>,
     fl_waiting = [(read_work, 0)], fl_inline = [], fl_answers = []\<rparr>"

definition done_flight :: flight where
  "done_flight = waiting_flight\<lparr>fl_cache := do_finish (inflightKey id read_work) 0 (FnOk ''data'') 5 (fl_cache waiting_flight)\<rparr>"

definition answered_flight :: flight where
  "answered_flight = done_flight\<lparr>fl_answers := [(read_work, Shared 0 (FnOk ''data''))]\<rparr>"

lemma waiting_reachable: "flight_reachable id waiting_flight"
proof -
  have "do_enter (inflightKey id read_work) read_work 1 1 (fl_cache first_flight) = (fl_cache waiting_flight, Wait 0)"
    by (simp add: do_enter_def start_call_def sweepLocked_def first_flight_def newInflight_def waiting_flight_def maxInflight_def)
  from flight_step.wait [OF this] have "flight_step id first_flight waiting_flight"
    by (simp add: first_flight_def waiting_flight_def)
  with flight_reachable.start show ?thesis by (rule flight_reachable.step)
qed

lemma done_cell: "cells done_flight = [\<lparr>ce_work = read_work, ce_out = Some (FnOk ''data''), ce_at = 5, ce_closed = False\<rparr>]"
  "calls done_flight = [(inflightKey id read_work, 0)]"
  by (simp_all add: done_flight_def waiting_flight_def do_finish_def)

lemma cached_hit: "do_enter (inflightKey id read_work) read_work 9 9 (fl_cache done_flight) = (fl_cache done_flight, Hit 0)"
  by (simp add: do_enter_def done_cell is_zero_def time_sub_def inflightTTL_def)

lemma done_reachable: "flight_reachable id done_flight"
proof -
  have "flight_step id waiting_flight
      (waiting_flight\<lparr>fl_cache := do_finish (wkey id (cells waiting_flight ! 0)) 0 (FnOk ''data'') 5 (fl_cache waiting_flight)\<rparr>)"
    by (intro flight_step.finish) (simp_all add: waiting_flight_def is_zero_def)
  moreover have "wkey id (cells waiting_flight ! 0) = inflightKey id read_work" by (simp add: waiting_flight_def)
  ultimately have "flight_step id waiting_flight done_flight" by (simp add: done_flight_def)
  with waiting_reachable show ?thesis by (rule flight_reachable.step)
qed

lemma answered_reachable: "flight_reachable id answered_flight"
proof -
  have "flight_step id done_flight answered_flight"
    using flight_step.hit [OF cached_hit]
    by (simp add: done_cell answered_flight_def) (simp add: done_flight_def waiting_flight_def)
  with done_reachable show ?thesis by (rule flight_reachable.step)
qed

theorem inflight_isolation_witness:
  "flight_reachable id answered_flight \<and> (read_work, Shared 0 (FnOk ''data'')) \<in> set (fl_answers answered_flight) \<and>
   ce_out (cells answered_flight ! 0) = Some (FnOk ''data'') \<and> ce_work (cells answered_flight ! 0) = read_work"
proof -
  have mem: "(read_work, Shared 0 (FnOk ''data'')) \<in> set (fl_answers answered_flight)" by (simp add: answered_flight_def)
  have same: "ce_work (cells answered_flight ! 0) = read_work" by (simp add: answered_flight_def done_cell)
  then have "\<forall>v \<in> {read_work, ce_work (cells answered_flight ! 0)}.
      CHR 0x00 \<notin> set (wk_caller v) \<union> set (wk_upstream v) \<union> set (wk_tool v)" by (simp add: read_work_def)
  from inflight_isolation [OF answered_reachable mem this] mem same answered_reachable show ?thesis by blast
qed

theorem inflight_single_flight_witness:
  "flight_reachable id done_flight \<and> length (calls done_flight) \<le> 256 \<and>
   (\<exists>r. ce_out (if_cells (fl_cache done_flight) ! 0) = Some (FnOk r))"
  using inflight_single_flight [OF done_reachable] done_reachable cached_hit by blast

theorem inflight_no_stranded_caller_witness:
  "flight_reachable id waiting_flight \<and> (read_work, 0) \<in> set (fl_waiting waiting_flight) \<and>
   (\<exists>s'. (flight_step id)\<^sup>*\<^sup>* waiting_flight s' \<and> (read_work, Shared 0 (FnErr ''503'')) \<in> set (fl_answers s'))"
proof -
  have wait: "(read_work, 0) \<in> set (fl_waiting waiting_flight)" by (simp add: waiting_flight_def)
  have "ce_out (cells waiting_flight ! 0) = None" by (simp add: waiting_flight_def)
  with inflight_no_stranded_caller [OF waiting_reachable wait] wait waiting_reachable show ?thesis by blast
qed

end
