(* ===== verification/Sso_Audience.thy ===== *)
theory Sso_Audience
  imports Safe_Dial "HOL-Library.Product_Lexorder"
begin

text \<open>
  Who may sign in through a federated identity provider: the operator's audience rules
  (\<open>src/internal/auth/ssoaudience.go\<close>) and the validation of a provider sign-in
  (\<open>src/internal/auth/federation.go\<close>). The JWT library, URL parsing and case folding are
  arguments; the rule file is modelled by what reading it gives; each HTTP exchange enters by its
  outcome.
\<close>

record sso_lib = dial_lib +
  equal_fold :: "string \<Rightarrow> string \<Rightarrow> bool"

section \<open>Rules\<close>

definition AudienceGroup :: string where "AudienceGroup = ''group''"
definition AudienceEmail :: string where "AudienceEmail = ''email''"
definition AudienceSubject :: string where "AudienceSubject = ''subject''"
definition maxAudienceRules :: nat where "maxAudienceRules = 512"

record audience_rule =
  ru_kind :: string
  ru_value :: string
  ru_note :: string
  ru_added :: time

definition rule_id :: "audience_rule \<Rightarrow> string" where
  "rule_id r = ru_kind r @ '':'' @ ru_value r"

datatype rule_error =
    NoteTooLong
  | ValueMissing
  | ValueTooLong
  | EmailShape string
  | KindMissing
  | KindUnknown string
  | NotARule string
  | NoRulesDir
  | RulesUnread
  | RulesUndecoded
  | QuotaReached
  | RulesNotWritten

definition normalizeAudienceRule ::
    "'a sso_lib_scheme \<Rightarrow> time \<Rightarrow> audience_rule \<Rightarrow> (rule_error, audience_rule) result" where
  "normalizeAudienceRule L now r0 =
     (let r = r0\<lparr>ru_kind := to_lower L (trim_space (ru_kind r0)), ru_value := trim_space (ru_value r0),
                ru_note := trim_space (ru_note r0)\<rparr>;
          stamp = (\<lambda>r. if is_zero (ru_added r) then r\<lparr>ru_added := now\<rparr> else r)
      in if length (ru_note r) > 256 then Inl NoteTooLong
         else if ru_value r = [] then Inl ValueMissing
         else if length (ru_value r) > 320 then Inl ValueTooLong
         else if ru_kind r = AudienceGroup then Inr (stamp (r\<lparr>ru_value := to_lower L (ru_value r)\<rparr>))
         else if ru_kind r = AudienceEmail
         then (if \<not> contains_sub (ru_value r) ''@'' \<or> has_prefix (ru_value r) ''@'' \<or> has_suffix (ru_value r) ''@''
               then Inl (EmailShape (ru_value r))
               else Inr (stamp (r\<lparr>ru_value := to_lower L (ru_value r)\<rparr>)))
         else if ru_kind r = AudienceSubject then Inr (stamp r)
         else if ru_kind r = [] then Inl KindMissing
         else Inl (KindUnknown (ru_kind r)))"

definition cut_colon :: "string \<Rightarrow> (string \<times> string) option" where
  "cut_colon s = (if CHR '':'' \<in> set s
     then Some (takeWhile (\<lambda>c. c \<noteq> CHR '':'') s, tl (dropWhile (\<lambda>c. c \<noteq> CHR '':'') s)) else None)"

definition ParseAudienceRule :: "'a sso_lib_scheme \<Rightarrow> time \<Rightarrow> string \<Rightarrow> (rule_error, audience_rule) result" where
  "ParseAudienceRule L now spec =
     (case cut_colon spec of None \<Rightarrow> Inl (NotARule spec)
      | Some (kind, v) \<Rightarrow>
          normalizeAudienceRule L now \<lparr>ru_kind = kind, ru_value = v, ru_note = [], ru_added = 0\<rparr>)"

section \<open>The rule file\<close>

datatype rules_file = RulesAbsent | RulesUnreadable | RulesGarbled | RulesDoc "audience_rule list"

record audience_rules =
  ar_path :: string
  ar_file :: rules_file

definition AudienceRulesFile :: string where "AudienceRulesFile = ''sso-audience.json''"

definition AudienceRulesPath :: "string \<Rightarrow> string" where
  "AudienceRulesPath dir = (if dir = [] then [] else path_clean (dir @ ''/'' @ AudienceRulesFile))"

text \<open>The loop of \<open>loadLocked\<close>: records that do not normalize and repeated ids are dropped.\<close>

fun load_rules :: "'a sso_lib_scheme \<Rightarrow> time \<Rightarrow> string list \<Rightarrow> audience_rule list \<Rightarrow> audience_rule list" where
  "load_rules L now seen [] = []"
| "load_rules L now seen (r # rs) =
     (case normalizeAudienceRule L now r of
        Inl _ \<Rightarrow> load_rules L now seen rs
      | Inr r' \<Rightarrow>
          if rule_id r' \<in> set seen then load_rules L now seen rs
          else r' # load_rules L now (rule_id r' # seen) rs)"

definition sortAudienceRules :: "audience_rule list \<Rightarrow> audience_rule list" where
  "sortAudienceRules rs = sort_key (\<lambda>r. (ru_kind r, ru_value r)) rs"

definition loadLocked :: "'a sso_lib_scheme \<Rightarrow> time \<Rightarrow> audience_rules \<Rightarrow> (rule_error, audience_rule list) result" where
  "loadLocked L now a =
     (case ar_file a of
        RulesAbsent \<Rightarrow> Inr []
      | RulesUnreadable \<Rightarrow> Inl RulesUnread
      | RulesGarbled \<Rightarrow> Inl RulesUndecoded
      | RulesDoc raw \<Rightarrow> Inr (sortAudienceRules (load_rules L now [] raw)))"

definition rules_List :: "'a sso_lib_scheme \<Rightarrow> time \<Rightarrow> audience_rules option \<Rightarrow> (rule_error, audience_rule list) result" where
  "rules_List L now ao =
     (case ao of None \<Rightarrow> Inr [] | Some a \<Rightarrow> if ar_path a = [] then Inr [] else loadLocked L now a)"

text \<open>Atomic: a temporary file renamed over the target; a failed write leaves the old document.\<close>

definition rules_write :: "bool \<Rightarrow> audience_rule list \<Rightarrow> audience_rules \<Rightarrow> audience_rules" where
  "rules_write written rs a = (if written then a\<lparr>ar_file := RulesDoc rs\<rparr> else a)"

text \<open>The loop of \<open>Add\<close>: the first rule of the same id is replaced, keeping its admission time.\<close>

fun replace_rule :: "audience_rule \<Rightarrow> audience_rule list \<Rightarrow> (audience_rule list \<times> audience_rule) option" where
  "replace_rule r [] = None"
| "replace_rule r (x # xs) =
     (if rule_id x = rule_id r then Some (r\<lparr>ru_added := ru_added x\<rparr> # xs, r\<lparr>ru_added := ru_added x\<rparr>)
      else map_option (\<lambda>(ys, r'). (x # ys, r')) (replace_rule r xs))"

definition rules_Add ::
    "'a sso_lib_scheme \<Rightarrow> time \<Rightarrow> bool \<Rightarrow> audience_rule \<Rightarrow> audience_rules option \<Rightarrow>
     audience_rules option \<times> (rule_error, audience_rule) result" where
  "rules_Add L now written r0 ao =
     (case ao of None \<Rightarrow> (None, Inl NoRulesDir)
      | Some a \<Rightarrow>
          if ar_path a = [] then (Some a, Inl NoRulesDir)
          else (case normalizeAudienceRule L now r0 of Inl e \<Rightarrow> (Some a, Inl e)
          | Inr r \<Rightarrow>
          (case loadLocked L now a of Inl e \<Rightarrow> (Some a, Inl e)
          | Inr rules \<Rightarrow>
              let save = (\<lambda>rs r. (Some (rules_write written (sortAudienceRules rs) a),
                    if written then Inr r else Inl RulesNotWritten))
              in case replace_rule r rules of
                   Some (rs, r') \<Rightarrow> save rs r'
                 | None \<Rightarrow>
                     if length rules \<ge> maxAudienceRules then (Some a, Inl QuotaReached)
                     else save (rules @ [r]) r)))"

definition rules_Remove ::
    "'a sso_lib_scheme \<Rightarrow> time \<Rightarrow> bool \<Rightarrow> string \<Rightarrow> audience_rules option \<Rightarrow>
     audience_rules option \<times> (rule_error, bool) result" where
  "rules_Remove L now written i ao =
     (case ao of None \<Rightarrow> (None, Inr False)
      | Some a \<Rightarrow>
          if ar_path a = [] then (Some a, Inr False)
          else (case ParseAudienceRule L now i of Inl e \<Rightarrow> (Some a, Inl e)
          | Inr r \<Rightarrow>
          (case loadLocked L now a of Inl e \<Rightarrow> (Some a, Inl e)
          | Inr rules \<Rightarrow>
              let kept = filter (\<lambda>x. rule_id x \<noteq> rule_id r) rules
              in if length kept = length rules then (Some a, Inr False)
                 else (Some (rules_write written kept a), if written then Inr True else Inl RulesNotWritten))))"

section \<open>Matching\<close>

record federated_identity =
  fi_subject :: string
  fi_email :: string
  fi_hosted_domain :: string
  fi_groups :: "string list"

definition rule_matches :: "'a sso_lib_scheme \<Rightarrow> audience_rule \<Rightarrow> federated_identity \<Rightarrow> bool" where
  "rule_matches L r who \<longleftrightarrow>
     (if ru_kind r = AudienceSubject then fi_subject who \<noteq> [] \<and> fi_subject who = ru_value r
      else if ru_kind r = AudienceEmail then fi_email who \<noteq> [] \<and> equal_fold L (fi_email who) (ru_value r)
      else if ru_kind r = AudienceGroup then list_ex (\<lambda>g. equal_fold L g (ru_value r)) (fi_groups who)
      else False)"

definition rules_Match ::
    "'a sso_lib_scheme \<Rightarrow> time \<Rightarrow> audience_rules option \<Rightarrow> federated_identity option \<Rightarrow> (rule_error, bool \<times> nat) result" where
  "rules_Match L now ao who =
     (if ao = None \<or> who = None then Inr (False, 0)
      else case rules_List L now ao of Inl e \<Rightarrow> Inl e
      | Inr rules \<Rightarrow> Inr (list_ex (\<lambda>r. rule_matches L r (the who)) rules, length rules))"

definition rules_Permits :: "'a sso_lib_scheme \<Rightarrow> time \<Rightarrow> audience_rules option \<Rightarrow> federated_identity option \<Rightarrow> bool" where
  "rules_Permits L now ao who = (case rules_Match L now ao who of Inl _ \<Rightarrow> False | Inr (m, _) \<Rightarrow> m)"

record audience_summary =
  as_groups :: int
  as_identities :: int
  as_unreadable :: bool

definition rules_Summary :: "'a sso_lib_scheme \<Rightarrow> time \<Rightarrow> audience_rules option \<Rightarrow> audience_summary" where
  "rules_Summary L now ao =
     (case rules_List L now ao of
        Inl _ \<Rightarrow> \<lparr>as_groups = 0, as_identities = 0, as_unreadable = True\<rparr>
      | Inr rules \<Rightarrow>
          \<lparr>as_groups = int (length (filter (\<lambda>r. ru_kind r = AudienceGroup) rules)),
           as_identities = int (length (filter (\<lambda>r. ru_kind r \<noteq> AudienceGroup) rules)), as_unreadable = False\<rparr>)"

definition summary_Total :: "audience_summary \<Rightarrow> int" where
  "summary_Total s = as_groups s + as_identities s"

definition plural :: "int \<Rightarrow> string \<Rightarrow> string \<Rightarrow> string" where
  "plural n one many = (if n = 1 then fmt_int n @ '' '' @ one else fmt_int n @ '' '' @ many)"

definition summary_String :: "audience_summary \<Rightarrow> string" where
  "summary_String s =
     (if as_unreadable s then ''an unreadable rule set''
      else let parts = (if as_groups s > 0 then [plural (as_groups s) ''group'' ''groups''] else []) @
             (if as_identities s > 0 then [plural (as_identities s) ''identity'' ''identities''] else [])
      in if parts = [] then ''no rules'' else join_with '' + '' parts)"

section \<open>Federation\<close>

record federation_config =
  fc_issuer :: string
  fc_client_id :: string
  fc_client_secret :: string
  fc_hosted_domain :: string
  fc_any_account :: bool
  fc_audience :: "audience_rules option"
  fc_groups_claim :: string

record federation =
  fed_cfg :: federation_config
  fed_authorization_endpoint :: string
  fed_token_endpoint :: string
  fed_jwks_uri :: string

datatype sso_error =
    NeedsIssuerAndClient
  | NeedsSecret
  | NotAbsolute string string
  | NotHttps string string
  | DiscoveryFailed
  | IssuerMismatch string string
  | ExchangeFailed
  | ExchangeStatus int
  | ExchangeBody
  | NoIdToken
  | IdTokenInvalid
  | NonceMismatch
  | SubMissing
  | HostedDomainRefused string
  | IdentityNotPermitted string

definition isLoopbackHost :: "'a sso_lib_scheme \<Rightarrow> string \<Rightarrow> bool" where
  "isLoopbackHost L host \<longleftrightarrow>
     equal_fold L host ''localhost'' \<or> (case parse_ip L host of None \<Rightarrow> False | Some ip \<Rightarrow> IsLoopback ip)"

definition checkFederationEndpoint :: "'a sso_lib_scheme \<Rightarrow> string \<Rightarrow> string \<Rightarrow> sso_error option" where
  "checkFederationEndpoint L name raw =
     (case url_parse L raw of None \<Rightarrow> Some (NotAbsolute name raw)
      | Some u \<Rightarrow>
          if u_host u = [] then Some (NotAbsolute name raw)
          else if u_scheme u = ''https'' then None
          else if u_scheme u = ''http''
          then (if isLoopbackHost L (u_hostname u) then None else Some (NotHttps name raw))
          else Some (NotHttps name raw))"

fun trim_right_slash :: "string \<Rightarrow> string" where
  "trim_right_slash s = (if s \<noteq> [] \<and> last s = CHR ''/'' then trim_right_slash (butlast s) else s)"

definition sameIssuer :: "'a sso_lib_scheme \<Rightarrow> string \<Rightarrow> string \<Rightarrow> bool" where
  "sameIssuer L a b =
     (case (url_parse L a, url_parse L b) of
        (Some ua, Some ub) \<Rightarrow>
          if u_host ua = [] \<or> u_host ub = [] then False
          else let norm = (\<lambda>u. to_lower L (u_scheme u) @ ''://'' @ to_lower L (u_host u) @ trim_right_slash (u_path u))
               in norm ua = norm ub
      | _ \<Rightarrow> False)"

text \<open>The discovery document, if fetching and decoding it worked.\<close>

record discovery =
  dc_issuer :: string
  dc_authorization :: string
  dc_token :: string
  dc_jwks :: string

definition DiscoverFederation ::
    "'a sso_lib_scheme \<Rightarrow> federation_config \<Rightarrow> (string \<Rightarrow> discovery option) \<Rightarrow> (sso_error, federation) result" where
  "DiscoverFederation L cfg fetch =
     (if trim_space (fc_issuer cfg) = [] \<or> trim_space (fc_client_id cfg) = [] then Inl NeedsIssuerAndClient
      else if trim_space (fc_client_secret cfg) = [] then Inl NeedsSecret
      else case checkFederationEndpoint L ''issuer'' (fc_issuer cfg) of Some e \<Rightarrow> Inl e
      | None \<Rightarrow>
      (case fetch (trim_right_slash (fc_issuer cfg) @ ''/.well-known/openid-configuration'') of None \<Rightarrow> Inl DiscoveryFailed
      | Some doc \<Rightarrow>
          if \<not> sameIssuer L (dc_issuer doc) (fc_issuer cfg) then Inl (IssuerMismatch (dc_issuer doc) (fc_issuer cfg))
          else (case check_all (\<lambda>(n, u). checkFederationEndpoint L n u)
              [(''authorization_endpoint'', dc_authorization doc), (''token_endpoint'', dc_token doc), (''jwks_uri'', dc_jwks doc)] of
            Some e \<Rightarrow> Inl e
          | None \<Rightarrow> Inr \<lparr>fed_cfg = cfg, fed_authorization_endpoint = dc_authorization doc,
              fed_token_endpoint = dc_token doc, fed_jwks_uri = dc_jwks doc\<rparr>)))"

definition DefaultGroupsClaim :: string where "DefaultGroupsClaim = ''groups''"

definition groupsClaim :: "federation \<Rightarrow> string" where
  "groupsClaim f = (let named = trim_space (fc_groups_claim (fed_cfg f)) in if named \<noteq> [] then named else DefaultGroupsClaim)"

fun claim_groups :: "json list \<Rightarrow> string list" where
  "claim_groups [] = []"
| "claim_groups (JStr s # vs) = (if trim_space s \<noteq> [] then s # claim_groups vs else claim_groups vs)"
| "claim_groups (_ # vs) = claim_groups vs"

definition groupsFromClaims :: "(string \<times> json) list \<Rightarrow> string \<Rightarrow> string list" where
  "groupsFromClaims claims name =
     (case member claims name of
        Some (JStr v) \<Rightarrow> if trim_space v = [] then [] else [v]
      | Some (JArr vs) \<Rightarrow> claim_groups vs
      | _ \<Rightarrow> [])"

definition fed_Permits :: "'a sso_lib_scheme \<Rightarrow> time \<Rightarrow> federation \<Rightarrow> federated_identity option \<Rightarrow> bool" where
  "fed_Permits L now f who =
     (if who = None then False
      else if fc_any_account (fed_cfg f) then True
      else case rules_Match L now (fc_audience (fed_cfg f)) who of
        Inl _ \<Rightarrow> False
      | Inr (matched, n) \<Rightarrow> if n > 0 then matched else fc_hosted_domain (fed_cfg f) \<noteq> [])"

definition id_token_opts :: "federation \<Rightarrow> jwt_opts" where
  "id_token_opts f =
     \<lparr>valid_methods = asymmetricAlgs, opt_issuer = fc_issuer (fed_cfg f), opt_audience = fc_client_id (fed_cfg f),
      opt_leeway = 30 * second, exp_required = True\<rparr>"

definition claims_identity :: "federation \<Rightarrow> (string \<times> json) list \<Rightarrow> federated_identity" where
  "claims_identity f claims =
     \<lparr>fi_subject = str_member claims ''sub'',
      fi_email = (if member claims ''email_verified'' = Some (JBool True) then str_member claims ''email'' else []),
      fi_hosted_domain = str_member claims ''hd'', fi_groups = groupsFromClaims claims (groupsClaim f)\<rparr>"

definition validateIDToken ::
    "'a sso_lib_scheme \<Rightarrow> jwt_parser \<Rightarrow> federation \<Rightarrow> time \<Rightarrow> string \<Rightarrow> string \<Rightarrow> (sso_error, federated_identity) result" where
  "validateIDToken L jwt_parse f now raw nonce =
     (case jwt_parse (id_token_opts f) now raw of None \<Rightarrow> Inl IdTokenInvalid
      | Some c \<Rightarrow>
          let claims = claim_members c; hd = str_member claims ''hd''; who = claims_identity f claims
          in if nonce = [] \<or> str_member claims ''nonce'' \<noteq> nonce then Inl NonceMismatch
             else if trim_space (str_member claims ''sub'') = [] then Inl SubMissing
             else if fc_hosted_domain (fed_cfg f) \<noteq> [] \<and> hd \<noteq> fc_hosted_domain (fed_cfg f)
             then Inl (HostedDomainRefused (fc_hosted_domain (fed_cfg f)))
             else if \<not> fed_Permits L now f (Some who) then Inl (IdentityNotPermitted (fc_issuer (fed_cfg f)))
             else Inr who)"

text \<open>What the token endpoint answered: nothing, a status, a body that does not decode, an id token.\<close>

datatype exchange_reply = NoReply | ReplyStatus int | ReplyBroken | ReplyToken string

definition Exchange ::
    "'a sso_lib_scheme \<Rightarrow> jwt_parser \<Rightarrow> federation \<Rightarrow> time \<Rightarrow> exchange_reply \<Rightarrow> string \<Rightarrow> (sso_error, federated_identity) result" where
  "Exchange L jwt_parse f now reply nonce =
     (case reply of
        NoReply \<Rightarrow> Inl ExchangeFailed
      | ReplyStatus s \<Rightarrow> Inl (ExchangeStatus s)
      | ReplyBroken \<Rightarrow> Inl ExchangeBody
      | ReplyToken t \<Rightarrow> if t = [] then Inl NoIdToken else validateIDToken L jwt_parse f now t nonce)"

definition em_dash :: string where "em_dash = [CHR 0xE2, CHR 0x80, CHR 0x94]"

definition DescribeAudience :: "string \<Rightarrow> string \<Rightarrow> bool \<Rightarrow> audience_summary \<Rightarrow> string" where
  "DescribeAudience issuer hostedDomain anyAccount rules =
     (if anyAccount then ''any account at '' @ issuer
      else if as_unreadable rules then ''UNDECLARED '' @ em_dash @ '' the audience rule set is unreadable, so no account can sign in''
      else if hostedDomain \<noteq> [] \<and> summary_Total rules > 0
      then ''accounts with hd='' @ hostedDomain @ '' that also match '' @ summary_String rules
      else if hostedDomain \<noteq> [] then ''accounts with hd='' @ hostedDomain
      else if summary_Total rules > 0 then ''accounts matching '' @ summary_String rules
      else ''UNDECLARED '' @ em_dash @ '' no account can sign in'')"

definition InertAudienceRules :: "bool \<Rightarrow> audience_summary \<Rightarrow> string" where
  "InertAudienceRules anyAccount rules =
     (if \<not> anyAccount \<or> summary_Total rules = 0 then [] else summary_String rules)"

end
