(* ===== verification/Sso_Safety.thy ===== *)
theory Sso_Safety
  imports Sso_Audience
begin

text \<open>
  Who is admitted by a federated sign-in, and what happens to the audience when no rule of the
  file can be used.
\<close>

section \<open>Admission\<close>

lemma permits_cases:
  "fed_Permits L now f (Some who) \<longleftrightarrow> fc_any_account (fed_cfg f) \<or>
     (\<exists>rules. rules_List L now (fc_audience (fed_cfg f)) = Inr rules \<and>
       (if rules = [] then fc_hosted_domain (fed_cfg f) \<noteq> [] else \<exists>r \<in> set rules. rule_matches L r who))"
proof (cases "fc_audience (fed_cfg f)")
  case None
  then show ?thesis by (simp add: fed_Permits_def rules_Match_def rules_List_def)
next
  case (Some a)
  then show ?thesis
    by (auto simp: fed_Permits_def rules_Match_def list_ex_iff split: sum.splits)
qed

text \<open>Loaded rules have one of the three kinds and a value.\<close>

lemma load_rules_kinds:
  "r \<in> set (load_rules L now seen rs) \<Longrightarrow> ru_kind r \<in> {AudienceGroup, AudienceEmail, AudienceSubject}"
proof (induction rs arbitrary: seen)
  case (Cons x rs)
  have "ru_kind y \<in> {AudienceGroup, AudienceEmail, AudienceSubject}" if "normalizeAudienceRule L now x = Inr y" for y
    using that by (auto simp: normalizeAudienceRule_def Let_def split: if_splits)
  with Cons show ?case by (auto split: sum.splits if_splits)
qed simp

lemma rules_List_kinds:
  "rules_List L now ao = Inr rules \<Longrightarrow> r \<in> set rules \<Longrightarrow> ru_kind r \<in> {AudienceGroup, AudienceEmail, AudienceSubject}"
  using load_rules_kinds [of r L now "[]"]
  by (auto simp: rules_List_def loadLocked_def sortAudienceRules_def split: option.splits if_splits rules_file.splits)

lemma claim_groups_from: "g \<in> set (claim_groups vs) \<Longrightarrow> trim_space g \<noteq> [] \<and> JStr g \<in> set vs"
  by (induction vs rule: claim_groups.induct) (auto split: if_splits)

lemma groups_from_claims:
  "g \<in> set (groupsFromClaims claims name) \<Longrightarrow> trim_space g \<noteq> [] \<and>
     (member claims name = Some (JStr g) \<or> (\<exists>vs. member claims name = Some (JArr vs) \<and> JStr g \<in> set vs))"
  by (cases "member claims name"; cases "the (member claims name)")
    (auto simp: groupsFromClaims_def dest: claim_groups_from split: if_splits)


text \<open>
  A rule file without a usable record drops the bound it was meant to set. If no record of a
  readable file normalizes, sign-in falls back to the hosted domain alone: every account of that
  domain is admitted, although the file names whom to admit. A record with an otherwise matching
  rule is unusable, for one, when its note is longer than 256 bytes.
\<close>

theorem unusable_rules_widen_audience:
  assumes "fc_audience (fed_cfg f) = Some a" "ar_path a \<noteq> []" "ar_file a = RulesDoc raw"
    and unusable: "\<forall>r \<in> set raw. length (trim_space (ru_note r)) > 256 \<or> trim_space (ru_value r) = []"
    and "\<not> fc_any_account (fed_cfg f)"
  shows "fed_Permits L now f (Some who) \<longleftrightarrow> fc_hosted_domain (fed_cfg f) \<noteq> []"
proof -
  have bad: "\<exists>e. normalizeAudienceRule L now r = Inl e"
    if "length (trim_space (ru_note r)) > 256 \<or> trim_space (ru_value r) = []" for r
    using that
  proof (elim disjE)
    assume "length (trim_space (ru_note r)) > 256"
    then have "normalizeAudienceRule L now r = Inl NoteTooLong" by (simp add: normalizeAudienceRule_def)
    then show ?thesis ..
  next
    assume v: "trim_space (ru_value r) = []"
    show ?thesis
    proof (cases "length (trim_space (ru_note r)) > 256")
      case False
      with v have "normalizeAudienceRule L now r = Inl ValueMissing" by (simp add: normalizeAudienceRule_def)
      then show ?thesis ..
    next
      case True
      then have "normalizeAudienceRule L now r = Inl NoteTooLong" by (simp add: normalizeAudienceRule_def)
      then show ?thesis ..
    qed
  qed
  have "load_rules L now seen rs = []" if "set rs \<subseteq> set raw" for seen rs
    using that
  proof (induction rs)
    case (Cons r rs)
    with unusable bad obtain e where "normalizeAudienceRule L now r = Inl e" by (metis list.set_intros(1) subsetD)
    with Cons show ?case by simp
  qed simp
  with assms have "rules_List L now (fc_audience (fed_cfg f)) = Inr []"
    by (simp add: rules_List_def loadLocked_def sortAudienceRules_def)
  with assms show ?thesis by (simp add: permits_cases)
qed

section \<open>Examples\<close>

definition sso_example :: sso_lib where
  "sso_example =
     \<lparr>url_parse = (\<lambda>_. None), is_ip_literal = (\<lambda>_. False), re_compiles = (\<lambda>_. True), re_matches = (\<lambda>_ _. False),
      to_lower = id, parse_rfc3339 = (\<lambda>_. None), sha256 = id, marshal_grant = (\<lambda>_. None),
      parse_ip = (\<lambda>_. None), split_host_port = (\<lambda>_. None), equal_fold = (=)\<rparr>"

definition corp_federation :: "audience_rule list \<Rightarrow> federation" where
  "corp_federation rules =
     \<lparr>fed_cfg = \<lparr>fc_issuer = ''https://idp'', fc_client_id = ''gw'', fc_client_secret = ''s'', fc_hosted_domain = ''corp.example'',
        fc_any_account = False, fc_audience = Some \<lparr>ar_path = ''sso-audience.json'', ar_file = RulesDoc rules\<rparr>,
        fc_groups_claim = []\<rparr>,
      fed_authorization_endpoint = [], fed_token_endpoint = [], fed_jwks_uri = []\<rparr>"

definition boss_rule :: "string \<Rightarrow> audience_rule" where
  "boss_rule note = \<lparr>ru_kind = ''subject'', ru_value = ''boss'', ru_note = note, ru_added = 1\<rparr>"

definition corp_claims :: "string \<Rightarrow> jwt_claims" where
  "corp_claims sub = \<lparr>claim_members = [(''sub'', JStr sub), (''nonce'', JStr ''n1''), (''hd'', JStr ''corp.example'')],
     claim_exp = Some 1000\<rparr>"

lemma sso_trim_eval: "trim_space ''subject'' = ''subject''" "trim_space ''boss'' = ''boss''" "trim_space ''intern'' = ''intern''"
  by code_simp+

lemma corp_rules:
  "rules_List sso_example now (fc_audience (fed_cfg (corp_federation [boss_rule []]))) = Inr [boss_rule []]"
  by (simp add: rules_List_def corp_federation_def loadLocked_def sortAudienceRules_def boss_rule_def normalizeAudienceRule_def
      sso_trim_eval sso_example_def AudienceGroup_def AudienceEmail_def AudienceSubject_def is_zero_def)


theorem unusable_rules_widen_audience_witness:
  "\<not> fed_Permits sso_example 5 (corp_federation [boss_rule []])
     (Some (claims_identity (corp_federation []) (claim_members (corp_claims ''intern'')))) \<and>
   fed_Permits sso_example 5 (corp_federation [boss_rule (replicate 300 (CHR ''x''))])
     (Some (claims_identity (corp_federation []) (claim_members (corp_claims ''intern''))))"
proof -
  let ?who = "claims_identity (corp_federation []) (claim_members (corp_claims ''intern''))"
  have sub: "fi_subject ?who = ''intern''" by (simp add: claims_identity_def corp_claims_def str_member_def member_def)
  have "\<not> fed_Permits sso_example 5 (corp_federation [boss_rule []]) (Some ?who)"
    unfolding permits_cases corp_rules using sub by (simp add: rule_matches_def boss_rule_def AudienceSubject_def corp_federation_def)
  moreover have "trim_space (replicate 300 (CHR ''x'')) = replicate 300 (CHR ''x'')" by code_simp
  then have "fed_Permits sso_example 5 (corp_federation [boss_rule (replicate 300 (CHR ''x''))]) (Some ?who)"
    using unusable_rules_widen_audience [of "corp_federation [boss_rule (replicate 300 (CHR ''x''))]"
        "\<lparr>ar_path = ''sso-audience.json'', ar_file = RulesDoc [boss_rule (replicate 300 (CHR ''x''))]\<rparr>"
        "[boss_rule (replicate 300 (CHR ''x''))]" sso_example 5 ?who]
    by (simp add: corp_federation_def boss_rule_def)
  ultimately show ?thesis ..
qed

end
