(* ===== verification/Client_Registration.thy ===== *)
theory Client_Registration
  imports Sso_Audience Operator_Tokens
begin

text \<open>
  The built-in authorization server's state (\<open>src/internal/auth/authserver.go\<close>, type
  \<open>AuthServer\<close>) and the part of it that registers clients: the posture and limits of
  \<open>src/internal/auth/clientregistration.go\<close>, the client file of \<open>authclients.go\<close>, the identity
  file of \<open>ssoidentities.go\<close>, and the \<open>register\<close> handler.

  A request is handled in one step. Everything the handler takes from its surroundings is in an
  \<open>as_env\<close>: its clock readings and its random draws, each under an index of its own, and the
  outcomes of its file writes. Hashing, URL parsing, the JWT library and signing are fields of \<open>as_lib\<close>.
\<close>

section \<open>Surroundings\<close>

text \<open>
  \<open>own_parse\<close> is \<open>jwt.Parse\<close> with the signer's public key, \<open>rs_parse\<close> with the signer's key set (which
  also looks at the key ID), \<open>idp_parse\<close> with the key set of the identity provider; \<open>sign\<close> is \<open>SignedString\<close> under the signer's private key, whose first argument
  is the entropy of the signature. \<open>query_values\<close> is \<open>url.ParseQuery\<close>, \<open>url_string\<close> is
  \<open>(*url.URL).String\<close>.
\<close>

record as_lib = sso_lib +
  own_parse :: jwt_parser
  rs_parse :: jwt_parser
  idp_parse :: jwt_parser
  sign :: "string \<Rightarrow> (string \<times> json) list \<Rightarrow> string option"
  query_values :: "string \<Rightarrow> (string \<times> string list) list"
  url_string :: "url \<Rightarrow> string"

text \<open>
  A file written with \<open>os.WriteFile\<close>: completely, not at all (the directory or the file could not
  be opened), or truncated and only partly rewritten.
\<close>

datatype file_write = FileWritten | FileUntouched | FileTorn

record as_env =
  e_clock :: "nat \<Rightarrow> time"
  e_rand :: "nat \<Rightarrow> string option"
  e_entropy :: "nat \<Rightarrow> string"
  e_write :: "nat \<Rightarrow> file_write"
  e_persist :: persist_outcome

text \<open>\<open>randToken\<close>: a draw that fails panics, which is \<^const>\<open>None\<close> here.\<close>

definition as_randToken :: "as_env \<Rightarrow> nat \<Rightarrow> string option" where
  "as_randToken e i = map_option b64_url (e_rand e i)"

section \<open>State\<close>

record client_reg =
  cr_redirect_uris :: "string list"
  cr_name :: string
  cr_created_at :: time
  cr_used_at :: time

record auth_code =
  ac_client_id :: string
  ac_redirect_uri :: string
  ac_challenge :: string
  ac_subject :: string
  ac_scope :: string
  ac_state :: string
  ac_resource :: string
  ac_expiry :: time
  ac_nonce :: string
  ac_verifier :: string

record reg_limits =
  PerSourcePerHour :: int
  PerHour :: int
  MaxClients :: int
  UnusedTTL :: duration
  MaxTrackedSources :: int

record reg_window =
  w_since :: time
  w_count :: int
  w_refused :: bool

record reg_event =
  ev_outcome :: string
  ev_client_id :: string
  ev_source :: string
  ev_name :: string

record persisted_client =
  pc_client_id :: string
  pc_redirect_uris :: "string list"
  pc_name :: string
  pc_issuer :: string
  pc_created_at :: time
  pc_used_at :: time

text \<open>What reading the client file gives: nothing (absent or unreadable), no JSON, or records.\<close>

datatype clients_file = NoClientsFile | ClientsGarbled | ClientsDoc "persisted_client list"

record federated_record =
  fr_subject :: string
  fr_email :: string
  fr_issuer :: string
  fr_last_seen :: time

datatype identities_file = NoIdentitiesFile | IdentitiesGarbled | IdentitiesDoc "federated_record list"

record signer =
  sg_kid :: string
  sg_x :: string
  sg_y :: string

record auth_server =
  as_signer :: signer
  as_issuer :: string
  as_audience :: string
  as_access_ttl :: duration
  as_clients :: "(string \<times> client_reg) list"
  as_codes :: "(string \<times> auth_code) list"
  as_pending :: "(string \<times> auth_code) list"
  as_clients_path :: string
  as_clients_file :: clients_file
  as_mode :: string
  as_limits :: reg_limits
  as_rates :: "(string \<times> reg_window) list"
  as_recorder :: bool
  as_recorded :: "reg_event list"
  as_resource :: string
  as_approval_base :: string
  as_revocations :: "revocation_list option"
  as_require_state :: bool
  as_require_resource :: bool
  as_federation :: "federation option"
  as_federated :: "(string \<times> federated_record) list"
  as_identities_path :: string
  as_identities_file :: identities_file
  as_Subject :: string

section \<open>Requests and responses\<close>

record reg_request =
  rr_redirect_uris :: "string list"
  rr_client_name :: string
  rr_token_auth :: string
  rr_grant_types :: "string list"
  rr_response_types :: "string list"

text \<open>
  A request as the handlers read it: \<open>rq_query\<close> is \<open>r.URL.Query()\<close>, \<open>rq_form\<close> what \<open>ParseForm\<close>
  leaves in \<open>r.Form\<close> (nothing when it fails, the size limit included), \<open>rq_body\<close> the decoded
  registration and whether nothing follows it in the body.
\<close>

record as_request =
  rq_method :: string
  rq_query :: "(string \<times> string list) list"
  rq_form :: "(string \<times> string list) list option"
  rq_body :: "(reg_request \<times> bool) option"
  rq_sec_fetch_site :: string
  rq_origin :: string
  rq_host :: string
  rq_remote_addr :: string

definition values_get :: "(string \<times> string list) list \<Rightarrow> string \<Rightarrow> string" where
  "values_get vs k = (case map_of vs k of Some (v # _) \<Rightarrow> v | _ \<Rightarrow> [])"

datatype as_response =
    PlainError string int
  | ErrorJson string string int
  | PageNotFound
  | ConsentPage string string string
  | MessagePage string
  | UserMessagePage string
  | UnknownRequestPage string
  | RedirectTo string int
  | ClientCreated string "string list" string
  | TokenReply string string string int
  | RevokedReply
  | JsonReply "(string \<times> json) list"
  | HandlerPanic

definition method_not_allowed :: as_response where
  "method_not_allowed = PlainError ''method not allowed'' 405"

section \<open>Registration posture\<close>

abbreviation hour :: duration where "hour \<equiv> 60 * minute"

definition RegistrationBounded :: string where "RegistrationBounded = ''bounded''"
definition RegistrationOff :: string where "RegistrationOff = ''off''"

definition ParseRegistrationMode :: "'a as_lib_scheme \<Rightarrow> string \<Rightarrow> string option" where
  "ParseRegistrationMode L raw =
     (let m = to_lower L (trim_space raw)
      in if m = [] then Some RegistrationBounded
         else if m = RegistrationBounded then Some RegistrationBounded
         else if m = RegistrationOff then Some RegistrationOff
         else None)"

definition DefaultRegistrationLimits :: reg_limits where
  "DefaultRegistrationLimits =
     \<lparr>PerSourcePerHour = 10, PerHour = 60, MaxClients = 4096, UnusedTTL = 24 * hour,
      MaxTrackedSources = 4096\<rparr>"

definition RegistrationAccepted :: string where "RegistrationAccepted = ''registered''"
definition RegistrationRefusedDisabled :: string where
  "RegistrationRefusedDisabled = ''registration_refused_disabled''"
definition RegistrationRefusedRate :: string where
  "RegistrationRefusedRate = ''registration_refused_rate''"
definition RegistrationRefusedCapacity :: string where
  "RegistrationRefusedCapacity = ''registration_refused_capacity''"

definition SetClientRegistration :: "string \<Rightarrow> reg_limits \<Rightarrow> auth_server \<Rightarrow> auth_server" where
  "SetClientRegistration mode limits s =
     (let d = DefaultRegistrationLimits
      in s\<lparr>as_mode := mode,
           as_limits :=
             \<lparr>PerSourcePerHour = (if PerSourcePerHour limits \<le> 0 then PerSourcePerHour d else PerSourcePerHour limits),
              PerHour = (if PerHour limits \<le> 0 then PerHour d else PerHour limits),
              MaxClients = (if MaxClients limits \<le> 0 then MaxClients d else MaxClients limits),
              UnusedTTL = (if UnusedTTL limits \<le> 0 then UnusedTTL d else UnusedTTL limits),
              MaxTrackedSources =
                (if MaxTrackedSources limits \<le> 0 then MaxTrackedSources d else MaxTrackedSources limits)\<rparr>\<rparr>)"

definition effectiveRegistrationModeLocked :: "auth_server \<Rightarrow> string" where
  "effectiveRegistrationModeLocked s = (if as_mode s = [] then RegistrationBounded else as_mode s)"

definition effectiveRegistrationLimitsLocked :: "auth_server \<Rightarrow> reg_limits" where
  "effectiveRegistrationLimitsLocked s =
     (if MaxClients (as_limits s) = 0 then DefaultRegistrationLimits else as_limits s)"

definition RegistrationPosture :: "auth_server \<Rightarrow> string \<times> reg_limits" where
  "RegistrationPosture s = (effectiveRegistrationModeLocked s, effectiveRegistrationLimitsLocked s)"

definition registrationSource :: "'a as_lib_scheme \<Rightarrow> as_request \<Rightarrow> string" where
  "registrationSource L rq =
     (case split_host_port L (rq_remote_addr rq) of
        None \<Rightarrow> trim_space (rq_remote_addr rq)
      | Some (host, _) \<Rightarrow> host)"

definition sourceDigest :: "'a as_lib_scheme \<Rightarrow> string \<Rightarrow> string" where
  "sourceDigest L source =
     (if source = [] then []
      else b64_url (take 9 (sha256 L (''microagency/registration-source'' @ [CHR 0x00] @ source))))"

definition reportRegistration :: "reg_event \<Rightarrow> auth_server \<Rightarrow> auth_server" where
  "reportRegistration ev s =
     (if as_recorder s then s\<lparr>as_recorded := as_recorded s @ [ev]\<rparr> else s)"

section \<open>The client table and its file\<close>

text \<open>The order of a Go map is not fixed; here records are written in the order of the table.\<close>

definition persistClientsLocked :: "file_write \<Rightarrow> auth_server \<Rightarrow> auth_server" where
  "persistClientsLocked out s =
     (if as_clients_path s = [] then s
      else case out of
        FileUntouched \<Rightarrow> s
      | FileTorn \<Rightarrow> s\<lparr>as_clients_file := ClientsGarbled\<rparr>
      | FileWritten \<Rightarrow>
          s\<lparr>as_clients_file := ClientsDoc (map (\<lambda>(i, c).
              \<lparr>pc_client_id = i, pc_redirect_uris = cr_redirect_uris c, pc_name = cr_name c,
               pc_issuer = as_issuer s, pc_created_at = cr_created_at c, pc_used_at = cr_used_at c\<rparr>)
            (as_clients s))\<rparr>)"

definition client_expired :: "time \<Rightarrow> duration \<Rightarrow> client_reg \<Rightarrow> bool" where
  "client_expired now ttl c \<longleftrightarrow>
     is_zero (cr_used_at c) \<and> \<not> is_zero (cr_created_at c) \<and> time_sub now (cr_created_at c) \<ge> ttl"

definition expireUnusedClientsLocked :: "file_write \<Rightarrow> time \<Rightarrow> duration \<Rightarrow> auth_server \<Rightarrow> auth_server" where
  "expireUnusedClientsLocked out now ttl s =
     (if ttl \<le> 0 then s
      else (let kept = filter (\<lambda>(i, c). \<not> client_expired now ttl c) (as_clients s);
                s' = s\<lparr>as_clients := kept\<rparr>
            in if length kept < length (as_clients s) then persistClientsLocked out s' else s'))"

definition markClientUsedLocked :: "file_write \<Rightarrow> time \<Rightarrow> string \<Rightarrow> auth_server \<Rightarrow> auth_server" where
  "markClientUsedLocked out now i s =
     (case map_of (as_clients s) i of
        None \<Rightarrow> s
      | Some c \<Rightarrow>
          if \<not> is_zero (cr_used_at c) then s
          else persistClientsLocked out
                 (s\<lparr>as_clients := AList.update i (c\<lparr>cr_used_at := now\<rparr>) (as_clients s)\<rparr>))"

definition validRedirectURI :: "'a as_lib_scheme \<Rightarrow> string \<Rightarrow> bool \<Rightarrow> bool" where
  "validRedirectURI L raw public =
     (if raw = [] \<or> length raw > 2048 then False
      else case url_parse L raw of
        None \<Rightarrow> False
      | Some u \<Rightarrow>
          if u_scheme u = [] \<or> u_user u \<or> u_fragment u \<noteq> [] then False
          else (let scheme = to_lower L (u_scheme u)
                in if scheme = ''https'' then u_host u \<noteq> []
                   else if scheme = ''http'' then u_host u \<noteq> [] \<and> isLoopbackHost L (u_hostname u)
                   else \<not> public \<and> u_scheme u \<noteq> ''file'' \<and> (u_host u \<noteq> [] \<or> u_path u \<noteq> [])))"

definition client_loadable :: "'a as_lib_scheme \<Rightarrow> auth_server \<Rightarrow> persisted_client \<Rightarrow> bool" where
  "client_loadable L s pc \<longleftrightarrow>
     \<not> (pc_client_id pc = [] \<or> pc_redirect_uris pc = [] \<or> length (pc_redirect_uris pc) > 8) \<and>
     \<not> (pc_issuer pc \<noteq> as_issuer s \<and> \<not> (pc_issuer pc = [] \<and> has_prefix (as_issuer s) ''http://'')) \<and>
     (\<forall>u \<in> set (pc_redirect_uris pc). validRedirectURI L u (as_require_resource s))"

definition load_client :: "'a as_lib_scheme \<Rightarrow> auth_server \<Rightarrow> persisted_client \<Rightarrow> auth_server" where
  "load_client L s pc =
     (if client_loadable L s pc
      then s\<lparr>as_clients := AList.update (pc_client_id pc)
               \<lparr>cr_redirect_uris = pc_redirect_uris pc, cr_name = pc_name pc,
                cr_created_at = pc_created_at pc, cr_used_at = pc_used_at pc\<rparr> (as_clients s)\<rparr>
      else s)"

definition LoadClients :: "'a as_lib_scheme \<Rightarrow> as_env \<Rightarrow> string \<Rightarrow> auth_server \<Rightarrow> auth_server" where
  "LoadClients L e path s =
     (let s1 = s\<lparr>as_clients_path := path\<rparr>
      in case as_clients_file s of
        NoClientsFile \<Rightarrow> s1
      | ClientsGarbled \<Rightarrow> s1
      | ClientsDoc pcs \<Rightarrow>
          (let s2 = foldl (load_client L) s1 pcs
           in expireUnusedClientsLocked (e_write e 0) (e_clock e 0)
                (UnusedTTL (effectiveRegistrationLimitsLocked s2)) s2))"

section \<open>Federated identities\<close>

definition persistIdentitiesLocked :: "file_write \<Rightarrow> auth_server \<Rightarrow> auth_server" where
  "persistIdentitiesLocked out s =
     (if as_identities_path s = [] then s
      else case out of
        FileUntouched \<Rightarrow> s
      | FileTorn \<Rightarrow> s\<lparr>as_identities_file := IdentitiesGarbled\<rparr>
      | FileWritten \<Rightarrow>
          s\<lparr>as_identities_file := IdentitiesDoc (sort_key fr_subject (map snd (as_federated s)))\<rparr>)"

definition recordFederatedIdentity ::
    "file_write \<Rightarrow> time \<Rightarrow> federated_identity \<Rightarrow> string \<Rightarrow> auth_server \<Rightarrow> auth_server" where
  "recordFederatedIdentity out now who issuer s =
     persistIdentitiesLocked out
       (s\<lparr>as_federated := AList.update (fi_subject who)
            \<lparr>fr_subject = fi_subject who, fr_email = fi_email who, fr_issuer = issuer, fr_last_seen = now\<rparr>
            (as_federated s)\<rparr>)"

definition FederatedEmail :: "auth_server \<Rightarrow> string \<Rightarrow> string" where
  "FederatedEmail s subject = (case map_of (as_federated s) subject of None \<Rightarrow> [] | Some r \<Rightarrow> fr_email r)"

definition LoadFederatedIdentities :: "string \<Rightarrow> auth_server \<Rightarrow> auth_server" where
  "LoadFederatedIdentities path s =
     (let s1 = s\<lparr>as_identities_path := path\<rparr>
      in case as_identities_file s of
        NoIdentitiesFile \<Rightarrow> s1
      | IdentitiesGarbled \<Rightarrow> s1
      | IdentitiesDoc recs \<Rightarrow>
          s1\<lparr>as_federated := foldl (\<lambda>m r. if fr_subject r = [] then m else AList.update (fr_subject r) r m)
                (as_federated s) recs\<rparr>)"

section \<open>Admission and the handler\<close>

text \<open>The sweep at the start: rate windows and unused registrations that are over are dropped.\<close>

definition sweep_registrations :: "file_write \<Rightarrow> time \<Rightarrow> auth_server \<Rightarrow> auth_server" where
  "sweep_registrations out now s =
     expireUnusedClientsLocked out now (UnusedTTL (effectiveRegistrationLimitsLocked s))
       (s\<lparr>as_rates := filter (\<lambda>(k, w). \<not> time_sub now (w_since w) \<ge> hour) (as_rates s)\<rparr>)"

definition current_window :: "time \<Rightarrow> string \<Rightarrow> auth_server \<Rightarrow> reg_window" where
  "current_window now source s =
     (case map_of (as_rates s) source of
        None \<Rightarrow> \<lparr>w_since = now, w_count = 0, w_refused = False\<rparr>
      | Some w \<Rightarrow> if time_sub now (w_since w) \<ge> hour
                then \<lparr>w_since = now, w_count = 0, w_refused = False\<rparr> else w)"

definition total_registrations :: "auth_server \<Rightarrow> int" where
  "total_registrations s = sum_list (map (\<lambda>(k, w). w_count w) (as_rates s))"

definition set_window :: "string \<Rightarrow> reg_window \<Rightarrow> auth_server \<Rightarrow> auth_server" where
  "set_window source w s = s\<lparr>as_rates := AList.update source w (as_rates s)\<rparr>"

definition admitRegistrationLocked ::
    "file_write \<Rightarrow> string \<Rightarrow> time \<Rightarrow> auth_server \<Rightarrow> auth_server \<times> string \<times> bool" where
  "admitRegistrationLocked out source now s0 =
     (let limits = effectiveRegistrationLimitsLocked s0;
          s = sweep_registrations out now s0;
          w = current_window now source s
      in if map_of (as_rates s) source = None \<and> int (length (as_rates s)) \<ge> MaxTrackedSources limits
         then (s, RegistrationRefusedRate, True)
         else if w_count w \<ge> PerSourcePerHour limits \<or> total_registrations s \<ge> PerHour limits
         then (set_window source (w\<lparr>w_refused := True\<rparr>) s, RegistrationRefusedRate, \<not> w_refused w)
         else if int (length (as_clients s)) \<ge> MaxClients limits
         then (set_window source (w\<lparr>w_refused := True\<rparr>) s, RegistrationRefusedCapacity, \<not> w_refused w)
         else (set_window source (w\<lparr>w_count := w_count w + 1\<rparr>) s, RegistrationAccepted, True))"

definition onlySupported :: "string list \<Rightarrow> string list \<Rightarrow> bool" where
  "onlySupported got allowed \<longleftrightarrow> got = [] \<or> (\<forall>v \<in> set got. v \<in> set allowed)"

fun redirect_uris_ok :: "'a as_lib_scheme \<Rightarrow> bool \<Rightarrow> string list \<Rightarrow> string list \<Rightarrow> bool" where
  "redirect_uris_ok L public seen [] = True"
| "redirect_uris_ok L public seen (u # us) =
     (if \<not> validRedirectURI L u public \<or> u \<in> set seen then False
      else redirect_uris_ok L public (u # seen) us)"

definition firstNonBlank :: "string \<Rightarrow> string \<Rightarrow> string" where
  "firstNonBlank a b = (if trim_space a \<noteq> [] then a else b)"

text \<open>The checks on the decoded body, in their order.\<close>

definition check_registration :: "'a as_lib_scheme \<Rightarrow> bool \<Rightarrow> (reg_request \<times> bool) option \<Rightarrow> (as_response, reg_request) result" where
  "check_registration L public body =
     (let invalid = ErrorJson ''invalid_client_metadata'' [] 400
      in case body of
           None \<Rightarrow> Inl invalid
         | Some (rr, at_end) \<Rightarrow>
             if rr_redirect_uris rr = [] \<or> length (rr_redirect_uris rr) > 8 then Inl invalid
             else if \<not> at_end \<or> length (rr_client_name rr) > 200 \<or>
                     (rr_token_auth rr \<noteq> [] \<and> rr_token_auth rr \<noteq> ''none'') \<or>
                     \<not> onlySupported (rr_grant_types rr) [''authorization_code'', ''refresh_token''] \<or>
                     \<not> onlySupported (rr_response_types rr) [''code'']
             then Inl invalid
             else if \<not> redirect_uris_ok L public [] (rr_redirect_uris rr)
             then Inl (ErrorJson ''invalid_redirect_uri'' [] 400)
             else Inr rr)"

text \<open>
  The rest of the handler: admission, the new client, the report. It writes the client file once
  when expired registrations are dropped, once when the new client is added.
\<close>

definition complete_registration ::
    "'a as_lib_scheme \<Rightarrow> as_env \<Rightarrow> string \<Rightarrow> reg_request \<Rightarrow> auth_server \<Rightarrow> auth_server \<times> as_response" where
  "complete_registration L e source rr s =
     (case as_randToken e 0 of
        None \<Rightarrow> (s, HandlerPanic)
      | Some i \<Rightarrow>
          (let name = firstNonBlank (rr_client_name rr) ''an MCP client'';
               now = e_clock e 0;
               (s1, outcome, report) = admitRegistrationLocked (e_write e 0) source now s
           in if outcome \<noteq> RegistrationAccepted
              then (if report
                    then reportRegistration \<lparr>ev_outcome = outcome, ev_client_id = [],
                           ev_source = sourceDigest L source, ev_name = name\<rparr> s1
                    else s1,
                    ErrorJson ''temporarily_unavailable'' [] 429)
              else (let s2 = persistClientsLocked (e_write e 1)
                          (s1\<lparr>as_clients := AList.update i
                                \<lparr>cr_redirect_uris = rr_redirect_uris rr, cr_name = name,
                                 cr_created_at = now, cr_used_at = 0\<rparr> (as_clients s1)\<rparr>)
                    in (reportRegistration \<lparr>ev_outcome = RegistrationAccepted, ev_client_id = i,
                          ev_source = sourceDigest L source, ev_name = name\<rparr> s2,
                        ClientCreated i (rr_redirect_uris rr) (rr_client_name rr)))))"

definition register :: "'a as_lib_scheme \<Rightarrow> as_env \<Rightarrow> as_request \<Rightarrow> auth_server \<Rightarrow> auth_server \<times> as_response" where
  "register L e rq s =
     (let source = registrationSource L rq
      in if rq_method rq \<noteq> ''POST'' then (s, method_not_allowed)
         else if effectiveRegistrationModeLocked s = RegistrationOff
         then (reportRegistration \<lparr>ev_outcome = RegistrationRefusedDisabled, ev_client_id = [],
                 ev_source = sourceDigest L source, ev_name = []\<rparr> s,
               ErrorJson ''invalid_client_metadata''
                 ''this gateway does not accept dynamic client registration; ask its operator for a client_id'' 403)
         else case check_registration L (as_require_resource s) (rq_body rq) of
           Inl refusal \<Rightarrow> (s, refusal)
         | Inr rr \<Rightarrow> complete_registration L e source rr s)"

end
