(* ===== verification/Auth_Server.thy ===== *)
theory Auth_Server
  imports Client_Registration
begin

text \<open>
  The handlers of the built-in OAuth authorization server (\<open>src/internal/auth/authserver.go\<close>):
  metadata, authorize, the three ways a pending authorization is decided (the local consent page,
  the operator listener, the identity provider's callback), token exchange and refresh,
  revocation, and token minting (\<open>src/internal/auth/signer.go\<close>). A handler returns the next
  state and its response; \<open>serve_public\<close> and \<open>serve_operator\<close> are the two route tables.

  A handler is one step. In the source \<open>localConsent\<close>, \<open>operatorConsent\<close> and \<open>ssoCallback\<close>
  release the lock between taking the pending grant and storing its code. Nothing reads either
  entry in between: the pending grant is already gone and nobody has been told the code.
\<close>

section \<open>Setup\<close>

definition NewAuthServer ::
    "signer \<Rightarrow> string \<Rightarrow> string \<Rightarrow> duration \<Rightarrow> revocation_list option \<Rightarrow> clients_file \<Rightarrow> identities_file \<Rightarrow> auth_server" where
  "NewAuthServer sg issuer audience ttl revs cfile ifile =
     \<lparr>as_signer = sg, as_issuer = issuer, as_audience = audience,
      as_access_ttl = (if ttl \<le> 0 then hour else ttl),
      as_clients = [], as_codes = [], as_pending = [],
      as_clients_path = [], as_clients_file = cfile, as_mode = [],
      as_limits = \<lparr>PerSourcePerHour = 0, PerHour = 0, MaxClients = 0, UnusedTTL = 0, MaxTrackedSources = 0\<rparr>,
      as_rates = [], as_recorder = False, as_recorded = [],
      as_resource = audience, as_approval_base = [],
      as_revocations = (case revs of None \<Rightarrow> Some \<lparr>rl_path = [], rl_ids = [], rl_file = Missing\<rparr> | Some l \<Rightarrow> Some l),
      as_require_state = False, as_require_resource = False,
      as_federation = None, as_federated = [], as_identities_path = [], as_identities_file = ifile,
      as_Subject = ''operator''\<rparr>"

definition ConfigureFederation :: "federation option \<Rightarrow> auth_server \<Rightarrow> auth_server" where
  "ConfigureFederation fed s = s\<lparr>as_federation := fed\<rparr>"

definition ssoRedirectURI :: "auth_server \<Rightarrow> string" where
  "ssoRedirectURI s = as_issuer s @ ''/oauth/sso/callback''"

datatype public_flow_error = ApprovalNotLoopback | ResourceEmpty

definition ConfigurePublicFlow ::
    "'a as_lib_scheme \<Rightarrow> string \<Rightarrow> string \<Rightarrow> auth_server \<Rightarrow> (public_flow_error, auth_server) result" where
  "ConfigurePublicFlow L resource approvalBase s =
     (case url_parse L approvalBase of
        None \<Rightarrow> Inl ApprovalNotLoopback
      | Some u \<Rightarrow>
          if u_scheme u \<noteq> ''http'' \<or> u_host u = [] \<or> u_path u \<noteq> [] \<or> u_raw_query u \<noteq> [] \<or>
             u_fragment u \<noteq> [] \<or> \<not> isLoopbackHost L (u_hostname u)
          then Inl ApprovalNotLoopback
          else if trim_space resource = [] then Inl ResourceEmpty
          else Inr (s\<lparr>as_resource := resource, as_approval_base := trim_suffix approvalBase ''/'',
                       as_require_state := True, as_require_resource := True\<rparr>))"

section \<open>Helpers\<close>

definition isLoopbackRemote :: "'a as_lib_scheme \<Rightarrow> string \<Rightarrow> bool" where
  "isLoopbackRemote L addr =
     (case split_host_port L addr of None \<Rightarrow> isLoopbackHost L addr | Some (host, _) \<Rightarrow> isLoopbackHost L host)"

definition validPKCEChallenge :: "string \<Rightarrow> bool" where
  "validPKCEChallenge c \<longleftrightarrow>
     \<not> (length c < 43 \<or> length c > 128) \<and>
     (\<forall>x \<in> set c. (CHR ''a'' \<le> x \<and> x \<le> CHR ''z'') \<or> (CHR ''A'' \<le> x \<and> x \<le> CHR ''Z'') \<or> is_digit x \<or>
        x = CHR ''-'' \<or> x = CHR ''_'')"

definition validPKCEVerifier :: "string \<Rightarrow> bool" where
  "validPKCEVerifier c \<longleftrightarrow>
     \<not> (length c < 43 \<or> length c > 128) \<and>
     (\<forall>x \<in> set c. (CHR ''a'' \<le> x \<and> x \<le> CHR ''z'') \<or> (CHR ''A'' \<le> x \<and> x \<le> CHR ''Z'') \<or> is_digit x \<or>
        x = CHR ''-'' \<or> x = CHR ''.'' \<or> x = CHR ''_'' \<or> x = CHR ''~'')"

definition pkceS256 :: "'a as_lib_scheme \<Rightarrow> string \<Rightarrow> string" where
  "pkceS256 L verifier = (if verifier = [] then [] else b64_url (sha256 L verifier))"

definition values_set :: "string \<Rightarrow> string \<Rightarrow> (string \<times> string list) list \<Rightarrow> (string \<times> string list) list" where
  "values_set k v q = AList.update k [v] q"

definition redirectAuthorizationResult ::
    "'a as_lib_scheme \<Rightarrow> auth_server \<Rightarrow> string \<Rightarrow> string \<Rightarrow> string \<Rightarrow> string \<Rightarrow> as_response" where
  "redirectAuthorizationResult L s redirectURI state key val =
     (case url_parse L redirectURI of
        None \<Rightarrow> PlainError val 400
      | Some u \<Rightarrow>
          (let q = values_set ''iss'' (as_issuer s) (values_set key val (query_values L (u_raw_query u)));
               q' = (if state \<noteq> [] then values_set ''state'' state q else q)
           in RedirectTo (url_string L (u\<lparr>u_raw_query := query_encode q'\<rparr>)) 302))"

definition redirectErr :: "'a as_lib_scheme \<Rightarrow> auth_server \<Rightarrow> string \<Rightarrow> string \<Rightarrow> string \<Rightarrow> as_response" where
  "redirectErr L s redirectURI state code = redirectAuthorizationResult L s redirectURI state ''error'' code"

definition crossSiteReason :: "'a as_lib_scheme \<Rightarrow> as_request \<Rightarrow> string" where
  "crossSiteReason L rq =
     (if to_lower L (rq_sec_fetch_site rq) \<notin> {'''', ''same-origin'', ''none''}
      then ''Sec-Fetch-Site '' @ rq_sec_fetch_site rq
      else if rq_origin rq = [] then []
      else case url_parse L (rq_origin rq) of
        None \<Rightarrow> ''Origin '' @ rq_origin rq
      | Some u \<Rightarrow>
          if (u_scheme u \<noteq> ''http'' \<and> u_scheme u \<noteq> ''https'') \<or> \<not> equal_fold L (u_host u) (rq_host rq)
          then ''Origin '' @ rq_origin rq else [])"

definition currentSubjectLocked :: "auth_server \<Rightarrow> string" where
  "currentSubjectLocked s = (if as_Subject s = [] then ''operator'' else as_Subject s)"

definition prunePendingLocked :: "time \<Rightarrow> auth_server \<Rightarrow> auth_server" where
  "prunePendingLocked now s = s\<lparr>as_pending := filter (\<lambda>(i, p). ac_expiry p > now) (as_pending s)\<rparr>"

definition AuthorizeURL :: "federation \<Rightarrow> string \<Rightarrow> string \<Rightarrow> string \<Rightarrow> string \<Rightarrow> string" where
  "AuthorizeURL f redirectURI state nonce challenge =
     (let q = [(''response_type'', [''code'']), (''client_id'', [fc_client_id (fed_cfg f)]),
               (''redirect_uri'', [redirectURI]), (''scope'', [''openid email'']), (''state'', [state]),
               (''nonce'', [nonce]), (''code_challenge'', [challenge]), (''code_challenge_method'', [''S256''])];
          q' = (if fc_hosted_domain (fed_cfg f) \<noteq> [] then values_set ''hd'' (fc_hosted_domain (fed_cfg f)) q else q);
          sep = (if contains_sub (fed_authorization_endpoint f) ''?'' then ''&'' else ''?'')
      in fed_authorization_endpoint f @ sep @ query_encode q')"

section \<open>Metadata and keys\<close>

definition strs :: "string list \<Rightarrow> json" where "strs xs = JArr (map JStr xs)"

definition metadata :: "as_request \<Rightarrow> auth_server \<Rightarrow> auth_server \<times> as_response" where
  "metadata rq s =
     (if rq_method rq \<noteq> ''GET'' then (s, method_not_allowed)
      else (s, JsonReply
        ([(''issuer'', JStr (as_issuer s)),
          (''authorization_endpoint'', JStr (as_issuer s @ ''/oauth/authorize'')),
          (''token_endpoint'', JStr (as_issuer s @ ''/oauth/token'')),
          (''revocation_endpoint'', JStr (as_issuer s @ ''/oauth/revoke'')),
          (''jwks_uri'', JStr (as_issuer s @ ''/oauth/jwks'')),
          (''response_types_supported'', strs [''code'']),
          (''grant_types_supported'', strs [''authorization_code'', ''refresh_token'']),
          (''code_challenge_methods_supported'', strs [''S256'']),
          (''token_endpoint_auth_methods_supported'', strs [''none'']),
          (''revocation_endpoint_auth_methods_supported'', strs [''none'']),
          (''authorization_response_iss_parameter_supported'', JBool True),
          (''scopes_supported'', strs [''mcp''])] @
         (if effectiveRegistrationModeLocked s \<noteq> RegistrationOff
          then [(''registration_endpoint'', JStr (as_issuer s @ ''/oauth/register''))] else []))))"

definition b64Coord :: "string \<Rightarrow> string" where
  "b64Coord b = b64_url (if length b < 32 then replicate (32 - length b) (CHR 0x00) @ b else b)"

definition jwks :: "as_request \<Rightarrow> auth_server \<Rightarrow> auth_server \<times> as_response" where
  "jwks rq s =
     (if rq_method rq \<noteq> ''GET'' then (s, method_not_allowed)
      else (s, JsonReply [(''keys'', JArr [JObj
        [(''kty'', JStr ''EC''), (''crv'', JStr ''P-256''), (''use'', JStr ''sig''), (''alg'', JStr ''ES256''),
         (''kid'', JStr (sg_kid (as_signer s))), (''x'', JStr (b64Coord (sg_x (as_signer s)))),
         (''y'', JStr (b64Coord (sg_y (as_signer s))))]])]))"

section \<open>Authorization requests\<close>

definition storePending ::
    "as_env \<Rightarrow> nat \<Rightarrow> auth_code \<Rightarrow> auth_server \<Rightarrow> (auth_server \<times> string option) option" where
  "storePending e draw p s0 =
     (case as_randToken e draw of
        None \<Rightarrow> None
      | Some i \<Rightarrow>
          (let s = prunePendingLocked (e_clock e 0) s0
           in if length (as_pending s) \<ge> 4096 then Some (s, None)
              else (let p1 = (if as_federation s = None then p\<lparr>ac_subject := currentSubjectLocked s\<rparr> else p);
                        p2 = p1\<lparr>ac_expiry := e_clock e 1 + 5 * minute\<rparr>
                    in Some (s\<lparr>as_pending := AList.update i p2 (as_pending s)\<rparr>, Some i))))"

text \<open>A code for an approved grant: stored for a minute, and sent to the client's redirect URI.\<close>

definition issue_code ::
    "'a as_lib_scheme \<Rightarrow> as_env \<Rightarrow> time \<Rightarrow> auth_code \<Rightarrow> auth_server \<Rightarrow> auth_server \<times> as_response" where
  "issue_code L e now p s =
     (case as_randToken e 0 of
        None \<Rightarrow> (s, HandlerPanic)
      | Some code \<Rightarrow>
          (s\<lparr>as_codes := AList.update code (p\<lparr>ac_expiry := now + 60 * second\<rparr>) (as_codes s)\<rparr>,
           redirectAuthorizationResult L s (ac_redirect_uri p) (ac_state p) ''code'' code))"

definition missing_request :: as_response where
  "missing_request = MessagePage ''This authorization request is missing, expired, or was already used.''"

definition localConsent :: "'a as_lib_scheme \<Rightarrow> as_env \<Rightarrow> as_request \<Rightarrow> auth_server \<Rightarrow> auth_server \<times> as_response" where
  "localConsent L e rq s0 =
     (if crossSiteReason L rq \<noteq> []
      then (s0, PlainError (''cross-site consent refused ('' @ crossSiteReason L rq @ '')'') 403)
      else case rq_form rq of
        None \<Rightarrow> (s0, PlainError ''invalid consent'' 400)
      | Some f \<Rightarrow>
          (let requestID = values_get f ''request'';
               s1 = prunePendingLocked (e_clock e 0) s0;
               s = s1\<lparr>as_pending := AList.delete requestID (as_pending s1)\<rparr>
           in case map_of (as_pending s1) requestID of
                None \<Rightarrow> (s, missing_request)
              | Some p \<Rightarrow>
                  if requestID = [] then (s, missing_request)
                  else if values_get f ''approve'' \<noteq> ''yes''
                  then (s, redirectErr L s (ac_redirect_uri p) (ac_state p) ''access_denied'')
                  else issue_code L e (e_clock e 1) p s))"

definition requested_grant :: "(string \<times> string list) list \<Rightarrow> auth_code" where
  "requested_grant q =
     \<lparr>ac_client_id = values_get q ''client_id'', ac_redirect_uri = values_get q ''redirect_uri'',
      ac_challenge = values_get q ''code_challenge'', ac_subject = [],
      ac_scope = firstNonBlank (values_get q ''scope'') ''mcp'', ac_state = values_get q ''state'',
      ac_resource = values_get q ''resource'', ac_expiry = 0, ac_nonce = [], ac_verifier = []\<rparr>"

definition request_invalid :: "auth_server \<Rightarrow> (string \<times> string list) list \<Rightarrow> bool" where
  "request_invalid s q \<longleftrightarrow>
     values_get q ''response_type'' \<noteq> ''code'' \<or> \<not> validPKCEChallenge (values_get q ''code_challenge'') \<or>
     values_get q ''code_challenge_method'' \<noteq> ''S256'' \<or> firstNonBlank (values_get q ''scope'') ''mcp'' \<noteq> ''mcp'' \<or>
     (as_require_state s \<and> values_get q ''state'' = []) \<or>
     (as_require_resource s \<and> values_get q ''resource'' \<noteq> as_resource s)"

text \<open>The rest of \<open>authorize\<close> once the request is valid: store it, and send the person on to decide it.\<close>

definition start_authorization ::
    "'a as_lib_scheme \<Rightarrow> as_env \<Rightarrow> auth_code \<Rightarrow> client_reg \<Rightarrow> auth_server \<Rightarrow> auth_server \<times> as_response" where
  "start_authorization L e p client s =
     (case as_federation s of
        None \<Rightarrow>
          (case storePending e 0 p s of
             None \<Rightarrow> (s, HandlerPanic)
           | Some (s', None) \<Rightarrow> (s', PlainError ''too many pending authorization requests'' 429)
           | Some (s', Some requestID) \<Rightarrow>
               (s', if as_approval_base s \<noteq> []
                    then RedirectTo (as_approval_base s @ ''/oauth/consent?request='' @ query_escape requestID) 303
                    else ConsentPage (cr_name client) (ac_redirect_uri p) requestID))
      | Some fed \<Rightarrow>
          (case (as_randToken e 1, as_randToken e 2) of
             (Some nonce, Some verifier) \<Rightarrow>
               (case storePending e 0 (p\<lparr>ac_nonce := nonce, ac_verifier := verifier\<rparr>) s of
                  None \<Rightarrow> (s, HandlerPanic)
                | Some (s', None) \<Rightarrow> (s', PlainError ''too many pending authorization requests'' 429)
                | Some (s', Some requestID) \<Rightarrow>
                    (s', RedirectTo (AuthorizeURL fed (ssoRedirectURI s) requestID nonce (pkceS256 L verifier)) 303))
           | _ \<Rightarrow> (s, HandlerPanic)))"

definition authorize :: "'a as_lib_scheme \<Rightarrow> as_env \<Rightarrow> as_request \<Rightarrow> auth_server \<Rightarrow> auth_server \<times> as_response" where
  "authorize L e rq s =
     (if rq_method rq = ''POST''
      then (if as_federation s \<noteq> None then (s, PlainError ''consent is decided at the identity provider'' 405)
            else if as_approval_base s \<noteq> [] then (s, PlainError ''public consent is decided on the operator listener'' 405)
            else localConsent L e rq s)
      else if rq_method rq \<noteq> ''GET'' then (s, method_not_allowed)
      else (let q = rq_query rq; redirectURI = values_get q ''redirect_uri''
            in case map_of (as_clients s) (values_get q ''client_id'') of
                 None \<Rightarrow> (s, PlainError ''unknown client or redirect_uri'' 400)
               | Some client \<Rightarrow>
                   if redirectURI \<notin> set (cr_redirect_uris client)
                   then (s, PlainError ''unknown client or redirect_uri'' 400)
                   else if request_invalid s q
                   then (s, redirectErr L s redirectURI (values_get q ''state'') ''invalid_request'')
                   else start_authorization L e (requested_grant q) client s))"

section \<open>The identity provider's callback\<close>

definition sso_failure :: "federation \<Rightarrow> sso_error \<Rightarrow> as_response" where
  "sso_failure f err =
     (let hd = fc_hosted_domain (fed_cfg f)
      in case err of
           HostedDomainRefused _ \<Rightarrow> UserMessagePage
             (''This account is not in the required domain ('' @ hd @ ''). Sign in with a '' @ hd @
              '' account and start again from your MCP client.'')
         | IdentityNotPermitted _ \<Rightarrow> UserMessagePage
             ''Your account signed in successfully, but it is not one this gateway admits. Ask the gateway's operator to add you, then start again from your MCP client.''
         | _ \<Rightarrow> UserMessagePage ''Sign-in could not be verified. Start again from your MCP client.'')"

text \<open>
  \<open>reply\<close> is what the provider's token endpoint answered to the exchange of the code with the
  pending grant's verifier.
\<close>

definition ssoCallback ::
    "'a as_lib_scheme \<Rightarrow> as_env \<Rightarrow> exchange_reply \<Rightarrow> as_request \<Rightarrow> auth_server \<Rightarrow> auth_server \<times> as_response" where
  "ssoCallback L e reply rq s0 =
     (case as_federation s0 of
        None \<Rightarrow> (s0, PageNotFound)
      | Some fed \<Rightarrow>
          if rq_method rq \<noteq> ''GET'' then (s0, method_not_allowed)
          else (let q = rq_query rq; state = values_get q ''state'';
                    s1 = prunePendingLocked (e_clock e 0) s0;
                    s = s1\<lparr>as_pending := AList.delete state (as_pending s1)\<rparr>;
                    unknown = UnknownRequestPage ''This sign-in request is missing, expired, or was already used. Start again from the client you began in.''
                in case map_of (as_pending s1) state of
                     None \<Rightarrow> (s, unknown)
                   | Some p \<Rightarrow>
                       if state = [] then (s, unknown)
                       else if values_get q ''error'' \<noteq> []
                       then (s, redirectErr L s (ac_redirect_uri p) (ac_state p) ''access_denied'')
                       else if values_get q ''code'' = []
                       then (s, redirectErr L s (ac_redirect_uri p) (ac_state p) ''invalid_request'')
                       else case Exchange L (idp_parse L) fed (e_clock e 1) reply (ac_nonce p) of
                         Inl err \<Rightarrow> (s, sso_failure fed err)
                       | Inr who \<Rightarrow>
                           issue_code L e (e_clock e 3) (p\<lparr>ac_subject := fi_subject who\<rparr>)
                             (recordFederatedIdentity (e_write e 0) (e_clock e 2) who (fc_issuer (fed_cfg fed)) s)))"

section \<open>The operator listener\<close>

definition operatorConsent :: "'a as_lib_scheme \<Rightarrow> as_env \<Rightarrow> as_request \<Rightarrow> auth_server \<Rightarrow> auth_server \<times> as_response" where
  "operatorConsent L e rq s0 =
     (if \<not> isLoopbackRemote L (rq_remote_addr rq) then (s0, PlainError ''loopback only'' 403)
      else if as_federation s0 \<noteq> None then (s0, PlainError ''consent is decided at the identity provider'' 405)
      else if rq_method rq \<noteq> ''GET'' \<and> rq_method rq \<noteq> ''POST'' then (s0, method_not_allowed)
      else if rq_method rq = ''POST'' \<and> crossSiteReason L rq \<noteq> []
      then (s0, PlainError (''cross-site consent refused ('' @ crossSiteReason L rq @ '')'') 403)
      else if rq_method rq = ''POST'' \<and> rq_form rq = None then (s0, PlainError ''invalid consent'' 400)
      else (let post = (rq_method rq = ''POST'');
                f = (case rq_form rq of Some f \<Rightarrow> f | None \<Rightarrow> []);
                requestID = values_get (if post then f else rq_query rq) ''request'';
                s1 = prunePendingLocked (e_clock e 0) s0;
                s = (if post then s1\<lparr>as_pending := AList.delete requestID (as_pending s1)\<rparr> else s1)
            in case map_of (as_pending s1) requestID of
                 None \<Rightarrow> (s, missing_request)
               | Some p \<Rightarrow>
                   if requestID = [] then (s, missing_request)
                   else if \<not> post
                   then (s, ConsentPage (case map_of (as_clients s1) (ac_client_id p) of None \<Rightarrow> [] | Some c \<Rightarrow> cr_name c)
                              (ac_redirect_uri p) requestID)
                   else if values_get f ''approve'' \<noteq> ''yes''
                   then (s, redirectErr L s (ac_redirect_uri p) (ac_state p) ''access_denied'')
                   else issue_code L e (e_clock e 1) p s))"

section \<open>Tokens\<close>

definition refreshTTL :: duration where "refreshTTL = 30 * 24 * hour"
definition refreshAudienceSuffix :: string where "refreshAudienceSuffix = ''#refresh''"

definition unix_sec :: "time \<Rightarrow> int" where
  "unix_sec t = (t - unix_epoch) div second"

definition reserved_claims :: "string list" where
  "reserved_claims = [''iss'', ''sub'', ''aud'', ''jti'', ''iat'', ''exp'', ''scope'']"

definition base_claims ::
    "string \<Rightarrow> string \<Rightarrow> string \<Rightarrow> string \<Rightarrow> time \<Rightarrow> duration \<Rightarrow> string list \<Rightarrow> (string \<times> json) list" where
  "base_claims iss sub aud jti now ttl scopes =
     [(''iss'', JStr iss), (''sub'', JStr sub), (''aud'', JStr aud), (''jti'', JStr (b64_url jti)),
      (''iat'', JNum (fmt_int (unix_sec now))), (''exp'', JNum (fmt_int (unix_sec (now + ttl)))),
      (''scope'', JStr (join_with '' '' scopes))]"

definition extra_claims :: "(string \<times> json) list \<Rightarrow> (string \<times> json) list" where
  "extra_claims extra = filter (\<lambda>(k, v). k \<notin> set reserved_claims) extra"

text \<open>\<open>mint\<close> with the \<open>i\<close>-th random draw and signature and the clock reading \<open>now\<close>.\<close>

definition mint ::
    "'a as_lib_scheme \<Rightarrow> as_env \<Rightarrow> nat \<Rightarrow> time \<Rightarrow> string \<Rightarrow> string \<Rightarrow> string \<Rightarrow> string list \<Rightarrow> duration \<Rightarrow>
     (string \<times> json) list \<Rightarrow> string option" where
  "mint L e i now iss aud sub scopes ttl extra =
     (case e_rand e i of
        None \<Rightarrow> None
      | Some jti \<Rightarrow> sign L (e_entropy e i) (base_claims iss sub aud jti now ttl scopes @ extra_claims extra))"

definition Mint ::
    "'a as_lib_scheme \<Rightarrow> as_env \<Rightarrow> nat \<Rightarrow> time \<Rightarrow> string \<Rightarrow> string \<Rightarrow> string \<Rightarrow> string list \<Rightarrow> duration \<Rightarrow> string option" where
  "Mint L e i now iss aud sub scopes ttl = mint L e i now iss aud sub scopes ttl []"

text \<open>\<open>int(d.Seconds())\<close> truncates; for the lifetimes in use the float is exact enough not to round up.\<close>

definition issueTokens ::
    "'a as_lib_scheme \<Rightarrow> as_env \<Rightarrow> nat \<Rightarrow> string \<Rightarrow> string \<Rightarrow> string \<Rightarrow> auth_server \<Rightarrow> as_response" where
  "issueTokens L e t subject scope clientID s =
     (case Mint L e 0 (e_clock e t) (as_issuer s) (as_audience s) subject (str_fields scope) (as_access_ttl s) of
        None \<Rightarrow> ErrorJson ''server_error'' [] 500
      | Some access \<Rightarrow>
          (case mint L e 1 (e_clock e (t + 1)) (as_issuer s) (as_audience s @ refreshAudienceSuffix) subject
                  (str_fields scope) refreshTTL [(''client_id'', JStr clientID)] of
             None \<Rightarrow> ErrorJson ''server_error'' [] 500
           | Some rt \<Rightarrow> TokenReply access rt scope (as_access_ttl s div second)))"

definition code_refused :: "'a as_lib_scheme \<Rightarrow> time \<Rightarrow> (string \<times> string list) list \<Rightarrow> auth_code \<Rightarrow> bool" where
  "code_refused L now f ac \<longleftrightarrow>
     now > ac_expiry ac \<or> \<not> validPKCEVerifier (values_get f ''code_verifier'') \<or>
     ac_client_id ac \<noteq> values_get f ''client_id'' \<or> ac_redirect_uri ac \<noteq> values_get f ''redirect_uri'' \<or>
     pkceS256 L (values_get f ''code_verifier'') \<noteq> ac_challenge ac \<or>
     (ac_resource ac \<noteq> [] \<and> values_get f ''resource'' \<noteq> ac_resource ac) \<or>
     ac_subject ac = []"

definition grantCode ::
    "'a as_lib_scheme \<Rightarrow> as_env \<Rightarrow> (string \<times> string list) list \<Rightarrow> auth_server \<Rightarrow> auth_server \<times> as_response" where
  "grantCode L e f s0 =
     (let code = values_get f ''code'';
          s = s0\<lparr>as_codes := AList.delete code (as_codes s0)\<rparr>
      in case map_of (as_codes s0) code of
           None \<Rightarrow> (s, ErrorJson ''invalid_grant'' [] 400)
         | Some ac \<Rightarrow>
             if code_refused L (e_clock e 0) f ac then (s, ErrorJson ''invalid_grant'' [] 400)
             else (let s' = markClientUsedLocked (e_write e 0) (e_clock e 1) (ac_client_id ac) s
                   in (s', issueTokens L e 2 (ac_subject ac) (ac_scope ac) (ac_client_id ac) s')))"

definition owned_opts :: "auth_server \<Rightarrow> string \<Rightarrow> jwt_opts" where
  "owned_opts s audience =
     \<lparr>valid_methods = [''ES256''], opt_issuer = as_issuer s, opt_audience = audience,
      opt_leeway = 0, exp_required = True\<rparr>"

definition parseOwnedToken ::
    "'a as_lib_scheme \<Rightarrow> auth_server \<Rightarrow> time \<Rightarrow> string \<Rightarrow> string \<Rightarrow> jwt_claims option" where
  "parseOwnedToken L s now raw audience =
     (if trim_space raw = [] then None else own_parse L (owned_opts s audience) now raw)"

record refresh_grant =
  rg_subject :: string
  rg_scope :: string
  rg_client_id :: string
  rg_token_id :: string
  rg_expiry :: time

definition parseRefreshGrant ::
    "'a as_lib_scheme \<Rightarrow> as_env \<Rightarrow> string \<Rightarrow> auth_server \<Rightarrow> auth_server \<times> refresh_grant option" where
  "parseRefreshGrant L e raw s =
     (if raw = [] then (s, None)
      else case parseOwnedToken L s (e_clock e 0) raw (as_audience s @ refreshAudienceSuffix) of
        None \<Rightarrow> (s, None)
      | Some c \<Rightarrow>
          (let m = claim_members c;
               g = \<lparr>rg_subject = str_member m ''sub'', rg_scope = str_member m ''scope'',
                    rg_client_id = str_member m ''client_id'', rg_token_id = str_member m ''jti'',
                    rg_expiry = (case claim_exp c of Some t \<Rightarrow> t | None \<Rightarrow> 0)\<rparr>
           in if rg_subject g = [] \<or> is_zero (rg_expiry g) then (s, None)
              else (let (revs, revoked) = IsRevoked (as_revocations s) (e_clock e 1) (rg_token_id g);
                        s' = s\<lparr>as_revocations := revs\<rparr>
                    in if revoked then (s', None) else (s', Some g))))"

definition grantRefresh ::
    "'a as_lib_scheme \<Rightarrow> as_env \<Rightarrow> (string \<times> string list) list \<Rightarrow> auth_server \<Rightarrow> auth_server \<times> as_response" where
  "grantRefresh L e f s0 =
     (let (s, grant) = parseRefreshGrant L e (values_get f ''refresh_token'') s0;
          invalid = ErrorJson ''invalid_grant'' [] 400
      in case grant of
           None \<Rightarrow> (s, invalid)
         | Some g \<Rightarrow>
             if rg_client_id g = [] \<or> rg_token_id g = [] \<or> rg_client_id g \<noteq> values_get f ''client_id''
             then (s, invalid)
             else if as_federation s = None \<and> rg_subject g \<noteq> currentSubjectLocked s then (s, invalid)
             else (let (revs, consumed) = Consume (as_revocations s) (e_clock e 2) (rg_token_id g) (rg_expiry g) (e_persist e);
                       s' = s\<lparr>as_revocations := revs\<rparr>
                   in case consumed of
                        Inl _ \<Rightarrow> (s', ErrorJson ''server_error'' [] 500)
                      | Inr False \<Rightarrow> (s', invalid)
                      | Inr True \<Rightarrow> (s', issueTokens L e 3 (rg_subject g) (rg_scope g) (rg_client_id g) s')))"

definition token_endpoint :: "'a as_lib_scheme \<Rightarrow> as_env \<Rightarrow> as_request \<Rightarrow> auth_server \<Rightarrow> auth_server \<times> as_response" where
  "token_endpoint L e rq s =
     (if rq_method rq \<noteq> ''POST'' then (s, method_not_allowed)
      else case rq_form rq of
        None \<Rightarrow> (s, ErrorJson ''invalid_request'' [] 400)
      | Some f \<Rightarrow>
          if values_get f ''grant_type'' = ''authorization_code'' then grantCode L e f s
          else if values_get f ''grant_type'' = ''refresh_token'' then grantRefresh L e f s
          else (s, ErrorJson ''unsupported_grant_type'' [] 400))"

definition owned_claims :: "'a as_lib_scheme \<Rightarrow> as_env \<Rightarrow> string \<Rightarrow> auth_server \<Rightarrow> jwt_claims option" where
  "owned_claims L e raw s =
     (case parseOwnedToken L s (e_clock e 0) raw (as_audience s) of
        Some c \<Rightarrow> Some c
      | None \<Rightarrow> parseOwnedToken L s (e_clock e 1) raw (as_audience s @ refreshAudienceSuffix))"

definition revoke :: "'a as_lib_scheme \<Rightarrow> as_env \<Rightarrow> as_request \<Rightarrow> auth_server \<Rightarrow> auth_server \<times> as_response" where
  "revoke L e rq s =
     (if rq_method rq \<noteq> ''POST'' then (s, method_not_allowed)
      else case rq_form rq of
        None \<Rightarrow> (s, ErrorJson ''invalid_request'' [] 400)
      | Some f \<Rightarrow>
          (case owned_claims L e (values_get f ''token'') s of
                None \<Rightarrow> (s, RevokedReply)
              | Some c \<Rightarrow>
                  (case (str_member (claim_members c) ''jti'', claim_exp c) of
                     (_, None) \<Rightarrow> (s, RevokedReply)
                   | (i, Some t) \<Rightarrow>
                       if i = [] then (s, RevokedReply)
                       else (let (revs, err) = Revoke (as_revocations s) (e_clock e 2) i t (e_persist e)
                             in (s\<lparr>as_revocations := revs\<rparr>,
                                 case err of None \<Rightarrow> RevokedReply | Some _ \<Rightarrow> ErrorJson ''server_error'' [] 500)))))"

section \<open>Routes\<close>

definition serve_public ::
    "'a as_lib_scheme \<Rightarrow> as_env \<Rightarrow> exchange_reply \<Rightarrow> string \<Rightarrow> as_request \<Rightarrow> auth_server \<Rightarrow> auth_server \<times> as_response" where
  "serve_public L e reply path rq s =
     (if path = ''/.well-known/oauth-authorization-server'' then metadata rq s
      else if path = ''/oauth/register'' then register L e rq s
      else if path = ''/oauth/authorize'' then authorize L e rq s
      else if path = ''/oauth/token'' then token_endpoint L e rq s
      else if path = ''/oauth/revoke'' then revoke L e rq s
      else if path = ''/oauth/jwks'' then jwks rq s
      else if path = ''/oauth/sso/callback'' \<and> as_federation s \<noteq> None then ssoCallback L e reply rq s
      else (s, PageNotFound))"

definition serve_operator ::
    "'a as_lib_scheme \<Rightarrow> as_env \<Rightarrow> string \<Rightarrow> as_request \<Rightarrow> auth_server \<Rightarrow> auth_server \<times> as_response" where
  "serve_operator L e path rq s =
     (if path = ''/oauth/consent'' \<and> as_approval_base s \<noteq> [] \<and> as_federation s = None
      then operatorConsent L e rq s
      else (s, PageNotFound))"

section \<open>The resource server beside it\<close>

text \<open>
  How the program puts the resource server beside the built-in authorization server
  (\<open>src/cmd/microagency/main.go\<close>): same issuer, audience and keys, the same revocation list, token
  identifiers required. \<open>present_bearer\<close> is the validation of one bearer token on that shared list.
\<close>

definition built_in_rs :: "auth_server \<Rightarrow> resource_server" where
  "built_in_rs s =
     \<lparr>rs_issuer = as_issuer s, rs_audience = as_audience s, rs_keys = True, rs_leeway = 0,
      rs_revocations = as_revocations s, rs_require_jti = True\<rparr>"

definition present_bearer ::
    "'a as_lib_scheme \<Rightarrow> as_env \<Rightarrow> string \<Rightarrow> auth_server \<Rightarrow> auth_server \<times> (auth_error, principal) result" where
  "present_bearer L e raw s =
     (let (rs, res) = Validate (rs_parse L) (built_in_rs s) (e_clock e 0) raw
      in (s\<lparr>as_revocations := rs_revocations rs\<rparr>, res))"

end
