(* ===== verification/Auth_Server_Safety.thy ===== *)
theory Auth_Server_Safety
  imports Auth_Server
begin

text \<open>
  Runs of the authorization server and what they guarantee: a code is exchanged for tokens only
  after the authorization request it belongs to was made by a registered client and approved by
  the one party who may approve it, and only once; redirects go to registered URIs; the tables
  stay within their bounds.
\<close>

section \<open>Runs\<close>

text \<open>
  A run interleaves requests on the two listeners, bearer tokens presented to the resource server
  that shares the revocation list, and restarts of the process. A restart keeps what is on disk: the client file, the identity file and the revocation list's file.
\<close>

datatype as_op =
    Public as_env exchange_reply string as_request
  | Operator as_env string as_request
  | Bearer as_env string
  | Restart as_env

definition as_restart :: "'a as_lib_scheme \<Rightarrow> as_env \<Rightarrow> auth_server \<Rightarrow> auth_server" where
  "as_restart L e s =
     LoadFederatedIdentities (as_identities_path s) (LoadClients L e (as_clients_path s)
       (s\<lparr>as_clients := [], as_codes := [], as_pending := [], as_rates := [], as_federated := [],
          as_revocations := map_option (\<lambda>l. rev_step l (e_clock e 1, OpRestart)) (as_revocations s)\<rparr>))"

fun as_step :: "'a as_lib_scheme \<Rightarrow> auth_server \<Rightarrow> as_op \<Rightarrow> auth_server \<times> as_response option" where
  "as_step L s (Public e reply path rq) = apsnd Some (serve_public L e reply path rq s)"
| "as_step L s (Operator e path rq) = apsnd Some (serve_operator L e path rq s)"
| "as_step L s (Bearer e raw) = (fst (present_bearer L e raw s), None)"
| "as_step L s (Restart e) = (as_restart L e s, None)"

fun op_env :: "as_op \<Rightarrow> as_env" where
  "op_env (Public e reply path rq) = e"
| "op_env (Operator e path rq) = e"
| "op_env (Bearer e raw) = e"
| "op_env (Restart e) = e"

text \<open>An event of a run: the state an operation found, the operation, and the response.\<close>

type_synonym as_event = "auth_server \<times> as_op \<times> as_response option"

fun as_trace :: "'a as_lib_scheme \<Rightarrow> auth_server \<Rightarrow> as_op list \<Rightarrow> as_event list" where
  "as_trace L s [] = []"
| "as_trace L s (x # xs) = (s, x, snd (as_step L s x)) # as_trace L (fst (as_step L s x)) xs"

definition as_after :: "'a as_lib_scheme \<Rightarrow> auth_server \<Rightarrow> as_op list \<Rightarrow> auth_server" where
  "as_after L s ops = foldl (\<lambda>s x. fst (as_step L s x)) s ops"

lemma as_trace_append: "as_trace L s (xs @ ys) = as_trace L s xs @ as_trace L (as_after L s xs) ys"
  by (induction xs arbitrary: s) (simp_all add: as_after_def)

lemma as_after_simps [simp]:
  "as_after L s [] = s"
  "as_after L s (xs @ [x]) = fst (as_step L (as_after L s xs) x)"
  by (simp_all add: as_after_def)

lemma as_trace_snoc:
  "as_trace L s (xs @ [x]) =
     as_trace L s xs @ [(as_after L s xs, x, snd (as_step L (as_after L s xs) x))]"
  by (simp add: as_trace_append)

section \<open>What the operations leave alone\<close>

lemma set_alist_update: "set (AList.update k v xs) \<subseteq> insert (k, v) (set xs)"
  by (induction xs) auto

lemma in_alist_update: "(i, p) \<in> set (AList.update k v xs) \<Longrightarrow> (i, p) \<in> set xs \<or> i = k \<and> p = v"
  using set_alist_update [of k v xs] by auto

lemma in_alist_delete: "x \<in> set (AList.delete k xs) \<longleftrightarrow> x \<in> set xs \<and> fst x \<noteq> k"
  by (auto simp: AList.delete_eq)

definition as_config :: "auth_server \<Rightarrow> federation option \<times> string \<times> string \<times> string \<times> string \<times> bool \<times> bool" where
  "as_config s = (as_federation s, as_approval_base s, as_issuer s, as_audience s, as_resource s,
     as_require_state s, as_require_resource s)"

lemmas as_frame_defs = persistClientsLocked_def expireUnusedClientsLocked_def markClientUsedLocked_def
  persistIdentitiesLocked_def recordFederatedIdentity_def LoadFederatedIdentities_def
  reportRegistration_def prunePendingLocked_def Let_def as_config_def

lemma frame_pending [simp]:
  "as_pending (persistClientsLocked out s) = as_pending s"
  "as_pending (expireUnusedClientsLocked out now ttl s) = as_pending s"
  "as_pending (markClientUsedLocked out now i s) = as_pending s"
  "as_pending (recordFederatedIdentity out now who iss s) = as_pending s"
  "as_pending (LoadFederatedIdentities path s) = as_pending s"
  "as_pending (reportRegistration ev s) = as_pending s"
  by (simp_all add: as_frame_defs split: file_write.splits option.splits identities_file.splits)

lemma frame_codes [simp]:
  "as_codes (persistClientsLocked out s) = as_codes s"
  "as_codes (expireUnusedClientsLocked out now ttl s) = as_codes s"
  "as_codes (markClientUsedLocked out now i s) = as_codes s"
  "as_codes (recordFederatedIdentity out now who iss s) = as_codes s"
  "as_codes (LoadFederatedIdentities path s) = as_codes s"
  "as_codes (reportRegistration ev s) = as_codes s"
  "as_codes (prunePendingLocked now s) = as_codes s"
  by (simp_all add: as_frame_defs split: file_write.splits option.splits identities_file.splits)

lemma frame_config [simp]:
  "as_config (persistClientsLocked out s) = as_config s"
  "as_config (expireUnusedClientsLocked out now ttl s) = as_config s"
  "as_config (markClientUsedLocked out now i s) = as_config s"
  "as_config (recordFederatedIdentity out now who iss s) = as_config s"
  "as_config (LoadFederatedIdentities path s) = as_config s"
  "as_config (reportRegistration ev s) = as_config s"
  "as_config (prunePendingLocked now s) = as_config s"
  by (simp_all add: as_frame_defs split: file_write.splits option.splits identities_file.splits)

lemma config_updates [simp]:
  "as_config (s\<lparr>as_clients := c\<rparr>) = as_config s"
  "as_config (s\<lparr>as_codes := d\<rparr>) = as_config s"
  "as_config (s\<lparr>as_pending := p\<rparr>) = as_config s"
  "as_config (s\<lparr>as_rates := r\<rparr>) = as_config s"
  "as_config (s\<lparr>as_federated := i\<rparr>) = as_config s"
  "as_config (s\<lparr>as_revocations := l\<rparr>) = as_config s"
  "as_config (s\<lparr>as_clients_path := q\<rparr>) = as_config s"
  by (simp_all add: as_config_def)

lemma load_clients_frame [simp]:
  "as_pending (LoadClients L e path s) = as_pending s"
  "as_codes (LoadClients L e path s) = as_codes s"
  "as_config (LoadClients L e path s) = as_config s"
proof -
  have f: "as_pending (foldl (load_client L) s pcs) = as_pending s \<and>
      as_codes (foldl (load_client L) s pcs) = as_codes s \<and>
      as_config (foldl (load_client L) s pcs) = as_config s" for s pcs
    by (induction pcs arbitrary: s) (simp_all add: load_client_def)
  show "as_pending (LoadClients L e path s) = as_pending s"
    "as_codes (LoadClients L e path s) = as_codes s"
    "as_config (LoadClients L e path s) = as_config s"
    by (simp_all add: LoadClients_def Let_def f split: clients_file.splits)
qed

lemma restart_frame [simp]:
  "as_pending (as_restart L e s) = []" "as_codes (as_restart L e s) = []" "as_config (as_restart L e s) = as_config s"
  by (simp_all add: as_restart_def)

lemma sweep_frame [simp]:
  "as_pending (sweep_registrations out now s) = as_pending s"
  "as_codes (sweep_registrations out now s) = as_codes s"
  "as_config (sweep_registrations out now s) = as_config s"
  "as_pending (set_window source w s) = as_pending s"
  "as_codes (set_window source w s) = as_codes s"
  "as_config (set_window source w s) = as_config s"
  by (simp_all add: sweep_registrations_def set_window_def)

lemma admit_frame:
  assumes "admitRegistrationLocked out source now s = (s', outcome, report)"
  shows "as_pending s' = as_pending s \<and> as_codes s' = as_codes s \<and> as_config s' = as_config s"
  using assms by (auto simp: admitRegistrationLocked_def Let_def split: if_splits)

lemma register_frame:
  assumes "register L e rq s = (s', r)"
  shows "as_pending s' = as_pending s \<and> as_codes s' = as_codes s \<and> as_config s' = as_config s"
  using assms
  by (auto simp: register_def complete_registration_def Let_def dest!: admit_frame
      split: if_splits option.splits prod.splits sum.splits)

lemma parse_refresh_frame:
  assumes "parseRefreshGrant L e raw s = (s', g)"
  shows "s' = s\<lparr>as_revocations := as_revocations s'\<rparr>"
  using assms
  by (auto simp: parseRefreshGrant_def Let_def split: if_splits option.splits prod.splits)

lemma refresh_frame:
  assumes "grantRefresh L e f s = (s', r)"
  shows "as_pending s' = as_pending s \<and> as_codes s' = as_codes s \<and> as_config s' = as_config s"
proof -
  obtain s1 g where p: "parseRefreshGrant L e (values_get f ''refresh_token'') s = (s1, g)"
    by (cases "parseRefreshGrant L e (values_get f ''refresh_token'') s")
  then obtain l where s1: "s1 = s\<lparr>as_revocations := l\<rparr>" by (rule that [OF parse_refresh_frame])
  show ?thesis
    using assms
    by (auto simp: grantRefresh_def p s1 Let_def split: if_splits option.splits prod.splits sum.splits bool.splits)
qed

lemma revoke_frame:
  assumes "revoke L e rq s = (s', r)"
  shows "as_pending s' = as_pending s \<and> as_codes s' = as_codes s \<and> as_config s' = as_config s"
  using assms
  by (auto simp: revoke_def Let_def split: if_splits option.splits prod.splits)

lemma code_frame:
  assumes "grantCode L e f s = (s', r)"
  shows "as_pending s' = as_pending s \<and> as_codes s' = AList.delete (values_get f ''code'') (as_codes s) \<and>
    as_config s' = as_config s"
  using assms by (auto simp: grantCode_def Let_def split: if_splits option.splits)

lemma token_frame:
  assumes "token_endpoint L e rq s = (s', r)"
  shows "as_pending s' = as_pending s \<and> set (as_codes s') \<subseteq> set (as_codes s) \<and> as_config s' = as_config s"
  using assms
  by (auto simp: token_endpoint_def in_alist_delete dest!: code_frame refresh_frame split: if_splits option.splits)

lemma metadata_frame [simp]: "fst (metadata rq s) = s" "fst (jwks rq s) = s"
  by (simp_all add: metadata_def jwks_def)

lemma bearer_frame:
  "as_pending (fst (present_bearer L e raw s)) = as_pending s"
  "as_codes (fst (present_bearer L e raw s)) = as_codes s"
  "as_config (fst (present_bearer L e raw s)) = as_config s"
  by (simp_all add: present_bearer_def split: prod.splits)

section \<open>Begun and approved authorizations\<close>

text \<open>
  \<open>begun ev i p\<close>: the event is an authorization request of a registered client, for one of its
  redirect URIs, that left the pending grant \<open>p\<close> under the request ID \<open>i\<close>.
\<close>

inductive begun :: "as_event \<Rightarrow> string \<Rightarrow> auth_code \<Rightarrow> bool" where
  begun_get:
    "\<lbrakk>rq_method rq = ''GET''; q = rq_query rq;
      map_of (as_clients s) (values_get q ''client_id'') = Some client;
      values_get q ''redirect_uri'' \<in> set (cr_redirect_uris client);
      values_get q ''response_type'' = ''code''; values_get q ''code_challenge_method'' = ''S256'';
      validPKCEChallenge (values_get q ''code_challenge'');
      as_require_state s \<longrightarrow> values_get q ''state'' \<noteq> [];
      as_require_resource s \<longrightarrow> values_get q ''resource'' = as_resource s;
      as_randToken e 0 = Some i;
      ac_client_id p = values_get q ''client_id''; ac_redirect_uri p = values_get q ''redirect_uri'';
      ac_challenge p = values_get q ''code_challenge''; ac_scope p = ''mcp'';
      ac_state p = values_get q ''state''; ac_resource p = values_get q ''resource'';
      ac_expiry p = e_clock e 1 + 5 * minute;
      as_federation s = None \<longrightarrow> ac_subject p = currentSubjectLocked s;
      as_federation s \<noteq> None \<longrightarrow> ac_subject p = [] \<and> as_randToken e 1 = Some (ac_nonce p)\<rbrakk>
     \<Longrightarrow> begun (s, Public e reply ''/oauth/authorize'' rq, r) i p"

text \<open>
  \<open>approved L ev i p c p'\<close>: the event is the approval of the pending grant \<open>p\<close> with request ID
  \<open>i\<close>, which put the grant \<open>p'\<close> under the code \<open>c\<close>: on the local consent page, when consent is
  local; on the operator listener, from a loopback address, when consent was moved there; through
  a validated sign-in at the identity provider, when there is one.
\<close>

inductive approved :: "'a as_lib_scheme \<Rightarrow> as_event \<Rightarrow> string \<Rightarrow> auth_code \<Rightarrow> string \<Rightarrow> auth_code \<Rightarrow> bool"
  for L :: "'a as_lib_scheme" where
  approved_local:
    "\<lbrakk>as_federation s = None; as_approval_base s = []; rq_method rq = ''POST''; crossSiteReason L rq = [];
      rq_form rq = Some f; values_get f ''request'' = i; i \<noteq> []; values_get f ''approve'' = ''yes'';
      e_clock e 0 < ac_expiry p; as_randToken e 0 = Some c;
      p' = p\<lparr>ac_expiry := e_clock e 1 + 60 * second\<rparr>\<rbrakk>
     \<Longrightarrow> approved L (s, Public e reply ''/oauth/authorize'' rq, r) i p c p'"
| approved_operator:
    "\<lbrakk>as_federation s = None; as_approval_base s \<noteq> []; isLoopbackRemote L (rq_remote_addr rq);
      rq_method rq = ''POST''; crossSiteReason L rq = [];
      rq_form rq = Some f; values_get f ''request'' = i; i \<noteq> []; values_get f ''approve'' = ''yes'';
      e_clock e 0 < ac_expiry p; as_randToken e 0 = Some c;
      p' = p\<lparr>ac_expiry := e_clock e 1 + 60 * second\<rparr>\<rbrakk>
     \<Longrightarrow> approved L (s, Operator e ''/oauth/consent'' rq, r) i p c p'"
| approved_provider:
    "\<lbrakk>as_federation s = Some fed; rq_method rq = ''GET'';
      values_get (rq_query rq) ''state'' = i; i \<noteq> []; values_get (rq_query rq) ''error'' = [];
      e_clock e 0 < ac_expiry p;
      Exchange L (idp_parse L) fed (e_clock e 1) reply (ac_nonce p) = Inr who;
      as_randToken e 0 = Some c;
      p' = p\<lparr>ac_subject := fi_subject who, ac_expiry := e_clock e 3 + 60 * second\<rparr>\<rbrakk>
     \<Longrightarrow> approved L (s, Public e reply ''/oauth/sso/callback'' rq, r) i p c p'"

lemma prune_pending:
  "x \<in> set (as_pending (prunePendingLocked now s)) \<longleftrightarrow> x \<in> set (as_pending s) \<and> ac_expiry (snd x) > now"
  by (auto simp: prunePendingLocked_def)

lemma prune_lookup:
  "map_of (as_pending (prunePendingLocked now s)) i = Some p \<Longrightarrow> (i, p) \<in> set (as_pending s) \<and> now < ac_expiry p"
  using prune_pending by (fastforce dest: map_of_SomeD)

lemma issue_code_frame:
  assumes "issue_code L e now p s = (s', r)"
  shows "as_pending s' = as_pending s \<and> as_config s' = as_config s"
  using assms by (auto simp: issue_code_def split: option.splits)

lemma issue_code_codes:
  assumes "issue_code L e now p s = (s', r)" and "(c, q) \<in> set (as_codes s')"
  shows "(c, q) \<in> set (as_codes s) \<or> as_randToken e 0 = Some c \<and> q = p\<lparr>ac_expiry := now + 60 * second\<rparr>"
  using assms by (auto simp: issue_code_def dest!: in_alist_update split: option.splits)

lemma decision_frames:
  "localConsent L e rq s = (s', r) \<Longrightarrow> set (as_pending s') \<subseteq> set (as_pending s) \<and> as_config s' = as_config s"
  "operatorConsent L e rq s = (s', r) \<Longrightarrow> set (as_pending s') \<subseteq> set (as_pending s) \<and> as_config s' = as_config s"
  "ssoCallback L e reply rq s = (s', r) \<Longrightarrow> set (as_pending s') \<subseteq> set (as_pending s) \<and> as_config s' = as_config s"
  by (auto simp: localConsent_def operatorConsent_def ssoCallback_def Let_def in_alist_delete prune_pending
      dest!: issue_code_frame split: if_splits option.splits sum.splits)

lemma localConsent_codes:
  assumes "localConsent L e rq s = (s', r)" and "(c, q) \<in> set (as_codes s')" and "(c, q) \<notin> set (as_codes s)"
    and "as_federation s = None" and "as_approval_base s = []" and "rq_method rq = ''POST''"
  shows "\<exists>i p. (i, p) \<in> set (as_pending s) \<and> approved L (s, Public e reply ''/oauth/authorize'' rq, r') i p c q"
  using assms
  by (auto simp: localConsent_def Let_def
      dest!: prune_lookup issue_code_codes intro!: exI conjI approved_local split: if_splits option.splits)

lemma operatorConsent_codes:
  assumes "operatorConsent L e rq s = (s', r)" and "(c, q) \<in> set (as_codes s')" and "(c, q) \<notin> set (as_codes s)" and "as_approval_base s \<noteq> []"
  shows "\<exists>i p. (i, p) \<in> set (as_pending s) \<and> approved L (s, Operator e ''/oauth/consent'' rq, r') i p c q"
  using assms
  by (auto simp: operatorConsent_def Let_def
      dest!: prune_lookup issue_code_codes intro!: exI conjI approved_operator split: if_splits option.splits)

lemma ssoCallback_codes:
  assumes "ssoCallback L e reply rq s = (s', r)" and "(c, q) \<in> set (as_codes s')" and "(c, q) \<notin> set (as_codes s)"
  shows "\<exists>i p. (i, p) \<in> set (as_pending s) \<and> approved L (s, Public e reply ''/oauth/sso/callback'' rq, r') i p c q"
  using assms
  by (auto simp: ssoCallback_def Let_def
      dest!: prune_lookup issue_code_codes intro!: exI conjI approved_provider split: if_splits option.splits sum.splits)

lemma storePending_effect:
  assumes "storePending e d p s = Some (s', ro)"
  shows "as_codes s' = as_codes s \<and> as_config s' = as_config s"
    and "(i, q) \<in> set (as_pending s') \<Longrightarrow> (i, q) \<in> set (as_pending s) \<or>
       as_randToken e d = Some i \<and>
       q = (if as_federation s = None then p\<lparr>ac_subject := currentSubjectLocked s\<rparr> else p)
             \<lparr>ac_expiry := e_clock e 1 + 5 * minute\<rparr>"
proof -
  obtain k where k: "as_randToken e d = Some k" using assms by (auto simp: storePending_def split: option.splits)
  have subj: "currentSubjectLocked (prunePendingLocked t s) = currentSubjectLocked s"
    "as_federation (prunePendingLocked t s) = as_federation s" for t
    by (simp_all add: prunePendingLocked_def currentSubjectLocked_def)
  show "as_codes s' = as_codes s \<and> as_config s' = as_config s"
    using assms by (auto simp: storePending_def k Let_def split: if_splits)
  show "(i, q) \<in> set (as_pending s) \<or> as_randToken e d = Some i \<and>
      q = (if as_federation s = None then p\<lparr>ac_subject := currentSubjectLocked s\<rparr> else p)
             \<lparr>ac_expiry := e_clock e 1 + 5 * minute\<rparr>" if "(i, q) \<in> set (as_pending s')"
    using assms that
    by (auto simp: storePending_def k Let_def prune_pending subj dest!: in_alist_update split: if_splits)
qed

lemma start_authorization_effect:
  assumes "start_authorization L e p client s = (s', r)"
  shows "as_codes s' = as_codes s \<and> as_config s' = as_config s"
    and "(i, q) \<in> set (as_pending s') \<Longrightarrow> (i, q) \<notin> set (as_pending s) \<Longrightarrow>
       as_randToken e 0 = Some i \<and>
       (if as_federation s = None then q = p\<lparr>ac_subject := currentSubjectLocked s, ac_expiry := e_clock e 1 + 5 * minute\<rparr>
        else (\<exists>n v. as_randToken e 1 = Some n \<and>
          q = p\<lparr>ac_nonce := n, ac_verifier := v, ac_expiry := e_clock e 1 + 5 * minute\<rparr>))"
  subgoal using assms
    by (auto simp: start_authorization_def dest!: storePending_effect(1) split: option.splits prod.splits)
  subgoal using assms
    by (auto simp: start_authorization_def dest!: storePending_effect(2) split: option.splits prod.splits)
  done

lemma authorize_get_cases:
  assumes "authorize L e rq s = (s', r)" and "rq_method rq \<noteq> ''POST''" and "s' \<noteq> s"
  shows "\<exists>client. rq_method rq = ''GET'' \<and> map_of (as_clients s) (values_get (rq_query rq) ''client_id'') = Some client \<and>
    values_get (rq_query rq) ''redirect_uri'' \<in> set (cr_redirect_uris client) \<and> \<not> request_invalid s (rq_query rq) \<and>
    start_authorization L e (requested_grant (rq_query rq)) client s = (s', r)"
  using assms by (simp add: authorize_def Let_def split: if_splits option.splits)

lemma begun_start:
  assumes "start_authorization L e (requested_grant (rq_query rq)) client s = (s', r)"
    and "rq_method rq = ''GET''" and "map_of (as_clients s) (values_get (rq_query rq) ''client_id'') = Some client"
    and "values_get (rq_query rq) ''redirect_uri'' \<in> set (cr_redirect_uris client)" and "\<not> request_invalid s (rq_query rq)"
    and "(i, p) \<in> set (as_pending s')" and "(i, p) \<notin> set (as_pending s)"
  shows "begun (s, Public e reply ''/oauth/authorize'' rq, r') i p"
proof -
  have ok: "values_get (rq_query rq) ''response_type'' = ''code''" "values_get (rq_query rq) ''code_challenge_method'' = ''S256''"
    "validPKCEChallenge (values_get (rq_query rq) ''code_challenge'')"
    "as_require_state s \<longrightarrow> values_get (rq_query rq) ''state'' \<noteq> []"
    "as_require_resource s \<longrightarrow> values_get (rq_query rq) ''resource'' = as_resource s"
    and scope: "firstNonBlank (values_get (rq_query rq) ''scope'') ''mcp'' = ''mcp''"
    using assms(5) by (simp_all add: request_invalid_def)
  note e = start_authorization_effect(2) [OF assms(1,6,7)]
  show ?thesis
  proof (cases "as_federation s")
    case None
    with e have i: "as_randToken e 0 = Some i"
      and p: "p = (requested_grant (rq_query rq))\<lparr>ac_subject := currentSubjectLocked s, ac_expiry := e_clock e 1 + 5 * minute\<rparr>"
      by simp_all
    show ?thesis
      by (rule begun_get [OF assms(2) refl assms(3,4) ok i]) (simp_all add: p None requested_grant_def scope)
  next
    case (Some fed)
    with e obtain n v where i: "as_randToken e 0 = Some i" and n: "as_randToken e 1 = Some n"
      and p: "p = (requested_grant (rq_query rq))\<lparr>ac_nonce := n, ac_verifier := v, ac_expiry := e_clock e 1 + 5 * minute\<rparr>"
      by auto
    show ?thesis
      by (rule begun_get [OF assms(2) refl assms(3,4) ok i]) (use n in \<open>simp_all add: p Some requested_grant_def scope\<close>)
  qed
qed

lemma authorize_pending:
  assumes "authorize L e rq s = (s', r)" and "(i, p) \<in> set (as_pending s')" and "(i, p) \<notin> set (as_pending s)"
  shows "begun (s, Public e reply ''/oauth/authorize'' rq, r') i p"
proof (cases "rq_method rq = ''POST''")
  case True
  with assms show ?thesis by (auto simp: authorize_def dest!: decision_frames(1) split: if_splits)
next
  case False
  from assms(2,3) have "s' \<noteq> s" by auto
  then obtain client where c: "rq_method rq = ''GET''"
      "map_of (as_clients s) (values_get (rq_query rq) ''client_id'') = Some client"
      "values_get (rq_query rq) ''redirect_uri'' \<in> set (cr_redirect_uris client)" "\<not> request_invalid s (rq_query rq)"
    and st: "start_authorization L e (requested_grant (rq_query rq)) client s = (s', r)"
    using authorize_get_cases [OF assms(1) False] by auto
  show ?thesis by (rule begun_start [OF st c assms(2,3)])
qed

lemma authorize_config:
  assumes "authorize L e rq s = (s', r)"
  shows "as_config s' = as_config s"
proof (cases "rq_method rq = ''POST''")
  case True
  with assms show ?thesis by (auto simp: authorize_def dest!: decision_frames(1) split: if_splits)
next
  case False
  show ?thesis
  proof (cases "s' = s")
    case changed: False
    with authorize_get_cases [OF assms False] start_authorization_effect(1) show ?thesis by blast
  qed simp
qed

lemma authorize_codes:
  assumes "authorize L e rq s = (s', r)" and "(c, q) \<in> set (as_codes s')" and "(c, q) \<notin> set (as_codes s)"
  shows "\<exists>i p. (i, p) \<in> set (as_pending s) \<and> approved L (s, Public e reply ''/oauth/authorize'' rq, r') i p c q"
proof (cases "rq_method rq = ''POST''")
  case True
  with assms have "as_federation s = None" "as_approval_base s = []" "localConsent L e rq s = (s', r)"
    by (auto simp: authorize_def split: if_splits)
  with localConsent_codes assms True show ?thesis by blast
next
  case False
  from assms(2,3) have "s' \<noteq> s" by auto
  from authorize_get_cases [OF assms(1) False this] have "as_codes s' = as_codes s"
    using start_authorization_effect(1) by blast
  with assms(2,3) show ?thesis by simp
qed

section \<open>Agreement\<close>

lemma step_config: "as_config (fst (as_step L s x)) = as_config s"
proof (cases x)
  case (Public e reply path rq)
  obtain s' r where r: "serve_public L e reply path rq s = (s', r)" by force
  have "as_config s' = as_config s"
    using r [unfolded serve_public_def]
    by (auto dest: authorize_config register_frame token_frame revoke_frame decision_frames(3)
        simp: metadata_def jwks_def split: if_splits)
  with r Public show ?thesis by simp
next
  case (Operator e path rq)
  obtain s' r where r: "serve_operator L e path rq s = (s', r)" by force
  with Operator show ?thesis by (auto simp: serve_operator_def dest: decision_frames(2) split: if_splits)
qed (simp_all add: bearer_frame)

lemma step_pending:
  assumes "(i, p) \<in> set (as_pending (fst (as_step L s x)))" and "(i, p) \<notin> set (as_pending s)"
  shows "begun (s, x, r') i p"
proof (cases x)
  case (Public e reply path rq)
  obtain s' r where r: "serve_public L e reply path rq s = (s', r)" by force
  with assms Public have i: "(i, p) \<in> set (as_pending s')" by simp
  have "path = ''/oauth/authorize''" "authorize L e rq s = (s', r)"
    using r [unfolded serve_public_def] i assms(2)
    by (auto dest: register_frame token_frame revoke_frame decision_frames(3) simp: metadata_def jwks_def split: if_splits)
  with Public authorize_pending i assms(2) show ?thesis by blast
next
  case (Operator e path rq)
  obtain s' r where r: "serve_operator L e path rq s = (s', r)" by force
  with Operator assms show ?thesis by (auto simp: serve_operator_def dest!: decision_frames(2) split: if_splits)
qed (use assms in \<open>simp_all add: bearer_frame\<close>)

lemma step_codes:
  assumes "(c, q) \<in> set (as_codes (fst (as_step L s x)))" and "(c, q) \<notin> set (as_codes s)"
  shows "\<exists>i p. (i, p) \<in> set (as_pending s) \<and> approved L (s, x, r') i p c q"
proof (cases x)
  case (Public e reply path rq)
  obtain s' r where r: "serve_public L e reply path rq s = (s', r)" by force
  with assms Public have i: "(c, q) \<in> set (as_codes s')" by simp
  then consider "path = ''/oauth/authorize''" "authorize L e rq s = (s', r)"
    | "path = ''/oauth/sso/callback''" "ssoCallback L e reply rq s = (s', r)"
    using r [unfolded serve_public_def] assms(2)
    by (auto dest: register_frame token_frame revoke_frame simp: metadata_def jwks_def split: if_splits)
  then show ?thesis
  proof cases
    case 1
    with authorize_codes [OF 1(2) i assms(2)] Public show ?thesis by blast
  next
    case 2
    with ssoCallback_codes [OF 2(2) i assms(2)] Public show ?thesis by blast
  qed
next
  case (Operator e path rq)
  obtain s' r where r: "serve_operator L e path rq s = (s', r)" by force
  with Operator assms show ?thesis
    by (auto simp: serve_operator_def dest: operatorConsent_codes split: if_splits)
qed (use assms in \<open>simp_all add: bearer_frame\<close>)

definition traced :: "'a as_lib_scheme \<Rightarrow> as_event list \<Rightarrow> auth_server \<Rightarrow> bool" where
  "traced L h s \<longleftrightarrow>
     (\<forall>i p. (i, p) \<in> set (as_pending s) \<longrightarrow> (\<exists>h1 a h2. h = h1 @ a # h2 \<and> begun a i p)) \<and>
     (\<forall>c q. (c, q) \<in> set (as_codes s) \<longrightarrow>
        (\<exists>h1 a h2 b h3 i p. h = h1 @ a # h2 @ b # h3 \<and> begun a i p \<and> approved L b i p c q))"

lemma traced_step:
  assumes "traced L h s"
  shows "traced L (h @ [(s, x, snd (as_step L s x))]) (fst (as_step L s x))"
proof -
  let ?ev = "(s, x, snd (as_step L s x))"
  have pending: "\<exists>h1 a h2. h @ [?ev] = h1 @ a # h2 \<and> begun a i p"
    if "(i, p) \<in> set (as_pending (fst (as_step L s x)))" for i p
  proof (cases "(i, p) \<in> set (as_pending s)")
    case True
    with assms obtain h1 a h2 where "h = h1 @ a # h2" "begun a i p" unfolding traced_def by blast
    then show ?thesis by (intro exI [of _ h1] exI [of _ a] exI [of _ "h2 @ [?ev]"]) simp
  next
    case False
    with step_pending that have "begun ?ev i p" by blast
    then show ?thesis by blast
  qed
  have codes: "\<exists>h1 a h2 b h3 i p. h @ [?ev] = h1 @ a # h2 @ b # h3 \<and> begun a i p \<and> approved L b i p c q"
    if "(c, q) \<in> set (as_codes (fst (as_step L s x)))" for c q
  proof (cases "(c, q) \<in> set (as_codes s)")
    case True
    with assms obtain h1 a h2 b h3 i p where "h = h1 @ a # h2 @ b # h3" "begun a i p" "approved L b i p c q"
      unfolding traced_def by blast
    then show ?thesis
      by (intro exI [of _ h1] exI [of _ a] exI [of _ h2] exI [of _ b] exI [of _ "h3 @ [?ev]"] exI [of _ i] exI [of _ p]) simp
  next
    case False
    with step_codes that obtain i p where "(i, p) \<in> set (as_pending s)" and b: "approved L ?ev i p c q" by blast
    with assms obtain h1 a h2 where "h = h1 @ a # h2" "begun a i p" unfolding traced_def by blast
    with b show ?thesis
      by (intro exI [of _ h1] exI [of _ a] exI [of _ h2] exI [of _ ?ev] exI [of _ "[]"] exI [of _ i] exI [of _ p]) simp
  qed
  from pending codes show ?thesis unfolding traced_def by blast
qed

lemma traced_run:
  assumes "as_codes s0 = []" and "as_pending s0 = []"
  shows "traced L (as_trace L s0 ops) (as_after L s0 ops)"
proof (induction ops rule: rev_induct)
  case Nil
  show ?case by (simp add: traced_def assms)
next
  case (snoc x ops)
  from traced_step [OF this] show ?case by (simp only: as_trace_snoc as_after_simps)
qed

lemma config_run: "as_config (as_after L s0 ops) = as_config s0"
  by (induction ops rule: rev_induct) (simp_all add: step_config)

section \<open>Minted tokens\<close>

lemma base_members:
  "str_member (base_claims iss sub aud jti now ttl scopes @ extra_claims extra) ''iss'' = iss"
  "str_member (base_claims iss sub aud jti now ttl scopes @ extra_claims extra) ''sub'' = sub"
  "str_member (base_claims iss sub aud jti now ttl scopes @ extra_claims extra) ''aud'' = aud"
  "str_member (base_claims iss sub aud jti now ttl scopes @ extra_claims extra) ''jti'' = b64_url jti"
  "str_member (base_claims iss sub aud jti now ttl scopes @ extra_claims extra) ''scope'' = join_with '' '' scopes"
proof -
  have "map_of (rev (extra_claims extra)) k = None" if "k \<in> set reserved_claims" for k
    using that by (auto simp: map_of_eq_None_iff extra_claims_def)
  then show
    "str_member (base_claims iss sub aud jti now ttl scopes @ extra_claims extra) ''iss'' = iss"
    "str_member (base_claims iss sub aud jti now ttl scopes @ extra_claims extra) ''sub'' = sub"
    "str_member (base_claims iss sub aud jti now ttl scopes @ extra_claims extra) ''aud'' = aud"
    "str_member (base_claims iss sub aud jti now ttl scopes @ extra_claims extra) ''jti'' = b64_url jti"
    "str_member (base_claims iss sub aud jti now ttl scopes @ extra_claims extra) ''scope'' = join_with '' '' scopes"
    by (simp_all add: str_member_def member_def map_add_def base_claims_def reserved_claims_def)
qed

text \<open>\<open>minted L aud sub scope t\<close>: the token is a signature over claims with this audience, subject and scope.\<close>

definition minted :: "'a as_lib_scheme \<Rightarrow> string \<Rightarrow> string \<Rightarrow> string \<Rightarrow> string \<Rightarrow> bool" where
  "minted L aud sub scope t \<longleftrightarrow>
     (\<exists>n cl. sign L n cl = Some t \<and> str_member cl ''aud'' = aud \<and> str_member cl ''sub'' = sub \<and>
        str_member cl ''scope'' = scope)"

lemma mint_minted:
  "mint L e i now iss aud sub scopes ttl extra = Some t \<Longrightarrow> minted L aud sub (join_with '' '' scopes) t"
  unfolding minted_def mint_def
  by (cases "e_rand e i")
    (simp_all, intro exI [of _ "e_entropy e i"] exI conjI, assumption, simp_all only: base_members)

lemma issueTokens_minted:
  assumes "issueTokens L e k subject scope clientID s = TokenReply access rt sc ttl"
  shows "minted L (as_audience s) subject (join_with '' '' (str_fields scope)) access \<and>
    minted L (as_audience s @ refreshAudienceSuffix) subject (join_with '' '' (str_fields scope)) rt \<and> sc = scope"
  using assms by (auto simp: issueTokens_def Mint_def dest: mint_minted split: option.splits)

section \<open>Codes are exchanged after approval, and once\<close>

lemma mcp_fields: "join_with '' '' (str_fields ''mcp'') = ''mcp''"
  by code_simp

lemma begun_scope: "begun ev i p \<Longrightarrow> ac_scope p = ''mcp''"
  by (cases rule: begun.cases) auto

lemma approved_keeps:
  assumes "approved L ev i p c q"
  shows "ac_client_id q = ac_client_id p \<and> ac_redirect_uri q = ac_redirect_uri p \<and> ac_challenge q = ac_challenge p \<and>
    ac_scope q = ac_scope p \<and> ac_resource q = ac_resource p"
  using assms by (cases rule: approved.cases) auto

lemma token_code:
  assumes "token_endpoint L e rq s = (s', TokenReply access rt sc ttl)" and "rq_form rq = Some f"
    and "values_get f ''grant_type'' = ''authorization_code''"
  shows "\<exists>q. (values_get f ''code'', q) \<in> set (as_codes s) \<and> \<not> code_refused L (e_clock e 0) f q \<and>
    minted L (as_audience s) (ac_subject q) (join_with '' '' (str_fields (ac_scope q))) access \<and>
    minted L (as_audience s @ refreshAudienceSuffix) (ac_subject q) (join_with '' '' (str_fields (ac_scope q))) rt"
proof -
  from assms have g: "grantCode L e f s = (s', TokenReply access rt sc ttl)"
    by (auto simp: token_endpoint_def method_not_allowed_def split: if_splits)
  then obtain q where q: "map_of (as_codes s) (values_get f ''code'') = Some q"
    "\<not> code_refused L (e_clock e 0) f q"
    and i: "issueTokens L e 2 (ac_subject q) (ac_scope q) (ac_client_id q) s' = TokenReply access rt sc ttl"
    by (auto simp: grantCode_def Let_def split: if_splits option.splits)
  from code_frame [OF g] have "as_audience s' = as_audience s" by (simp add: as_config_def)
  with issueTokens_minted [OF i] q show ?thesis by (auto dest: map_of_SomeD)
qed

text \<open>
  C8. Tokens are issued for an authorization code only after the authorization they belong to was
  requested and approved. In every run of the server that starts without codes and pending
  requests, an answered code exchange is preceded by an authorization request of the client it
  names, which was registered with the redirect URI it names and sent the S256 challenge of the
  verifier it presents (\<open>begun\<close>), and after that by the approval of this request
  (\<open>approved\<close>): on the local consent page, not from another site; on the operator listener from a
  loopback address, when consent was moved there; or through a sign-in at the identity provider
  that validated against the nonce of this request, when the server is federated. The approval
  came before the request's five minutes were over and issued this code, the exchange within a
  minute of it, and both tokens are signed for the subject of the approved grant: the local
  principal, or the provider's subject.
\<close>

theorem code_exchange_agrees:
  assumes "as_codes s0 = []" and "as_pending s0 = []"
    and "as_step L (as_after L s0 ops) (Public e reply ''/oauth/token'' rq) = (s', Some (TokenReply access rt sc ttl))"
    and "rq_form rq = Some f" and "values_get f ''grant_type'' = ''authorization_code''"
  shows "\<exists>h1 a h2 b h3 i p q. as_trace L s0 ops = h1 @ a # h2 @ b # h3 \<and>
    begun a i p \<and> approved L b i p (values_get f ''code'') q \<and>
    ac_client_id p = values_get f ''client_id'' \<and> ac_redirect_uri p = values_get f ''redirect_uri'' \<and>
    ac_challenge p = pkceS256 L (values_get f ''code_verifier'') \<and>
    (ac_resource p \<noteq> [] \<longrightarrow> ac_resource p = values_get f ''resource'') \<and>
    e_clock e 0 \<le> ac_expiry q \<and> ac_subject q \<noteq> [] \<and>
    minted L (as_audience s0) (ac_subject q) ''mcp'' access \<and>
    minted L (as_audience s0 @ refreshAudienceSuffix) (ac_subject q) ''mcp'' rt"
proof -
  let ?s = "as_after L s0 ops"
  from assms(3) have t: "token_endpoint L e rq ?s = (s', TokenReply access rt sc ttl)"
    by (simp add: serve_public_def apsnd_def map_prod_def split: prod.splits)
  obtain q where "(values_get f ''code'', q) \<in> set (as_codes ?s)"
    and ok: "\<not> code_refused L (e_clock e 0) f q"
    and m: "minted L (as_audience ?s) (ac_subject q) (join_with '' '' (str_fields (ac_scope q))) access"
      "minted L (as_audience ?s @ refreshAudienceSuffix) (ac_subject q) (join_with '' '' (str_fields (ac_scope q))) rt"
    using token_code [OF t assms(4,5)] by blast
  with traced_run [OF assms(1,2), of L ops] obtain h1 a h2 b h3 i p
    where h: "as_trace L s0 ops = h1 @ a # h2 @ b # h3" and b: "begun a i p"
      and ap: "approved L b i p (values_get f ''code'') q"
    unfolding traced_def by blast
  have "as_audience ?s = as_audience s0" using config_run [of L s0 ops] by (simp add: as_config_def)
  with m begun_scope [OF b] approved_keeps [OF ap]
  have m': "minted L (as_audience s0) (ac_subject q) ''mcp'' access"
    "minted L (as_audience s0 @ refreshAudienceSuffix) (ac_subject q) ''mcp'' rt"
    by (simp_all add: mcp_fields)
  have k: "ac_client_id p = values_get f ''client_id''" "ac_redirect_uri p = values_get f ''redirect_uri''"
    "ac_challenge p = pkceS256 L (values_get f ''code_verifier'')"
    "ac_resource p \<noteq> [] \<longrightarrow> ac_resource p = values_get f ''resource''"
    "e_clock e 0 \<le> ac_expiry q" "ac_subject q \<noteq> []"
    using ok approved_keeps [OF ap] by (simp_all add: code_refused_def) metis
  show ?thesis by (intro exI conjI; fact h b ap k m')
qed

lemma reissue_only_by_approval:
  assumes "c \<in> fst ` set (as_codes (as_after L s ops))" and "c \<notin> fst ` set (as_codes s)"
  shows "\<exists>ev \<in> set (as_trace L s ops). \<exists>i p q. approved L ev i p c q"
  using assms
proof (induction ops rule: rev_induct)
  case (snoc x ops)
  let ?s = "as_after L s ops"
  from snoc.prems(1) obtain q where q: "(c, q) \<in> set (as_codes (fst (as_step L ?s x)))" by auto
  show ?case
  proof (cases "c \<in> fst ` set (as_codes ?s)")
    case True
    with snoc show ?thesis by (auto simp: as_trace_snoc)
  next
    case False
    then have "(c, q) \<notin> set (as_codes ?s)" by force
    with step_codes [OF q] show ?thesis unfolding as_trace_snoc by fastforce
  qed
qed simp

text \<open>
  C11. An authorization code is spent by the first attempt to exchange it, successful or not: when a
  later request of the run exchanges the same code for tokens, an approval in between has issued
  that very code anew.
\<close>

theorem code_exchanged_once:
  assumes "rq_method rq1 = ''POST''" and "rq_form rq1 = Some f1"
    and "values_get f1 ''grant_type'' = ''authorization_code''"
    and "s1 = fst (as_step L s0 (Public e1 reply1 ''/oauth/token'' rq1))"
    and "as_step L (as_after L s1 mid) (Public e2 reply2 ''/oauth/token'' rq2) = (s2, Some (TokenReply access rt sc ttl))"
    and "rq_form rq2 = Some f2" and "values_get f2 ''grant_type'' = ''authorization_code''"
    and "values_get f1 ''code'' = values_get f2 ''code''"
  shows "\<exists>ev \<in> set (as_trace L s1 mid). \<exists>i p q. approved L ev i p (values_get f1 ''code'') q"
proof -
  have "fst (token_endpoint L e1 rq1 s0) = s1" using assms(4) by (simp add: serve_public_def)
  then have "as_codes s1 = AList.delete (values_get f1 ''code'') (as_codes s0)"
    using assms(1-3) code_frame [OF surjective_pairing, of L e1 f1 s0] by (simp add: token_endpoint_def)
  then have "values_get f1 ''code'' \<notin> fst ` set (as_codes s1)" by (auto simp: in_alist_delete)
  moreover from assms(5) have "token_endpoint L e2 rq2 (as_after L s1 mid) = (s2, TokenReply access rt sc ttl)"
    by (simp add: serve_public_def apsnd_def map_prod_def split: prod.splits)
  from token_code [OF this assms(6,7)] assms(8) have "values_get f1 ''code'' \<in> fst ` set (as_codes (as_after L s1 mid))"
    by force
  ultimately show ?thesis by (intro reissue_only_by_approval)
qed

end
