(* ===== verification/Refresh_Safety.thy ===== *)
theory Refresh_Safety
  imports Auth_Server_Safety
begin

text \<open>
  Rotation of refresh tokens: once a refresh token has been exchanged, its identifier stays on the
  persistent revocation list until it expires, through other requests and through restarts, and
  the token is refused.
\<close>

section \<open>The revocation list in a run\<close>

definition holds_denied :: "string \<Rightarrow> time \<Rightarrow> auth_server \<Rightarrow> bool" where
  "holds_denied i t s \<longleftrightarrow> (\<exists>l. as_revocations s = Some l \<and> denied i t l \<and> rl_path l \<noteq> [])"

definition before :: "time \<Rightarrow> as_op \<Rightarrow> bool" where
  "before t x \<longleftrightarrow> (\<forall>n. e_clock (op_env x) n < t)"

text \<open>A token identifier belongs to one token: what else is accepted under it does not expire earlier.\<close>

definition jti_expires :: "'a as_lib_scheme \<Rightarrow> string \<Rightarrow> time \<Rightarrow> bool" where
  "jti_expires L i t \<longleftrightarrow>
     (\<forall>opts now raw c u. own_parse L opts now raw = Some c \<longrightarrow> str_member (claim_members c) ''jti'' = i \<longrightarrow>
        claim_exp c = Some u \<longrightarrow> t \<le> u)"

lemma frame_revocations [simp]:
  "as_revocations (persistClientsLocked out s) = as_revocations s"
  "as_revocations (expireUnusedClientsLocked out now ttl s) = as_revocations s"
  "as_revocations (markClientUsedLocked out now i s) = as_revocations s"
  "as_revocations (recordFederatedIdentity out now who iss s) = as_revocations s"
  "as_revocations (LoadFederatedIdentities path s) = as_revocations s"
  "as_revocations (reportRegistration ev s) = as_revocations s"
  "as_revocations (prunePendingLocked now s) = as_revocations s"
  "as_revocations (sweep_registrations out now s) = as_revocations s"
  "as_revocations (set_window source w s) = as_revocations s"
  by (simp_all add: as_frame_defs sweep_registrations_def set_window_def
      split: file_write.splits option.splits identities_file.splits)

lemma load_clients_revocations [simp]: "as_revocations (LoadClients L e path s) = as_revocations s"
proof -
  have "as_revocations (foldl (load_client L) s pcs) = as_revocations s" for s pcs
    by (induction pcs arbitrary: s) (simp_all add: load_client_def)
  then show ?thesis by (simp add: LoadClients_def Let_def split: clients_file.splits)
qed

lemma register_revocations: "register L e rq s = (s', r) \<Longrightarrow> as_revocations s' = as_revocations s"
  by (auto simp: register_def complete_registration_def admitRegistrationLocked_def Let_def
      split: if_splits option.splits prod.splits sum.splits)

lemma issue_code_revocations: "issue_code L e now p s = (s', r) \<Longrightarrow> as_revocations s' = as_revocations s"
  by (auto simp: issue_code_def split: option.splits)

lemma decision_revocations:
  "localConsent L e rq s = (s', r) \<Longrightarrow> as_revocations s' = as_revocations s"
  "operatorConsent L e rq s = (s', r) \<Longrightarrow> as_revocations s' = as_revocations s"
  "ssoCallback L e reply rq s = (s', r) \<Longrightarrow> as_revocations s' = as_revocations s"
  by (auto simp: localConsent_def operatorConsent_def ssoCallback_def Let_def
      dest!: issue_code_revocations split: if_splits option.splits sum.splits)

lemma storePending_revocations: "storePending e d p s = Some (s', ro) \<Longrightarrow> as_revocations s' = as_revocations s"
  by (auto simp: storePending_def Let_def split: option.splits if_splits)

lemma authorize_revocations:
  assumes "authorize L e rq s = (s', r)"
  shows "as_revocations s' = as_revocations s"
proof -
  have "start_authorization L e p client s = (s', r) \<Longrightarrow> as_revocations s' = as_revocations s" for p client
    by (auto simp: start_authorization_def dest!: storePending_revocations split: option.splits prod.splits)
  with assms show ?thesis
    by (auto simp: authorize_def Let_def dest!: decision_revocations(1) split: if_splits option.splits)
qed

lemma code_revocations: "grantCode L e f s = (s', r) \<Longrightarrow> as_revocations s' = as_revocations s"
  by (auto simp: grantCode_def Let_def split: if_splits option.splits)

lemma IsRevoked_holds:
  assumes "holds_denied i t s" and "now < t" and "IsRevoked (as_revocations s) now j = (revs, b)"
  shows "holds_denied i t (s\<lparr>as_revocations := revs\<rparr>)"
  using assms IsRevoked_denied [of i t _ now j] by (fastforce simp: holds_denied_def)

lemma Consume_holds:
  assumes "holds_denied i t s" and "now < t" and "Consume (as_revocations s) now j x out = (revs, b)"
  shows "holds_denied i t (s\<lparr>as_revocations := revs\<rparr>)"
  using assms Consume_denied [of i t _ now j x out] by (fastforce simp: holds_denied_def)

lemma Revoke_holds:
  assumes "holds_denied i t s" and "now < t" and "j = i \<longrightarrow> t \<le> x"
    and "Revoke (as_revocations s) now j x out = (revs, b)"
  shows "holds_denied i t (s\<lparr>as_revocations := revs\<rparr>)"
  using assms Revoke_denied [of i t _ now j x out] by (fastforce simp: holds_denied_def)

lemma parse_refresh_holds:
  assumes "holds_denied i t s" and "e_clock e 1 < t" and "parseRefreshGrant L e raw s = (s', g)"
  shows "holds_denied i t s'"
  using assms IsRevoked_holds [OF assms(1,2)]
  by (auto simp: parseRefreshGrant_def Let_def split: if_splits option.splits prod.splits)

lemma refresh_holds:
  assumes "holds_denied i t s" and "\<forall>n. e_clock e n < t" and "grantRefresh L e f s = (s', r)"
  shows "holds_denied i t s'"
proof -
  obtain s1 g where p: "parseRefreshGrant L e (values_get f ''refresh_token'') s = (s1, g)" by force
  with assms parse_refresh_holds have h: "holds_denied i t s1" by blast
  from assms(2) have "e_clock e 2 < t" by blast
  from Consume_holds [OF h this] assms(3) h show ?thesis
    by (auto simp: grantRefresh_def p Let_def split: if_splits option.splits prod.splits sum.splits bool.splits)
qed

lemma revoke_holds:
  assumes "holds_denied i t s" and "\<forall>n. e_clock e n < t" and "jti_expires L i t" and "revoke L e rq s = (s', r)"
  shows "holds_denied i t s'"
proof (cases "s' = s")
  case False
  with assms(4) obtain f where f: "rq_form rq = Some f" "rq_method rq = ''POST''"
    by (auto simp: revoke_def split: if_splits option.splits)
  with assms(4) False obtain c x where c: "owned_claims L e (values_get f ''token'') s = Some c"
    and x: "claim_exp c = Some x" and j: "str_member (claim_members c) ''jti'' \<noteq> []"
    by (auto simp: revoke_def split: if_splits option.splits)
  obtain revs err where r: "Revoke (as_revocations s) (e_clock e 2) (str_member (claim_members c) ''jti'') x (e_persist e) = (revs, err)"
    by force
  with assms(4) f c x j have s': "s' = s\<lparr>as_revocations := revs\<rparr>" by (simp add: revoke_def)
  from c have "\<exists>opts now raw. own_parse L opts now raw = Some c"
    by (auto simp: owned_claims_def parseOwnedToken_def split: if_splits option.splits)
  with assms(3) x have "str_member (claim_members c) ''jti'' = i \<longrightarrow> t \<le> x" by (auto simp: jti_expires_def)
  with Revoke_holds [OF assms(1) _ _ r] assms(2) s' show ?thesis by blast
qed (use assms in simp)

lemma restart_holds:
  assumes "holds_denied i t s" and "e_clock e 1 < t"
  shows "holds_denied i t (as_restart L e s)"
proof -
  from assms(1) obtain l where l: "as_revocations s = Some l" "denied i t l" "rl_path l \<noteq> []"
    by (auto simp: holds_denied_def)
  from rev_step_denied [of i t l "(e_clock e 1, OpRestart)"] l assms(2)
  show ?thesis by (simp add: holds_denied_def as_restart_def)
qed

lemma bearer_holds:
  assumes "holds_denied i t s" and "e_clock e 0 < t"
  shows "holds_denied i t (fst (present_bearer L e raw s))"
proof -
  from assms(1) have same: "holds_denied i t (s\<lparr>as_revocations := as_revocations s\<rparr>)" by (simp add: holds_denied_def)
  obtain rs res where v: "Validate (rs_parse L) (built_in_rs s) (e_clock e 0) raw = (rs, res)" by force
  have "holds_denied i t (s\<lparr>as_revocations := rs_revocations rs\<rparr>)"
    using v same IsRevoked_holds [OF assms]
    by (auto simp: Validate_def Let_def built_in_rs_def split: if_splits option.splits prod.splits)
  with v show ?thesis by (simp add: present_bearer_def)
qed

lemma step_holds:
  assumes "holds_denied i t s" and "before t x" and "jti_expires L i t"
  shows "holds_denied i t (fst (as_step L s x))"
proof -
  have same: "holds_denied i t s'" if "as_revocations s' = as_revocations s" for s'
    using assms(1) that by (simp add: holds_denied_def)
  show ?thesis
  proof (cases x)
    case (Public e reply path rq)
    with assms(2) have clock: "\<forall>n. e_clock e n < t" by (simp add: before_def)
    obtain s' r where r: "serve_public L e reply path rq s = (s', r)" by force
    have tok: "holds_denied i t s'" if "token_endpoint L e rq s = (s', r)"
      using that assms(1)
      by (auto simp: token_endpoint_def intro: same code_revocations refresh_holds [OF assms(1) clock] split: if_splits option.splits)
    have "holds_denied i t s'"
      using r [unfolded serve_public_def] assms(1)
      by (auto simp: metadata_def jwks_def intro: tok same revoke_holds [OF assms(1) clock assms(3)]
          register_revocations authorize_revocations decision_revocations(3) split: if_splits)
    with r Public show ?thesis by simp
  next
    case (Operator e path rq)
    obtain s' r where r: "serve_operator L e path rq s = (s', r)" by force
    then have "as_revocations s' = as_revocations s"
      by (auto simp: serve_operator_def dest: decision_revocations(2) split: if_splits)
    with r Operator same show ?thesis by simp
  next
    case (Bearer e raw)
    with assms bearer_holds [of i t s e L raw] show ?thesis by (simp add: before_def)
  next
    case (Restart e)
    with assms restart_holds [of i t s e L] show ?thesis by (simp add: before_def)
  qed
qed

interpretation rotation: stepper "\<lambda>s x. fst (as_step L s x)" "before t" "\<lambda>s. holds_denied i t s \<and> jti_expires L i t"
  for L i t
  by unfold_locales (auto intro: step_holds)

lemma run_holds:
  assumes "holds_denied i t s" and "jti_expires L i t" and "\<forall>x \<in> set ops. before t x"
  shows "holds_denied i t (as_after L s ops)"
  using rotation.run_invar [of i t s L ops] assms by (simp add: as_after_def)

section \<open>Rotation\<close>

text \<open>The token \<open>raw\<close> carries the claims \<open>c\<close>: whenever it parses, these are what comes out.\<close>

definition carries :: "'a as_lib_scheme \<Rightarrow> string \<Rightarrow> jwt_claims \<Rightarrow> bool" where
  "carries L raw c \<longleftrightarrow>
     (\<forall>opts now c'. own_parse L opts now raw = Some c' \<or> rs_parse L opts now raw = Some c' \<longrightarrow> c' = c)"

lemma parse_refresh_claims:
  assumes "parseRefreshGrant L e raw s = (s', Some g)" and "carries L raw c"
  shows "rg_token_id g = str_member (claim_members c) ''jti'' \<and> claim_exp c = Some (rg_expiry g) \<and>
    s' = s\<lparr>as_revocations := fst (IsRevoked (as_revocations s) (e_clock e 1) (rg_token_id g))\<rparr> \<and>
    \<not> snd (IsRevoked (as_revocations s) (e_clock e 1) (rg_token_id g))"
proof -
  from assms(1) obtain c' where c': "own_parse L (owned_opts s (as_audience s @ refreshAudienceSuffix)) (e_clock e 0) raw = Some c'"
    by (auto simp: parseRefreshGrant_def parseOwnedToken_def split: if_splits option.splits)
  with assms(2) have [simp]: "c' = c" by (auto simp: carries_def)
  from assms(1) c' show ?thesis
    by (auto simp: parseRefreshGrant_def parseOwnedToken_def Let_def is_zero_def split: if_splits option.splits prod.splits)
qed

lemma refresh_success:
  assumes "token_endpoint L e rq s = (s', TokenReply access rt sc ttl)" and "rq_form rq = Some f"
    and "values_get f ''grant_type'' = ''refresh_token''" and "carries L (values_get f ''refresh_token'') c"
    and "as_revocations s = Some l" and "rl_wf l" and "rl_path l \<noteq> []" and "claim_exp c = Some t"
  shows "holds_denied (str_member (claim_members c) ''jti'') t s'"
proof -
  from assms(1-3) have g: "grantRefresh L e f s = (s', TokenReply access rt sc ttl)"
    by (auto simp: token_endpoint_def method_not_allowed_def split: if_splits)
  obtain s1 go where p: "parseRefreshGrant L e (values_get f ''refresh_token'') s = (s1, go)" by force
  with g obtain g0 where go: "go = Some g0" by (cases go) (auto simp: grantRefresh_def)
  note pc = parse_refresh_claims [OF p [unfolded go] assms(4)]
  obtain l1 where l1: "as_revocations s1 = Some l1" "rl_wf l1" "rl_path l1 = rl_path l"
    using pc assms(5,6)
    by (auto simp: IsRevoked_def rl_wf_def distinct_delete split: if_splits option.splits)
  obtain revs where c: "Consume (as_revocations s1) (e_clock e 2) (rg_token_id g0) (rg_expiry g0) (e_persist e) = (revs, Inr True)"
    and s': "s' = s1\<lparr>as_revocations := revs\<rparr>"
    using g by (auto simp: grantRefresh_def p go Let_def split: if_splits prod.splits sum.splits bool.splits)
  from c l1 obtain l2 where "revs = Some l2" by (auto simp: Consume_def Let_def split: if_splits prod.splits)
  with Consume_ok [OF l1(2)] c l1 pc assms(7,8) s' show ?thesis by (auto simp: holds_denied_def)
qed

lemma refresh_refused:
  assumes "holds_denied (str_member (claim_members c) ''jti'') t s" and "carries L (values_get f ''refresh_token'') c"
    and "e_clock e 1 < t" and "rq_method rq = ''POST''" and "rq_form rq = Some f"
    and "values_get f ''grant_type'' = ''refresh_token''"
  shows "snd (token_endpoint L e rq s) = ErrorJson ''invalid_grant'' [] 400"
proof -
  obtain s1 go where p: "parseRefreshGrant L e (values_get f ''refresh_token'') s = (s1, go)" by force
  have "go = None"
  proof (cases go)
    case (Some g)
    from parse_refresh_claims [OF p [unfolded Some] assms(2)]
    have "\<not> snd (IsRevoked (as_revocations s) (e_clock e 1) (str_member (claim_members c) ''jti''))" by metis
    with assms(1,3) IsRevoked_True show ?thesis by (fastforce simp: holds_denied_def)
  qed
  with p assms(4-6) show ?thesis by (simp add: token_endpoint_def grantRefresh_def)
qed

text \<open>
  C9. A refresh token is good for one exchange. After a refresh that was answered with tokens, the
  same refresh token is refused with \<open>invalid_grant\<close> until it expires, whatever happens in
  between: other registrations, authorizations, exchanges, refreshes and revocations, bearer
  tokens presented to the resource server, failed writes, and restarts of the process. This
  supposes a revocation list kept in a file, that a token parses to the claims it carries, and that
  its identifier is not shared by a token that expires earlier.
\<close>

theorem refresh_token_used_once:
  assumes "as_revocations s0 = Some l" and "rl_wf l" and "rl_path l \<noteq> []"
    and "as_step L s0 (Public e1 reply1 ''/oauth/token'' rq1) = (s1, Some (TokenReply access rt sc ttl))"
    and "rq_form rq1 = Some f1" and "values_get f1 ''grant_type'' = ''refresh_token''"
    and "carries L (values_get f1 ''refresh_token'') c" and "claim_exp c = Some t"
    and "jti_expires L (str_member (claim_members c) ''jti'') t"
    and "\<forall>x \<in> set mid. before t x" and "\<forall>n. e_clock e2 n < t"
    and "rq_method rq2 = ''POST''" and "rq_form rq2 = Some f2" and "values_get f2 ''grant_type'' = ''refresh_token''"
    and "values_get f2 ''refresh_token'' = values_get f1 ''refresh_token''"
  shows "snd (as_step L (as_after L s1 mid) (Public e2 reply2 ''/oauth/token'' rq2)) =
    Some (ErrorJson ''invalid_grant'' [] 400)"
proof -
  from assms(4) have "token_endpoint L e1 rq1 s0 = (s1, TokenReply access rt sc ttl)"
    by (simp add: serve_public_def apsnd_def map_prod_def split: prod.splits)
  from refresh_success [OF this assms(5-7,1-3,8)] assms(9,10)
  have h: "holds_denied (str_member (claim_members c) ''jti'') t (as_after L s1 mid)" by (intro run_holds)
  have "snd (token_endpoint L e2 rq2 (as_after L s1 mid)) = ErrorJson ''invalid_grant'' [] 400"
    by (rule refresh_refused [OF h _ _ assms(12,13,14)]) (use assms(7,11,15) in simp_all)
  then show ?thesis by (simp add: serve_public_def)
qed

section \<open>Revocation\<close>

lemma revoke_success:
  assumes "revoke L e rq s = (s', RevokedReply)" and "rq_form rq = Some f"
    and "owned_claims L e (values_get f ''token'') s = Some c"
    and "str_member (claim_members c) ''jti'' = i" and "i \<noteq> []" and "claim_exp c = Some t" and "\<not> is_zero t"
    and "as_revocations s = Some l" and "rl_wf l" and "rl_path l \<noteq> []"
  shows "holds_denied i t s'"
proof -
  obtain revs err where r: "Revoke (as_revocations s) (e_clock e 2) i t (e_persist e) = (revs, err)" by force
  with assms(1-6) have s': "s' = s\<lparr>as_revocations := revs\<rparr>" and "err = None"
    by (auto simp: revoke_def method_not_allowed_def split: if_splits option.splits)
  moreover from r [unfolded assms(8)] assms(5,7) obtain l' where "revs = Some l'"
    by (auto simp: Revoke_def Let_def split: if_splits prod.splits)
  ultimately show ?thesis
    using Revoke_ok [OF assms(9,5,7)] r assms(8,10) by (auto simp: holds_denied_def)
qed

lemma denied_bearer_refused:
  assumes "holds_denied i t s" and "e_clock e 0 < t" and "carries L (trim_space raw) c"
    and "str_member (claim_members c) ''jti'' = i"
  shows "\<exists>err. snd (present_bearer L e raw s) = Inl err"
proof -
  from assms(1) obtain l where l: "as_revocations s = Some l" "denied i t l" by (auto simp: holds_denied_def)
  obtain rs res where v: "Validate (rs_parse L) (built_in_rs s) (e_clock e 0) raw = (rs, res)" by force
  have "\<exists>err. res = Inl err"
  proof (cases "rs_parse L (rs_opts (built_in_rs s)) (e_clock e 0) (trim_space raw)")
    case None
    with v show ?thesis by (auto simp: Validate_def Let_def split: if_splits)
  next
    case (Some c')
    with assms(3) have "c' = c" by (auto simp: carries_def)
    with v Some assms(4) l IsRevoked_True [OF l(2) assms(2)] show ?thesis
      by (auto simp: Validate_def Let_def built_in_rs_def split: if_splits)
  qed
  with v show ?thesis by (simp add: present_bearer_def)
qed

text \<open>
  C10. Revocation takes effect at once and lasts. After \<open>/oauth/revoke\<close> was answered without an
  error for a token this server accepts as its own, the resource server admits no bearer token
  that carries the same identifier, and the token endpoint no such refresh token, before the
  revoked token's expiry, whatever requests, failed writes and restarts happen in between.
\<close>

theorem revoked_token_refused:
  assumes "as_revocations s0 = Some l" and "rl_wf l" and "rl_path l \<noteq> []"
    and "as_step L s0 (Public e1 reply1 ''/oauth/revoke'' rq1) = (s1, Some RevokedReply)"
    and "rq_form rq1 = Some f1" and "owned_claims L e1 (values_get f1 ''token'') s0 = Some c"
    and "str_member (claim_members c) ''jti'' = i" and "i \<noteq> []" and "claim_exp c = Some t" and "\<not> is_zero t"
    and "jti_expires L i t" and "\<forall>x \<in> set mid. before t x" and "\<forall>n. e_clock e2 n < t"
    and "str_member (claim_members c2) ''jti'' = i"
  shows "(carries L (trim_space raw) c2 \<longrightarrow> (\<exists>err. snd (present_bearer L e2 raw (as_after L s1 mid)) = Inl err)) \<and>
    (carries L (values_get f2 ''refresh_token'') c2 \<and> rq_method rq2 = ''POST'' \<and> rq_form rq2 = Some f2 \<and>
      values_get f2 ''grant_type'' = ''refresh_token'' \<longrightarrow>
      snd (token_endpoint L e2 rq2 (as_after L s1 mid)) = ErrorJson ''invalid_grant'' [] 400)"
proof -
  from assms(4) have "revoke L e1 rq1 s0 = (s1, RevokedReply)"
    by (simp add: serve_public_def apsnd_def map_prod_def split: prod.splits)
  from revoke_success [OF this assms(5-10,1-3)] assms(11,12)
  have h: "holds_denied i t (as_after L s1 mid)" by (intro run_holds)
  have "\<exists>err. snd (present_bearer L e2 raw (as_after L s1 mid)) = Inl err" if "carries L (trim_space raw) c2"
    using denied_bearer_refused [OF h _ that assms(14)] assms(13) by blast
  moreover have "snd (token_endpoint L e2 rq2 (as_after L s1 mid)) = ErrorJson ''invalid_grant'' [] 400"
    if "carries L (values_get f2 ''refresh_token'') c2" "rq_method rq2 = ''POST''" "rq_form rq2 = Some f2"
      "values_get f2 ''grant_type'' = ''refresh_token''"
    using refresh_refused [OF h [folded assms(14)] that(1) _ that(2-4)] assms(13) by blast
  ultimately show ?thesis by blast
qed

end
