(* ===== verification/Registration_Safety.thy ===== *)
theory Registration_Safety
  imports Auth_Server_Safety
begin

text \<open>
  The tables of the authorization server in a run: registrations, rate windows and pending
  requests stay within their limits, every redirect goes to a valid registered URI, and
  registrations survive a restart as long as the client file could be written.
\<close>

section \<open>The registration view\<close>

definition reg_view :: "auth_server \<Rightarrow> (string \<times> client_reg) list \<times> (string \<times> reg_window) list \<times> reg_limits \<times>
    clients_file \<times> string" where
  "reg_view s = (as_clients s, as_rates s, as_limits s, as_clients_file s, as_clients_path s)"

lemma view_updates [simp]:
  "reg_view (s\<lparr>as_codes := d\<rparr>) = reg_view s"
  "reg_view (s\<lparr>as_pending := p\<rparr>) = reg_view s"
  "reg_view (s\<lparr>as_revocations := l\<rparr>) = reg_view s"
  "reg_view (recordFederatedIdentity out now who iss s) = reg_view s"
  "reg_view (LoadFederatedIdentities path s) = reg_view s"
  "reg_view (reportRegistration ev s) = reg_view s"
  "reg_view (prunePendingLocked now s) = reg_view s"
  by (simp_all add: reg_view_def as_frame_defs split: file_write.splits identities_file.splits)

lemma issue_code_view: "issue_code L e now p s = (s', r) \<Longrightarrow> reg_view s' = reg_view s"
  by (auto simp: issue_code_def split: option.splits)

lemma decision_views:
  "localConsent L e rq s = (s', r) \<Longrightarrow> reg_view s' = reg_view s"
  "operatorConsent L e rq s = (s', r) \<Longrightarrow> reg_view s' = reg_view s"
  "ssoCallback L e reply rq s = (s', r) \<Longrightarrow> reg_view s' = reg_view s"
  by (auto simp: localConsent_def operatorConsent_def ssoCallback_def Let_def
      dest!: issue_code_view split: if_splits option.splits sum.splits)

lemma storePending_view: "storePending e d p s = Some (s', ro) \<Longrightarrow> reg_view s' = reg_view s"
  by (auto simp: storePending_def Let_def split: option.splits if_splits)

lemma authorize_view:
  assumes "authorize L e rq s = (s', r)"
  shows "reg_view s' = reg_view s"
proof -
  have "start_authorization L e p client s = (s', r) \<Longrightarrow> reg_view s' = reg_view s" for p client
    by (auto simp: start_authorization_def dest!: storePending_view split: option.splits prod.splits)
  with assms show ?thesis
    by (auto simp: authorize_def Let_def dest!: decision_views(1) split: if_splits option.splits)
qed

lemma refresh_view:
  assumes "grantRefresh L e f s = (s', r)"
  shows "reg_view s' = reg_view s"
proof -
  obtain s1 g where p: "parseRefreshGrant L e (values_get f ''refresh_token'') s = (s1, g)" by force
  then obtain l where s1: "s1 = s\<lparr>as_revocations := l\<rparr>" by (rule that [OF parse_refresh_frame])
  show ?thesis
    using assms
    by (auto simp: grantRefresh_def p s1 Let_def split: if_splits option.splits prod.splits sum.splits bool.splits)
qed

lemma revoke_view: "revoke L e rq s = (s', r) \<Longrightarrow> reg_view s' = reg_view s"
  by (auto simp: revoke_def Let_def split: if_splits option.splits prod.splits)

text \<open>The three operations that touch registrations.\<close>

lemma step_view_cases:
  obtains (same) "reg_view (fst (as_step L s x)) = reg_view s"
  | (registered) e reply rq where "x = Public e reply ''/oauth/register'' rq"
      "fst (as_step L s x) = fst (register L e rq s)"
  | (exchanged) e reply rq f where "x = Public e reply ''/oauth/token'' rq" "rq_form rq = Some f"
      "fst (as_step L s x) = fst (grantCode L e f s)"
  | (restarted) e where "x = Restart e" "fst (as_step L s x) = as_restart L e s"
proof (cases x)
  case (Public e reply path rq)
  obtain s' r where r: "serve_public L e reply path rq s = (s', r)" by force
  with Public have s': "fst (as_step L s x) = s'" by simp
  show ?thesis
  proof (cases "path = ''/oauth/register''")
    case True
    with r have "register L e rq s = (s', r)" by (simp add: serve_public_def)
    with Public s' True show ?thesis by (metis registered fst_conv)
  next
    case nr: False
    show ?thesis
    proof (cases "path = ''/oauth/token''")
      case True
      with r have t: "token_endpoint L e rq s = (s', r)" by (simp add: serve_public_def)
      show ?thesis
      proof (cases "\<exists>f. rq_form rq = Some f \<and> grantCode L e f s = (s', r)")
        case True
        with Public s' \<open>path = _\<close> show ?thesis by (auto intro: exchanged)
      next
        case False
        with t have "reg_view s' = reg_view s"
          by (auto simp: token_endpoint_def dest: refresh_view split: if_splits option.splits)
        with s' show ?thesis by (intro same) simp
      qed
    next
      case False
      with nr r have "reg_view s' = reg_view s"
        by (auto simp: serve_public_def metadata_def jwks_def
            dest: authorize_view revoke_view decision_views(3) split: if_splits)
      with s' show ?thesis by (intro same) simp
    qed
  qed
next
  case (Operator e path rq)
  obtain s' r where r: "serve_operator L e path rq s = (s', r)" by force
  then have "reg_view s' = reg_view s"
    by (auto simp: serve_operator_def dest: decision_views(2) split: if_splits)
  with Operator r show ?thesis by (intro same) simp
next
  case (Bearer e raw)
  then show ?thesis by (intro same) (simp add: present_bearer_def split: prod.splits)
next
  case (Restart e)
  then show ?thesis by (intro restarted) simp_all
qed

section \<open>Counting\<close>

lemma update_sum:
  assumes "distinct (map fst xs)"
  shows "sum_list (map (\<lambda>(k, w). f w) (AList.update k v xs)) =
    sum_list (map (\<lambda>(k, w). f w) xs) - (case map_of xs k of None \<Rightarrow> 0 | Some w \<Rightarrow> f w) + (f v :: int)"
  using assms by (induction xs) (auto simp: map_of_eq_None_iff[symmetric] split: option.splits)

lemma update_length:
  "length (AList.update k v xs) = (if k \<in> fst ` set xs then length xs else Suc (length xs))"
  by (induction xs) auto

lemma filter_sum:
  assumes "\<forall>(k, w) \<in> set xs. 0 \<le> f w"
  shows "sum_list (map (\<lambda>(k, w). f w) (filter P xs)) \<le> (sum_list (map (\<lambda>(k, w). f w) xs) :: int)"
  using assms by (induction xs) auto

section \<open>Limits\<close>

definition client_ok :: "'a as_lib_scheme \<Rightarrow> bool \<Rightarrow> client_reg \<Rightarrow> bool" where
  "client_ok L public c \<longleftrightarrow>
     cr_redirect_uris c \<noteq> [] \<and> length (cr_redirect_uris c) \<le> 8 \<and>
     (\<forall>u \<in> set (cr_redirect_uris c). validRedirectURI L u public)"

definition limits_ok :: "reg_limits \<Rightarrow> bool" where
  "limits_ok limits \<longleftrightarrow> 0 \<le> PerSourcePerHour limits \<and> 0 \<le> PerHour limits \<and> 0 \<le> MaxClients limits \<and> 0 \<le> MaxTrackedSources limits"

fun file_fits :: "int \<Rightarrow> clients_file \<Rightarrow> bool" where
  "file_fits n (ClientsDoc pcs) = (int (length pcs) \<le> n)"
| "file_fits n _ = True"

text \<open>A client table the server may have: distinct IDs, valid redirect URIs, within the limit.\<close>

definition clients_fit :: "'a as_lib_scheme \<Rightarrow> auth_server \<Rightarrow> (string \<times> client_reg) list \<Rightarrow> bool" where
  "clients_fit L s cs \<longleftrightarrow>
     distinct (map fst cs) \<and> (\<forall>(i, c) \<in> set cs. client_ok L (as_require_resource s) c) \<and>
     int (length cs) \<le> MaxClients (effectiveRegistrationLimitsLocked s)"

definition clients_within :: "'a as_lib_scheme \<Rightarrow> auth_server \<Rightarrow> bool" where
  "clients_within L s \<longleftrightarrow>
     clients_fit L s (as_clients s) \<and> file_fits (MaxClients (effectiveRegistrationLimitsLocked s)) (as_clients_file s)"

definition rates_within :: "auth_server \<Rightarrow> bool" where
  "rates_within s \<longleftrightarrow>
     (let limits = effectiveRegistrationLimitsLocked s
      in distinct (map fst (as_rates s)) \<and>
         (\<forall>(k, w) \<in> set (as_rates s). 0 \<le> w_count w \<and> w_count w \<le> PerSourcePerHour limits) \<and>
         total_registrations s \<le> PerHour limits \<and> int (length (as_rates s)) \<le> MaxTrackedSources limits)"

definition tables_ok :: "'a as_lib_scheme \<Rightarrow> auth_server \<Rightarrow> bool" where
  "tables_ok L s \<longleftrightarrow> limits_ok (effectiveRegistrationLimitsLocked s) \<and> clients_within L s \<and> rates_within s"

lemma limits_frame [simp]:
  "as_limits (persistClientsLocked out s) = as_limits s"
  "as_limits (expireUnusedClientsLocked out now ttl s) = as_limits s"
  "as_limits (sweep_registrations out now s) = as_limits s"
  "as_limits (set_window source w s) = as_limits s"
  "as_limits (markClientUsedLocked out now i s) = as_limits s"
  by (simp_all add: as_frame_defs sweep_registrations_def set_window_def split: file_write.splits option.splits)

lemma rates_frame [simp]:
  "as_rates (persistClientsLocked out s) = as_rates s"
  "as_rates (expireUnusedClientsLocked out now ttl s) = as_rates s"
  "as_rates (markClientUsedLocked out now i s) = as_rates s"
  by (simp_all add: as_frame_defs split: file_write.splits option.splits)

lemma clients_frame [simp]:
  "as_clients (persistClientsLocked out s) = as_clients s"
  "as_clients (set_window source w s) = as_clients s"
  "as_clients_file (set_window source w s) = as_clients_file s"
  by (simp_all add: as_frame_defs set_window_def split: file_write.splits)

lemma config_fields:
  "as_config s' = as_config s \<Longrightarrow> as_require_resource s' = as_require_resource s"
  "as_config s' = as_config s \<Longrightarrow> as_issuer s' = as_issuer s"
  by (simp_all add: as_config_def)

lemma effective_frame: "as_limits s' = as_limits s \<Longrightarrow> effectiveRegistrationLimitsLocked s' = effectiveRegistrationLimitsLocked s"
  by (simp add: effectiveRegistrationLimitsLocked_def)

text \<open>Clients: writing the file, dropping and adding entries.\<close>

lemma tables_ok_view:
  assumes "tables_ok L s" and "reg_view s' = reg_view s" and "as_config s' = as_config s"
  shows "tables_ok L s'"
proof -
  from assms(2) have e: "effectiveRegistrationLimitsLocked s' = effectiveRegistrationLimitsLocked s"
    by (intro effective_frame) (simp add: reg_view_def)
  with assms config_fields(1) [OF assms(3)] show ?thesis
    by (simp add: tables_ok_def clients_within_def clients_fit_def rates_within_def reg_view_def total_registrations_def)
qed

lemma clients_fit_frame:
  "as_limits s' = as_limits s \<Longrightarrow> as_config s' = as_config s \<Longrightarrow> clients_fit L s' cs = clients_fit L s cs"
  unfolding clients_fit_def by (simp only: effective_frame [of s' s] config_fields(1) [of s' s])

lemma persist_within:
  assumes "clients_within L s"
  shows "clients_within L (persistClientsLocked out s)"
proof -
  let ?s = "persistClientsLocked out s"
  have e: "effectiveRegistrationLimitsLocked ?s = effectiveRegistrationLimitsLocked s" by (intro effective_frame) simp
  have fit: "clients_fit L ?s cs = clients_fit L s cs" for cs by (intro clients_fit_frame) simp_all
  have "as_clients_file ?s \<in> {as_clients_file s, ClientsGarbled} \<or>
      (\<exists>pcs. as_clients_file ?s = ClientsDoc pcs \<and> length pcs = length (as_clients s))"
    by (auto simp: persistClientsLocked_def split: file_write.splits)
  with assms show ?thesis
    by (auto simp: clients_within_def e fit) (simp_all add: clients_fit_def)
qed

lemma with_clients_within:
  assumes "clients_within L s" and "clients_fit L s cs"
  shows "clients_within L (s\<lparr>as_clients := cs\<rparr>)"
proof -
  have e: "effectiveRegistrationLimitsLocked (s\<lparr>as_clients := cs\<rparr>) = effectiveRegistrationLimitsLocked s"
    by (intro effective_frame) simp
  moreover have "clients_fit L (s\<lparr>as_clients := cs\<rparr>) cs = clients_fit L s cs" by (intro clients_fit_frame) simp_all
  ultimately show ?thesis using assms by (simp add: clients_within_def)
qed

lemma fit_filter: "clients_fit L s cs \<Longrightarrow> clients_fit L s (filter P cs)"
  by (auto simp: clients_fit_def distinct_fst_filter intro: order_trans [OF iffD2 [OF of_nat_le_iff length_filter_le]])

lemma fit_update:
  assumes "clients_fit L s cs" and "client_ok L (as_require_resource s) c"
    and "i \<notin> fst ` set cs \<longrightarrow> int (length cs) < MaxClients (effectiveRegistrationLimitsLocked s)"
  shows "clients_fit L s (AList.update i c cs)"
  using assms
  by (auto simp: clients_fit_def distinct_update update_length dest!: in_alist_update)

lemma expire_within:
  assumes "clients_within L s"
  shows "clients_within L (expireUnusedClientsLocked out now ttl s)"
proof -
  have "clients_within L (s\<lparr>as_clients := filter (\<lambda>(i, c). \<not> client_expired now ttl c) (as_clients s)\<rparr>)"
    using assms by (intro with_clients_within fit_filter) (simp_all add: clients_within_def)
  from this persist_within [OF this] assms show ?thesis by (simp add: expireUnusedClientsLocked_def Let_def)
qed

lemma mark_within:
  assumes "clients_within L s"
  shows "clients_within L (markClientUsedLocked out now i s)"
proof (cases "map_of (as_clients s) i")
  case (Some c)
  then have m: "(i, c) \<in> set (as_clients s)" by (rule map_of_SomeD)
  with assms have "client_ok L (as_require_resource s) (c\<lparr>cr_used_at := now\<rparr>)"
    by (auto simp: clients_within_def clients_fit_def client_ok_def)
  moreover from m have "i \<in> fst ` set (as_clients s)" by force
  ultimately have "clients_within L (s\<lparr>as_clients := AList.update i (c\<lparr>cr_used_at := now\<rparr>) (as_clients s)\<rparr>)"
    using assms by (intro with_clients_within fit_update) (simp_all add: clients_within_def)
  from persist_within [OF this] assms Some show ?thesis by (simp add: markClientUsedLocked_def)
qed (use assms in \<open>simp add: markClientUsedLocked_def\<close>)

text \<open>Rate windows: the sweep drops some, the decision adds or updates the one of the source.\<close>

definition rates_fit :: "reg_limits \<Rightarrow> (string \<times> reg_window) list \<Rightarrow> bool" where
  "rates_fit limits rs \<longleftrightarrow>
     distinct (map fst rs) \<and> (\<forall>(k, w) \<in> set rs. 0 \<le> w_count w \<and> w_count w \<le> PerSourcePerHour limits) \<and>
     sum_list (map (\<lambda>(k, w). w_count w) rs) \<le> PerHour limits \<and> int (length rs) \<le> MaxTrackedSources limits"

lemma rates_within_iff: "rates_within s \<longleftrightarrow> rates_fit (effectiveRegistrationLimitsLocked s) (as_rates s)"
  by (simp add: rates_within_def rates_fit_def total_registrations_def Let_def)

lemma rates_fit_filter:
  assumes "rates_fit limits rs"
  shows "rates_fit limits (filter P rs)"
proof -
  have "sum_list (map (\<lambda>(k, w). w_count w) (filter P rs)) \<le> sum_list (map (\<lambda>(k, w). w_count w) rs)"
    using assms by (intro filter_sum) (auto simp: rates_fit_def)
  with assms show ?thesis
    by (auto simp: rates_fit_def distinct_fst_filter intro: order_trans [OF iffD2 [OF of_nat_le_iff length_filter_le]])
qed

text \<open>The window found for a source has the count recorded for it, or none.\<close>

lemma current_window_count:
  assumes "rates_fit limits (as_rates s)" and "limits_ok limits"
  shows "0 \<le> w_count (current_window now source s) \<and>
    w_count (current_window now source s) \<le> (case map_of (as_rates s) source of None \<Rightarrow> 0 | Some w \<Rightarrow> w_count w) \<and>
    w_count (current_window now source s) \<le> PerSourcePerHour limits"
  using assms by (fastforce simp: current_window_def rates_fit_def limits_ok_def dest: map_of_SomeD split: option.splits)

lemma rates_fit_set:
  assumes "rates_fit limits (as_rates s)" and "limits_ok limits"
    and "w_count v = w_count (current_window now source s) + d" and "d \<in> {0, 1}"
    and "w_count v \<le> PerSourcePerHour limits" and "total_registrations s + d \<le> PerHour limits"
    and "map_of (as_rates s) source = None \<longrightarrow> int (length (as_rates s)) < MaxTrackedSources limits"
  shows "rates_fit limits (as_rates (set_window source v s))"
proof -
  note c = current_window_count [OF assms(1,2), of now source]
  have "sum_list (map (\<lambda>(k, w). w_count w) (AList.update source v (as_rates s))) \<le> total_registrations s + d"
    using assms(1,3) c by (simp add: update_sum rates_fit_def total_registrations_def)
  moreover have "int (length (AList.update source v (as_rates s))) \<le> MaxTrackedSources limits"
    using assms(1,7) by (auto simp: update_length rates_fit_def map_of_eq_None_iff)
  moreover have "0 \<le> w_count v" using c assms(3,4) by auto
  ultimately show ?thesis
    using assms(1,5,6) by (auto simp: rates_fit_def set_window_def distinct_update dest!: in_alist_update)
qed

lemma sweep_ok:
  assumes "tables_ok L s"
  shows "tables_ok L (sweep_registrations out now s)"
proof -
  let ?r = "filter (\<lambda>(k, w). \<not> time_sub now (w_since w) \<ge> hour) (as_rates s)"
  have e: "effectiveRegistrationLimitsLocked (sweep_registrations out now s) = effectiveRegistrationLimitsLocked s"
    "effectiveRegistrationLimitsLocked (s\<lparr>as_rates := ?r\<rparr>) = effectiveRegistrationLimitsLocked s"
    by (intro effective_frame, simp)+
  have "clients_within L (s\<lparr>as_rates := ?r\<rparr>)"
    using assms e(2) by (simp add: tables_ok_def clients_within_def clients_fit_def)
  then have "clients_within L (sweep_registrations out now s)"
    unfolding sweep_registrations_def by (rule expire_within)
  moreover have "rates_fit (effectiveRegistrationLimitsLocked s) ?r"
    using assms by (intro rates_fit_filter) (simp add: tables_ok_def rates_within_iff)
  ultimately show ?thesis
    using assms e(1) by (simp add: tables_ok_def rates_within_iff) (simp add: sweep_registrations_def)
qed

lemma set_window_ok:
  assumes "tables_ok L s" and "rates_fit (effectiveRegistrationLimitsLocked s) (as_rates (set_window source v s))"
  shows "tables_ok L (set_window source v s)"
proof -
  have e: "effectiveRegistrationLimitsLocked (set_window source v s) = effectiveRegistrationLimitsLocked s"
    by (intro effective_frame) simp
  have "clients_fit L (set_window source v s) cs = clients_fit L s cs" for cs by (intro clients_fit_frame) simp_all
  with assms e show ?thesis by (simp add: tables_ok_def rates_within_iff clients_within_def)
qed

lemma admit_ok:
  assumes "tables_ok L s" and "admitRegistrationLocked out source now s = (s', outcome, report)"
  shows "tables_ok L s' \<and> as_limits s' = as_limits s \<and>
    (outcome = RegistrationAccepted \<longrightarrow> int (length (as_clients s')) < MaxClients (effectiveRegistrationLimitsLocked s))"
proof -
  let ?limits = "effectiveRegistrationLimitsLocked s" and ?s = "sweep_registrations out now s"
  let ?w = "current_window now source ?s"
  have ok: "tables_ok L ?s" using assms(1) by (rule sweep_ok)
  have e: "effectiveRegistrationLimitsLocked ?s = ?limits" by (intro effective_frame) simp
  with ok have fit: "rates_fit ?limits (as_rates ?s)" and lim: "limits_ok ?limits"
    by (simp_all add: tables_ok_def rates_within_iff)
  note c = current_window_count [OF fit lim, of now source]
  have refused: "tables_ok L (set_window source (?w\<lparr>w_refused := True\<rparr>) ?s)"
    if "map_of (as_rates ?s) source = None \<longrightarrow> int (length (as_rates ?s)) < MaxTrackedSources ?limits"
    using fit c that
    by (intro set_window_ok [OF ok] rates_fit_set [where d = 0 and now = now])
      (simp_all add: e lim, simp add: rates_fit_def total_registrations_def)
  have accepted: "tables_ok L (set_window source (?w\<lparr>w_count := w_count ?w + 1\<rparr>) ?s)"
    if "map_of (as_rates ?s) source = None \<longrightarrow> int (length (as_rates ?s)) < MaxTrackedSources ?limits"
      "w_count ?w < PerSourcePerHour ?limits" "total_registrations ?s < PerHour ?limits"
    using fit c that
    by (intro set_window_ok [OF ok] rates_fit_set [where d = 1 and now = now]) (simp_all add: e lim)
  show ?thesis
    using assms(2) ok refused accepted
    by (auto simp: admitRegistrationLocked_def Let_def RegistrationAccepted_def RegistrationRefusedRate_def
        RegistrationRefusedCapacity_def not_le split: if_splits)
qed

section \<open>The invariant of a run\<close>

lemma redirect_uris_ok_valid:
  "redirect_uris_ok L public seen us \<Longrightarrow> \<forall>u \<in> set us. validRedirectURI L u public"
  by (induction us arbitrary: seen) (auto split: if_splits)

lemma add_client_ok:
  assumes "tables_ok L s" and "client_ok L (as_require_resource s) c"
    and "int (length (as_clients s)) < MaxClients (effectiveRegistrationLimitsLocked s)"
  shows "tables_ok L (persistClientsLocked out (s\<lparr>as_clients := AList.update i c (as_clients s)\<rparr>))"
proof -
  let ?s = "s\<lparr>as_clients := AList.update i c (as_clients s)\<rparr>"
  have "clients_within L ?s"
    using assms by (intro with_clients_within fit_update) (simp_all add: tables_ok_def clients_within_def)
  moreover have e: "effectiveRegistrationLimitsLocked (persistClientsLocked out ?s) = effectiveRegistrationLimitsLocked s"
    by (intro effective_frame) simp
  ultimately show ?thesis using assms(1) persist_within by (simp add: tables_ok_def rates_within_iff)
qed

lemma report_ok: "tables_ok L s \<Longrightarrow> tables_ok L (reportRegistration ev s)"
  by (rule tables_ok_view) simp_all

lemma checked_registration:
  assumes "check_registration L public body = Inr rr"
  shows "rr_redirect_uris rr \<noteq> [] \<and> length (rr_redirect_uris rr) \<le> 8 \<and> (\<forall>u \<in> set (rr_redirect_uris rr). validRedirectURI L u public)"
  using assms
  by (auto simp: check_registration_def Let_def dest!: redirect_uris_ok_valid split: if_splits option.splits)

lemma complete_ok:
  assumes "tables_ok L s" and "rr_redirect_uris rr \<noteq> []" and "length (rr_redirect_uris rr) \<le> 8"
    and "\<forall>u \<in> set (rr_redirect_uris rr). validRedirectURI L u (as_require_resource s)"
  shows "tables_ok L (fst (complete_registration L e source rr s))"
proof (cases "as_randToken e 0")
  case (Some i)
  obtain s1 outcome report where a: "admitRegistrationLocked (e_write e 0) source (e_clock e 0) s = (s1, outcome, report)"
    by (metis prod_cases3)
  note ok = admit_ok [OF assms(1) a] and frame = admit_frame [OF a]
  let ?c = "\<lparr>cr_redirect_uris = rr_redirect_uris rr, cr_name = firstNonBlank (rr_client_name rr) ''an MCP client'',
    cr_created_at = e_clock e 0, cr_used_at = 0\<rparr>"
  have c: "client_ok L (as_require_resource s1) ?c"
    using assms(2-4) frame by (simp add: client_ok_def as_config_def)
  have "effectiveRegistrationLimitsLocked s1 = effectiveRegistrationLimitsLocked s" using ok by (intro effective_frame) simp
  then have added: "outcome = RegistrationAccepted \<Longrightarrow>
      tables_ok L (persistClientsLocked (e_write e 1) (s1\<lparr>as_clients := AList.update i ?c (as_clients s1)\<rparr>))"
    using ok c by (intro add_client_ok) simp_all
  show ?thesis
    using ok added by (auto simp: complete_registration_def Let_def Some a report_ok)
qed (use assms in \<open>simp add: complete_registration_def\<close>)

lemma register_ok:
  assumes "tables_ok L s"
  shows "tables_ok L (fst (register L e rq s))"
proof (cases "check_registration L (as_require_resource s) (rq_body rq)")
  case (Inr rr)
  with complete_ok [OF assms] checked_registration [OF Inr] assms report_ok [OF assms] show ?thesis
    by (simp add: register_def Let_def)
qed (use assms report_ok [OF assms] in \<open>simp add: register_def Let_def\<close>)

lemma exchange_ok:
  assumes "tables_ok L s"
  shows "tables_ok L (fst (grantCode L e f s))"
proof -
  let ?s = "s\<lparr>as_codes := AList.delete (values_get f ''code'') (as_codes s)\<rparr>"
  have ok: "tables_ok L ?s" by (rule tables_ok_view [OF assms]) simp_all
  have "tables_ok L (markClientUsedLocked out now i ?s)" for out now i
  proof -
    have "effectiveRegistrationLimitsLocked (markClientUsedLocked out now i ?s) = effectiveRegistrationLimitsLocked ?s"
      by (intro effective_frame) simp
    with ok mark_within [of L ?s out now i] show ?thesis by (simp add: tables_ok_def rates_within_iff)
  qed
  with ok show ?thesis by (simp add: grantCode_def Let_def split: option.splits)
qed

lemma load_clients_fit:
  assumes "clients_fit L s (as_clients s)" and "limits_ok (effectiveRegistrationLimitsLocked s)"
    and "int (length (as_clients s) + length pcs) \<le> MaxClients (effectiveRegistrationLimitsLocked s)"
  shows "clients_fit L (foldl (load_client L) s pcs) (as_clients (foldl (load_client L) s pcs)) \<and>
    as_limits (foldl (load_client L) s pcs) = as_limits s \<and> as_clients_file (foldl (load_client L) s pcs) = as_clients_file s \<and>
    as_rates (foldl (load_client L) s pcs) = as_rates s"
  using assms
proof (induction pcs arbitrary: s)
  case (Cons pc pcs)
  let ?s = "load_client L s pc"
  have f: "as_limits ?s = as_limits s" "as_config ?s = as_config s" "as_clients_file ?s = as_clients_file s" "as_rates ?s = as_rates s"
    by (simp_all add: load_client_def)
  have e: "effectiveRegistrationLimitsLocked ?s = effectiveRegistrationLimitsLocked s" by (rule effective_frame [OF f(1)])
  have "client_loadable L s pc \<Longrightarrow> client_ok L (as_require_resource s)
      \<lparr>cr_redirect_uris = pc_redirect_uris pc, cr_name = pc_name pc, cr_created_at = pc_created_at pc, cr_used_at = pc_used_at pc\<rparr>"
    by (auto simp: client_loadable_def client_ok_def)
  then have "clients_fit L s (as_clients ?s)"
    using Cons.prems by (auto simp: load_client_def intro!: fit_update)
  then have fit: "clients_fit L ?s (as_clients ?s)" by (simp only: clients_fit_frame [OF f(1,2)])
  have len: "length (as_clients ?s) \<le> Suc (length (as_clients s))" by (simp add: load_client_def update_length)
  from Cons.prems len have "int (length (as_clients ?s) + length pcs) \<le> MaxClients (effectiveRegistrationLimitsLocked ?s)"
    by (simp add: e)
  from Cons.IH [OF fit _ this] Cons.prems f e show ?case by simp
qed simp

lemma restart_ok:
  assumes "tables_ok L s"
  shows "tables_ok L (as_restart L e s)"
proof -
  let ?s0 = "s\<lparr>as_clients := [], as_codes := [], as_pending := [], as_rates := [], as_federated := [],
      as_revocations := map_option (\<lambda>l. rev_step l (e_clock e 1, OpRestart)) (as_revocations s), as_clients_path := as_clients_path s\<rparr>"
  have e: "effectiveRegistrationLimitsLocked ?s0 = effectiveRegistrationLimitsLocked s" by (intro effective_frame) simp
  have ok0: "tables_ok L ?s0"
    using assms e by (simp add: tables_ok_def clients_within_def clients_fit_def rates_within_iff rates_fit_def limits_ok_def)
  have "tables_ok L (LoadClients L e (as_clients_path s) ?s0)"
  proof (cases "as_clients_file s")
    case (ClientsDoc pcs)
    let ?s1 = "foldl (load_client L) ?s0 pcs"
    have "clients_fit L ?s1 (as_clients ?s1) \<and> as_limits ?s1 = as_limits ?s0 \<and> as_clients_file ?s1 = as_clients_file ?s0 \<and>
        as_rates ?s1 = as_rates ?s0"
      using ok0 assms e ClientsDoc by (intro load_clients_fit) (simp_all add: tables_ok_def clients_within_def)
    moreover from this have e1: "effectiveRegistrationLimitsLocked ?s1 = effectiveRegistrationLimitsLocked s"
      by (intro effective_frame) simp
    ultimately have ok1: "clients_within L ?s1" "rates_within ?s1" "limits_ok (effectiveRegistrationLimitsLocked ?s1)"
      using assms ok0 e ClientsDoc by (simp_all add: tables_ok_def clients_within_def rates_within_iff rates_fit_def)
    have "effectiveRegistrationLimitsLocked (expireUnusedClientsLocked (e_write e 0) (e_clock e 0) ttl ?s1) =
        effectiveRegistrationLimitsLocked ?s1" for ttl by (intro effective_frame) simp
    with ok1 expire_within [OF ok1(1)] have "tables_ok L (expireUnusedClientsLocked (e_write e 0) (e_clock e 0) ttl ?s1)" for ttl
      by (simp add: tables_ok_def rates_within_iff)
    with ClientsDoc show ?thesis by (simp add: LoadClients_def Let_def)
  qed (use ok0 in \<open>simp_all add: LoadClients_def\<close>)
  then have "tables_ok L (LoadFederatedIdentities (as_identities_path s) (LoadClients L e (as_clients_path s) ?s0))"
    by (rule tables_ok_view) simp_all
  then show ?thesis by (simp add: as_restart_def)
qed

lemma step_tables_ok: "tables_ok L s \<Longrightarrow> tables_ok L (fst (as_step L s x))"
  by (cases rule: step_view_cases [of L s x])
    (simp_all only: register_ok exchange_ok restart_ok, simp_all add: tables_ok_view step_config)

interpretation tables: stepper "\<lambda>s x. fst (as_step L s x)" "\<lambda>_. True" "tables_ok L" for L
  by unfold_locales (rule step_tables_ok)

lemma run_tables_ok: "tables_ok L s \<Longrightarrow> tables_ok L (as_after L s ops)"
  unfolding as_after_def by (rule tables.run_invar) simp_all

text \<open>The limits themselves do not change.\<close>

lemma register_limits: "as_limits (fst (register L e rq s)) = as_limits s"
proof -
  have report: "as_limits (reportRegistration ev t) = as_limits t" for ev t by (simp add: reportRegistration_def)
  have "as_limits (fst (complete_registration L e source rr s)) = as_limits s" for source rr
  proof -
    obtain s1 outcome rep where a: "admitRegistrationLocked (e_write e 0) source (e_clock e 0) s = (s1, outcome, rep)"
      by (metis prod_cases3)
    then have "as_limits s1 = as_limits s" by (auto simp: admitRegistrationLocked_def Let_def split: if_splits)
    with report show ?thesis by (simp add: complete_registration_def Let_def a split: option.splits)
  qed
  with report show ?thesis by (simp add: register_def Let_def split: sum.splits)
qed

lemma restart_limits: "as_limits (as_restart L e s) = as_limits s"
proof -
  have "as_limits (foldl (load_client L) s pcs) = as_limits s" for s pcs
    by (induction pcs arbitrary: s) (simp_all add: load_client_def)
  then have "as_limits (LoadClients L e path s) = as_limits s" for path s
    by (simp add: LoadClients_def Let_def split: clients_file.splits)
  then show ?thesis by (simp add: as_restart_def LoadFederatedIdentities_def Let_def split: identities_file.splits)
qed

lemma step_limits: "as_limits (fst (as_step L s x)) = as_limits s"
proof (cases rule: step_view_cases [of L s x])
  case same
  then show ?thesis by (simp add: reg_view_def)
next
  case (exchanged e reply rq f)
  then show ?thesis by (simp add: grantCode_def Let_def split: option.splits)
qed (simp_all add: register_limits restart_limits)

lemma run_limits: "effectiveRegistrationLimitsLocked (as_after L s ops) = effectiveRegistrationLimitsLocked s"
proof (induction ops rule: rev_induct)
  case (snoc x ops)
  have "effectiveRegistrationLimitsLocked (fst (as_step L (as_after L s ops) x)) = effectiveRegistrationLimitsLocked (as_after L s ops)"
    by (rule effective_frame [OF step_limits])
  with snoc show ?case by simp
qed simp

section \<open>Pending requests and redirects\<close>

lemma prune_length: "length (as_pending (prunePendingLocked now s)) \<le> length (as_pending s)"
  by (simp add: prunePendingLocked_def)

lemma delete_prune_length: "length (AList.delete i (as_pending (prunePendingLocked now s))) \<le> length (as_pending s)"
  unfolding AList.delete_eq by (rule order_trans [OF length_filter_le prune_length])

lemma decision_lengths:
  "localConsent L e rq s = (s', r) \<Longrightarrow> length (as_pending s') \<le> length (as_pending s)"
  "operatorConsent L e rq s = (s', r) \<Longrightarrow> length (as_pending s') \<le> length (as_pending s)"
  "ssoCallback L e reply rq s = (s', r) \<Longrightarrow> length (as_pending s') \<le> length (as_pending s)"
  by (auto simp: localConsent_def operatorConsent_def ssoCallback_def Let_def prune_length delete_prune_length
      dest!: issue_code_frame split: if_splits option.splits sum.splits)

lemma storePending_length:
  "storePending e d p s = Some (s', ro) \<Longrightarrow> length (as_pending s') \<le> max 4096 (length (as_pending s))"
  using prune_length [of "e_clock e 0" s]
  by (auto simp: storePending_def Let_def update_length split: option.splits if_splits)

lemma authorize_length:
  assumes "authorize L e rq s = (s', r)"
  shows "length (as_pending s') \<le> max 4096 (length (as_pending s))"
proof -
  have "start_authorization L e p client s = (s', r) \<Longrightarrow> length (as_pending s') \<le> max 4096 (length (as_pending s))" for p client
    by (auto simp: start_authorization_def dest!: storePending_length split: option.splits prod.splits)
  with assms show ?thesis
    by (auto simp: authorize_def Let_def dest!: decision_lengths(1) split: if_splits option.splits)
qed

lemma step_pending_length: "length (as_pending (fst (as_step L s x))) \<le> max 4096 (length (as_pending s))"
proof (cases x)
  case (Public e reply path rq)
  obtain s' r where r: "serve_public L e reply path rq s = (s', r)" by force
  then have "length (as_pending s') \<le> max 4096 (length (as_pending s))"
    by (auto simp: serve_public_def metadata_def jwks_def dest!: authorize_length decision_lengths(3) dest: register_frame token_frame revoke_frame
        split: if_splits)
  with r Public show ?thesis by simp
next
  case (Operator e path rq)
  obtain s' r where r: "serve_operator L e path rq s = (s', r)" by force
  then have "length (as_pending s') \<le> length (as_pending s)"
    by (auto simp: serve_operator_def dest: decision_lengths(2) split: if_splits)
  with r Operator show ?thesis by simp
qed (simp_all add: bearer_frame)

lemma run_pending_length:
  "length (as_pending s0) \<le> 4096 \<Longrightarrow> length (as_pending (as_after L s0 ops)) \<le> 4096"
proof (induction ops rule: rev_induct)
  case (snoc x ops)
  with step_pending_length [of L "as_after L s0 ops" x] show ?case by simp
qed simp

text \<open>
  C13. Unauthenticated requests cannot grow the authorization server's state beyond its limits. In
  every run from a state within them, whatever is sent to either listener and however often the
  process restarts: at most \<open>MaxClients\<close> registrations exist, each with one to eight valid redirect
  URIs; at most \<open>MaxTrackedSources\<close> rate windows are kept, each with at most \<open>PerSourcePerHour\<close>
  registrations and all together with at most \<open>PerHour\<close>; and at most 4096 authorization requests
  are pending.
\<close>

theorem state_within_limits:
  assumes "tables_ok L s0" and "length (as_pending s0) \<le> 4096" and "s = as_after L s0 ops"
    and "limits = effectiveRegistrationLimitsLocked s0"
  shows "int (length (as_clients s)) \<le> MaxClients limits \<and>
    (\<forall>(i, c) \<in> set (as_clients s). cr_redirect_uris c \<noteq> [] \<and> length (cr_redirect_uris c) \<le> 8 \<and>
       (\<forall>u \<in> set (cr_redirect_uris c). validRedirectURI L u (as_require_resource s))) \<and>
    int (length (as_rates s)) \<le> MaxTrackedSources limits \<and>
    (\<forall>(k, w) \<in> set (as_rates s). w_count w \<le> PerSourcePerHour limits) \<and>
    sum_list (map (\<lambda>(k, w). w_count w) (as_rates s)) \<le> PerHour limits \<and>
    length (as_pending s) \<le> 4096"
  using run_tables_ok [OF assms(1), of ops] run_pending_length [OF assms(2), of L ops]
  by (simp add: assms(3,4) run_limits tables_ok_def clients_within_def clients_fit_def client_ok_def rates_within_iff rates_fit_def)
    (auto simp: client_ok_def)

lemma redirect_result_issuer:
  "as_issuer s' = as_issuer s \<Longrightarrow> redirectAuthorizationResult L s' = redirectAuthorizationResult L s"
  by (simp add: redirectAuthorizationResult_def fun_eq_iff split: option.split)

text \<open>A 302 response goes to a URI of the client table or of a pending request.\<close>

definition known_uri :: "auth_server \<Rightarrow> string \<Rightarrow> bool" where
  "known_uri s uri \<longleftrightarrow> (\<exists>(i, c) \<in> set (as_clients s). uri \<in> set (cr_redirect_uris c)) \<or>
     (\<exists>(i, p) \<in> set (as_pending s). uri = ac_redirect_uri p)"

definition sent_back :: "'a as_lib_scheme \<Rightarrow> auth_server \<Rightarrow> as_response \<Rightarrow> bool" where
  "sent_back L s r \<longleftrightarrow> (\<forall>url. r = RedirectTo url 302 \<longrightarrow>
     (\<exists>uri state key val. known_uri s uri \<and> r = redirectAuthorizationResult L s uri state key val))"

lemma sent_backI:
  assumes "as_issuer s' = as_issuer s" and "known_uri s uri"
  shows "sent_back L s (redirectAuthorizationResult L s' uri state key val)"
  using assms unfolding sent_back_def by (metis redirect_result_issuer)

lemma sent_back_other [simp]:
  "sent_back L s (PlainError a n)" "sent_back L s missing_request" "sent_back L s method_not_allowed"
  "sent_back L s (ConsentPage a b c)" "sent_back L s (UnknownRequestPage a)" "sent_back L s HandlerPanic" "sent_back L s PageNotFound"
  "sent_back L s (RedirectTo u 303)" "sent_back L s (ErrorJson x y z)" "sent_back L s RevokedReply" "sent_back L s (JsonReply j)"
  "sent_back L s (ClientCreated d f g)" "sent_back L s (sso_failure fed err)"
  by (simp_all add: sent_back_def missing_request_def method_not_allowed_def sso_failure_def Let_def split: sso_error.splits)

lemma pruned_known:
  "map_of (as_pending (prunePendingLocked now s)) i = Some p \<Longrightarrow> known_uri s (ac_redirect_uri p)"
  "map_of (as_pending (prunePendingLocked now s)) i = Some p \<Longrightarrow> known_uri s (ac_redirect_uri (p\<lparr>ac_subject := sub\<rparr>))"
  by (auto simp: known_uri_def dest!: prune_lookup)

lemma issuer_prune [simp]: "as_issuer (prunePendingLocked now s) = as_issuer s"
  "as_issuer (recordFederatedIdentity out now who iss s) = as_issuer s"
  by (simp_all add: as_frame_defs split: file_write.splits)

lemma issue_code_sent_back:
  assumes "issue_code L e now p s' = (s'', r)" and "as_issuer s' = as_issuer s" and "known_uri s (ac_redirect_uri p)"
  shows "sent_back L s r"
  using assms by (auto simp: issue_code_def intro!: sent_backI split: option.splits)

lemma decisions_sent_back:
  "localConsent L e rq s = (s', r) \<Longrightarrow> sent_back L s r"
  "operatorConsent L e rq s = (s', r) \<Longrightarrow> sent_back L s r"
  "ssoCallback L e reply rq s = (s', r) \<Longrightarrow> sent_back L s r"
  by (auto simp: localConsent_def operatorConsent_def ssoCallback_def Let_def redirectErr_def
      intro!: sent_backI intro: pruned_known elim!: issue_code_sent_back split: if_splits option.splits sum.splits)

lemma authorize_sent_back:
  assumes "authorize L e rq s = (s', r)"
  shows "sent_back L s r"
proof -
  have "start_authorization L e p client s = (s', r) \<Longrightarrow> sent_back L s r" for p client
    by (auto simp: start_authorization_def split: option.splits prod.splits if_splits)
  moreover have "known_uri s uri" if "map_of (as_clients s) i = Some c" "uri \<in> set (cr_redirect_uris c)" for i c uri
    using that by (auto simp: known_uri_def dest!: map_of_SomeD)
  ultimately show ?thesis
    using assms
    by (auto simp: authorize_def Let_def redirectErr_def
        intro: sent_backI decisions_sent_back(1) split: if_splits option.splits)
qed

lemma issueTokens_sent_back [simp]: "sent_back L s' (issueTokens L e k sub scope cid s)"
  by (simp add: issueTokens_def sent_back_def split: option.splits)

lemma token_sent_back: "token_endpoint L e rq s = (s', r) \<Longrightarrow> sent_back L s r"
  by (auto simp: token_endpoint_def grantCode_def grantRefresh_def Let_def
      split: if_splits option.splits prod.splits sum.splits bool.splits)

lemma check_registration_sent_back: "check_registration L public body = Inl r \<Longrightarrow> sent_back L s r"
  by (auto simp: check_registration_def Let_def split: if_splits option.splits)

lemma register_sent_back: "register L e rq s = (s', r) \<Longrightarrow> sent_back L s r"
  by (auto simp: register_def complete_registration_def Let_def intro: check_registration_sent_back
      split: if_splits option.splits prod.splits sum.splits)

lemma revoke_sent_back: "revoke L e rq s = (s', r) \<Longrightarrow> sent_back L s r"
  by (auto simp: revoke_def Let_def split: if_splits option.splits prod.splits)

lemma step_sent_back:
  assumes "as_step L s x = (s', Some r)"
  shows "sent_back L s r"
proof (cases x)
  case (Public e reply path rq)
  with assms have "serve_public L e reply path rq s = (s', r)" by (auto simp: apsnd_def map_prod_def split: prod.splits)
  then show ?thesis
    by (auto simp: serve_public_def metadata_def jwks_def
        intro: authorize_sent_back token_sent_back register_sent_back revoke_sent_back decisions_sent_back(3) split: if_splits)
next
  case (Operator e path rq)
  with assms have "serve_operator L e path rq s = (s', r)" by (auto simp: apsnd_def map_prod_def split: prod.splits)
  then show ?thesis by (auto simp: serve_operator_def intro: decisions_sent_back(2) split: if_splits)
qed (use assms in simp_all)

text \<open>The redirect URIs of pending requests are valid: they were registered when the request was made.\<close>

lemma begun_uri:
  assumes "begun (s, x, r) i p" and "tables_ok L s"
  shows "validRedirectURI L (ac_redirect_uri p) (as_require_resource s)"
  using assms
  by (cases rule: begun.cases)
    (fastforce simp: tables_ok_def clients_within_def clients_fit_def client_ok_def dest: map_of_SomeD)

lemma run_pending_valid:
  assumes "tables_ok L s0" and "\<forall>(i, p) \<in> set (as_pending s0). validRedirectURI L (ac_redirect_uri p) (as_require_resource s0)"
  shows "\<forall>(i, p) \<in> set (as_pending (as_after L s0 ops)). validRedirectURI L (ac_redirect_uri p) (as_require_resource s0)"
proof (induction ops rule: rev_induct)
  case (snoc x ops)
  let ?s = "as_after L s0 ops"
  have req: "as_require_resource ?s = as_require_resource s0" by (rule config_fields(1) [OF config_run])
  have "validRedirectURI L (ac_redirect_uri p) (as_require_resource s0)"
    if "(i, p) \<in> set (as_pending (fst (as_step L ?s x)))" for i p
  proof (cases "(i, p) \<in> set (as_pending ?s)")
    case True
    with snoc show ?thesis by auto
  next
    case False
    from begun_uri [OF step_pending [OF that False] run_tables_ok [OF assms(1)]] req show ?thesis by simp
  qed
  then show ?case by auto
qed (use assms in auto)

text \<open>
  C12. The authorization server is no open redirector. In every run, a response that sends the
  browser to a client (with a code or with an error) goes to the parsed form of a URI that is
  registered for a client or was so when the pending request was made, with only its query
  changed; the URI is valid for this server: it has a host and is HTTPS, or is plain HTTP to a
  loopback host, or, only when the server is not public, it has a private-use scheme other than
  \<open>file\<close>; it carries no user information and no fragment.
\<close>

theorem redirects_only_to_registered:
  assumes "tables_ok L s0" and "as_pending s0 = []"
    and "as_step L (as_after L s0 ops) x = (s', Some (RedirectTo url 302))"
  shows "\<exists>uri u q. known_uri (as_after L s0 ops) uri \<and> validRedirectURI L uri (as_require_resource s0) \<and>
    url_parse L uri = Some u \<and> url = url_string L (u\<lparr>u_raw_query := q\<rparr>) \<and>
    \<not> u_user u \<and> u_fragment u = [] \<and>
    (to_lower L (u_scheme u) = ''https'' \<and> u_host u \<noteq> [] \<or>
     to_lower L (u_scheme u) = ''http'' \<and> u_host u \<noteq> [] \<and> isLoopbackHost L (u_hostname u) \<or>
     \<not> as_require_resource s0 \<and> to_lower L (u_scheme u) \<notin> {''http'', ''https''} \<and> u_scheme u \<noteq> ''file'')"
proof -
  let ?s = "as_after L s0 ops"
  have req: "as_require_resource ?s = as_require_resource s0" by (rule config_fields(1) [OF config_run])
  from step_sent_back [OF assms(3)] obtain uri state key val where k: "known_uri ?s uri"
    and r: "RedirectTo url 302 = redirectAuthorizationResult L ?s uri state key val"
    by (auto simp: sent_back_def)
  from r obtain u q where u: "url_parse L uri = Some u" "url = url_string L (u\<lparr>u_raw_query := q\<rparr>)"
    by (auto simp: redirectAuthorizationResult_def Let_def split: option.splits)
  have "validRedirectURI L uri (as_require_resource s0)"
    using k run_tables_ok [OF assms(1), of ops] run_pending_valid [OF assms(1), of ops] assms(2) req
    by (auto simp: known_uri_def tables_ok_def clients_within_def clients_fit_def client_ok_def)
  moreover from this u have "\<not> u_user u" "u_fragment u = []"
    "to_lower L (u_scheme u) = ''https'' \<and> u_host u \<noteq> [] \<or>
     to_lower L (u_scheme u) = ''http'' \<and> u_host u \<noteq> [] \<and> isLoopbackHost L (u_hostname u) \<or>
     \<not> as_require_resource s0 \<and> to_lower L (u_scheme u) \<notin> {''http'', ''https''} \<and> u_scheme u \<noteq> ''file''"
    by (auto simp: validRedirectURI_def Let_def split: if_splits)
  ultimately show ?thesis using k u by blast
qed

section \<open>Registrations survive restarts\<close>

definition persisted_form :: "string \<Rightarrow> string \<times> client_reg \<Rightarrow> persisted_client" where
  "persisted_form iss = (\<lambda>(i, c).
     \<lparr>pc_client_id = i, pc_redirect_uris = cr_redirect_uris c, pc_name = cr_name c, pc_issuer = iss,
      pc_created_at = cr_created_at c, pc_used_at = cr_used_at c\<rparr>)"

text \<open>The file holds the table: it was written last after the table changed last.\<close>

definition synced :: "auth_server \<Rightarrow> bool" where
  "synced s \<longleftrightarrow> as_clients_path s \<noteq> [] \<and>
     (as_clients_file s = ClientsDoc (map (persisted_form (as_issuer s)) (as_clients s)) \<or>
      as_clients_file s = NoClientsFile \<and> as_clients s = []) \<and>
     (\<forall>(i, c) \<in> set (as_clients s). i \<noteq> [])"

definition good_env :: "as_op \<Rightarrow> bool" where
  "good_env x \<longleftrightarrow> (\<forall>n. e_write (op_env x) n = FileWritten) \<and> (\<forall>n b. e_rand (op_env x) n = Some b \<longrightarrow> b \<noteq> [])"

lemma synced_view:
  "synced s \<Longrightarrow> reg_view s' = reg_view s \<Longrightarrow> as_config s' = as_config s \<Longrightarrow> synced s'"
  by (simp add: synced_def reg_view_def as_config_def)

lemma persist_synced:
  assumes "as_clients_path s \<noteq> []" and "\<forall>(i, c) \<in> set (as_clients s). i \<noteq> []"
  shows "synced (persistClientsLocked FileWritten s)"
proof -
  have "(\<lambda>(i, c). \<lparr>pc_client_id = i, pc_redirect_uris = cr_redirect_uris c, pc_name = cr_name c, pc_issuer = as_issuer s,
      pc_created_at = cr_created_at c, pc_used_at = cr_used_at c\<rparr>) = persisted_form (as_issuer s)"
    by (simp add: persisted_form_def)
  with assms show ?thesis by (simp add: synced_def persistClientsLocked_def)
qed

lemma filter_same_length: "\<not> length (filter P xs) < length xs \<Longrightarrow> filter P xs = xs"
  by (metis length_filter_less filter_True)

lemma expire_synced:
  assumes "synced s"
  shows "synced (expireUnusedClientsLocked FileWritten now ttl s)"
proof -
  let ?P = "\<lambda>(i, c). \<not> client_expired now ttl c"
  have "synced (persistClientsLocked FileWritten (s\<lparr>as_clients := filter ?P (as_clients s)\<rparr>))"
    using assms by (intro persist_synced) (auto simp: synced_def)
  moreover have "synced (s\<lparr>as_clients := filter ?P (as_clients s)\<rparr>)"
    if "\<not> length (filter ?P (as_clients s)) < length (as_clients s)"
    using assms filter_same_length [OF that] by simp
  ultimately show ?thesis using assms by (auto simp: expireUnusedClientsLocked_def Let_def)
qed

lemma b64_url_nonempty: "b \<noteq> [] \<Longrightarrow> b64_url b \<noteq> []"
  by (cases b rule: b64_url.cases) (simp_all add: Let_def)

lemma path_frame [simp]:
  "as_clients_path (persistClientsLocked out s) = as_clients_path s"
  "as_clients_path (expireUnusedClientsLocked out now ttl s) = as_clients_path s"
  by (simp_all add: as_frame_defs split: file_write.splits)

lemma sweep_synced: "synced s \<Longrightarrow> synced (sweep_registrations FileWritten now s)"
  unfolding sweep_registrations_def by (rule expire_synced) (simp add: synced_def)

lemma admit_synced:
  assumes "synced s" and "admitRegistrationLocked FileWritten source now s = (s', outcome, report)"
  shows "synced s'"
proof -
  have "synced (set_window source w (sweep_registrations FileWritten now s))" for w
    using sweep_synced [OF assms(1), of now] by (simp add: synced_def set_window_def)
  with assms sweep_synced [OF assms(1), of now] show ?thesis
    by (auto simp: admitRegistrationLocked_def Let_def split: if_splits)
qed

lemma complete_synced:
  assumes "synced s" and "\<forall>n. e_write e n = FileWritten" and "\<forall>n b. e_rand e n = Some b \<longrightarrow> b \<noteq> []"
  shows "synced (fst (complete_registration L e source rr s))"
proof -
  have report: "synced s \<Longrightarrow> synced (reportRegistration ev s)" for s ev by (rule synced_view) simp_all
  obtain s1 outcome rep where a: "admitRegistrationLocked (e_write e 0) source (e_clock e 0) s = (s1, outcome, rep)"
    by (metis prod_cases3)
  have s1: "synced s1" using admit_synced [OF assms(1)] a assms(2) by simp
  have "synced (persistClientsLocked (e_write e 1) (s1\<lparr>as_clients := AList.update i c (as_clients s1)\<rparr>))"
    if "as_randToken e 0 = Some i" for i c
  proof -
    from that assms(3) have "i \<noteq> []" by (auto simp: as_randToken_def b64_url_nonempty)
    with s1 show ?thesis unfolding assms(2) [rule_format]
      by (intro persist_synced) (auto simp: synced_def dest!: in_alist_update)
  qed
  with assms(1) s1 report show ?thesis
    by (auto simp: complete_registration_def Let_def a split: option.splits)
qed

lemma register_synced:
  assumes "synced s" and "\<forall>n. e_write e n = FileWritten" and "\<forall>n b. e_rand e n = Some b \<longrightarrow> b \<noteq> []"
  shows "synced (fst (register L e rq s))"
proof -
  have "synced (reportRegistration ev s)" for ev by (rule synced_view [OF assms(1)]) simp_all
  with complete_synced [OF assms, of L] assms(1) show ?thesis by (simp add: register_def Let_def split: sum.splits)
qed

lemma mark_synced:
  assumes "synced s"
  shows "synced (markClientUsedLocked FileWritten now i s)"
proof (cases "map_of (as_clients s) i")
  case (Some c)
  then have "i \<noteq> []" using assms by (auto simp: synced_def dest: map_of_SomeD)
  with assms have "synced (persistClientsLocked FileWritten (s\<lparr>as_clients := AList.update i (c\<lparr>cr_used_at := now\<rparr>) (as_clients s)\<rparr>))"
    by (intro persist_synced) (auto simp: synced_def dest!: in_alist_update)
  with assms Some show ?thesis by (simp add: markClientUsedLocked_def)
qed (use assms in \<open>simp add: markClientUsedLocked_def\<close>)

lemma exchange_synced:
  assumes "synced s" and "\<forall>n. e_write e n = FileWritten"
  shows "synced (fst (grantCode L e f s))"
proof -
  have "synced (s\<lparr>as_codes := AList.delete (values_get f ''code'') (as_codes s)\<rparr>)" by (rule synced_view [OF assms(1)]) simp_all
  with mark_synced assms(2) show ?thesis by (simp add: grantCode_def Let_def split: option.splits)
qed

text \<open>Loading what was written gives the table back.\<close>

lemma load_persisted:
  assumes "distinct (map fst (as_clients s @ cs))" and "\<forall>(i, c) \<in> set cs. client_ok L (as_require_resource s) c \<and> i \<noteq> []"
  shows "foldl (load_client L) s (map (persisted_form (as_issuer s)) cs) = s\<lparr>as_clients := as_clients s @ cs\<rparr>"
  using assms
proof (induction cs arbitrary: s)
  case (Cons x cs)
  obtain i c where x: "x = (i, c)" by (cases x)
  from Cons.prems x have "client_loadable L s (persisted_form (as_issuer s) (i, c))"
    by (auto simp: client_loadable_def client_ok_def persisted_form_def)
  moreover from Cons.prems x have "map_of (as_clients s) i = None" by (auto simp: map_of_eq_None_iff)
  ultimately have "load_client L s (persisted_form (as_issuer s) (i, c)) = s\<lparr>as_clients := as_clients s @ [(i, c)]\<rparr>"
    by (simp add: load_client_def persisted_form_def update_new)
  with Cons.IH [of "s\<lparr>as_clients := as_clients s @ [(i, c)]\<rparr>"] Cons.prems x show ?case by simp
qed simp

lemma restart_view:
  assumes "tables_ok L s" and "synced s"
  shows "reg_view (as_restart L e s) =
    reg_view (if as_clients_file s = NoClientsFile then s\<lparr>as_rates := []\<rparr>
      else expireUnusedClientsLocked (e_write e 0) (e_clock e 0) (UnusedTTL (effectiveRegistrationLimitsLocked s)) (s\<lparr>as_rates := []\<rparr>))"
proof -
  let ?s0 = "s\<lparr>as_clients := [], as_codes := [], as_pending := [], as_rates := [], as_federated := [],
      as_revocations := map_option (\<lambda>l. rev_step l (e_clock e 1, OpRestart)) (as_revocations s), as_clients_path := as_clients_path s\<rparr>"
  have expire: "reg_view (expireUnusedClientsLocked out now ttl t) = reg_view (expireUnusedClientsLocked out now ttl u)"
    if "reg_view t = reg_view u" "as_issuer t = as_issuer u" for out now ttl t u
    using that by (auto simp: reg_view_def expireUnusedClientsLocked_def persistClientsLocked_def Let_def split: file_write.splits)
  show ?thesis
  proof (cases "as_clients_file s = NoClientsFile")
    case True
    with assms(2) show ?thesis by (simp add: as_restart_def LoadClients_def synced_def) (simp add: reg_view_def)
  next
    case False
    with assms(2) have f: "as_clients_file s = ClientsDoc (map (persisted_form (as_issuer ?s0)) (as_clients s))"
      by (auto simp: synced_def)
    have "foldl (load_client L) ?s0 (map (persisted_form (as_issuer ?s0)) (as_clients s)) = ?s0\<lparr>as_clients := as_clients ?s0 @ as_clients s\<rparr>"
      using assms by (intro load_persisted) (auto simp: tables_ok_def clients_within_def clients_fit_def synced_def)
    moreover have "effectiveRegistrationLimitsLocked (?s0\<lparr>as_clients := as_clients ?s0 @ as_clients s\<rparr>) = effectiveRegistrationLimitsLocked s"
      by (intro effective_frame) simp
    ultimately have "reg_view (as_restart L e s) = reg_view (expireUnusedClientsLocked (e_write e 0) (e_clock e 0)
        (UnusedTTL (effectiveRegistrationLimitsLocked s)) (?s0\<lparr>as_clients := as_clients ?s0 @ as_clients s\<rparr>))"
      using f by (simp add: as_restart_def LoadClients_def Let_def)
    also have "\<dots> = reg_view (expireUnusedClientsLocked (e_write e 0) (e_clock e 0)
        (UnusedTTL (effectiveRegistrationLimitsLocked s)) (s\<lparr>as_rates := []\<rparr>))"
      by (rule expire) (simp_all add: reg_view_def)
    finally show ?thesis using False by simp
  qed
qed

lemma step_synced:
  assumes "tables_ok L s \<and> synced s" and "good_env x"
  shows "tables_ok L (fst (as_step L s x)) \<and> synced (fst (as_step L s x))"
proof -
  have "synced (fst (as_step L s x))"
  proof (cases rule: step_view_cases [of L s x])
    case same
    with assms(1) step_config show ?thesis by (blast intro: synced_view)
  next
    case (registered e reply rq)
    with assms register_synced [of s e L rq] show ?thesis by (simp add: good_env_def)
  next
    case (exchanged e reply rq f)
    with assms exchange_synced [of s e L f] show ?thesis by (simp add: good_env_def)
  next
    case (restarted e)
    have "synced (if as_clients_file s = NoClientsFile then s\<lparr>as_rates := []\<rparr>
        else expireUnusedClientsLocked (e_write e 0) (e_clock e 0) (UnusedTTL (effectiveRegistrationLimitsLocked s)) (s\<lparr>as_rates := []\<rparr>))"
      using assms restarted expire_synced [of "s\<lparr>as_rates := []\<rparr>"] by (auto simp: good_env_def synced_def)
    with restarted assms(1) show ?thesis
      by (simp only:) (rule synced_view [OF _ restart_view], assumption, simp_all)
  qed
  with assms step_tables_ok show ?thesis by blast
qed

interpretation files: stepper "\<lambda>s x. fst (as_step L s x)" good_env "\<lambda>s. tables_ok L s \<and> synced s" for L
  by unfold_locales (rule step_synced)

text \<open>
  C14. Client registrations survive a restart. After a run in which the client file could be written,
  a restarted server knows exactly the clients it knew before, with the same redirect URIs, names
  and times, except those that never completed a flow and have outlived \<open>UnusedTTL\<close> by then: a
  client that was used is kept, and so is one whose registration carries no time.
\<close>

theorem registrations_survive_restart:
  assumes "tables_ok L s0" and "synced s0" and "\<forall>x \<in> set ops. good_env x" and "s = as_after L s0 ops"
    and "ttl = UnusedTTL (effectiveRegistrationLimitsLocked s0)" and "0 < ttl"
  shows "as_clients (as_restart L e s) =
    filter (\<lambda>(i, c). \<not> (cr_used_at c = 0 \<and> cr_created_at c \<noteq> 0 \<and>
      ttl \<le> time_sub (e_clock e 0) (cr_created_at c))) (as_clients s)"
proof -
  have ok: "tables_ok L s \<and> synced s"
    unfolding assms(4) as_after_def by (rule files.run_invar) (use assms in simp_all)
  then have "reg_view (as_restart L e s) = reg_view (if as_clients_file s = NoClientsFile then s\<lparr>as_rates := []\<rparr>
      else expireUnusedClientsLocked (e_write e 0) (e_clock e 0) (UnusedTTL (effectiveRegistrationLimitsLocked s)) (s\<lparr>as_rates := []\<rparr>))"
    by (intro restart_view) simp_all
  then have "as_clients (as_restart L e s) = as_clients (if as_clients_file s = NoClientsFile then s\<lparr>as_rates := []\<rparr>
      else expireUnusedClientsLocked (e_write e 0) (e_clock e 0) (UnusedTTL (effectiveRegistrationLimitsLocked s)) (s\<lparr>as_rates := []\<rparr>))"
    by (simp add: reg_view_def)
  moreover have "ttl = UnusedTTL (effectiveRegistrationLimitsLocked s)" by (simp add: assms(4,5) run_limits)
  ultimately show ?thesis
    using ok assms(6)
    by (auto simp: expireUnusedClientsLocked_def Let_def client_expired_def is_zero_def synced_def split: if_splits)
qed

end
