(* ===== verification/Auth_Server_Examples.thy ===== *)
theory Auth_Server_Examples
  imports Refresh_Safety Registration_Safety
begin

text \<open>A small authorization server with one client, and the theorems about runs at requests to it.\<close>

section \<open>A small server\<close>

definition cb_url :: url where
  "cb_url = \<lparr>u_scheme = ''http'', u_host = ''h'', u_user = False, u_path = ''/cb'', u_raw_path = [],
     u_escaped_path = ''/cb'', u_raw_query = [], u_fragment = [], u_hostname = ''h'', u_port = []\<rparr>"

definition refresh_claims :: jwt_claims where
  "refresh_claims = \<lparr>claim_members = [(''sub'', JStr ''op''), (''scope'', JStr ''mcp''), (''client_id'', JStr ''c''), (''jti'', JStr ''j'')],
     claim_exp = Some 1000\<rparr>"

definition tiny_lib :: as_lib where
  "tiny_lib = \<lparr>url_parse = (\<lambda>s. if s = ''u'' then Some cb_url else None), is_ip_literal = (\<lambda>_. False),
     re_compiles = (\<lambda>_. False), re_matches = (\<lambda>_ _. False), to_lower = (\<lambda>s. s), parse_rfc3339 = (\<lambda>_. None),
     sha256 = (\<lambda>_. ''aaaaaaaaaaaaaaaaaaaaaaaaaaaaaaaa''), marshal_grant = (\<lambda>_. None),
     parse_ip = (\<lambda>s. if s = ''h'' then Some [127, 0, 0, 1] else None), split_host_port = (\<lambda>s. Some (s, [])),
     equal_fold = (=),
     own_parse = (\<lambda>opts now raw. if raw = ''rt'' then Some refresh_claims else None),
     rs_parse = (\<lambda>opts now raw. if raw = ''rt'' then Some refresh_claims else None),
     idp_parse = (\<lambda>_ _ _. None), sign = (\<lambda>n cl. Some (str_member cl ''sub'')),
     query_values = (\<lambda>_. []), url_string = (\<lambda>u. u_host u @ u_raw_query u)\<rparr>"

definition tiny_server :: auth_server where
  "tiny_server = (NewAuthServer \<lparr>sg_kid = [], sg_x = [], sg_y = []\<rparr> ''i'' ''aud'' 0
     (Some \<lparr>rl_path = ''r'', rl_ids = [], rl_file = Missing\<rparr>) NoClientsFile NoIdentitiesFile)
     \<lparr>as_Subject := ''op'', as_clients_path := ''f''\<rparr>"

definition tiny_env :: "time \<Rightarrow> string \<Rightarrow> as_env" where
  "tiny_env now draw = \<lparr>e_clock = (\<lambda>_. now), e_rand = (\<lambda>_. Some draw), e_entropy = (\<lambda>_. []),
     e_write = (\<lambda>_. FileWritten), e_persist = Persisted\<rparr>"

definition tiny_request :: "string \<Rightarrow> (string \<times> string list) list \<Rightarrow> as_request" where
  "tiny_request method vs = \<lparr>rq_method = method, rq_query = vs, rq_form = Some vs,
     rq_body = Some (\<lparr>rr_redirect_uris = [''u''], rr_client_name = ''n'', rr_token_auth = [], rr_grant_types = [],
       rr_response_types = []\<rparr>, True),
     rq_sec_fetch_site = [], rq_origin = [], rq_host = [], rq_remote_addr = ''h''\<rparr>"

definition tiny_verifier :: string where "tiny_verifier = ''vvvvvvvvvvvvvvvvvvvvvvvvvvvvvvvvvvvvvvvvvvv''"

definition do_register :: as_op where
  "do_register = Public (tiny_env 10 ''c'') NoReply ''/oauth/register'' (tiny_request ''POST'' [])"

definition do_authorize :: as_op where
  "do_authorize = Public (tiny_env 20 ''q'') NoReply ''/oauth/authorize'' (tiny_request ''GET''
     [(''client_id'', [b64_url ''c'']), (''redirect_uri'', [''u'']), (''response_type'', [''code'']),
      (''code_challenge'', [pkceS256 tiny_lib tiny_verifier]), (''code_challenge_method'', [''S256''])])"

definition do_approve :: as_op where
  "do_approve = Public (tiny_env 30 ''k'') NoReply ''/oauth/authorize'' (tiny_request ''POST''
     [(''request'', [b64_url ''q'']), (''approve'', [''yes''])])"

definition exchange_form :: "(string \<times> string list) list" where
  "exchange_form = [(''grant_type'', [''authorization_code'']), (''code'', [b64_url ''k'']), (''client_id'', [b64_url ''c'']),
     (''redirect_uri'', [''u'']), (''code_verifier'', [tiny_verifier])]"

definition exchange_request :: as_request where "exchange_request = tiny_request ''POST'' exchange_form"

definition approved_ops :: "as_op list" where "approved_ops = [do_register, do_authorize, do_approve]"

lemma tiny_b64:
  "b64_url ''c'' = ''Yw''" "b64_url ''q'' = ''cQ''" "b64_url ''k'' = ''aw''" "b64_url ''t'' = ''dA''"
  by (simp_all add: b64_char_def Let_def)

lemma tiny_challenge: "pkceS256 tiny_lib tiny_verifier = ''YWFhYWFhYWFhYWFhYWFhYWFhYWFhYWFhYWFhYWFhYWE''"
  by (simp add: pkceS256_def tiny_lib_def tiny_verifier_def b64_char_def Let_def)

lemma tiny_trim: "trim_space ''n'' = ''n''" "trim_space [] = []" "trim_space ''rt'' = ''rt''" "trim_space ''op'' = ''op''"
    "trim_space ''j'' = ''j''" "str_fields ''mcp'' = [''mcp'']"
  by code_simp+

declare b64_url.simps [simp del]

definition tiny_client :: "time \<Rightarrow> client_reg" where
  "tiny_client used = \<lparr>cr_redirect_uris = [''u''], cr_name = ''n'', cr_created_at = 10, cr_used_at = used\<rparr>"

text \<open>The server with its one client, last used at \<open>used\<close>, and the given pending requests and codes.\<close>

definition tiny_at :: "time \<Rightarrow> (string \<times> auth_code) list \<Rightarrow> (string \<times> auth_code) list \<Rightarrow> auth_server" where
  "tiny_at used ps cs = tiny_server\<lparr>as_clients := [(''Yw'', tiny_client used)],
     as_clients_file := ClientsDoc [persisted_form ''i'' (''Yw'', tiny_client used)],
     as_rates := [(''h'', \<lparr>w_since = 10, w_count = 1, w_refused = False\<rparr>)],
     as_pending := ps, as_codes := cs\<rparr>"

lemma tiny_fields [simp]:
  "as_mode tiny_server = []" "as_clients tiny_server = []" "as_rates tiny_server = []" "as_require_resource tiny_server = False"
  "as_clients_path tiny_server = ''f''" "as_issuer tiny_server = ''i''" "as_recorder tiny_server = False"
  "effectiveRegistrationLimitsLocked tiny_server = DefaultRegistrationLimits"
  "as_federation tiny_server = None" "as_approval_base tiny_server = []" "as_codes tiny_server = []" "as_pending tiny_server = []"
  "as_Subject tiny_server = ''op''" "as_audience tiny_server = ''aud''" "as_access_ttl tiny_server = hour"
  "as_require_state tiny_server = False" "as_clients_file tiny_server = NoClientsFile"
  "as_revocations tiny_server = Some \<lparr>rl_path = ''r'', rl_ids = [], rl_file = Missing\<rparr>"
  by (simp_all add: tiny_server_def NewAuthServer_def effectiveRegistrationLimitsLocked_def)

lemma tiny_env_fields [simp]:
  "e_clock (tiny_env t d) n = t" "e_rand (tiny_env t d) n = Some d" "e_write (tiny_env t d) n = FileWritten"
  "e_persist (tiny_env t d) = Persisted" "as_randToken (tiny_env t d) n = Some (b64_url d)"
  by (simp_all add: tiny_env_def as_randToken_def)

lemma tiny_uri: "validRedirectURI tiny_lib ''u'' False"
  by (simp add: validRedirectURI_def tiny_lib_def cb_url_def isLoopbackHost_def IsLoopback_def ip_to4_def)

lemma tiny_register: "as_step tiny_lib tiny_server do_register = (tiny_at 0 [] [], Some (ClientCreated ''Yw'' [''u''] ''n''))"
  by (simp add: do_register_def serve_public_def register_def check_registration_def complete_registration_def tiny_request_def effectiveRegistrationModeLocked_def
      RegistrationBounded_def RegistrationOff_def onlySupported_def tiny_uri registrationSource_def
      admitRegistrationLocked_def sweep_registrations_def expireUnusedClientsLocked_def current_window_def
      total_registrations_def set_window_def persistClientsLocked_def reportRegistration_def firstNonBlank_def tiny_trim
      RegistrationAccepted_def DefaultRegistrationLimits_def tiny_b64 tiny_at_def tiny_client_def persisted_form_def)
    (simp add: tiny_lib_def Let_def tiny_server_def NewAuthServer_def)

lemma tiny_at_fields [simp]:
  "as_clients (tiny_at u ps cs) = [(''Yw'', tiny_client u)]" "as_require_resource (tiny_at u ps cs) = False"
  "as_clients_path (tiny_at u ps cs) = ''f''" "as_issuer (tiny_at u ps cs) = ''i''"
  "as_federation (tiny_at u ps cs) = None" "as_approval_base (tiny_at u ps cs) = []"
  "as_codes (tiny_at u ps cs) = cs" "as_pending (tiny_at u ps cs) = ps"
  "as_Subject (tiny_at u ps cs) = ''op''" "as_audience (tiny_at u ps cs) = ''aud''" "as_access_ttl (tiny_at u ps cs) = hour"
  "as_require_state (tiny_at u ps cs) = False"
  "as_pending_update (\<lambda>_. ps') (tiny_at u ps cs) = tiny_at u ps' cs"
  "as_codes_update (\<lambda>_. cs') (tiny_at u ps cs) = tiny_at u ps cs'"
  by (simp_all add: tiny_at_def)

definition tiny_grant :: auth_code where
  "tiny_grant = \<lparr>ac_client_id = ''Yw'', ac_redirect_uri = ''u'', ac_challenge = ''YWFhYWFhYWFhYWFhYWFhYWFhYWFhYWFhYWFhYWFhYWE'',
     ac_subject = ''op'', ac_scope = ''mcp'', ac_state = [], ac_resource = [], ac_expiry = 20 + 5 * minute, ac_nonce = [], ac_verifier = []\<rparr>"

definition tiny_code :: auth_code where "tiny_code = tiny_grant\<lparr>ac_expiry := 30 + 60 * second\<rparr>"

lemma tiny_pkce: "validPKCEChallenge ''YWFhYWFhYWFhYWFhYWFhYWFhYWFhYWFhYWFhYWFhYWE''" "validPKCEVerifier tiny_verifier"
  by (simp_all add: validPKCEChallenge_def validPKCEVerifier_def tiny_verifier_def)

lemma tiny_authorize:
  "as_step tiny_lib (tiny_at u [] cs) do_authorize = (tiny_at u [(''cQ'', tiny_grant)] cs, Some (ConsentPage ''n'' ''u'' ''cQ''))"
  by (simp add: do_authorize_def serve_public_def authorize_def tiny_request_def tiny_b64 tiny_challenge values_get_def
      tiny_client_def request_invalid_def tiny_pkce firstNonBlank_def tiny_trim start_authorization_def storePending_def
      prunePendingLocked_def requested_grant_def currentSubjectLocked_def tiny_grant_def Let_def)

lemma tiny_approve: "fst (as_step tiny_lib (tiny_at u [(''cQ'', tiny_grant)] []) do_approve) = tiny_at u [] [(''aw'', tiny_code)]"
  by (simp add: do_approve_def serve_public_def authorize_def tiny_request_def tiny_b64 values_get_def localConsent_def
      crossSiteReason_def prunePendingLocked_def issue_code_def Let_def)
    (simp add: tiny_lib_def tiny_grant_def tiny_code_def)

lemma tiny_mint: "mint tiny_lib e i now iss aud sub scopes ttl extra = map_option (\<lambda>_. sub) (e_rand e i)"
  by (simp add: mint_def tiny_lib_def base_members split: option.split)

definition tiny_exchange_op :: as_op where
  "tiny_exchange_op = Public (tiny_env 40 ''t'') NoReply ''/oauth/token'' exchange_request"

lemma tiny_exchange:
  "as_step tiny_lib (tiny_at u [] [(''aw'', tiny_code)]) tiny_exchange_op =
     (tiny_at (if u = 0 then 40 else u) [] [], Some (TokenReply ''op'' ''op'' ''mcp'' 3600))"
proof -
  have ok: "\<not> code_refused tiny_lib 40 exchange_form tiny_code"
    by (simp add: code_refused_def exchange_form_def values_get_def tiny_pkce tiny_code_def tiny_grant_def tiny_challenge tiny_b64)
  have mark: "markClientUsedLocked FileWritten 40 ''Yw'' (tiny_at u [] []) = tiny_at (if u = 0 then 40 else u) [] []" for u
    by (simp add: markClientUsedLocked_def is_zero_def tiny_client_def persistClientsLocked_def tiny_at_def persisted_form_def)
  show ?thesis
    using ok mark
    by (simp add: tiny_exchange_op_def serve_public_def token_endpoint_def exchange_request_def tiny_request_def grantCode_def)
      (simp add: exchange_form_def values_get_def tiny_b64 issueTokens_def Mint_def tiny_mint tiny_code_def tiny_grant_def Let_def)
qed

lemma tiny_run: "as_after tiny_lib tiny_server approved_ops = tiny_at 0 [] [(''aw'', tiny_code)]"
  by (simp add: as_after_def approved_ops_def tiny_register tiny_authorize tiny_approve)

lemma tiny_rerun: "as_after tiny_lib (tiny_at u [] []) [do_authorize, do_approve] = tiny_at u [] [(''aw'', tiny_code)]"
  by (simp add: as_after_def tiny_authorize tiny_approve)

section \<open>The theorems at this server\<close>

theorem code_exchange_agrees_witness:
  "\<exists>h1 a h2 b h3 i p q. as_trace tiny_lib tiny_server approved_ops = h1 @ a # h2 @ b # h3 \<and>
     begun a i p \<and> approved tiny_lib b i p (b64_url ''k'') q \<and> ac_redirect_uri p = ''u'' \<and> 40 \<le> ac_expiry q"
  using code_exchange_agrees [OF _ _ tiny_exchange [unfolded tiny_exchange_op_def, of 0, folded tiny_run],
      of exchange_form]
  by (simp add: exchange_request_def tiny_request_def exchange_form_def values_get_def) blast

theorem code_exchanged_once_witness:
  "\<exists>ev \<in> set (as_trace tiny_lib (tiny_at 40 [] []) [do_authorize, do_approve]).
     \<exists>i p q. approved tiny_lib ev i p (b64_url ''k'') q"
proof -
  have s1: "tiny_at 40 [] [] = fst (as_step tiny_lib (tiny_at 0 [] [(''aw'', tiny_code)])
      (Public (tiny_env 40 ''t'') NoReply ''/oauth/token'' exchange_request))"
    using tiny_exchange [of 0] by (simp add: tiny_exchange_op_def)
  have f: "rq_form exchange_request = Some exchange_form" "rq_method exchange_request = ''POST''"
    "values_get exchange_form ''grant_type'' = ''authorization_code''" "values_get exchange_form ''code'' = b64_url ''k''"
    by (simp_all add: exchange_request_def tiny_request_def exchange_form_def values_get_def)
  from code_exchanged_once [OF f(2,1,3) s1 tiny_exchange [unfolded tiny_exchange_op_def, of 40, folded tiny_rerun] f(1,3) refl]
  show ?thesis by (simp only: f(4))
qed

definition refresh_form :: "(string \<times> string list) list" where
  "refresh_form = [(''grant_type'', [''refresh_token'']), (''refresh_token'', [''rt'']), (''client_id'', [''c''])]"

definition refresh_request :: as_request where "refresh_request = tiny_request ''POST'' refresh_form"

lemma refresh_fields:
  "rq_form refresh_request = Some refresh_form" "rq_method refresh_request = ''POST''"
  "values_get refresh_form ''grant_type'' = ''refresh_token''" "values_get refresh_form ''refresh_token'' = ''rt''"
  "values_get refresh_form ''client_id'' = ''c''"
  by (simp_all add: refresh_request_def tiny_request_def refresh_form_def values_get_def)

lemma tiny_carries: "carries tiny_lib ''rt'' refresh_claims"
  by (simp add: carries_def tiny_lib_def)

lemma tiny_jti: "str_member (claim_members refresh_claims) ''jti'' = ''j''" "claim_exp refresh_claims = Some 1000"
  by (simp_all add: refresh_claims_def str_member_def member_def)

lemma tiny_expires: "jti_expires tiny_lib ''j'' 1000"
  by (simp add: jti_expires_def tiny_lib_def refresh_claims_def)

lemma tiny_refresh:
  "snd (as_step tiny_lib tiny_server (Public (tiny_env 40 ''t'') NoReply ''/oauth/token'' refresh_request)) =
     Some (TokenReply ''op'' ''op'' ''mcp'' 3600)"
proof -
  have c: "parseOwnedToken tiny_lib tiny_server 40 ''rt'' aud = Some refresh_claims" for aud
    by (simp add: parseOwnedToken_def tiny_trim) (simp add: tiny_lib_def)
  have r: "tiny_server\<lparr>as_revocations := Some \<lparr>rl_path = ''r'', rl_ids = [], rl_file = Missing\<rparr>\<rparr> = tiny_server"
    by (simp add: tiny_server_def NewAuthServer_def)
  have p: "parseRefreshGrant tiny_lib (tiny_env 40 ''t'') ''rt'' tiny_server = (tiny_server,
      Some \<lparr>rg_subject = ''op'', rg_scope = ''mcp'', rg_client_id = ''c'', rg_token_id = ''j'', rg_expiry = 1000\<rparr>)"
    by (simp add: parseRefreshGrant_def c IsRevoked_def is_zero_def refresh_claims_def str_member_def member_def Let_def r)
  show ?thesis
    by (simp add: serve_public_def token_endpoint_def refresh_fields grantRefresh_def p currentSubjectLocked_def Consume_def is_zero_def
        pruneLocked_def persistLocked_def issueTokens_def Mint_def tiny_mint tiny_trim Let_def)
qed

lemma tiny_list:
  "rl_wf \<lparr>rl_path = ''r'', rl_ids = [], rl_file = Missing\<rparr>" "rl_path \<lparr>rl_path = ''r'', rl_ids = [], rl_file = Missing\<rparr> \<noteq> []"
  by (simp_all add: rl_wf_def)

theorem refresh_token_used_once_witness:
  "\<exists>s1. as_step tiny_lib tiny_server (Public (tiny_env 40 ''t'') NoReply ''/oauth/token'' refresh_request) =
      (s1, Some (TokenReply ''op'' ''op'' ''mcp'' 3600)) \<and>
    snd (as_step tiny_lib (as_after tiny_lib s1 [Restart (tiny_env 50 ''x''), do_register])
      (Public (tiny_env 60 ''t'') NoReply ''/oauth/token'' refresh_request)) = Some (ErrorJson ''invalid_grant'' [] 400)"
proof -
  obtain s1 where s1: "as_step tiny_lib tiny_server (Public (tiny_env 40 ''t'') NoReply ''/oauth/token'' refresh_request) =
      (s1, Some (TokenReply ''op'' ''op'' ''mcp'' 3600))"
    using tiny_refresh by (metis prod.collapse)
  have "snd (as_step tiny_lib (as_after tiny_lib s1 [Restart (tiny_env 50 ''x''), do_register])
      (Public (tiny_env 60 ''t'') NoReply ''/oauth/token'' refresh_request)) = Some (ErrorJson ''invalid_grant'' [] 400)"
    by (rule refresh_token_used_once [OF tiny_fields(18) tiny_list s1 refresh_fields(1,3) _ tiny_jti(2) _ _ _ refresh_fields(2,1,3) refl])
      (simp_all add: refresh_fields tiny_carries tiny_jti tiny_expires before_def do_register_def)
  with s1 show ?thesis by blast
qed

definition revoke_request :: as_request where "revoke_request = tiny_request ''POST'' [(''token'', [''rt''])]"

lemma tiny_owned: "owned_claims tiny_lib e ''rt'' s = Some refresh_claims"
  by (simp add: owned_claims_def parseOwnedToken_def tiny_trim) (simp add: tiny_lib_def)

lemma tiny_revoke:
  "snd (as_step tiny_lib tiny_server (Public (tiny_env 40 ''t'') NoReply ''/oauth/revoke'' revoke_request)) = Some RevokedReply"
  by (simp add: serve_public_def revoke_def revoke_request_def tiny_request_def values_get_def tiny_owned tiny_jti
      Revoke_def is_zero_def pruneLocked_def persistLocked_def Let_def)

theorem revoked_token_refused_witness:
  "\<exists>s1. as_step tiny_lib tiny_server (Public (tiny_env 40 ''t'') NoReply ''/oauth/revoke'' revoke_request) = (s1, Some RevokedReply) \<and>
    (\<exists>err. snd (present_bearer tiny_lib (tiny_env 60 []) ''rt'' (as_after tiny_lib s1 [Restart (tiny_env 50 [])])) = Inl err)"
proof -
  obtain s1 where s1: "as_step tiny_lib tiny_server (Public (tiny_env 40 ''t'') NoReply ''/oauth/revoke'' revoke_request) =
      (s1, Some RevokedReply)"
    using tiny_revoke by (metis prod.collapse)
  have "rq_form revoke_request = Some [(''token'', [''rt''])]"
    by (simp add: revoke_request_def tiny_request_def)
  from revoked_token_refused [OF tiny_fields(18) tiny_list s1 this _ tiny_jti(1) _ tiny_jti(2) _ tiny_expires,
      where mid = "[Restart (tiny_env 50 [])]" and ?e2.0 = "tiny_env 60 []" and ?c2.0 = refresh_claims and raw = "''rt''"]
  have "\<exists>err. snd (present_bearer tiny_lib (tiny_env 60 []) ''rt'' (as_after tiny_lib s1 [Restart (tiny_env 50 [])])) = Inl err"
    by (simp add: values_get_def tiny_owned tiny_carries tiny_jti rl_wf_def before_def is_zero_def tiny_trim)
  with s1 show ?thesis by blast
qed

lemma tiny_tables: "tables_ok tiny_lib tiny_server" "synced tiny_server"
  by (simp_all add: tables_ok_def limits_ok_def clients_within_def clients_fit_def rates_within_def total_registrations_def
      DefaultRegistrationLimits_def synced_def)

theorem state_within_limits_witness:
  "int (length (as_clients (as_after tiny_lib tiny_server [do_register, do_authorize]))) \<le> 4096 \<and>
   length (as_pending (as_after tiny_lib tiny_server [do_register, do_authorize])) \<le> 4096"
  using state_within_limits [OF tiny_tables(1) _ refl refl, of "[do_register, do_authorize]"]
  by (simp add: DefaultRegistrationLimits_def)

theorem redirects_only_to_registered_witness:
  "\<exists>uri u q. known_uri (tiny_at 0 [(''cQ'', tiny_grant)] []) uri \<and> validRedirectURI tiny_lib uri False \<and>
     url_parse tiny_lib uri = Some u \<and> snd (as_step tiny_lib (tiny_at 0 [(''cQ'', tiny_grant)] []) do_approve) =
       Some (RedirectTo (url_string tiny_lib (u\<lparr>u_raw_query := q\<rparr>)) 302)"
proof -
  have run: "as_after tiny_lib tiny_server [do_register, do_authorize] = tiny_at 0 [(''cQ'', tiny_grant)] []"
    by (simp add: as_after_def tiny_register tiny_authorize)
  obtain url where step: "as_step tiny_lib (tiny_at 0 [(''cQ'', tiny_grant)] []) do_approve =
      (tiny_at 0 [] [(''aw'', tiny_code)], Some (RedirectTo url 302))"
  proof -
    have "\<exists>url. snd (as_step tiny_lib (tiny_at 0 [(''cQ'', tiny_grant)] []) do_approve) = Some (RedirectTo url 302)"
      by (simp add: do_approve_def serve_public_def authorize_def tiny_request_def tiny_b64 values_get_def localConsent_def
          crossSiteReason_def prunePendingLocked_def issue_code_def Let_def)
        (simp add: tiny_lib_def tiny_grant_def redirectAuthorizationResult_def Let_def)
    with tiny_approve [of 0] that show ?thesis by (metis prod.collapse)
  qed
  from redirects_only_to_registered [OF tiny_tables(1) _ step [folded run]] show ?thesis
    by (simp add: run step) blast
qed

theorem registrations_survive_restart_witness:
  "as_clients (as_restart tiny_lib (tiny_env 90 []) (tiny_at 40 [] [])) = [(''Yw'', tiny_client 40)]"
proof -
  have run: "as_after tiny_lib tiny_server (approved_ops @ [tiny_exchange_op]) = tiny_at 40 [] []"
    by (simp add: tiny_run tiny_exchange)
  have "as_clients (as_restart tiny_lib (tiny_env 90 []) (tiny_at 40 [] [])) =
      filter (\<lambda>(i, c). \<not> (cr_used_at c = 0 \<and> cr_created_at c \<noteq> 0 \<and>
        24 * hour \<le> time_sub (e_clock (tiny_env 90 []) 0) (cr_created_at c)))
       (as_clients (tiny_at 40 [] []))"
    by (rule registrations_survive_restart [OF tiny_tables _ run [symmetric]])
      (auto simp: approved_ops_def do_register_def do_authorize_def do_approve_def tiny_exchange_op_def good_env_def
        DefaultRegistrationLimits_def)
  then show ?thesis by (simp add: tiny_client_def)
qed

end
