(* ===== verification/Spec2Isabelle.thy ===== *)
theory Spec2Isabelle
  imports Identity Minimize Registry_Safety Gateway_Examples Budget_Router Grant_Safety Ledger_Integrity Audit_Integrity Sql_Errors Dial_Safety
    Operator_Safety Inflight_Safety Sso_Safety Auth_Server_Examples
begin

text \<open>
  \<^bold>\<open>A verification development for microagency\<close>

  microagency is a gateway between a language-model agent and MCP servers. It validates who calls,
  decides by operator grants what may cross to an upstream, charges every crossing to a ledger,
  keeps large results behind references, runs queries on them outside the model, and records every
  run in a hash-chained audit log. Operators manage it through a guarded surface. This library
  models the parts that carry those guarantees and proves what each of them promises.

  \<^bold>\<open>How the code is modelled.\<close> Go functions are HOL functions with the names of the source where
  possible; structs are records, error returns are the \<open>Inl\<close> side of \<open>result\<close> or an option, and
  methods that change state take and return it. Strings are byte strings (char lists). 64-bit
  integers are \<open>int\<close> with \<open>wrap64\<close> wherever the code can overflow; address bytes are 8-bit words.
  Times are nanoseconds since Go's zero time. Maps are association lists with distinct keys. Code
  outside \<open>src/\<close> and the parts of the standard library that are cryptography, parsing of URLs and
  patterns, floating point or encoding are fields of a library record (\<open>go_lib\<close>, \<open>ledger_lib\<close>,
  \<open>audit_lib\<close>, \<open>sql_lib\<close>, \<open>dial_lib\<close>, \<open>sso_lib\<close>, \<open>as_lib\<close>, \<open>gw_lib\<close>); what a theorem needs of them is a hypothesis
  of that theorem, with a witness. Every I/O operation takes its outcome as an argument, so the
  theorems hold for every pattern of failures.

  \<^bold>\<open>Shared theories.\<close> \<open>Go_Prelude\<close> (results, wrap-around, time, association lists, the locale
  \<open>stepper\<close> for invariants over sequences of operations), \<open>Go_Strings\<close> (the \<open>strings\<close>,
  \<open>strconv\<close>, \<open>path\<close> and \<open>hex\<close> functions the code uses), \<open>Json\<close> (decoded documents), \<open>Hash_Chain\<close>
  (append-only files with torn writes, and the locale \<open>chained_log\<close>: what a chain of hashes proves
  about its history, shared by the ledger and the audit log).

  \<^bold>\<open>Components.\<close>
  \<^item> \<open>Revocation\<close>, \<open>Identity\<close>: \<open>internal/auth/revocation.go\<close>, \<open>auth.go\<close>, \<open>internal/mcp/scope.go\<close>.
    The revocation list over its file, principal keys, token validation. Revocations last until
    expiry across restarts and failed writes; refresh tokens are consumed once; principal keys
    round-trip; a validated principal passed every check; and a revoked token is accepted again in
    the leeway after its expiry.
  \<^item> \<open>Ref_Store\<close>, \<open>Budget_Router\<close>: \<open>internal/refstore\<close>, \<open>internal/budget\<close>, \<open>internal/router\<close>.
    Both stores behind references, the byte budget and the router. What a file store returns was
    put there with that owner; handles are safe as file names; a router decision never carries
    more than the budget inline.
  \<^item> \<open>Grant\<close>, \<open>Grant_Safety\<close>: \<open>internal/mcp/grant.go\<close>. Installation checks and evaluation of
    operation grants: every argument of an admitted call is governed by a rule, URLs lie within
    the granted destinations, resource ids isolate owners, installed grants are well formed.
  \<^item> \<open>Decision_Ledger\<close>, \<open>Ledger_Budgets\<close>, \<open>Ledger_Integrity\<close>: \<open>internal/mcp/decisionledger.go\<close>.
    Budgets hold over any run of authorizations, refusals and restarts (for up to \<open>2 ^ 22\<close> ledger
    operations and arguments below \<open>2 ^ 61\<close> bytes, so that no counter wraps); every crossing is on
    record before it happens; a trusted ledger is a prefix of the real history; the report agrees
    with the load; and two losses of the file that the load does not notice.
  \<^item> \<open>Run_Store\<close>, \<open>Run_Window\<close>, \<open>Audit_Log\<close>, \<open>Audit_Integrity\<close>: the run store of
    \<open>internal/mcp/server.go\<close>, \<open>metrics.go\<close> and \<open>auditlog.go\<close>. The bounded window of runs, the
    chained and signed log, its verification and its replay at a start.
  \<^item> \<open>Sql_Engine\<close>, \<open>Sql_Semantics\<close>, \<open>Sql_Order\<close>, \<open>Sql_Errors\<close>: \<open>engines/sql/main.go\<close>. The
    evaluator of SELECT: three-valued conditions, projection, grouping as partitioning, ordering
    against the contract of \<open>sort.SliceStable\<close> (locale \<open>stable_sorter\<close>), the LIMIT window, and
    that reports shown to the caller carry text of the query only.
  \<^item> \<open>Safe_Dial\<close>, \<open>Dial_Safety\<close>: \<open>internal/safedial\<close>. Address classes as networks, the guarded
    clients and the declared destination. The redirect loop of the HTTP client is a partial
    function; both clients return after at most ten requests (locale \<open>redirect_bound\<close>) and reach
    no internal address but the declared one.
  \<^item> \<open>Operator_Tokens\<close>, \<open>Operator_Safety\<close>: \<open>internal/optoken\<close> and, of \<open>internal/mcp/admin.go\<close>,
    authentication, the role guard, the route table and the delivery of references. The token file
    refines a list of live secrets; roles bound the routes; every delivery is on record.
  \<^item> \<open>Inflight\<close>, \<open>Inflight_Safety\<close>: \<open>internal/mcp/inflight.go\<close>. The shared execution of reads as a
    transition system over all interleavings: isolation of callers, bounds, single flight, and
    that no waiting caller is stranded.
  \<^item> \<open>Sso_Audience\<close>, \<open>Sso_Safety\<close>: \<open>internal/auth/ssoaudience.go\<close>, \<open>federation.go\<close>. Audience
    rules over their file and the admission of a federated sign-in.
  \<^item> \<open>Client_Registration\<close>, \<open>Auth_Server\<close>, \<open>Auth_Server_Safety\<close>, \<open>Refresh_Safety\<close>,
    \<open>Registration_Safety\<close>, \<open>Auth_Server_Examples\<close>: the built-in OAuth server of \<open>internal/auth\<close>
    (\<open>authserver.go\<close>, \<open>clientregistration.go\<close>, \<open>authclients.go\<close>, \<open>ssoidentities.go\<close>, \<open>signer.go\<close>) and the
    resource server beside it, which shares its revocation list. A run interleaves requests on both
    listeners, bearer tokens and restarts; its events are kept, and the theorems speak of earlier
    events: a code exchange agrees with an approved request of the same client, codes and refresh
    tokens are spent once, revocation takes effect everywhere, redirects go to registered URIs,
    the tables stay within their limits, and registrations survive restarts.
  \<^item> \<open>Minimize\<close>: \<open>internal/minimize\<close>, \<open>internal/mcp/minimizehook.go\<close>. The scanning pipeline, the
    bindings of placeholders and their substitution: minimization fails closed, placeholders resolve
    for their own caller and upstream only, and resolving restores what was replaced.
  \<^item> \<open>Arg_Capture\<close>, \<open>Payload\<close>: \<open>argcapture.go\<close>, \<open>payload.go\<close>, \<open>autoexpand.go\<close> of \<open>internal/mcp\<close>. What
    a record keeps of arguments (their shape and digest), how a result is normalized, offload links,
    truncation notices, the classification of tools and the schema check.
  \<^item> \<open>Registry\<close>, \<open>Registry_Safety\<close>: the registry of connections in \<open>internal/mcp/gateway.go\<close>,
    \<open>ambiguity.go\<close> and \<open>connectionlabel.go\<close>. Operations that leave the lock are split there, so that
    all interleavings are covered: records stay sound, revocation wins over what was under way, the
    owner of a principal's connection never changes, and one path skips the mediation check.
  \<^item> \<open>Gateway\<close>, \<open>Gateway_Safety\<close>, \<open>Gateway_Results\<close>, \<open>Gateway_Context\<close>, \<open>Gateway_Examples\<close>: the path
    of a tool call in \<open>internal/mcp/gateway.go\<close>, \<open>fused.go\<close> and \<open>taskid.go\<close>, composed of the components
    above. A call reaches an upstream only through every gate; every answer is recorded once; what
    reaches the model is bounded and minimized, except rehydrated data; held results belong to the
    caller; governed denials are alike; and a call that panics leaves no record.

  \<^bold>\<open>Interfaces.\<close> \<open>stepper\<close>, \<open>chained_log\<close>, \<open>ref_store\<close>, \<open>stable_sorter\<close> and \<open>redirect_bound\<close>
  state what a client relies on; each is interpreted on the definitions of the components, and the
  properties use the facts of the interpretations. The gateway's lemmas on held results are proved
  from the laws of \<open>ref_store\<close> and hold for both stores.

  \<^bold>\<open>Not modelled.\<close> The command line and service wiring, diagnostics, user interfaces and the
  tunnel (I/O and text); the WebAssembly and virtual-machine sandboxes and the other engines
  (third-party code); the OAuth client and key sets, secret custody, the JSON-RPC dispatch and
  the reduce tool, the persistence and onboarding of connections, tool discovery, programs and
  mediation. A call through the gateway is one step over the registry it found, and a
  request to the authorization server one step over its state; the detached
  execution of reads is the in-flight cache's own model. Of the modelled parts,
  contexts and deadlines appear only as the choice of a caller to give up, and concurrency only
  where it is part of the contract (the in-flight cache).
\<close>

end
